(* ===== verification/Prelude.thy ===== *)
theory Prelude
  imports Complex_Main "HOL-Library.AList" "HOL-Library.List_Lexorder" "HOL-Library.Char_ord"
    "HOL-Library.Product_Lexorder" "HOL-Library.Multiset"
begin

text \<open>
  Shared vocabulary of the development: Python exceptions and the error results, JSON values
  with Python's dictionary operations and equality, the string operations the program uses,
  and the state-with-exception combinators of the runtime.

  Text is a list of characters below 256. \<open>str.strip\<close>, \<open>str.casefold\<close> and
  \<open>str.isalnum\<close> are modelled on their ASCII range, which holds every name the program
  itself fixes.
\<close>

named_theorems res_simps "evaluation rules of the error results"
named_theorems sx_simps "evaluation rules of the state-with-exception programs"

section \<open>Exceptions and error results\<close>

text \<open>
  One constructor per exception class that the modelled code raises or distinguishes in an
  \<^verbatim>\<open>except\<close> clause, with the message and the code the class carries.
  \<open>AdapterExecutionError\<close> is the base class of the three constructors before it;
  \<open>RunConflictError\<close> is a subclass of \<open>RunValidationError\<close>; the classes from
  \<open>RunValidationError\<close> to \<open>ValueError\<close> are \<^verbatim>\<open>ValueError\<close>s.
\<close>

datatype exn =
    AuthenticationError string
  | AmbiguousWriteError string
  | RateLimitError string "rat option"
  | AdapterExecutionError string string
  | RunValidationError string string
  | RunConflictError string
  | ContractValidationError string string
  | GraphError string string
  | ResourceRegistryError string
  | SecretResolutionError string
  | StrictJsonError string string
  | ValueError string
  | KeyError string
  | OtherError string

type_synonym 'a res = "exn + 'a"

fun exn_message :: "exn \<Rightarrow> string" where
  "exn_message (AuthenticationError m) = m"
| "exn_message (AmbiguousWriteError m) = m"
| "exn_message (RateLimitError m _) = m"
| "exn_message (AdapterExecutionError m _) = m"
| "exn_message (RunValidationError m _) = m"
| "exn_message (RunConflictError m) = m"
| "exn_message (ContractValidationError m _) = m"
| "exn_message (GraphError m _) = m"
| "exn_message (ResourceRegistryError m) = m"
| "exn_message (SecretResolutionError m) = m"
| "exn_message (StrictJsonError m _) = m"
| "exn_message (ValueError m) = m"
| "exn_message (KeyError m) = m"
| "exn_message (OtherError m) = m"

definition is_value_error :: "exn \<Rightarrow> bool" where
  "is_value_error e = (case e of
     RunValidationError _ _ \<Rightarrow> True | RunConflictError _ \<Rightarrow> True
   | ContractValidationError _ _ \<Rightarrow> True | GraphError _ _ \<Rightarrow> True
   | ResourceRegistryError _ \<Rightarrow> True | SecretResolutionError _ \<Rightarrow> True
   | StrictJsonError _ _ \<Rightarrow> True | ValueError _ \<Rightarrow> True | _ \<Rightarrow> False)"

definition is_adapter_error :: "exn \<Rightarrow> bool" where
  "is_adapter_error e = (case e of
     AuthenticationError _ \<Rightarrow> True | AmbiguousWriteError _ \<Rightarrow> True
   | RateLimitError _ _ \<Rightarrow> True | AdapterExecutionError _ _ \<Rightarrow> True | _ \<Rightarrow> False)"

definition is_run_validation_error :: "exn \<Rightarrow> bool" where
  "is_run_validation_error e = (case e of
     RunValidationError _ _ \<Rightarrow> True | RunConflictError _ \<Rightarrow> True | _ \<Rightarrow> False)"

definition run_error :: "string \<Rightarrow> exn" where
  "run_error m = RunValidationError m ''invalid_run''"

definition bindE :: "'a res \<Rightarrow> ('a \<Rightarrow> 'b res) \<Rightarrow> 'b res" where
  "bindE m f = (case m of Inl e \<Rightarrow> Inl e | Inr x \<Rightarrow> f x)"

lemma bindE_simps [simp, res_simps]:
  "bindE (Inl e) f = Inl e"
  "bindE (Inr x) f = f x"
  by (simp_all add: bindE_def)

lemma bindE_Inr_iff: "bindE m f = Inr y \<longleftrightarrow> (\<exists>x. m = Inr x \<and> f x = Inr y)"
  by (cases m) auto

lemma bindE_Inl_iff:
  "bindE m f = Inl e \<longleftrightarrow> m = Inl e \<or> (\<exists>x. m = Inr x \<and> f x = Inl e)"
  by (cases m) auto

lemma bindE_assoc: "bindE (bindE m f) g = bindE m (\<lambda>x. bindE (f x) g)"
  by (cases m) auto

lemma bindE_cong [fundef_cong]:
  "m = m' \<Longrightarrow> (\<And>x. m' = Inr x \<Longrightarrow> f x = g x) \<Longrightarrow> bindE m f = bindE m' g"
  by (cases m') auto

fun mapE :: "('a \<Rightarrow> 'b res) \<Rightarrow> 'a list \<Rightarrow> 'b list res" where
  "mapE f [] = Inr []"
| "mapE f (x # xs) = bindE (f x) (\<lambda>y. bindE (mapE f xs) (\<lambda>ys. Inr (y # ys)))"

lemma mapE_Inr_length: "mapE f xs = Inr ys \<Longrightarrow> length ys = length xs"
  by (induction xs arbitrary: ys) (auto simp: bindE_Inr_iff)

lemma mapE_Inr_iff:
  "mapE f xs = Inr ys \<longleftrightarrow> list_all2 (\<lambda>x y. f x = Inr y) xs ys"
  by (induction xs arbitrary: ys) (auto simp: bindE_Inr_iff list_all2_Cons1)

lemma mapE_member: "mapE f xs = Inr ys \<Longrightarrow> y \<in> set ys \<Longrightarrow> \<exists>x \<in> set xs. f x = Inr y"
  by (induction xs arbitrary: ys) (auto simp: bindE_Inr_iff)

lemma mapE_image: "mapE f xs = Inr ys \<Longrightarrow> x \<in> set xs \<Longrightarrow> f x = Inr y \<Longrightarrow> y \<in> set ys"
  by (induction xs arbitrary: ys) (auto simp: bindE_Inr_iff)

lemma mapE_cong [fundef_cong]:
  "xs = ys \<Longrightarrow> (\<And>x. x \<in> set ys \<Longrightarrow> f x = g x) \<Longrightarrow> mapE f xs = mapE g ys"
  by (induction xs arbitrary: ys) (auto intro!: bindE_cong)

fun foldE :: "('b \<Rightarrow> 'a \<Rightarrow> 'b res) \<Rightarrow> 'b \<Rightarrow> 'a list \<Rightarrow> 'b res" where
  "foldE f b [] = Inr b"
| "foldE f b (x # xs) = bindE (f b x) (\<lambda>b'. foldE f b' xs)"

lemma foldE_cong [fundef_cong]:
  "b = b' \<Longrightarrow> xs = ys \<Longrightarrow> (\<And>c x. x \<in> set ys \<Longrightarrow> f c x = g c x) \<Longrightarrow> foldE f b xs = foldE g b' ys"
proof (induction xs arbitrary: b b' ys)
  case (Cons x xs)
  then show ?case by (cases ys) (auto intro!: bindE_cong)
qed simp

lemma foldE_Cons_Inr:
  "foldE f b (x # xs) = Inr c \<longleftrightarrow> (\<exists>b'. f b x = Inr b' \<and> foldE f b' xs = Inr c)"
  by (simp add: bindE_Inr_iff)

lemma foldE_invariant:
  assumes "foldE f b xs = Inr b'" and "P b"
    and "\<And>c x c'. x \<in> set xs \<Longrightarrow> P c \<Longrightarrow> f c x = Inr c' \<Longrightarrow> P c'"
  shows "P b'"
  using assms
proof (induction xs arbitrary: b)
  case (Cons x xs)
  from Cons.prems(1) obtain c where c: "f b x = Inr c" "foldE f c xs = Inr b'"
    unfolding foldE_Cons_Inr by blast
  have "P c" using Cons.prems(2,3) c(1) by auto
  with c(2) show ?case using Cons.prems(3) by (intro Cons.IH) auto
qed simp

lemma list_all2_enumerate:
  "list_all2 (\<lambda>ix y. P (fst ix) (snd ix) y) (enumerate 0 xs) ys \<longleftrightarrow>
     length xs = length ys \<and> (\<forall>i < length xs. P i (xs ! i) (ys ! i))"
  by (auto simp: list_all2_conv_all_nth nth_enumerate_eq)

text \<open>
  A validator is a sequence of checks: the first that fails raises. \<open>seqE\<close> runs them in
  order, \<open>failE\<close> is the guarded \<^verbatim>\<open>raise\<close> or \<^verbatim>\<open>fail(...)\<close> of the code.
\<close>

fun seqE :: "unit res list \<Rightarrow> unit res" where
  "seqE [] = Inr ()"
| "seqE (x # xs) = (case x of Inl e \<Rightarrow> Inl e | Inr _ \<Rightarrow> seqE xs)"

definition failE :: "bool \<Rightarrow> exn \<Rightarrow> unit res" where
  "failE b e = (if b then Inl e else Inr ())"

definition whenE :: "bool \<Rightarrow> unit res \<Rightarrow> unit res" where
  "whenE b r = (if b then r else Inr ())"

definition forE :: "'a list \<Rightarrow> ('a \<Rightarrow> unit res) \<Rightarrow> unit res" where
  "forE xs f = seqE (map f xs)"

lemma seqE_ok_iff: "seqE xs = Inr u \<longleftrightarrow> (\<forall>x \<in> set xs. x = Inr ())"
  by (induction xs) (auto split: sum.split)

lemma seqE_append: "seqE (xs @ ys) = (case seqE xs of Inl e \<Rightarrow> Inl e | Inr _ \<Rightarrow> seqE ys)"
  by (induction xs) (auto split: sum.split)

lemma failE_ok_iff [simp]: "failE b e = Inr u \<longleftrightarrow> \<not> b"
  by (simp add: failE_def)

lemma whenE_ok_iff [simp]: "whenE b r = Inr () \<longleftrightarrow> (b \<longrightarrow> r = Inr ())"
  by (simp add: whenE_def)

lemma forE_ok_iff: "forE xs f = Inr u \<longleftrightarrow> (\<forall>x \<in> set xs. f x = Inr ())"
  by (simp add: forE_def seqE_ok_iff)

lemmas checks_iff = seqE_ok_iff forE_ok_iff failE_ok_iff whenE_ok_iff

section \<open>Text\<close>

definition is_space :: "char \<Rightarrow> bool" where
  "is_space c = (c \<in> {CHR '' '', CHR 0x09, CHR 0x0A, CHR 0x0B, CHR 0x0C, CHR 0x0D,
                      CHR 0x1C, CHR 0x1D, CHR 0x1E, CHR 0x1F})"

definition lstrip :: "string \<Rightarrow> string" where
  "lstrip s = dropWhile is_space s"

definition strip :: "string \<Rightarrow> string" where
  "strip s = rev (lstrip (rev (lstrip s)))"

lemma lstrip_idem [simp]: "lstrip (lstrip s) = lstrip s"
  by (induction s) (simp_all add: lstrip_def)

lemma lstrip_fixed_iff: "lstrip s = s \<longleftrightarrow> s = [] \<or> \<not> is_space (hd s)"
  by (simp add: lstrip_def dropWhile_eq_self_iff)

lemma strip_idem [simp]: "strip (strip s) = strip s"
proof -
  define t where "t = lstrip s"
  define u where "u = rev (lstrip (rev t))"
  have t: "lstrip t = t" by (simp add: t_def)
  have "\<exists>w. t = u @ w"
    unfolding u_def lstrip_def by (metis rev_append rev_rev_ident takeWhile_dropWhile_id)
  then have "lstrip u = u" using t by (auto simp: lstrip_fixed_iff hd_append split: if_splits)
  then have "strip u = u" by (simp add: strip_def) (simp add: u_def)
  then show ?thesis by (simp add: strip_def [of s] t_def [symmetric] u_def [symmetric])
qed

definition blank :: "string \<Rightarrow> bool" where
  "blank s = (strip s = [])"

definition lower_char :: "char \<Rightarrow> char" where
  "lower_char c = (let n = of_char c :: nat in if 65 \<le> n \<and> n \<le> 90 then char_of (n + 32) else c)"

definition casefold :: "string \<Rightarrow> string" where
  "casefold s = map lower_char s"

definition is_digit :: "char \<Rightarrow> bool" where
  "is_digit c = (let n = of_char c :: nat in 48 \<le> n \<and> n \<le> 57)"

definition is_alpha :: "char \<Rightarrow> bool" where
  "is_alpha c = (let n = of_char c :: nat in 65 \<le> n \<and> n \<le> 90 \<or> 97 \<le> n \<and> n \<le> 122)"

definition is_alnum :: "char \<Rightarrow> bool" where
  "is_alnum c = (is_digit c \<or> is_alpha c)"

fun starts_with :: "string \<Rightarrow> string \<Rightarrow> bool" where
  "starts_with s [] = True"
| "starts_with [] (c # cs) = False"
| "starts_with (x # xs) (c # cs) = (x = c \<and> starts_with xs cs)"

definition ends_with :: "string \<Rightarrow> string \<Rightarrow> bool" where
  "ends_with s t = starts_with (rev s) (rev t)"

lemma starts_with_iff: "starts_with s p \<longleftrightarrow> (\<exists>t. s = p @ t)"
  by (induction s p rule: starts_with.induct) auto

fun join :: "string \<Rightarrow> string list \<Rightarrow> string" where
  "join sep [] = []"
| "join sep [x] = x"
| "join sep (x # y # ys) = x @ sep @ join sep (y # ys)"

text \<open>\<open>str.split(''::'')\<close>: the pieces between the occurrences found from the left.\<close>

fun split_colons :: "string \<Rightarrow> string list" where
  "split_colons [] = [[]]"
| "split_colons [c] = [[c]]"
| "split_colons (c # d # s) =
     (if c = CHR '':'' \<and> d = CHR '':'' then [] # split_colons s
      else (case split_colons (d # s) of
              [] \<Rightarrow> [[c]]
            | p # ps \<Rightarrow> (c # p) # ps))"

fun show_nat :: "nat \<Rightarrow> string" where
  "show_nat n = (if n < 10 then [char_of (48 + n)]
                 else show_nat (n div 10) @ [char_of (48 + n mod 10)])"

declare show_nat.simps [simp del]

definition show_int :: "int \<Rightarrow> string" where
  "show_int i = (if i < 0 then CHR ''-'' # show_nat (nat (- i)) else show_nat (nat i))"

text \<open>\<open>repr\<close> of a text without quotes or backslashes, as in a message that shows a value.\<close>

definition py_repr :: "string \<Rightarrow> string" where
  "py_repr s = CHR 0x27 # s @ [CHR 0x27]"

text \<open>\<open>sorted(set(...))\<close> of texts.\<close>

definition sorted_set :: "('a::linorder) list \<Rightarrow> 'a list" where
  "sorted_set xs = sort (remdups xs)"

lemma set_sorted_set [simp]: "set (sorted_set xs) = set xs"
  by (simp add: sorted_set_def)

lemma sorted_sorted_set [simp]: "sorted (sorted_set xs)"
  by (simp add: sorted_set_def)

lemma distinct_sorted_set [simp]: "distinct (sorted_set xs)"
  by (simp add: sorted_set_def)

lemma sorted_set_Nil_iff [simp]: "sorted_set xs = [] \<longleftrightarrow> xs = []"
proof -
  have "sorted_set xs = [] \<longleftrightarrow> set (sorted_set xs) = {}" by (simp only: set_empty)
  then show ?thesis by simp
qed

lemma sorted_set_cong: "set xs = set ys \<Longrightarrow> sorted_set xs = sorted_set ys"
  by (simp add: sorted_distinct_set_unique)

definition normalized_token :: "string \<Rightarrow> string" where
  "normalized_token s = filter is_alnum (casefold s)"

section \<open>JSON values\<close>

text \<open>
  A Python value as the JSON loader builds it. A dictionary is the association list of its
  items in insertion order; \<open>wf_json\<close> says that no key occurs twice, which every Python
  dictionary satisfies. A non-integer number is the text Python prints for it.
\<close>

datatype json =
    JNull
  | JBool bool
  | JInt int
  | JFloat string
  | JStr string
  | JArr "json list"
  | JObj "(string \<times> json) list"

type_synonym dict = "(string \<times> json) list"

abbreviation keys :: "(string \<times> 'a) list \<Rightarrow> string list" where
  "keys d \<equiv> map fst d"

definition float_char :: "char \<Rightarrow> bool" where
  "float_char c = (is_digit c \<or> c \<in> {CHR ''-'', CHR ''+'', CHR ''.'', CHR ''e''})"

definition float_token :: "string \<Rightarrow> bool" where
  "float_token s = (list_all float_char s \<and> (CHR ''.'' \<in> set s \<or> CHR ''e'' \<in> set s))"

fun wf_json :: "json \<Rightarrow> bool" where
  "wf_json (JArr xs) = list_all wf_json xs"
| "wf_json (JObj d) = (distinct (keys d) \<and> list_all (\<lambda>kv. wf_json (snd kv)) d)"
| "wf_json (JFloat s) = float_token s"
| "wf_json _ = True"

text \<open>\<open>dict.get(k)\<close>, with a missing key as \<open>None\<close>; \<open>get_or_null\<close> reads Python's
  default \<open>None\<close>.\<close>

definition dget :: "dict \<Rightarrow> string \<Rightarrow> json option" where
  "dget d k = map_of d k"

definition get_or_null :: "dict \<Rightarrow> string \<Rightarrow> json" where
  "get_or_null d k = (case dget d k of None \<Rightarrow> JNull | Some v \<Rightarrow> v)"

definition has_key :: "dict \<Rightarrow> string \<Rightarrow> bool" where
  "has_key d k = (dget d k \<noteq> None)"

definition dset :: "dict \<Rightarrow> string \<Rightarrow> json \<Rightarrow> dict" where
  "dset d k v = AList.update k v d"

definition dpop :: "dict \<Rightarrow> string \<Rightarrow> dict" where
  "dpop d k = filter (\<lambda>kv. fst kv \<noteq> k) d"

definition dupdate :: "dict \<Rightarrow> dict \<Rightarrow> dict" where
  "dupdate d e = fold (\<lambda>kv acc. dset acc (fst kv) (snd kv)) e d"

definition dict_of :: "json \<Rightarrow> dict" where
  "dict_of v = (case v of JObj d \<Rightarrow> d | _ \<Rightarrow> [])"

definition list_of :: "json \<Rightarrow> json list" where
  "list_of v = (case v of JArr xs \<Rightarrow> xs | _ \<Rightarrow> [])"

definition is_dict :: "json \<Rightarrow> bool" where
  "is_dict v = (case v of JObj _ \<Rightarrow> True | _ \<Rightarrow> False)"

definition is_list :: "json \<Rightarrow> bool" where
  "is_list v = (case v of JArr _ \<Rightarrow> True | _ \<Rightarrow> False)"

definition is_text :: "json \<Rightarrow> bool" where
  "is_text v = (case v of JStr _ \<Rightarrow> True | _ \<Rightarrow> False)"

definition nonblank_text :: "json \<Rightarrow> bool" where
  "nonblank_text v = (case v of JStr s \<Rightarrow> \<not> blank s | _ \<Rightarrow> False)"

text \<open>Field access on an arbitrary value: \<open>v.get(k)\<close> where \<open>v\<close> is a dictionary.\<close>

definition jget :: "json \<Rightarrow> string \<Rightarrow> json option" where
  "jget v k = dget (dict_of v) k"

definition text_of :: "json \<Rightarrow> string" where
  "text_of v = (case v of JStr s \<Rightarrow> s | _ \<Rightarrow> [])"

definition index_path :: "string \<Rightarrow> nat \<Rightarrow> string" where
  "index_path p i = p @ ''['' @ show_nat i @ '']''"

definition key_path :: "string \<Rightarrow> string \<Rightarrow> string" where
  "key_path p k = p @ ''.'' @ k"

text \<open>Python's truth value.\<close>

fun truthy :: "json \<Rightarrow> bool" where
  "truthy JNull = False"
| "truthy (JBool b) = b"
| "truthy (JInt i) = (i \<noteq> 0)"
| "truthy (JFloat s) = (s \<noteq> ''0.0'' \<and> s \<noteq> ''-0.0'')"
| "truthy (JStr s) = (s \<noteq> [])"
| "truthy (JArr xs) = (xs \<noteq> [])"
| "truthy (JObj d) = (d \<noteq> [])"

lemma size_dict_entry [termination_simp]:
  assumes "kv \<in> set d"
  shows "size (snd kv) < Suc (size_list (size_prod (\<lambda>_. 0) size) d)"
proof -
  have "size_prod (\<lambda>_. 0) size kv \<le> size_list (size_prod (\<lambda>_. 0) size) d"
    using assms by (rule size_list_estimation' [OF _ order_refl])
  then show ?thesis by (cases kv) simp
qed

lemma size_dict_entry_pair [termination_simp]:
  "(k, v) \<in> set d \<Longrightarrow> size v < Suc (size_list (size_prod (\<lambda>_. 0) size) d)"
  using size_dict_entry [of "(k, v)" d] by simp

lemma size_map_of [termination_simp]:
  assumes "map_of d k = Some v"
  shows "size v < Suc (size_list (\<lambda>kv. Suc (size (snd kv))) d)"
proof -
  have "Suc (size (snd (k, v))) \<le> size_list (\<lambda>kv. Suc (size (snd kv))) d"
    using map_of_SomeD [OF assms] by (rule size_list_estimation') simp
  then show ?thesis by simp
qed

lemma size_arr_item [termination_simp]:
  "x \<in> set xs \<Longrightarrow> size x < Suc (size_list size xs)"
  by (metis le_imp_less_Suc order_refl size_list_estimation')

lemma enumerate_item: "(i, x) \<in> set (enumerate n xs) \<Longrightarrow> x \<in> set xs"
  by (auto simp: in_set_enumerate_eq)

lemma size_arr_enumerate [termination_simp]:
  "(i, x) \<in> set (enumerate n xs) \<Longrightarrow> size x < Suc (size_list size xs)"
  by (rule size_arr_item) (rule enumerate_item)

lemma size_obj_value: "map_of d k = Some v \<Longrightarrow> size v < size (JObj d)"
  using size_dict_entry_pair [of k v d] by (auto dest: map_of_SomeD)

lemma size_arr_zip [termination_simp]:
  "(x, y) \<in> set (zip xs ys) \<Longrightarrow> size x < Suc (size_list size xs)"
  by (rule size_arr_item) (rule set_zip_leftD)

lemma json_induct [case_names Null Bool Int Float Str Arr Obj]:
  assumes "P JNull" and "\<And>b. P (JBool b)" and "\<And>i. P (JInt i)" and "\<And>s. P (JFloat s)"
    and "\<And>s. P (JStr s)" and "\<And>xs. (\<And>x. x \<in> set xs \<Longrightarrow> P x) \<Longrightarrow> P (JArr xs)"
    and "\<And>d. (\<And>k v. (k, v) \<in> set d \<Longrightarrow> P v) \<Longrightarrow> P (JObj d)"
  shows "P v"
proof (induction v rule: measure_induct_rule [where f = size])
  case (less v)
  show ?case
  proof (cases v)
    case (JArr xs)
    then show ?thesis using less assms(6) by (auto intro: size_arr_item)
  next
    case (JObj d)
    have "P w" if "(k, w) \<in> set d" for k w
      using less [of w] size_dict_entry_pair [OF that] JObj by simp
    then show ?thesis unfolding JObj by (rule assms(7))
  qed (simp_all add: assms)
qed

text \<open>
  Python's \<open>==\<close>: dictionaries compare without order, \<open>True == 1\<close> and \<open>1 == 1.0\<close>.
\<close>

definition float_is_int :: "string \<Rightarrow> int \<Rightarrow> bool" where
  "float_is_int s i = (s = show_int i @ ''.0'' \<or> i = 0 \<and> s = ''-0.0'')"

fun py_eq :: "json \<Rightarrow> json \<Rightarrow> bool" where
  "py_eq JNull b = (b = JNull)"
| "py_eq (JBool x) b = (case b of JBool y \<Rightarrow> x = y | JInt i \<Rightarrow> i = of_bool x
     | JFloat s \<Rightarrow> float_is_int s (of_bool x) | _ \<Rightarrow> False)"
| "py_eq (JInt i) b = (case b of JBool y \<Rightarrow> i = of_bool y | JInt j \<Rightarrow> i = j
     | JFloat s \<Rightarrow> float_is_int s i | _ \<Rightarrow> False)"
| "py_eq (JFloat s) b = (case b of JBool y \<Rightarrow> float_is_int s (of_bool y)
     | JInt i \<Rightarrow> float_is_int s i
     | JFloat t \<Rightarrow> s = t \<or> {s, t} \<subseteq> {''0.0'', ''-0.0''} | _ \<Rightarrow> False)"
| "py_eq (JStr s) b = (b = JStr s)"
| "py_eq (JArr xs) b = (case b of
     JArr ys \<Rightarrow> length xs = length ys \<and> list_all (\<lambda>(x, y). py_eq x y) (zip xs ys)
   | _ \<Rightarrow> False)"
| "py_eq (JObj d) b = (case b of
     JObj e \<Rightarrow> length d = length e \<and>
       list_all (\<lambda>(k, v). case map_of e k of None \<Rightarrow> False | Some w \<Rightarrow> py_eq v w) d
   | _ \<Rightarrow> False)"

end
