(* ===== verification/JsonValues.thy ===== *)
theory JsonValues
  imports Prelude
begin

text \<open>
  \<^verbatim>\<open>comparison/json_values.py\<close>, the type-strict recursive comparison, and
  \<^verbatim>\<open>json.dumps\<close> as the fingerprints of
  \<^verbatim>\<open>core/validation.py\<close> use it. \<open>json_same\<close> is the specification of the
  comparison: equality of JSON values up to the order of dictionary keys.
\<close>

section \<open>Differences\<close>

datatype difference =
    TypeMismatch string json json
  | Missing string json
  | Extra string json
  | ArrayMismatch string json json
  | ValueMismatch string json json

fun same_type :: "json \<Rightarrow> json \<Rightarrow> bool" where
  "same_type JNull b = (b = JNull)"
| "same_type (JBool _) b = (case b of JBool _ \<Rightarrow> True | _ \<Rightarrow> False)"
| "same_type (JInt _) b = (case b of JInt _ \<Rightarrow> True | _ \<Rightarrow> False)"
| "same_type (JFloat _) b = (case b of JFloat _ \<Rightarrow> True | _ \<Rightarrow> False)"
| "same_type (JStr _) b = (case b of JStr _ \<Rightarrow> True | _ \<Rightarrow> False)"
| "same_type (JArr _) b = (case b of JArr _ \<Rightarrow> True | _ \<Rightarrow> False)"
| "same_type (JObj _) b = (case b of JObj _ \<Rightarrow> True | _ \<Rightarrow> False)"

definition keys_minus :: "(string \<times> 'a) list \<Rightarrow> (string \<times> 'b) list \<Rightarrow> string list" where
  "keys_minus d e = sorted_set (filter (\<lambda>k. k \<notin> set (keys e)) (keys d))"

definition keys_common :: "(string \<times> 'a) list \<Rightarrow> (string \<times> 'b) list \<Rightarrow> string list" where
  "keys_common d e = sorted_set (filter (\<lambda>k. k \<in> set (keys e)) (keys d))"

lemma keys_minus_set [simp]: "set (keys_minus d e) = set (keys d) - set (keys e)"
  by (auto simp: keys_minus_def)

lemma keys_common_set [simp]: "set (keys_common d e) = set (keys d) \<inter> set (keys e)"
  by (auto simp: keys_common_def)

lemma keys_minus_Nil_iff: "keys_minus d e = [] \<longleftrightarrow> set (keys d) \<subseteq> set (keys e)"
  by (metis Diff_eq_empty_iff keys_minus_set set_empty)

function differences :: "json \<Rightarrow> json \<Rightarrow> string \<Rightarrow> difference list" where
  "differences expected actual path =
     (if \<not> same_type expected actual then [TypeMismatch path expected actual]
      else (case (expected, actual) of
        (JObj d, JObj e) \<Rightarrow>
          map (\<lambda>k. Missing (path @ ''.'' @ k) (get_or_null d k)) (keys_minus d e) @
          map (\<lambda>k. Extra (path @ ''.'' @ k) (get_or_null e k)) (keys_minus e d) @
          concat (map (\<lambda>k. case map_of d k of None \<Rightarrow> []
                          | Some v \<Rightarrow> differences v (get_or_null e k) (path @ ''.'' @ k))
                   (keys_common d e))
      | (JArr xs, JArr ys) \<Rightarrow>
          (if length xs = length ys \<and> list_all (\<lambda>(x, y). differences x y ''$'' = []) (zip xs ys)
           then [] else [ArrayMismatch path expected actual])
      | _ \<Rightarrow> if py_eq expected actual then [] else [ValueMismatch path expected actual]))"
  by pat_completeness auto
termination
  by (relation "measure (\<lambda>(e, a, p). size e)")
     (auto dest!: map_of_SomeD intro: size_arr_zip size_dict_entry_pair)

declare differences.simps [simp del]

lemma differences_type: "\<not> same_type e a \<Longrightarrow> differences e a p = [TypeMismatch p e a]"
  by (simp add: differences.simps)

lemma differences_obj:
  "differences (JObj d) (JObj e) p =
     map (\<lambda>k. Missing (p @ ''.'' @ k) (get_or_null d k)) (keys_minus d e) @
     map (\<lambda>k. Extra (p @ ''.'' @ k) (get_or_null e k)) (keys_minus e d) @
     concat (map (\<lambda>k. case map_of d k of None \<Rightarrow> []
                     | Some v \<Rightarrow> differences v (get_or_null e k) (p @ ''.'' @ k))
              (keys_common d e))"
  by (simp add: differences.simps [of "JObj d"])

lemma differences_arr:
  "differences (JArr xs) (JArr ys) p =
     (if length xs = length ys \<and> list_all (\<lambda>(x, y). differences x y ''$'' = []) (zip xs ys)
      then [] else [ArrayMismatch p (JArr xs) (JArr ys)])"
  by (simp add: differences.simps [of "JArr xs"])

lemma differences_scalar:
  "same_type e a \<Longrightarrow> \<not> is_dict e \<Longrightarrow> \<not> is_list e \<Longrightarrow>
   differences e a p = (if py_eq e a then [] else [ValueMismatch p e a])"
  by (subst differences.simps, cases e) (simp_all add: is_dict_def is_list_def split: json.splits)

lemmas differences_simps = differences_type differences_obj differences_arr differences_scalar

text \<open>The record each difference is reported as.\<close>

fun difference_json :: "difference \<Rightarrow> json" where
  "difference_json (TypeMismatch p e a) = JObj [(''path'', JStr p),
     (''kind'', JStr ''type_mismatch''), (''expected'', e), (''actual'', a)]"
| "difference_json (Missing p e) =
     JObj [(''path'', JStr p), (''kind'', JStr ''missing''), (''expected'', e)]"
| "difference_json (Extra p a) =
     JObj [(''path'', JStr p), (''kind'', JStr ''extra''), (''actual'', a)]"
| "difference_json (ArrayMismatch p e a) = JObj [(''path'', JStr p),
     (''kind'', JStr ''array_mismatch''), (''expected'', e), (''actual'', a)]"
| "difference_json (ValueMismatch p e a) = JObj [(''path'', JStr p),
     (''kind'', JStr ''value_mismatch''), (''expected'', e), (''actual'', a)]"

section \<open>The specification: equality up to key order\<close>

fun json_same :: "json \<Rightarrow> json \<Rightarrow> bool" where
  "json_same (JArr xs) b = (case b of
     JArr ys \<Rightarrow> length xs = length ys \<and> list_all (\<lambda>(x, y). json_same x y) (zip xs ys)
   | _ \<Rightarrow> False)"
| "json_same (JObj d) b = (case b of
     JObj e \<Rightarrow> set (keys d) = set (keys e) \<and>
       list_all (\<lambda>(k, v). case map_of e k of None \<Rightarrow> False | Some w \<Rightarrow> json_same v w) d
   | _ \<Rightarrow> False)"
| "json_same a b = (same_type a b \<and> py_eq a b)"

lemma get_or_null_Some [simp]: "map_of d k = Some v \<Longrightarrow> get_or_null d k = v"
  by (simp add: get_or_null_def dget_def)

lemma map_of_in_keys: "k \<in> set (keys d) \<longleftrightarrow> (\<exists>v. map_of d k = Some v)"
  by (metis domIff dom_map_of_conv_image_fst not_None_eq set_map)

lemma wf_dict_items:
  "wf_json (JObj d) \<Longrightarrow>
   list_all (\<lambda>(k, v). P k v) d \<longleftrightarrow> (\<forall>k v. map_of d k = Some v \<longrightarrow> P k v)"
  by (auto simp: list_all_iff)

lemma wf_dict_value: "wf_json (JObj d) \<Longrightarrow> map_of d k = Some v \<Longrightarrow> wf_json v"
  by (auto simp: list_all_iff dest!: map_of_SomeD)

lemma differences_obj_empty:
  "differences (JObj d) (JObj e) p = [] \<longleftrightarrow>
     set (keys d) = set (keys e) \<and>
     (\<forall>k v w. map_of d k = Some v \<longrightarrow> map_of e k = Some w \<longrightarrow>
        differences v w (p @ ''.'' @ k) = [])"
proof (cases "set (keys d) = set (keys e)")
  case False
  then have "keys_minus d e \<noteq> [] \<or> keys_minus e d \<noteq> []"
    unfolding keys_minus_Nil_iff by blast
  with False show ?thesis by (auto simp: differences_obj)
next
  case True
  then have "keys_minus d e = []" and "keys_minus e d = []"
    by (simp_all add: keys_minus_Nil_iff)
  then have "differences (JObj d) (JObj e) p = [] \<longleftrightarrow>
      (\<forall>k \<in> set (keys d). case map_of d k of None \<Rightarrow> True
         | Some v \<Rightarrow> differences v (get_or_null e k) (p @ ''.'' @ k) = [])"
    using True by (auto simp: differences_obj split: option.splits)
  also have "\<dots> \<longleftrightarrow> (\<forall>k v w. map_of d k = Some v \<longrightarrow> map_of e k = Some w \<longrightarrow>
        differences v w (p @ ''.'' @ k) = [])"
    using True by (fastforce simp only: map_of_in_keys get_or_null_Some split: option.splits)
  finally show ?thesis using True by blast
qed

lemma json_same_obj:
  assumes "wf_json (JObj d)"
  shows "json_same (JObj d) (JObj e) \<longleftrightarrow> set (keys d) = set (keys e) \<and>
     (\<forall>k v w. map_of d k = Some v \<longrightarrow> map_of e k = Some w \<longrightarrow> json_same v w)"
proof (cases "set (keys d) = set (keys e)")
  case True
  then have "map_of e k \<noteq> None" if "map_of d k = Some v" for k v
    using that by (metis map_of_in_keys option.distinct(1))
  then show ?thesis
    using assms True by (simp only: json_same.simps wf_dict_items json.case simp_thms)
      (fastforce split: option.split)
qed simp

theorem differences_empty_iff_aux:
  "wf_json e \<Longrightarrow> differences e a p = [] \<longleftrightarrow> json_same e a"
proof (induction e a p rule: differences.induct)
  case (1 e a p)
  show ?case
  proof (cases "same_type e a")
    case False
    then show ?thesis by (cases e) (auto simp: differences_type split: json.splits)
  next
    case st: True
    show ?thesis
    proof (cases e)
      case (JArr xs)
      with st obtain ys where a: "a = JArr ys" by (cases a) auto
      have "differences x y ''$'' = [] \<longleftrightarrow> json_same x y"
        if "length xs = length ys" "(x, y) \<in> set (zip xs ys)" for x y
        using 1(1) [OF _ refl JArr a that(2) refl] st 1(3) that JArr
        by (auto simp: list_all_iff dest: set_zip_leftD)
      then show ?thesis
        by (auto simp: JArr a differences_arr list_all_iff Ball_def split_paired_All)
    next
      case (JObj d)
      with st obtain d' where a: "a = JObj d'" by (cases a) auto
      have *: "differences v w (p @ ''.'' @ k) = [] \<longleftrightarrow> json_same v w"
        if "map_of d k = Some v" "map_of d' k = Some w" for k v w
      proof -
        from that have "k \<in> set (keys_common d d')"
          by (simp only: keys_common_set map_of_in_keys Int_iff) blast
        with 1(2) [OF _ refl JObj a, of k v] st that 1(3) show ?thesis
          by (simp add: JObj wf_dict_value [of d k v])
      qed
      then show ?thesis
        using 1(3) unfolding JObj a
        by (simp only: differences_obj_empty json_same_obj) blast
    qed (use st in \<open>auto simp: differences_scalar is_dict_def is_list_def\<close>)
  qed
qed

lemma py_eq_same_type_sym:
  "same_type a b \<Longrightarrow> \<not> is_dict a \<Longrightarrow> \<not> is_list a \<Longrightarrow> py_eq a b = py_eq b a"
  by (cases a; cases b) (auto simp: is_dict_def is_list_def)

lemma json_same_arr: "json_same (JArr xs) (JArr ys) \<longleftrightarrow> list_all2 json_same xs ys"
  by (simp add: list_all2_iff list_all_iff case_prod_beta)

lemma wf_arr_item: "wf_json (JArr xs) \<Longrightarrow> x \<in> set xs \<Longrightarrow> wf_json x"
  by (simp add: list_all_iff)

lemma json_same_refl: "wf_json a \<Longrightarrow> json_same a a"
proof (induction a rule: json_induct)
  case (Arr xs)
  then show ?case unfolding json_same_arr
    by (auto intro!: list.rel_refl_strong simp: list_all_iff)
next
  case (Obj d)
  have "json_same v v" if "map_of d k = Some v" for k v
    using Obj.IH [OF map_of_SomeD [OF that] wf_dict_value [OF Obj.prems that]] .
  with Obj.prems show ?case by (auto simp only: json_same_obj option.inject)
qed auto

lemma json_same_type: "json_same a b \<Longrightarrow> same_type a b"
  by (cases a) (auto split: json.splits)

lemma json_same_scalar:
  "\<not> is_dict a \<Longrightarrow> \<not> is_list a \<Longrightarrow> json_same a b \<longleftrightarrow> same_type a b \<and> py_eq a b"
  by (cases a) (simp_all add: is_dict_def is_list_def)

lemma json_same_sym: "wf_json a \<Longrightarrow> wf_json b \<Longrightarrow> json_same a b \<Longrightarrow> json_same b a"
proof (induction a arbitrary: b rule: json_induct)
  case (Arr xs)
  then obtain ys where b: "b = JArr ys" by (cases b) auto
  have *: "json_same y x" if "x \<in> set xs" "y \<in> set ys" "json_same x y" for x y
    using Arr that b wf_arr_item by blast
  have "list_all2 json_same xs ys" using Arr.prems(3) unfolding b json_same_arr .
  then have "list_all2 (\<lambda>x y. json_same y x) xs ys"
    by (rule list.rel_mono_strong) (rule *)
  then show ?case unfolding b json_same_arr by (simp add: list_all2_conv_all_nth)
next
  case (Obj d)
  then obtain e where b: "b = JObj e" by (cases b) auto
  have "json_same w v" if "map_of d k = Some v" "map_of e k = Some w" for k v w
  proof -
    have "json_same v w"
      using Obj.prems that unfolding b by (simp only: json_same_obj)
    then show ?thesis
      using Obj.IH [OF map_of_SomeD [OF that(1)]] Obj.prems(1,2) that wf_dict_value
      unfolding b by blast
  qed
  moreover have "set (keys d) = set (keys e)"
    using Obj.prems unfolding b by (simp only: json_same_obj)
  ultimately show ?case
    using Obj.prems(2) unfolding b by (simp only: json_same_obj) blast
qed (use py_eq_same_type_sym in \<open>auto simp: json_same_scalar is_dict_def is_list_def split: json.splits\<close>)

section \<open>json.dumps\<close>

text \<open>
  \<open>json.dumps\<close> with \<open>sort_keys=True\<close>. The separators and \<open>ensure_ascii\<close> are arguments:
  the fingerprints use \<open>(",", ":")\<close> without escaping, the sort keys of the comparisons use
  the defaults.
\<close>

definition hex_digit :: "nat \<Rightarrow> char" where
  "hex_digit n = (if n < 10 then char_of (48 + n) else char_of (87 + n))"

definition esc_char :: "bool \<Rightarrow> char \<Rightarrow> string" where
  "esc_char ascii c =
     (let n = of_char c :: nat in
      if c = CHR 0x22 \<or> c = CHR 0x5C then [CHR 0x5C, c]
      else if n = 10 then [CHR 0x5C, CHR ''n'']
      else if n = 13 then [CHR 0x5C, CHR ''r'']
      else if n = 9 then [CHR 0x5C, CHR ''t'']
      else if n = 12 then [CHR 0x5C, CHR ''f'']
      else if n = 8 then [CHR 0x5C, CHR ''b'']
      else if n < 32 \<or> ascii \<and> 127 \<le> n
      then [CHR 0x5C, CHR ''u'', CHR ''0'', CHR ''0'', hex_digit (n div 16), hex_digit (n mod 16)]
      else [c])"

text \<open>Evaluation: a printable character is decided on its bits, without its number.\<close>

definition esc_rare :: "bool \<Rightarrow> char \<Rightarrow> string" where
  "esc_rare = esc_char"

lemma esc_rare_code [code]: "esc_rare ascii c =
     (let n = of_char c :: nat in
      if c = CHR 0x22 \<or> c = CHR 0x5C then [CHR 0x5C, c]
      else if n = 10 then [CHR 0x5C, CHR ''n'']
      else if n = 13 then [CHR 0x5C, CHR ''r'']
      else if n = 9 then [CHR 0x5C, CHR ''t'']
      else if n = 12 then [CHR 0x5C, CHR ''f'']
      else if n = 8 then [CHR 0x5C, CHR ''b'']
      else if n < 32 \<or> ascii \<and> 127 \<le> n
      then [CHR 0x5C, CHR ''u'', CHR ''0'', CHR ''0'', hex_digit (n div 16), hex_digit (n mod 16)]
      else [c])"
  by (simp add: esc_rare_def esc_char_def)

lemma esc_char_code [code]: "esc_char ascii (Char b0 b1 b2 b3 b4 b5 b6 b7) =
   (if \<not> b7 \<and> (if b6 then \<not> (b0 \<and> b1 \<and> b2 \<and> b3 \<and> b4 \<and> b5) \<and> \<not> (\<not> b0 \<and> \<not> b1 \<and> b2 \<and> b3 \<and> b4 \<and> \<not> b5)
      else b5 \<and> \<not> (\<not> b0 \<and> b1 \<and> \<not> b2 \<and> \<not> b3 \<and> \<not> b4))
    then [Char b0 b1 b2 b3 b4 b5 b6 b7] else esc_rare ascii (Char b0 b1 b2 b3 b4 b5 b6 b7))"
  unfolding esc_rare_def
  by (cases b7; cases b6; cases b5; cases b4; cases b3; cases b2; cases b1; cases b0) (simp_all add: esc_char_def)

definition dump_str :: "bool \<Rightarrow> string \<Rightarrow> string" where
  "dump_str ascii s = CHR 0x22 # concat (map (esc_char ascii) s) @ [CHR 0x22]"

fun dumps :: "bool \<Rightarrow> string \<Rightarrow> string \<Rightarrow> json \<Rightarrow> string" where
  "dumps ascii sep colon JNull = ''null''"
| "dumps ascii sep colon (JBool b) = (if b then ''true'' else ''false'')"
| "dumps ascii sep colon (JInt i) = show_int i"
| "dumps ascii sep colon (JFloat s) = s"
| "dumps ascii sep colon (JStr s) = dump_str ascii s"
| "dumps ascii sep colon (JArr xs) = ''['' @ join sep (map (dumps ascii sep colon) xs) @ '']''"
| "dumps ascii sep colon (JObj d) = ''{'' @ join sep
     (map (\<lambda>k. dump_str ascii k @ colon @ (case map_of d k of None \<Rightarrow> []
                | Some v \<Rightarrow> dumps ascii sep colon v)) (sorted_set (keys d))) @ ''}''"

definition canonical_json :: "json \<Rightarrow> string" where
  "canonical_json v = dumps False '','' '':'' v"

definition default_dumps :: "json \<Rightarrow> string" where
  "default_dumps v = dumps True '', '' '': '' v"

text \<open>
  \<open>canonical_sha256\<close>. The digest function (hashlib) is the argument \<open>sha\<close>; every value of
  the model can be encoded, so the error branch for non-JSON values does not arise.
\<close>

definition canonical_sha256 :: "(string \<Rightarrow> string) \<Rightarrow> json \<Rightarrow> string" where
  "canonical_sha256 sha v = ''sha256:'' @ sha (canonical_json v)"

end
