(* ===== verification/Model.thy ===== *)
theory Model
  imports JsonValues
begin

text \<open>
  \<^verbatim>\<open>core/model.py\<close> and the vocabularies it reads from the schemas (actions, operation
  states, modes, phases, statuses), with the policy constants and the operation transition
  table. The records of \<^verbatim>\<open>schemas/configuration-run.schema.json\<close> follow: the run
  document and every section the runtime reads or writes. A section the runtime only carries
  stays a list of JSON values.
\<close>

section \<open>Vocabularies\<close>

datatype container = Web | Server
datatype run_mode = WebMode | ServerMode | PipelineMode
datatype execution_mode = IsolatedDurable | RefonteDurable
datatype phase = Preflight | Mutation | Readback | Complete
datatype status = InProgressRun | Configured | Partial | Blocked | Deferred

datatype action =
    Create | Update | Replace | Rename | Pause | Unpause | Reuse | Untouched | Remove

datatype op_state =
    Planned | InProgress | Saved | Verified | Failed | Uncertain | Skipped

fun container_name :: "container \<Rightarrow> string" where
  "container_name Web = ''web''"
| "container_name Server = ''server''"

fun action_name :: "action \<Rightarrow> string" where
  "action_name Create = ''create''"
| "action_name Update = ''update''"
| "action_name Replace = ''replace''"
| "action_name Rename = ''rename''"
| "action_name Pause = ''pause''"
| "action_name Unpause = ''unpause''"
| "action_name Reuse = ''reuse''"
| "action_name Untouched = ''untouched''"
| "action_name Remove = ''remove''"

fun state_name :: "op_state \<Rightarrow> string" where
  "state_name Planned = ''planned''"
| "state_name InProgress = ''in_progress''"
| "state_name Saved = ''saved''"
| "state_name Verified = ''verified''"
| "state_name Failed = ''failed''"
| "state_name Uncertain = ''uncertain''"
| "state_name Skipped = ''skipped''"

fun status_name :: "status \<Rightarrow> string" where
  "status_name InProgressRun = ''In progress''"
| "status_name Configured = ''Configured''"
| "status_name Partial = ''Partial''"
| "status_name Blocked = ''Blocked''"
| "status_name Deferred = ''Deferred''"

lemma state_name_inject [simp]: "state_name a = state_name b \<longleftrightarrow> a = b"
  by (cases a; cases b) simp_all

lemma action_name_inject [simp]: "action_name a = action_name b \<longleftrightarrow> a = b"
  by (cases a; cases b) simp_all

definition schema_version :: string where "schema_version = ''9.0''"
definition contract_schema_version :: string where "contract_schema_version = ''11.0''"
definition verification_schema_version :: string where "verification_schema_version = ''2.0''"
definition materialization_method :: string where
  "materialization_method = ''contract-'' @ contract_schema_version @ ''-deterministic''"

text \<open>\<^verbatim>\<open>ALLOWED_TRANSITIONS\<close>.\<close>

fun allowed_transitions :: "op_state \<Rightarrow> op_state list" where
  "allowed_transitions Planned = [InProgress, Skipped, Verified, Failed]"
| "allowed_transitions InProgress = [Saved, Verified, Failed, Uncertain]"
| "allowed_transitions Saved = [Verified, Failed, Uncertain]"
| "allowed_transitions Uncertain = [Verified, Failed]"
| "allowed_transitions Verified = []"
| "allowed_transitions Failed = []"
| "allowed_transitions Skipped = []"

definition transition_allowed :: "op_state \<Rightarrow> op_state \<Rightarrow> bool" where
  "transition_allowed current target = (target \<in> set (allowed_transitions current))"

definition web_resource_families :: "string list" where
  "web_resource_families = [''built-in variable'', ''container setting'', ''destination'',
     ''environment'', ''folder'', ''google tag configuration'', ''tag'', ''template'',
     ''trigger'', ''variable'', ''workspace'', ''zone'']"

definition server_resource_families :: "string list" where
  "server_resource_families = [''client'', ''container setting'', ''folder'', ''tag'',
     ''template'', ''transformation'', ''trigger'', ''variable'', ''workspace'']"

definition resource_families :: "string list" where
  "resource_families = web_resource_families @ server_resource_families"

definition target_families :: "container \<Rightarrow> string list" where
  "target_families c = (case c of Web \<Rightarrow> web_resource_families
                        | Server \<Rightarrow> server_resource_families)"

definition delta_action :: "action \<Rightarrow> bool" where
  "delta_action a = (a \<in> {Update, Replace, Rename, Pause, Unpause, Remove})"

definition mutating_action :: "action \<Rightarrow> bool" where
  "mutating_action a = (a = Create \<or> delta_action a)"

definition publication_order :: "run_mode \<Rightarrow> string list" where
  "publication_order m = (case m of
     WebMode \<Rightarrow> []
   | ServerMode \<Rightarrow> [''server-recette'', ''server-publication'', ''post-publication-smoke'']
   | PipelineMode \<Rightarrow> [''server-recette'', ''web-pipeline-recette'', ''server-publication'',
       ''web-cutover-publication'', ''post-publication-smoke''])"

definition id_fields :: "(string \<times> string) list" where
  "id_fields = [(''tagId'', ''tag''), (''triggerId'', ''trigger''), (''variableId'', ''variable''),
     (''folderId'', ''folder''), (''templateId'', ''template''), (''zoneId'', ''zone''),
     (''environmentId'', ''environment''), (''clientId'', ''client''),
     (''transformationId'', ''transformation'')]"

definition built_in_trigger_ids :: "string list" where
  "built_in_trigger_ids = [''2147479553'', ''2147479572'', ''2147479573'']"

section \<open>Records of the run document\<close>

record capability =
  cap_list :: bool
  cap_get :: bool
  cap_create :: bool
  cap_update :: bool
  cap_remove :: bool

type_synonym capability_map = "(string \<times> capability) list"

text \<open>The four identity fields of a GTM target (\<^verbatim>\<open>IDENTITY_FIELDS\<close>).\<close>

record identity =
  account_id :: string
  container_id :: string
  workspace_id :: string
  container_type :: container

record target =
  tg_id :: string
  tg_identity :: identity
  tg_capabilities :: capability_map

record journal_entry =
  je_at :: string
  je_state :: op_state
  je_note :: string
  je_result :: "json option"
  je_error :: "json option"
  je_reopened :: bool
  je_convergence_repair :: bool

record operation =
  op_id :: string
  op_target :: string
  op_container :: container
  op_family :: string
  op_name :: string
  op_key :: string
  op_action :: action
  op_requirements :: "string list"
  op_dependencies :: "string list"
  op_justification :: string
  op_evidence :: "string list"
  op_risk :: string
  op_intended :: "json option"
  op_pre_change :: "json option"
  op_object_id :: "string option"
  op_new_name :: "string option"
  op_approval :: "json option"
  op_replacement_reason :: "string option"
  op_permission_delta :: "json option"
  op_public_identifiers :: "json option"
  op_assertions :: "json option"
  op_state :: op_state
  op_journal :: "journal_entry list"
  op_comparison :: "json option"
  op_saved_readback :: "json option"
  op_pre_write_readback :: "json option"
  op_pre_write_comparison :: "json option"

record receipt =
  pages_read :: nat
  exhausted :: bool

record capture_evidence =
  ce_captured_by :: string
  ce_identity :: identity
  ce_pagination :: "(string \<times> receipt) list"
  ce_changes_pagination :: receipt

record baseline =
  bl_target :: string
  bl_captured_at :: "string option"
  bl_complete :: bool
  bl_families :: "string list"
  bl_counts :: "(string \<times> nat) list"
  bl_identities :: "(string \<times> string list) list"
  bl_resources :: "(string \<times> json list) list"
  bl_changes :: "json list option"
  bl_evidence :: "capture_evidence option"
  bl_supplemental :: "(string \<times> capture_evidence) list"
  bl_fingerprint :: "string option"

text \<open>
  A target's recovery boundary lists the operations to read back; its \<open>next_action\<close> is the
  constant text "authoritative readback before retry".
\<close>

record target_result =
  tr_target :: string
  tr_status :: status
  tr_last_verified :: "string option"
  tr_baseline_error :: "(string \<times> string) option"
  tr_recovery :: "string list option"

record observation =
  ob_operation :: string
  ob_target :: string
  ob_source :: string
  ob_identity :: identity
  ob_at :: string
  ob_decision :: string
  ob_saved :: json
  ob_comparison :: json

record idempotency =
  id_checked :: bool
  id_remaining :: "string list"
  id_observations :: "observation list"

record final_inventory =
  fi_target :: string
  fi_at :: string
  fi_identity :: identity
  fi_resources :: "(string \<times> json list) list"
  fi_pagination :: "(string \<times> receipt) list"

record requirement =
  rq_id :: string
  rq_kind :: string
  rq_source_locator :: string
  rq_source_event :: json
  rq_event_name :: json
  rq_destination :: json
  rq_status :: status
  rq_object_keys :: "string list"

record revision =
  rv_at :: string
  rv_note :: string
  rv_previous :: string
  rv_fingerprint :: string
  rv_changed :: "string list"

record contract_ref =
  cr_schema_version :: string
  cr_requirement_ids :: "string list"
  cr_source_locator :: string
  cr_fingerprint :: string
  cr_requirement_fingerprints :: "(string \<times> string) list"

record materialization =
  mt_method :: string
  mt_owned_sections :: "string list"
  mt_contract_fingerprint :: string
  mt_section_fingerprints :: "(string \<times> string) list"

record publication_dependency =
  pd_kind :: string
  pd_owner :: string
  pd_status :: string
  pd_depends_on :: "string option"
  pd_blocks_saved :: bool

record run_header =
  run_id :: string
  run_mode :: run_mode
  run_execution_mode :: execution_mode
  run_phase :: phase
  run_status :: status
  run_started_at :: string
  run_updated_at :: string
  run_targets :: "target list"
  run_contract :: contract_ref
  run_publication_performed :: bool
  run_version_created :: bool
  run_materialization :: materialization
  run_revisions :: "revision list"

record document =
  d_schema_version :: string
  d_run :: run_header
  d_requirements :: "requirement list"
  d_pipelines :: "json list"
  d_operations :: "operation list"
  d_mappings :: "json list"
  d_consent_policies :: "json list"
  d_tag_policies :: "json list"
  d_page_views :: "json list"
  d_first_party :: "json list"
  d_dispositions :: "json list"
  d_baselines :: "baseline list"
  d_dedup :: "json list"
  d_final_inventories :: "final_inventory list"
  d_results :: "target_result list"
  d_official_sources :: "json list"
  d_external :: "json list"
  d_publication :: "publication_dependency list"
  d_recovery :: "target_result list option"
  d_idempotency :: idempotency

definition no_idempotency :: idempotency where
  "no_idempotency = \<lparr>id_checked = False, id_remaining = [], id_observations = []\<rparr>"

section \<open>The transition table\<close>

text \<open>States without a successor, and the states a write can be pending in.\<close>

definition terminal_state :: "op_state \<Rightarrow> bool" where
  "terminal_state s = (allowed_transitions s = [])"

lemma terminal_state_iff: "terminal_state s \<longleftrightarrow> s \<in> {Verified, Failed, Skipped}"
  by (cases s) (simp_all add: terminal_state_def)

lemma transition_allowed_simps [simp]:
  "transition_allowed Planned t \<longleftrightarrow> t \<in> {InProgress, Skipped, Verified, Failed}"
  "transition_allowed InProgress t \<longleftrightarrow> t \<in> {Saved, Verified, Failed, Uncertain}"
  "transition_allowed Saved t \<longleftrightarrow> t \<in> {Verified, Failed, Uncertain}"
  "transition_allowed Uncertain t \<longleftrightarrow> t \<in> {Verified, Failed}"
  "transition_allowed Verified t \<longleftrightarrow> False"
  "transition_allowed Failed t \<longleftrightarrow> False"
  "transition_allowed Skipped t \<longleftrightarrow> False"
  by (auto simp: transition_allowed_def)

text \<open>Every transition moves an operation strictly forward.\<close>

fun state_rank :: "op_state \<Rightarrow> nat" where
  "state_rank Planned = 0"
| "state_rank InProgress = 1"
| "state_rank Saved = 2"
| "state_rank Uncertain = 3"
| "state_rank _ = 4"

lemma transition_rank: "transition_allowed s t \<Longrightarrow> state_rank s < state_rank t"
  by (cases s) auto

end
