(* ===== verification/Redaction.thy ===== *)
theory Redaction
  imports Model
begin

text \<open>
  The redaction markers of \<^verbatim>\<open>core/privacy.py\<close> and
  \<^verbatim>\<open>core/template_source.py\<close>: how a marker is built, recognised, compared and
  resolved in memory before a mutation.
\<close>

definition redacted_state :: string where "redacted_state = ''present-not-compared''"

definition redaction_categories :: "string list" where
  "redaction_categories = [''credential'', ''pii'', ''declared-sensitive'', ''unknown'']"

definition redaction_detectors :: "string list" where
  "redaction_detectors = [''credential-key'', ''credential-private-field'', ''pii-key'',
     ''credential-row'', ''pii-row'', ''credential-variable-name'', ''pii-variable-name'',
     ''credential-variable-reference'', ''pii-variable-reference'', ''credential-assignment'',
     ''authorization-literal'', ''credential-url'', ''credential-query'', ''webhook-url'',
     ''private-key'', ''credential-format'', ''email-literal'', ''phone-literal'',
     ''declared-secret-path'', ''pii-descriptor-value'', ''invalid-marker'', ''redacted-unknown'']"

definition same_keys :: "dict \<Rightarrow> string list \<Rightarrow> bool" where
  "same_keys d ks = (set (keys d) = set ks)"

definition keys_within :: "dict \<Rightarrow> string list \<Rightarrow> bool" where
  "keys_within d ks = list_all (\<lambda>k. k \<in> set ks) (keys d)"

definition text_among :: "json option \<Rightarrow> string list \<Rightarrow> bool" where
  "text_among v ks = (case v of Some (JStr s) \<Rightarrow> s \<in> set ks | _ \<Rightarrow> False)"

definition valid_evidence :: "json \<Rightarrow> bool" where
  "valid_evidence v = (case v of
     JObj d \<Rightarrow> same_keys d [''category'', ''detector''] \<and>
       text_among (dget d ''category'') redaction_categories \<and>
       text_among (dget d ''detector'') redaction_detectors
   | _ \<Rightarrow> False)"

text \<open>
  The opaque secret reference: one of three schemes, then an alphanumeric character and at
  most 254 further characters.
\<close>

definition reference_char :: "char \<Rightarrow> bool" where
  "reference_char c = (is_alnum c \<or> c \<in> {CHR ''.'', CHR ''_'', CHR ''/'', CHR ''@'', CHR '':'', CHR ''-''})"

definition reference_body :: "string \<Rightarrow> bool" where
  "reference_body s = (case s of [] \<Rightarrow> False
     | c # cs \<Rightarrow> is_alnum c \<and> list_all reference_char cs \<and> length cs \<le> 254)"

definition secret_reference :: "string \<Rightarrow> bool" where
  "secret_reference s = list_ex (\<lambda>scheme. starts_with (casefold s) scheme \<and>
       reference_body (drop (length scheme) s)) [''vault://'', ''secret://'', ''keyring://'']"

definition hex64 :: "json \<Rightarrow> bool" where
  "hex64 v = (case v of JStr s \<Rightarrow> length s = 64 \<and>
       list_all (\<lambda>c. is_digit c \<or> CHR ''a'' \<le> c \<and> c \<le> CHR ''f'') s | _ \<Rightarrow> False)"

definition valid_source_integrity :: "json \<Rightarrow> bool" where
  "valid_source_integrity v = (case v of
     JObj d \<Rightarrow> same_keys d [''source_sha256'', ''canonical_sha256''] \<and> list_all (\<lambda>kv. hex64 (snd kv)) d
   | _ \<Rightarrow> False)"

definition native_template_type :: "string \<Rightarrow> bool" where
  "native_template_type s = (starts_with s ''cvt_'' \<and> drop 4 s \<noteq> [] \<and>
     list_all (\<lambda>c. is_alnum c \<or> c = CHR ''_'') (drop 4 s))"

definition valid_source_inspection :: "json \<Rightarrow> bool" where
  "valid_source_inspection v = (case v of
     JObj d \<Rightarrow> same_keys d [''native_type'', ''parameter_types''] \<and>
       (case dget d ''native_type'' of Some (JStr s) \<Rightarrow> native_template_type s | _ \<Rightarrow> False) \<and>
       (case dget d ''parameter_types'' of
          Some (JObj ps) \<Rightarrow> list_all (\<lambda>(name, kind). name \<noteq> [] \<and>
            (kind = JNull \<or> text_among (Some kind) [''template'', ''boolean'', ''list''])) ps
        | _ \<Rightarrow> False)
   | _ \<Rightarrow> False)"

definition is_redacted :: "json \<Rightarrow> bool" where
  "is_redacted v = (case v of
     JObj d \<Rightarrow>
       keys_within d [''secret_state'', ''reference'', ''redaction'', ''source_integrity'',
                      ''source_inspection''] \<and>
       dget d ''secret_state'' = Some (JStr redacted_state) \<and>
       (case dget d ''reference'' of None \<Rightarrow> True
          | Some (JStr s) \<Rightarrow> secret_reference (strip s) | _ \<Rightarrow> False) \<and>
       (case dget d ''redaction'' of None \<Rightarrow> True | Some e \<Rightarrow> valid_evidence e) \<and>
       (case dget d ''source_integrity'' of None \<Rightarrow> True | Some e \<Rightarrow> valid_source_integrity e) \<and>
       (case dget d ''source_inspection'' of None \<Rightarrow> True
          | Some e \<Rightarrow> has_key d ''source_integrity'' \<and> valid_source_inspection e)
   | _ \<Rightarrow> False)"

definition marker_reference :: "string option \<Rightarrow> dict res" where
  "marker_reference reference =
     (case reference of
        None \<Rightarrow> Inr [(''secret_state'', JStr redacted_state)]
      | Some r \<Rightarrow>
          if r = [] then Inr [(''secret_state'', JStr redacted_state)]
          else if \<not> secret_reference (strip r) then Inl (SecretResolutionError
            ''secret marker reference must be an opaque vault://, secret://, or keyring:// identifier'')
          else Inr [(''secret_state'', JStr redacted_state), (''reference'', JStr (strip r))])"

definition marker_evidence :: "(string \<times> string) option \<Rightarrow> dict res" where
  "marker_evidence evidence =
     (case evidence of
        None \<Rightarrow> Inr []
      | Some (category, detector) \<Rightarrow>
          if valid_evidence (JObj [(''category'', JStr category), (''detector'', JStr detector)])
          then Inr [(''redaction'', JObj [(''category'', JStr category), (''detector'', JStr detector)])]
          else Inl (SecretResolutionError
            ''redaction evidence must use known category and detector codes''))"

definition redacted_marker :: "string option \<Rightarrow> (string \<times> string) option \<Rightarrow> json res" where
  "redacted_marker reference evidence =
     bindE (marker_reference reference) (\<lambda>d.
     bindE (marker_evidence evidence) (\<lambda>e. Inr (JObj (d @ e))))"

fun contains_redacted :: "json \<Rightarrow> bool" where
  "contains_redacted (JObj d) = (is_redacted (JObj d) \<or> list_ex (\<lambda>(k, v). contains_redacted v) d)"
| "contains_redacted (JArr xs) = list_ex contains_redacted xs"
| "contains_redacted _ = False"

definition safe_equal :: "json \<Rightarrow> json \<Rightarrow> bool" where
  "safe_equal left right =
     (if contains_redacted left \<or> contains_redacted right then False else py_eq left right)"

text \<open>
  \<open>resolve_for_mutation\<close>: every marker is replaced by the value the target's secret provider
  returns for its reference; the second component collects those values. The provider is the
  host's (\<^verbatim>\<open>SecretProvider\<close> is a protocol), an argument here.
\<close>

type_synonym secret_provider = "string \<Rightarrow> json res"

definition resolve_marker :: "secret_provider option \<Rightarrow> json \<Rightarrow> (json \<times> string list) res" where
  "resolve_marker provider marker =
     (case jget marker ''reference'' of
        Some (JStr r) \<Rightarrow>
          if blank r then Inl (SecretResolutionError ''secret marker needs a secure reference'')
          else (case provider of
              None \<Rightarrow> Inl (SecretResolutionError ''no secret provider is bound to this target'')
            | Some resolve \<Rightarrow> bindE (resolve r) (\<lambda>resolved.
                (case resolved of
                   JStr s \<Rightarrow> if s = [] then Inl (SecretResolutionError
                       ''secret provider returned an empty value'') else Inr (JStr s, [s])
                 | _ \<Rightarrow> Inl (SecretResolutionError ''secret provider returned an empty value''))))
      | _ \<Rightarrow> Inl (SecretResolutionError ''secret marker needs a secure reference''))"

fun resolve_for_mutation :: "secret_provider option \<Rightarrow> json \<Rightarrow> (json \<times> string list) res" where
  "resolve_for_mutation provider (JObj d) =
     (if is_redacted (JObj d) then resolve_marker provider (JObj d)
      else bindE (mapE (\<lambda>(k, v). bindE (resolve_for_mutation provider v)
                    (\<lambda>(w, ss). Inr ((k, w), ss))) d)
             (\<lambda>items. Inr (JObj (map fst items), concat (map snd items))))"
| "resolve_for_mutation provider (JArr xs) =
     bindE (mapE (resolve_for_mutation provider) xs)
       (\<lambda>items. Inr (JArr (map fst items), concat (map snd items)))"
| "resolve_for_mutation provider v = Inr (v, [])"

section \<open>Markers\<close>

lemma is_redacted_dict: "is_redacted v \<Longrightarrow> is_dict v"
  by (cases v) (simp_all add: is_redacted_def is_dict_def)

lemma safe_equal_redacted: "is_redacted a \<Longrightarrow> \<not> safe_equal a b \<and> \<not> safe_equal b a"
  by (cases a) (auto simp: safe_equal_def is_redacted_def)

text \<open>A marker never carries the value it stands for: its fields are fixed codes.\<close>

lemma marker_reference_cases:
  "marker_reference r = Inr d \<Longrightarrow> d = [(''secret_state'', JStr redacted_state)] \<or>
     (\<exists>s. d = [(''secret_state'', JStr redacted_state), (''reference'', JStr (strip s))] \<and>
        secret_reference (strip s))"
  by (auto simp: marker_reference_def split: option.splits if_splits)

lemma marker_evidence_cases:
  "marker_evidence e = Inr d \<Longrightarrow> d = [] \<or> (\<exists>ev. d = [(''redaction'', ev)] \<and> valid_evidence ev)"
  by (auto simp: marker_evidence_def split: option.splits if_splits)

lemma redacted_marker_valid:
  assumes "redacted_marker r e = Inr m"
  shows "is_redacted m"
proof -
  from assms obtain d es where m: "m = JObj (d @ es)"
    and d: "marker_reference r = Inr d" and es: "marker_evidence e = Inr es"
    by (auto simp: redacted_marker_def bindE_Inr_iff)
  show ?thesis
    using marker_reference_cases [OF d] marker_evidence_cases [OF es] unfolding m
    by (elim disjE exE conjE) (simp_all add: is_redacted_def keys_within_def dget_def has_key_def)
qed

lemma resolve_keeps_unmarked:
  "\<not> contains_redacted v \<Longrightarrow> resolve_for_mutation p v = Inr (v, [])"
proof (induction v rule: json_induct)
  case (Arr xs)
  then have "mapE (resolve_for_mutation p) xs = Inr (map (\<lambda>x. (x, [])) xs)"
    by (induction xs) (auto simp: list_ex_iff)
  then show ?case by (simp add: comp_def)
next
  case (Obj d)
  then have item: "resolve_for_mutation p v = Inr (v, [])" if "(k, v) \<in> set d" for k v
    using that by (auto simp: list_ex_iff)
  have "mapE (\<lambda>(k, v). bindE (resolve_for_mutation p v) (\<lambda>(w, ss). Inr ((k, w), ss))) ys
     = Inr (map (\<lambda>kv. (kv, [])) ys)" if "set ys \<subseteq> set d" for ys
    using that item by (induction ys) auto
  from this [of d] Obj.prems show ?case by (simp add: comp_def)
qed simp_all

end
