(* ===== verification/TemplateSource.thy ===== *)
theory TemplateSource
  imports Redaction
begin

text \<open>
  The functions of the environment the program calls (record \<open>host\<close>), and
  \<^verbatim>\<open>core/template_source.py\<close>: the sections of a custom template, their canonical
  form, the integrity digests and the inspection of the installed identity.

  \<open>h_sha256\<close> is \<^verbatim>\<open>hashlib.sha256(...).hexdigest()\<close>, \<open>h_loads\<close> the JSON
  reader with \<open>None\<close> for the \<^verbatim>\<open>StrictJsonError\<close> it raises, and \<open>h_instant\<close>
  \<^verbatim>\<open>datetime.fromisoformat\<close>: the instant in UTC, or \<open>None\<close> inside for a timestamp
  without a timezone. \<open>h_schema_error\<close> is the first error the \<^verbatim>\<open>jsonschema\<close>
  validator reports for a value under a named schema, if any. The remaining functions stand for
  code of the repository that is not modelled: the regular-expression detectors of
  \<^verbatim>\<open>core/privacy.py\<close> (the findings of a value under exempted paths: path, category,
  detector; the scrubbing of an error text), and the domain rules of a run document by name
  (\<open>server\<close>, \<open>pipeline\<close>, \<open>web\<close>). No lemma assumes anything of them.
\<close>

record host =
  h_sha256 :: "string \<Rightarrow> string"
  h_loads :: "string \<Rightarrow> json option"
  h_instant :: "string \<Rightarrow> int option option"
  h_findings :: "json \<Rightarrow> string list \<Rightarrow> (string \<times> string \<times> string) list"
  h_scrub :: "string \<Rightarrow> string list \<Rightarrow> string"
  h_schema_error :: "string \<Rightarrow> json \<Rightarrow> string option"
  h_domain :: "string \<Rightarrow> document \<Rightarrow> unit res"

section \<open>Sections\<close>

fun replace_crlf :: "string \<Rightarrow> string" where
  "replace_crlf (c # d # s) =
     (if c = CHR 0x0D \<and> d = CHR 0x0A then d # replace_crlf s else c # replace_crlf (d # s))"
| "replace_crlf s = s"

fun split_lines :: "string \<Rightarrow> string list" where
  "split_lines [] = [[]]"
| "split_lines (c # s) =
     (if c = CHR 0x0A then [] # split_lines s
      else (case split_lines s of [] \<Rightarrow> [[c]] | l # ls \<Rightarrow> (c # l) # ls))"

definition header_char :: "char \<Rightarrow> bool" where
  "header_char c = (CHR ''A'' \<le> c \<and> c \<le> CHR ''Z'' \<or> c = CHR ''_'')"

definition is_header :: "string \<Rightarrow> bool" where
  "is_header t = (list_all header_char t \<and> 7 \<le> length t \<and> starts_with t ''___'' \<and> ends_with t ''___'')"

definition section_header :: "string \<Rightarrow> string option" where
  "section_header line =
     (let t = rev (dropWhile (\<lambda>c. c = CHR '' '' \<or> c = CHR 0x09) (rev line))
      in if is_header t then Some t else None)"

text \<open>The text up to the next header line, and the sections from there on.\<close>

fun section_bodies :: "string list \<Rightarrow> string \<times> (string \<times> string) list" where
  "section_bodies [] = ([], [])"
| "section_bodies (l # ls) = (case section_bodies ls of (body, sections) \<Rightarrow>
     (case section_header l of
        Some h \<Rightarrow> ([CHR 0x0A], (h, body) # sections)
      | None \<Rightarrow> (CHR 0x0A # l @ body, sections)))"

definition template_sections :: "string \<Rightarrow> (string \<times> string) list res" where
  "template_sections value =
     (let sections = snd (section_bodies (split_lines (replace_crlf value))) in
      if sections = [] \<or> \<not> distinct (keys sections)
      then Inl (ValueError ''Template source requires unique native sections'')
      else Inr sections)"

definition json_sections :: "string list" where
  "json_sections = [''___INFO___'', ''___TEMPLATE_PARAMETERS___'', ''___WEB_PERMISSIONS___'',
     ''___SERVER_PERMISSIONS___'']"

fun before_first :: "string \<Rightarrow> string \<Rightarrow> string" where
  "before_first p [] = []"
| "before_first p (c # s) = (if starts_with (c # s) p then [] else c # before_first p s)"

definition canonical_body :: "host \<Rightarrow> string \<Rightarrow> string \<Rightarrow> string option" where
  "canonical_body h header body =
     (if header \<in> set json_sections
      then (case h_loads h (strip body) of None \<Rightarrow> None | Some v \<Rightarrow> Some (canonical_json v))
      else Some (strip body))"

text \<open>Any error of the sections or of a JSON body leaves the source as it is.\<close>

definition canonical_template_source :: "host \<Rightarrow> string \<Rightarrow> string" where
  "canonical_template_source h value =
     (case template_sections value of
        Inl e \<Rightarrow> value
      | Inr sections \<Rightarrow>
          (let bodies = map (\<lambda>(k, b). (k, canonical_body h k b)) sections;
               intro = strip (before_first (fst (hd sections)) (replace_crlf value))
           in if list_all (\<lambda>(k, b). b \<noteq> None) bodies
              then join [CHR 0x0A] (intro # concat (map (\<lambda>(k, b). [k, the b]) bodies))
              else value))"

definition template_source_integrity :: "host \<Rightarrow> string \<Rightarrow> json" where
  "template_source_integrity h value = JObj
     [(''source_sha256'', JStr (h_sha256 h value)),
      (''canonical_sha256'', JStr (h_sha256 h (canonical_template_source h value)))]"

section \<open>Inspection\<close>

definition section_json :: "host \<Rightarrow> (string \<times> string) list \<Rightarrow> string \<Rightarrow> string \<Rightarrow> json res" where
  "section_json h sections header absent =
     (case h_loads h (case map_of sections header of None \<Rightarrow> absent | Some b \<Rightarrow> b) of
        None \<Rightarrow> Inl (StrictJsonError ''invalid JSON'' ''invalid_json'')
      | Some v \<Rightarrow> Inr v)"

definition inspect_template_identity :: "host \<Rightarrow> string \<Rightarrow> string res" where
  "inspect_template_identity h source =
     bindE (template_sections source) (\<lambda>sections.
     bindE (section_json h sections ''___INFO___'' ''null'') (\<lambda>info.
     (let native = get_or_null (dict_of info) ''id'' in
      if is_text native \<and> native_template_type (text_of native) then Inr (text_of native)
      else Inl (ValueError
        ''Installed template INFO.id must establish its native cvt consumer type''))))"

definition field_shape :: "json \<Rightarrow> json" where
  "field_shape field_type =
     (if field_type \<in> JStr ` {''TEXT'', ''SELECT'', ''RADIO''} then JStr ''template''
      else if field_type = JStr ''CHECKBOX'' then JStr ''boolean''
      else if field_type \<in> JStr ` {''SIMPLE_TABLE'', ''PARAM_TABLE''} then JStr ''list''
      else JNull)"

definition inspect_input :: "dict \<Rightarrow> dict \<Rightarrow> dict res" where
  "inspect_input types field =
     (let field_type = get_or_null field ''type'' in
      if is_dict field_type \<or> is_list field_type then Inl (OtherError ''unhashable type'')
      else (case get_or_null field ''name'' of
        JStr name \<Rightarrow> if name = [] \<or> has_key types name
          then Inl (ValueError ''Template input requires a unique native field name'')
          else Inr (dset types name (field_shape field_type))
      | _ \<Rightarrow> Inl (ValueError ''Template input requires a unique native field name'')))"

function inspect_fields :: "dict \<Rightarrow> json \<Rightarrow> dict res" where
  "inspect_fields types v =
     (case v of
        JArr rows \<Rightarrow> foldE (\<lambda>types field.
          (case field of
             JObj f \<Rightarrow>
               if get_or_null f ''type'' = JStr ''GROUP''
               then (case map_of f ''subParams'' of
                       None \<Rightarrow> Inr types | Some sub \<Rightarrow> inspect_fields types sub)
               else if get_or_null f ''type'' = JStr ''LABEL'' then Inr types
               else inspect_input types f
           | _ \<Rightarrow> Inl (ValueError ''Template field definition must be an object''))) types rows
      | _ \<Rightarrow> Inl (ValueError ''Template parameters must be native field definitions''))"
  by pat_completeness auto
termination
proof (relation "measure (\<lambda>(t, v). size v)")
  fix types :: dict and v rows types' x f sub
  assume "v = JArr rows" "x \<in> set rows" "x = JObj f" "map_of f ''subParams'' = Some sub"
  then show "((types', sub), types, v) \<in> measure (\<lambda>(t, v). size v)"
    using size_obj_value [of f "''subParams''" sub] size_arr_item [of x rows] by simp
qed simp

declare inspect_fields.simps [simp del]

definition inspect_template_source :: "host \<Rightarrow> string \<Rightarrow> json res" where
  "inspect_template_source h source =
     bindE (inspect_template_identity h source) (\<lambda>native_type.
     bindE (template_sections source) (\<lambda>sections.
     bindE (section_json h sections ''___TEMPLATE_PARAMETERS___'' ''[]'') (\<lambda>rows.
     bindE (inspect_fields [] rows) (\<lambda>parameter_types.
       Inr (JObj ([(''native_type'', JStr native_type), (''parameter_types'', JObj parameter_types)]
              @ dict_of (template_source_integrity h source)))))))"

section \<open>Rendering the sections back\<close>

text \<open>
  A template with one line per header: splitting it returns exactly the bodies, whatever the
  text before the first header.
\<close>

definition plain_text :: "string \<Rightarrow> bool" where
  "plain_text s \<longleftrightarrow> CHR 0x0D \<notin> set s \<and> list_all (\<lambda>l. section_header l = None) (split_lines s)"

fun render_sections :: "(string \<times> string) list \<Rightarrow> string" where
  "render_sections [] = []"
| "render_sections ((h, b) # ss) = CHR 0x0A # h @ CHR 0x0A # b @ render_sections ss"

lemma split_lines_neq [simp]: "split_lines s \<noteq> []"
  by (induction s) (auto split: list.splits)

lemma split_lines_append:
  "split_lines (s @ CHR 0x0A # t) = split_lines s @ split_lines t"
  by (induction s) (auto split: list.splits)

lemma split_lines_single: "CHR 0x0A \<notin> set s \<Longrightarrow> split_lines s = [s]"
  by (induction s) auto

lemma replace_crlf_plain: "CHR 0x0D \<notin> set s \<Longrightarrow> replace_crlf s = s"
  by (induction s rule: replace_crlf.induct) auto

fun join_lines :: "string list \<Rightarrow> string" where
  "join_lines [] = []"
| "join_lines (l # ls) = CHR 0x0A # l @ join_lines ls"

lemma join_lines_split: "join_lines (split_lines s) = CHR 0x0A # s"
  by (induction s) (auto split: list.splits)

lemma section_bodies_plain:
  "list_all (\<lambda>l. section_header l = None) ls \<Longrightarrow>
   section_bodies (ls @ rest) = (join_lines ls @ fst (section_bodies rest), snd (section_bodies rest))"
  by (induction ls) (auto split: prod.splits)

lemma header_line: "is_header t \<Longrightarrow> section_header t = Some t"
proof -
  assume t: "is_header t"
  then have "t \<noteq> []" "list_all header_char (rev t)" by (auto simp: is_header_def)
  then have "dropWhile (\<lambda>c. c = CHR '' '' \<or> c = CHR 0x09) (rev t) = rev t"
    by (cases "rev t") (auto simp: header_char_def)
  then show ?thesis using t by (simp add: section_header_def)
qed

lemma lstrip_newline: "lstrip (CHR 0x0A # s) = lstrip s"
  by (simp add: lstrip_def is_space_def)

lemma lstrip_snoc_newline:
  "lstrip (s @ [CHR 0x0A]) = (if lstrip s = [] then [] else lstrip s @ [CHR 0x0A])"
  by (induction s) (auto simp: lstrip_def is_space_def)

lemma strip_newlines:
  "strip (CHR 0x0A # s) = strip s" "strip (s @ [CHR 0x0A]) = strip s"
  by (auto simp: strip_def lstrip_newline lstrip_snoc_newline)

lemma section_bodies_render:
  assumes "list_all (\<lambda>(h, b). is_header h \<and> plain_text b) ss" and "plain_text pre"
  shows "\<exists>tail. snd (section_bodies (split_lines (pre @ render_sections ss))) =
      map (\<lambda>((h, b), t). (h, CHR 0x0A # b @ t)) (zip ss tail) \<and> length tail = length ss \<and>
      set tail \<subseteq> {[], [CHR 0x0A]} \<and>
      fst (section_bodies (split_lines (pre @ render_sections ss))) =
        CHR 0x0A # pre @ (if ss = [] then [] else [CHR 0x0A])"
  using assms
proof (induction ss arbitrary: pre)
  case Nil
  then have "section_bodies (split_lines pre) = (join_lines (split_lines pre), [])"
    using section_bodies_plain [of "split_lines pre" "[]"] by (simp add: plain_text_def)
  then show ?case by (simp add: join_lines_split)
next
  case (Cons hb ss)
  obtain h b where hb: "hb = (h, b)" by (cases hb)
  have h: "section_header h = Some h" "CHR 0x0A \<notin> set h" and b: "plain_text b"
    using Cons.prems(1) by (auto simp: hb header_line is_header_def list_all_iff header_char_def)
  from Cons.IH [OF _ b] Cons.prems(1) obtain tail where tail:
    "snd (section_bodies (split_lines (b @ render_sections ss))) =
       map (\<lambda>((h, b), t). (h, CHR 0x0A # b @ t)) (zip ss tail)"
    "length tail = length ss" "set tail \<subseteq> {[], [CHR 0x0A]}"
    "fst (section_bodies (split_lines (b @ render_sections ss))) =
       CHR 0x0A # b @ (if ss = [] then [] else [CHR 0x0A])" by auto
  have lines: "split_lines (pre @ render_sections (hb # ss)) =
      split_lines pre @ h # split_lines (b @ render_sections ss)"
    by (simp add: hb split_lines_append split_lines_single [OF h(2)])
  have bodies: "section_bodies (split_lines (pre @ render_sections (hb # ss))) =
      (join_lines (split_lines pre) @ [CHR 0x0A],
       (h, CHR 0x0A # b @ (if ss = [] then [] else [CHR 0x0A])) #
         map (\<lambda>((h, b), t). (h, CHR 0x0A # b @ t)) (zip ss tail))"
    unfolding lines using Cons.prems(2) tail(1,4)
    by (subst section_bodies_plain) (simp_all add: plain_text_def h(1) case_prod_beta)
  show ?case
    unfolding bodies
    by (rule exI [of _ "(if ss = [] then [] else [CHR 0x0A]) # tail"])
       (use tail(2,3) in \<open>simp add: hb join_lines_split\<close>)
qed

lemma header_char_control [simp]: "\<not> header_char (CHR 0x0D)" "\<not> header_char (CHR 0x0A)"
  by (simp_all add: header_char_def)

lemma replace_crlf_render:
  "list_all (\<lambda>(h, b). is_header h \<and> plain_text b) ss \<Longrightarrow> CHR 0x0D \<notin> set (render_sections ss)"
  by (induction ss) (auto simp: plain_text_def is_header_def list_all_iff, metis header_char_control(1))

lemma template_sections_render:
  assumes "list_all (\<lambda>(h, b). is_header h \<and> plain_text b) ss" and "plain_text pre"
    and "ss \<noteq> []" and "distinct (keys ss)"
  shows "\<exists>sections. template_sections (pre @ render_sections ss) = Inr sections \<and>
    map (\<lambda>(h, b). (h, strip b)) sections = map (\<lambda>(h, b). (h, strip b)) ss"
proof -
  from section_bodies_render [OF assms(1,2)] obtain tail where tail:
    "snd (section_bodies (split_lines (pre @ render_sections ss))) =
       map (\<lambda>((h, b), t). (h, CHR 0x0A # b @ t)) (zip ss tail)"
    "length tail = length ss" "set tail \<subseteq> {[], [CHR 0x0A]}" by blast
  let ?secs = "map (\<lambda>((h, b), t). (h, CHR 0x0A # b @ t)) (zip ss tail)"
  have "map fst ?secs = map (fst \<circ> fst) (zip ss tail)" by (simp add: case_prod_beta comp_def)
  also have "\<dots> = keys ss" using tail(2) by (metis length_map map_fst_zip map_map)
  finally have keys: "keys ?secs = keys ss" .
  have "CHR 0x0D \<notin> set (pre @ render_sections ss)"
    using replace_crlf_render [OF assms(1)] assms(2) by (simp add: plain_text_def)
  then have "template_sections (pre @ render_sections ss) = Inr ?secs"
    using assms(3,4) tail(2) keys
    by (auto simp: template_sections_def Let_def replace_crlf_plain tail(1) length_0_conv)
  moreover have "map (\<lambda>(h, b). (h, strip b)) ?secs = map (\<lambda>(h, b). (h, strip b)) ss"
  proof (rule nth_equalityI)
    fix i assume "i < length (map (\<lambda>(h, b). (h, strip b)) ?secs)"
    then have i: "i < length ss" "i < length tail" using tail(2) by simp_all
    then have "tail ! i \<in> {[], [CHR 0x0A]}" using tail(3) nth_mem by blast
    then have "strip (CHR 0x0A # b @ tail ! i) = strip b" for b
      by (auto simp: strip_newlines simp del: append_Cons append_Nil)
    then show "map (\<lambda>(h, b). (h, strip b)) ?secs ! i = map (\<lambda>(h, b). (h, strip b)) ss ! i"
      using i by (simp add: case_prod_beta)
  qed (use tail(2) in simp)
  ultimately show ?thesis by blast
qed

end
