(* ===== verification/PublicIdentifiers.thy ===== *)
theory PublicIdentifiers
  imports TemplateSource
begin

text \<open>
  \<^verbatim>\<open>core/public_identifiers.py\<close>: declarations that exempt an exact literal of an
  exact native field from redaction, because inspected evidence shows it to be a public
  identifier. Declarations are validated before a document is accepted; afterwards
  \<open>public_identifier_paths\<close> resolves them in a value that is to be redacted. A list stands
  for the set of paths.
\<close>

section \<open>Locating a field\<close>

definition unhashable :: "json \<Rightarrow> bool" where
  "unhashable v = (is_dict v \<or> is_list v)"

text \<open>\<^verbatim>\<open>value[part]\<close> on a sequence: a negative index counts from the end.\<close>

definition index_of :: "nat \<Rightarrow> int \<Rightarrow> nat option" where
  "index_of n i = (if 0 \<le> i \<and> i < int n then Some (nat i)
     else if i < 0 \<and> 0 \<le> i + int n then Some (nat (i + int n)) else None)"

definition keyed_index :: "json list \<Rightarrow> string \<Rightarrow> int option" where
  "keyed_index xs part =
     (case map fst (filter (\<lambda>(i, x). is_dict x \<and> get_or_null (dict_of x) ''key'' = JStr part) (enumerate 0 xs)) of
        [i] \<Rightarrow> Some (int i) | _ \<Rightarrow> None)"

text \<open>One step: the part as it is recorded and the value there, or the exception the callers
  catch.\<close>

definition locate_step :: "json \<Rightarrow> json \<Rightarrow> (string \<times> json) option" where
  "locate_step value part = (case (value, part) of
     (JObj d, JStr k) \<Rightarrow> map_option (\<lambda>v. (''.'' @ k, v)) (dget d k)
   | (JArr xs, JStr k) \<Rightarrow> (case keyed_index xs k of None \<Rightarrow> None
       | Some i \<Rightarrow> Some (''['' @ show_int i @ '']'', xs ! nat i))
   | (JArr xs, JInt i) \<Rightarrow> map_option (\<lambda>n. (''['' @ show_int i @ '']'', xs ! n)) (index_of (length xs) i)
   | (JStr s, JInt i) \<Rightarrow> map_option (\<lambda>n. (''['' @ show_int i @ '']'', JStr [s ! n])) (index_of (length s) i)
   | _ \<Rightarrow> None)"

fun locate_from :: "json \<Rightarrow> json list \<Rightarrow> (json \<times> string) option" where
  "locate_from value [] = Some (value, [])"
| "locate_from value (part # path) = (case locate_step value part of
     None \<Rightarrow> None
   | Some (shown, v) \<Rightarrow> map_option (\<lambda>(w, suffix). (w, shown @ suffix)) (locate_from v path))"

text \<open>The parts of a path, which is iterated whatever it is.\<close>

definition path_parts :: "json \<Rightarrow> json list option" where
  "path_parts path = (case path of
     JArr ps \<Rightarrow> Some ps | JStr s \<Rightarrow> Some (map (\<lambda>c. JStr [c]) s)
   | JObj d \<Rightarrow> Some (map JStr (keys d)) | _ \<Rightarrow> None)"

definition locate :: "json \<Rightarrow> json \<Rightarrow> (json \<times> string) option" where
  "locate value path = (case path_parts path of None \<Rightarrow> None | Some ps \<Rightarrow> locate_from value ps)"

section \<open>Matching a literal\<close>

definition matches_digest :: "host \<Rightarrow> json \<Rightarrow> json \<Rightarrow> bool" where
  "matches_digest h value digest = (case value of JStr s \<Rightarrow> digest = JStr (h_sha256 h s) | _ \<Rightarrow> False)"

definition template_path :: json where
  "template_path = JArr [JStr ''templateData'']"

definition template_class :: json where
  "template_class = JStr ''inspected-template-source''"

text \<open>\<^verbatim>\<open>declaration["path"]\<close>.\<close>

definition required_field :: "dict \<Rightarrow> string \<Rightarrow> json res" where
  "required_field d k = (case dget d k of None \<Rightarrow> Inl (KeyError k) | Some v \<Rightarrow> Inr v)"

text \<open>\<^verbatim>\<open>(record.get(field) or {}).get("templateData")\<close>.\<close>

definition template_of :: "dict \<Rightarrow> string \<Rightarrow> json res" where
  "template_of record field =
     (let v = get_or_null record field in
      if \<not> truthy v then Inr JNull
      else (case v of JObj d \<Rightarrow> Inr (get_or_null d ''templateData'')
        | _ \<Rightarrow> Inl (OtherError ''no attribute get'')))"

definition same_template :: "host \<Rightarrow> string \<Rightarrow> json \<Rightarrow> bool" where
  "same_template h literal source = (case source of
     JStr s \<Rightarrow> canonical_template_source h literal = canonical_template_source h s | _ \<Rightarrow> False)"

definition matches_reviewed_template :: "host \<Rightarrow> json \<Rightarrow> dict \<Rightarrow> dict \<Rightarrow> bool res" where
  "matches_reviewed_template h literal record declaration =
     (if get_or_null declaration ''classification'' \<noteq> template_class then Inr False
      else bindE (required_field declaration ''path'') (\<lambda>path.
       (case literal of
          JStr text \<Rightarrow> if path \<noteq> template_path then Inr False else
            bindE (template_of record ''intended'') (\<lambda>source.
            if matches_digest h source (get_or_null declaration ''value_sha256'') \<and> same_template h text source
            then Inr True
            else bindE (template_of record ''pre_change'') (\<lambda>source.
              Inr (matches_digest h source (get_or_null declaration ''previous_value_sha256'') \<and>
                same_template h text source)))
        | _ \<Rightarrow> Inr False)))"

section \<open>The exempted paths of a value\<close>

text \<open>The native fields a record declares: what it removes, or what it intends.\<close>

definition declared_native :: "dict \<Rightarrow> dict res" where
  "declared_native record =
     (case dget record (if get_or_null record ''action'' = JStr ''remove'' then ''pre_change'' else ''intended'') of
        None \<Rightarrow> Inr [] | Some (JObj d) \<Rightarrow> Inr d | Some _ \<Rightarrow> Inl (OtherError ''no attribute get''))"

definition record_names :: "dict \<Rightarrow> json list" where
  "record_names record = [get_or_null record ''name'',
     (case dget record ''new_name'' of None \<Rightarrow> get_or_null record ''name'' | Some n \<Rightarrow> n)]"

text \<open>
  Whether a record speaks of this object: same target, same name (or the only record, at the
  root of a value it was given for) and same native type.
\<close>

definition candidate_matches :: "bool \<Rightarrow> json \<Rightarrow> json \<Rightarrow> dict \<Rightarrow> dict \<Rightarrow> bool res" where
  "candidate_matches alone target name item record =
     (if target \<noteq> JNull \<and> \<not> py_eq (get_or_null record ''target_id'') target then Inr False
      else bindE (failE (list_ex unhashable (name # record_names record)) (OtherError ''unhashable type'')) (\<lambda>_.
        if \<not> list_ex (py_eq name) (record_names record) \<and> \<not> alone then Inr False
        else bindE (declared_native record) (\<lambda>native.
          Inr (py_eq (get_or_null item ''type'') (get_or_null native ''type'')))))"

definition matching_records :: "bool \<Rightarrow> json \<Rightarrow> json \<Rightarrow> dict \<Rightarrow> dict list \<Rightarrow> dict list res" where
  "matching_records alone target name item candidates =
     bindE (mapE (\<lambda>r. bindE (candidate_matches alone target name item r) (\<lambda>b.
       Inr (if b then [r] else []))) candidates) (\<lambda>rs. Inr (concat rs))"

text \<open>The path a declaration exempts at an object; an unresolved path exempts nothing.\<close>

definition declaration_path :: "host \<Rightarrow> string \<Rightarrow> dict \<Rightarrow> dict \<Rightarrow> json \<Rightarrow> string list res" where
  "declaration_path h here item record declaration = (case declaration of
     JObj d \<Rightarrow> (case dget d ''path'' of
         None \<Rightarrow> Inr []
       | Some path \<Rightarrow> (case locate (JObj item) path of
           None \<Rightarrow> Inr []
         | Some (literal, suffix) \<Rightarrow>
             bindE (required_field d ''value_sha256'') (\<lambda>digest.
             bindE (if list_ex (matches_digest h literal) [digest, get_or_null d ''previous_value_sha256'']
                 then Inr True else matches_reviewed_template h literal record d) (\<lambda>ok.
               Inr (if ok then [here @ suffix] else [])))))
   | _ \<Rightarrow> Inr [])"

definition declarations_of :: "dict \<Rightarrow> json list res" where
  "declarations_of record = (case get_or_null record ''public_identifiers'' of
     JArr ds \<Rightarrow> Inr ds | JStr s \<Rightarrow> Inr [] | JObj d \<Rightarrow> Inr [] | _ \<Rightarrow> Inl (OtherError ''not iterable''))"

definition object_paths :: "host \<Rightarrow> string \<Rightarrow> dict \<Rightarrow> dict list \<Rightarrow> string list res" where
  "object_paths h here item matches = (case matches of
     [record] \<Rightarrow> bindE (declarations_of record) (\<lambda>ds.
       bindE (mapE (declaration_path h here item record) ds) (\<lambda>ps. Inr (concat ps)))
   | _ \<Rightarrow> Inr [])"

text \<open>What an object says of itself, or else what was said around it.\<close>

definition own_field :: "dict \<Rightarrow> string \<Rightarrow> json \<Rightarrow> json" where
  "own_field d k outer = (case dget d k of None \<Rightarrow> outer | Some v \<Rightarrow> v)"

function walk_paths :: "host \<Rightarrow> bool \<Rightarrow> dict list \<Rightarrow> json \<Rightarrow> string \<Rightarrow> json \<Rightarrow> json \<Rightarrow> string list res" where
  "walk_paths h given candidates item here target name =
     (if is_dict item then
       bindE (matching_records (here = ''$'' \<and> given \<and> length candidates = 1)
         (own_field (dict_of item) ''target_id'' target) (own_field (dict_of item) ''name'' name)
         (dict_of item) candidates) (\<lambda>matches.
       bindE (object_paths h here (dict_of item) matches) (\<lambda>own.
       bindE (mapE (\<lambda>(k, v). walk_paths h given candidates v (key_path here k)
           (own_field (dict_of item) ''target_id'' target) (own_field (dict_of item) ''name'' name))
         (dict_of item)) (\<lambda>ps. Inr (own @ concat ps))))
     else if is_list item then
       bindE (mapE (\<lambda>(i, v). walk_paths h given candidates v (index_path here i) target name)
         (enumerate 0 (list_of item))) (\<lambda>ps. Inr (concat ps))
     else Inr [])"
  by pat_completeness auto
termination
  by (relation "measure (\<lambda>(h, given, candidates, item, here, target, name). size item)")
    (auto simp: is_dict_def is_list_def dict_of_def list_of_def split: json.splits
      intro: size_arr_enumerate size_dict_entry_pair)

declare walk_paths.simps [simp del]

text \<open>The records a value holds itself, when none are given.\<close>

definition own_records :: "json \<Rightarrow> json list res" where
  "own_records value = (case value of
     JObj d \<Rightarrow> (case dget d ''object_changes'' of
         Some v \<Rightarrow> Inr (list_of v)
       | None \<Rightarrow> (case dget d ''implementation'' of
           Some (JObj i) \<Rightarrow> Inr (list_of (get_or_null i ''objects''))
         | Some _ \<Rightarrow> Inl (OtherError ''no attribute get'')
         | None \<Rightarrow> Inr (list_of (get_or_null d ''objects'') @ list_of (get_or_null d ''reuse_candidates''))))
   | _ \<Rightarrow> Inr [])"

definition declaring :: "json list \<Rightarrow> dict list res" where
  "declaring records = bindE (mapE (\<lambda>r. (case r of
       JObj d \<Rightarrow> Inr (if truthy (get_or_null d ''public_identifiers'') then [d] else [])
     | _ \<Rightarrow> Inl (OtherError ''no attribute get''))) records) (\<lambda>rs. Inr (concat rs))"

definition public_identifier_paths :: "host \<Rightarrow> json list option \<Rightarrow> json \<Rightarrow> string list res" where
  "public_identifier_paths h records value =
     bindE (case records of Some rs \<Rightarrow> Inr rs | None \<Rightarrow> own_records value) (\<lambda>rs.
     bindE (declaring rs) (\<lambda>candidates.
     if candidates = [] then Inr []
     else walk_paths h (records \<noteq> None) candidates value ''$'' JNull JNull))"

section \<open>The scheme of a URL\<close>

text \<open>
  \<^verbatim>\<open>urlsplit(url).scheme\<close>: leading control characters and spaces are dropped, tabs and
  newlines removed; the scheme is the lowered text before the first colon when it starts with
  a letter and holds scheme characters only.
\<close>

definition scheme_char :: "char \<Rightarrow> bool" where
  "scheme_char c = (is_alnum c \<or> c \<in> {CHR ''+'', CHR ''-'', CHR ''.''})"

definition url_text :: "string \<Rightarrow> string" where
  "url_text url = filter (\<lambda>c. c \<notin> {CHR 0x09, CHR 0x0A, CHR 0x0D})
     (dropWhile (\<lambda>c. (of_char c :: nat) \<le> 32) url)"

definition url_scheme :: "string \<Rightarrow> string" where
  "url_scheme url =
     (let text = url_text url; head = takeWhile (\<lambda>c. c \<noteq> CHR '':'') text in
      if head \<noteq> [] \<and> length head < length text \<and> is_alpha (hd head) \<and> list_all scheme_char head
      then casefold head else [])"

section \<open>Validating declarations\<close>

text \<open>The addresses of the recorded official evidence.\<close>

definition evidence_source :: "json \<Rightarrow> json list res" where
  "evidence_source item = (case item of
     JObj d \<Rightarrow>
       if has_key d ''url'' \<or> get_or_null d ''grade'' = JStr ''official-current'' then
         (let v = (case dget d ''url'' of None \<Rightarrow> get_or_null d ''locator'' | Some u \<Rightarrow> u) in
          if unhashable v then Inl (OtherError ''unhashable type'') else Inr [v])
       else Inr []
   | _ \<Rightarrow> Inl (OtherError ''no attribute get''))"

definition evidence_sources :: "dict \<Rightarrow> json list res" where
  "evidence_sources document =
     bindE (mapE evidence_source (list_of (case dget document ''official_sources'' of
         None \<Rightarrow> get_or_null document ''evidence'' | Some v \<Rightarrow> v))) (\<lambda>rs. Inr (concat rs))"

definition identifier_char :: "char \<Rightarrow> bool" where
  "identifier_char c = (is_alnum c \<or> c = CHR ''_'')"

definition path_part :: "json \<Rightarrow> bool" where
  "path_part part = (case part of
     JInt i \<Rightarrow> 0 \<le> i
   | JStr s \<Rightarrow> s \<noteq> [] \<and> \<not> is_digit (hd s) \<and> list_all identifier_char s
   | _ \<Rightarrow> False)"

definition protected_fields :: "json list" where
  "protected_fields = map JStr [''name'', ''type'', ''notes'', ''fingerprint'', ''accountId'',
     ''containerId'', ''workspaceId'']"

definition native_path :: "json \<Rightarrow> bool" where
  "native_path path = (case path of
     JArr (p # ps) \<Rightarrow> list_all path_part (p # ps) \<and> p \<notin> set protected_fields
   | _ \<Rightarrow> False)"

definition proved_by_source :: "json \<Rightarrow> json \<Rightarrow> bool" where
  "proved_by_source literal digest = (case literal of
     JObj d \<Rightarrow> valid_source_integrity (get_or_null d ''source_integrity'') \<and>
       jget (get_or_null d ''source_integrity'') ''source_sha256'' = Some digest
   | _ \<Rightarrow> False)"

text \<open>The literal at the path of a record's own fields, bound by a digest.\<close>

definition bound_literal :: "host \<Rightarrow> bool \<Rightarrow> json \<Rightarrow> json \<Rightarrow> bool" where
  "bound_literal h fixture literal digest \<longleftrightarrow>
     matches_digest h literal digest \<or> fixture \<and> proved_by_source literal digest"

definition variable_literal :: "json \<Rightarrow> bool" where
  "variable_literal v = (case v of JStr s \<Rightarrow> starts_with (strip s) ''{{'' | _ \<Rightarrow> False)"

definition record_family :: "dict \<Rightarrow> json" where
  "record_family record = (if truthy (get_or_null record ''resource_family'')
     then get_or_null record ''resource_family'' else get_or_null record ''object_type'')"

definition shape_checks :: "dict \<Rightarrow> json list \<Rightarrow> dict \<Rightarrow> json \<Rightarrow> unit res" where
  "shape_checks record seen d path =
     (let fixture = (get_or_null d ''classification'' = template_class) in seqE
      [failE (has_key d ''classification'' \<and> \<not> fixture)
         (ValueError ''Unsupported public source classification''),
       failE (fixture \<and> (path \<noteq> template_path \<or> record_family record \<noteq> JStr ''template''))
         (ValueError ''Template fixtures must bind the exact templateData source''),
       failE (path = template_path \<and> \<not> fixture)
         (ValueError ''Template source requires inspected-template-source classification''),
       failE (\<not> native_path path) (ValueError ''public identifier path must name one native value field''),
       failE (path \<in> set seen) (ValueError ''duplicate public identifier path'')])"

definition native_value :: "dict \<Rightarrow> json option" where
  "native_value record = (if get_or_null record ''action'' = JStr ''remove''
     then dget record ''pre_change'' else dget record ''intended'')"

text \<open>A field that does not exist, and one that cannot be located, are the same error.\<close>

definition located :: "json option \<Rightarrow> json \<Rightarrow> string \<Rightarrow> json res" where
  "located native path message = (case native of
     None \<Rightarrow> Inl (ValueError message)
   | Some v \<Rightarrow> (case locate v path of None \<Rightarrow> Inl (ValueError message) | Some (w, _) \<Rightarrow> Inr w))"

definition has_native_type :: "json option \<Rightarrow> bool res" where
  "has_native_type native = (case native of
     Some (JObj d) \<Rightarrow> Inr (is_text (get_or_null d ''type''))
   | _ \<Rightarrow> Inl (OtherError ''no attribute get''))"

definition previous_checks :: "host \<Rightarrow> dict \<Rightarrow> bool \<Rightarrow> dict \<Rightarrow> json \<Rightarrow> unit res" where
  "previous_checks h record fixture d path = (case dget d ''previous_value_sha256'' of
     None \<Rightarrow> Inr ()
   | Some previous \<Rightarrow>
       bindE (located (dget record ''pre_change'') path
         ''previous public identifier needs the matching pre_change field'') (\<lambda>value.
       failE (\<not> hex64 previous \<or> \<not> bound_literal h fixture value previous)
         (ValueError ''previous public identifier digest must bind pre_change'')))"

definition reason_checks :: "json list \<Rightarrow> dict \<Rightarrow> unit res" where
  "reason_checks sources d =
     bindE (required_field d ''source_url'') (\<lambda>url.
     bindE (failE (\<not> (case url of JStr u \<Rightarrow> url \<in> set sources \<and> url_scheme u = ''https'' | _ \<Rightarrow> False))
       (ValueError ''public identifier source_url must reference recorded official-current evidence'')) (\<lambda>_.
     bindE (required_field d ''reason'') (\<lambda>reason.
     failE (\<not> nonblank_text reason)
       (ValueError ''public identifier classification needs its inspected field purpose''))))"

text \<open>One declaration of a record; the paths seen so far and its own.\<close>

definition declaration_checks ::
  "host \<Rightarrow> json list \<Rightarrow> dict \<Rightarrow> json list \<Rightarrow> json \<Rightarrow> json list res" where
  "declaration_checks h sources record seen declaration =
     bindE (failE (h_schema_error h ''publicIdentifier'' declaration \<noteq> None)
       (ValueError ''public identifier needs exact path, value_sha256, source_url and reason'')) (\<lambda>_.
     bindE (case declaration of JObj d \<Rightarrow> Inr d | _ \<Rightarrow> Inl (OtherError ''not subscriptable'')) (\<lambda>d.
     (let native = native_value record;
          fixture = (get_or_null d ''classification'' = template_class) in
     bindE (required_field d ''path'') (\<lambda>path.
     bindE (shape_checks record seen d path) (\<lambda>_.
     bindE (required_field d ''value_sha256'') (\<lambda>digest.
     bindE (failE (\<not> hex64 digest)
       (ValueError ''public identifier value_sha256 must be a lowercase SHA-256 digest'')) (\<lambda>_.
     bindE (located native path ''public identifier path does not resolve in intended native fields'') (\<lambda>literal.
     bindE (failE (\<not> bound_literal h fixture literal digest \<or> \<not> truthy literal \<or> variable_literal literal)
       (ValueError ''public identifier declaration must bind the exact intended literal'')) (\<lambda>_.
     bindE (if fixture then Inr True else has_native_type native) (\<lambda>typed.
     bindE (failE (\<not> typed)
       (ValueError ''public identifier classification needs the inspected native type'')) (\<lambda>_.
     bindE (previous_checks h record fixture d path) (\<lambda>_.
     bindE (reason_checks sources d) (\<lambda>_. Inr (path # seen))))))))))))))"

definition record_declarations :: "host \<Rightarrow> json list \<Rightarrow> json \<Rightarrow> unit res" where
  "record_declarations h sources record = (case record of
     JObj r \<Rightarrow> (case (case dget r ''public_identifiers'' of None \<Rightarrow> JArr [] | Some v \<Rightarrow> v) of
         JArr ds \<Rightarrow> bindE (foldE (declaration_checks h sources r) [] ds) (\<lambda>_. Inr ())
       | _ \<Rightarrow> Inl (ValueError ''public_identifiers must be an array''))
   | _ \<Rightarrow> Inl (OtherError ''no attribute get''))"

definition validate_public_identifiers :: "host \<Rightarrow> json \<Rightarrow> unit res" where
  "validate_public_identifiers h document =
     bindE (evidence_sources (dict_of document)) (\<lambda>sources.
     bindE (own_records document) (\<lambda>records. forE records (record_declarations h sources)))"

section \<open>What is exempted\<close>

text \<open>The objects of a value with their paths.\<close>

inductive object_at :: "string \<Rightarrow> json \<Rightarrow> string \<Rightarrow> dict \<Rightarrow> bool" where
  at_root: "object_at here (JObj d) here d"
| at_field: "(k, v) \<in> set d \<Longrightarrow> object_at (key_path here k) v p e \<Longrightarrow> object_at here (JObj d) p e"
| at_item: "(i, v) \<in> set (enumerate 0 xs) \<Longrightarrow> object_at (index_path here i) v p e \<Longrightarrow>
    object_at here (JArr xs) p e"

inductive_cases object_at_JObjE: "object_at here (JObj d) p e"

lemma object_at_prefix: "object_at here v p e \<Longrightarrow> \<exists>s. p = here @ s"
  by (induction rule: object_at.induct) (auto simp: key_path_def index_path_def)

text \<open>A literal a declaration binds: by the digest of the intended or of the previous value,
  or as another form of the reviewed template source.\<close>

definition literal_declared :: "host \<Rightarrow> dict \<Rightarrow> dict \<Rightarrow> json \<Rightarrow> bool" where
  "literal_declared h owner d literal \<longleftrightarrow>
     (\<exists>digest. dget d ''value_sha256'' = Some digest \<and> matches_digest h literal digest) \<or>
     matches_digest h literal (get_or_null d ''previous_value_sha256'') \<or>
     matches_reviewed_template h literal owner d = Inr True"

text \<open>An exemption: an object of the value, the one record that matches it, a declaration of
  that record, and the literal it binds.\<close>

definition exempted :: "host \<Rightarrow> dict list \<Rightarrow> json \<Rightarrow> string \<Rightarrow> bool" where
  "exempted h records v p \<longleftrightarrow> (\<exists>here item owner d path literal suffix native.
     object_at ''$'' v here item \<and> owner \<in> set records \<and> declared_native owner = Inr native \<and>
     py_eq (get_or_null item ''type'') (get_or_null native ''type'') \<and>
     JObj d \<in> set (list_of (get_or_null owner ''public_identifiers'')) \<and> dget d ''path'' = Some path \<and>
     locate (JObj item) path = Some (literal, suffix) \<and> literal_declared h owner d literal \<and> p = here @ suffix)"

lemma candidate_matches_True:
  assumes "candidate_matches alone target name item owner = Inr True"
  shows "\<exists>native. declared_native owner = Inr native \<and> py_eq (get_or_null item ''type'') (get_or_null native ''type'')"
  using assms by (auto simp: candidate_matches_def bindE_Inr_iff split: if_splits)

lemma matching_records_member:
  assumes "matching_records alone target name item candidates = Inr ms" and "owner \<in> set ms"
  shows "owner \<in> set candidates \<and> candidate_matches alone target name item owner = Inr True"
proof -
  obtain rs where rs: "mapE (\<lambda>r. bindE (candidate_matches alone target name item r) (\<lambda>b.
       Inr (if b then [r] else []))) candidates = Inr rs" "ms = concat rs"
    using assms(1) by (auto simp: matching_records_def bindE_Inr_iff)
  obtain xs where xs: "xs \<in> set rs" "owner \<in> set xs" using assms(2) rs(2) by auto
  from mapE_member [OF rs(1) xs(1)] obtain r b where r: "r \<in> set candidates"
      "candidate_matches alone target name item r = Inr b" "xs = (if b then [r] else [])"
    by (auto simp: bindE_Inr_iff)
  then have "b \<and> owner = r" using xs(2) by (cases b) simp_all
  then show ?thesis using r(1,2) by simp
qed

lemma declaration_path_member:
  assumes "declaration_path h here item owner entry = Inr ps" and "p \<in> set ps"
  shows "\<exists>d path literal suffix. entry = JObj d \<and> dget d ''path'' = Some path \<and>
    locate (JObj item) path = Some (literal, suffix) \<and> literal_declared h owner d literal \<and> p = here @ suffix"
proof -
  obtain d where d: "entry = JObj d" using assms by (cases entry) (simp_all add: declaration_path_def)
  obtain path where path: "dget d ''path'' = Some path"
    using assms by (cases "dget d ''path''") (simp_all add: declaration_path_def d)
  obtain literal suffix where l: "locate (JObj item) path = Some (literal, suffix)"
    using assms by (cases "locate (JObj item) path") (auto simp: declaration_path_def d path)
  obtain digest ok where digest: "dget d ''value_sha256'' = Some digest"
    and ok: "(if list_ex (matches_digest h literal) [digest, get_or_null d ''previous_value_sha256''] then Inr True
       else matches_reviewed_template h literal owner d) = Inr ok" and ps: "ps = (if ok then [here @ suffix] else [])"
    using assms(1) unfolding declaration_path_def d json.case path option.case l prod.case bindE_Inr_iff
      required_field_def by (cases "dget d ''value_sha256''") auto
  have p: "ok" "p = here @ suffix" using assms(2) ps by (cases ok; simp)+
  have "literal_declared h owner d literal"
    using ok p(1) digest unfolding literal_declared_def by (simp split: if_splits) blast
  then show ?thesis using d path l p(2) by blast
qed

lemma object_paths_member:
  assumes "object_paths h here item ms = Inr ps" and "p \<in> set ps"
  shows "\<exists>owner d path literal suffix. ms = [owner] \<and> JObj d \<in> set (list_of (get_or_null owner ''public_identifiers'')) \<and>
    dget d ''path'' = Some path \<and> locate (JObj item) path = Some (literal, suffix) \<and>
    literal_declared h owner d literal \<and> p = here @ suffix"
proof -
  obtain owner where ms: "ms = [owner]"
    using assms by (auto simp: object_paths_def split: list.splits)
  obtain ds qs where ds: "declarations_of owner = Inr ds"
    and qs: "mapE (declaration_path h here item owner) ds = Inr qs" "ps = concat qs"
    using assms(1) by (auto simp: object_paths_def ms bindE_Inr_iff)
  obtain q where "q \<in> set qs" "p \<in> set q" using assms(2) qs(2) by auto
  then obtain entry where decl: "entry \<in> set ds" "declaration_path h here item owner entry = Inr q"
    using mapE_member [OF qs(1)] by blast
  have "set ds \<subseteq> set (list_of (get_or_null owner ''public_identifiers''))"
    using ds by (auto simp: declarations_of_def list_of_def split: json.splits)
  then show ?thesis using declaration_path_member [OF decl(2) \<open>p \<in> set q\<close>] decl(1) ms by blast
qed

lemma walk_paths_leaf:
  "\<not> is_dict v \<Longrightarrow> \<not> is_list v \<Longrightarrow> walk_paths h given candidates v here target name = Inr []"
  by (subst walk_paths.simps) simp

lemma walk_paths_object:
  "walk_paths h given candidates v here target name = Inr ps \<Longrightarrow> p \<in> set ps \<Longrightarrow>
   \<exists>spot item owner d path literal suffix alone target name. object_at here v spot item \<and> owner \<in> set candidates \<and>
     candidate_matches alone target name item owner = Inr True \<and>
     JObj d \<in> set (list_of (get_or_null owner ''public_identifiers'')) \<and> dget d ''path'' = Some path \<and>
     locate (JObj item) path = Some (literal, suffix) \<and> literal_declared h owner d literal \<and> p = spot @ suffix"
proof (induction h given candidates v here target name arbitrary: ps rule: walk_paths.induct)
  case (1 h given candidates v here target name)
  show ?case
  proof (cases v)
    case (JObj d)
    have v: "is_dict v" "dict_of v = d" by (simp_all add: JObj is_dict_def dict_of_def)
    let ?target = "own_field d ''target_id'' target" and ?name = "own_field d ''name'' name"
    let ?alone = "here = ''$'' \<and> given \<and> length candidates = 1"
    let ?walk = "\<lambda>(k, v). walk_paths h given candidates v (key_path here k) ?target ?name"
    obtain ms own qs where ms: "matching_records ?alone ?target ?name d candidates = Inr ms"
      and own: "object_paths h here d ms = Inr own" and qs: "mapE ?walk d = Inr qs" and ps: "ps = own @ concat qs"
      using "1.prems"(1) by (auto simp: walk_paths.simps [of h given candidates "JObj d"] JObj is_dict_def dict_of_def bindE_Inr_iff)
    show ?thesis
    proof (cases "p \<in> set own")
      case True
      from object_paths_member [OF own this] obtain owner e path literal suffix where
        o: "ms = [owner]" "JObj e \<in> set (list_of (get_or_null owner ''public_identifiers''))"
          "dget e ''path'' = Some path" "locate (JObj d) path = Some (literal, suffix)"
          "literal_declared h owner e literal" "p = here @ suffix" by blast
      have "owner \<in> set candidates \<and> candidate_matches ?alone ?target ?name d owner = Inr True"
        by (rule matching_records_member [OF ms]) (simp add: o(1))
      then show ?thesis using o at_root [of here d] unfolding JObj by blast
    next
      case False
      then obtain q where q: "q \<in> set qs" "p \<in> set q" using "1.prems"(2) ps by auto
      obtain kw where "kw \<in> set d" "?walk kw = Inr q" using mapE_member [OF qs q(1)] by blast
      then obtain k w where kw: "(k, w) \<in> set d" "?walk (k, w) = Inr q" by (metis surj_pair)
      have "walk_paths h given candidates w (key_path here k) ?target ?name = Inr q" using kw(2) by simp
      from "1.IH"(1) [unfolded v(2), OF v(1) ms own kw(1) refl this q(2)] at_field [OF kw(1)]
      show ?thesis unfolding JObj by blast
    qed
  next
    case (JArr xs)
    have v: "\<not> is_dict v" "is_list v" "list_of v = xs" by (simp_all add: JArr is_dict_def is_list_def list_of_def)
    let ?walk = "\<lambda>(i, v). walk_paths h given candidates v (index_path here i) target name"
    obtain qs where qs: "mapE ?walk (enumerate 0 xs) = Inr qs" and ps: "ps = concat qs"
      using "1.prems"(1) by (auto simp: walk_paths.simps [of h given candidates "JArr xs"] JArr is_dict_def is_list_def list_of_def bindE_Inr_iff)
    obtain q where q: "q \<in> set qs" "p \<in> set q" using "1.prems"(2) ps by auto
    obtain iw where "iw \<in> set (enumerate 0 xs)" "?walk iw = Inr q" using mapE_member [OF qs q(1)] by blast
    then obtain i w where iw: "(i, w) \<in> set (enumerate 0 xs)" "?walk (i, w) = Inr q" by (metis surj_pair)
    have "walk_paths h given candidates w (index_path here i) target name = Inr q" using iw(2) by simp
    from "1.IH"(2) [unfolded v(3), OF v(1,2) iw(1) refl this q(2)] at_item [OF iw(1)]
    show ?thesis unfolding JArr by blast
  qed (use "1.prems" in \<open>simp_all add: walk_paths_leaf is_dict_def is_list_def\<close>)
qed

lemma declaring_member:
  assumes "declaring rs = Inr ds" and "d \<in> set ds"
  shows "JObj d \<in> set rs"
proof -
  obtain xss where xss: "mapE (\<lambda>r. (case r of
       JObj d \<Rightarrow> Inr (if truthy (get_or_null d ''public_identifiers'') then [d] else [])
     | _ \<Rightarrow> Inl (OtherError ''no attribute get''))) rs = Inr xss" "ds = concat xss"
    using assms(1) by (auto simp: declaring_def bindE_Inr_iff)
  obtain xs where xs: "xs \<in> set xss" "d \<in> set xs" using assms(2) xss(2) by auto
  from mapE_member [OF xss(1) xs(1)] obtain r where r: "r \<in> set rs" "(case r of
       JObj d \<Rightarrow> Inr (if truthy (get_or_null d ''public_identifiers'') then [d] else [])
     | _ \<Rightarrow> Inl (OtherError ''no attribute get'')) = Inr xs" by blast
  have "r = JObj d" using r(2) xs(2) by (cases r) (auto split: if_splits)
  then show ?thesis using r(1) by simp
qed

lemma public_identifier_paths_exempted:
  assumes "public_identifier_paths h (Some rs) v = Inr ps" and "p \<in> set ps"
  shows "exempted h (map dict_of rs) v p"
proof -
  obtain ds where ds: "declaring rs = Inr ds"
    and walk: "walk_paths h True ds v ''$'' JNull JNull = Inr ps"
    using assms by (auto simp: public_identifier_paths_def bindE_Inr_iff split: if_splits)
  from walk_paths_object [OF walk assms(2)] obtain here item owner d path literal suffix alone target name where
    w: "object_at ''$'' v here item" "owner \<in> set ds" "candidate_matches alone target name item owner = Inr True"
      "JObj d \<in> set (list_of (get_or_null owner ''public_identifiers''))" "dget d ''path'' = Some path"
      "locate (JObj item) path = Some (literal, suffix)" "literal_declared h owner d literal" "p = here @ suffix"
    by blast
  have "owner \<in> set (map dict_of rs)" using declaring_member [OF ds w(2)] by (force simp: dict_of_def)
  moreover obtain native where "declared_native owner = Inr native"
    "py_eq (get_or_null item ''type'') (get_or_null native ''type'')"
    using candidate_matches_True [OF w(3)] by blast
  ultimately show ?thesis using w unfolding exempted_def by blast
qed

text \<open>An exempted path starts with a field of the value.\<close>

lemma literal_declared_text: "literal_declared h owner d literal \<Longrightarrow> \<exists>s. literal = JStr s"
  by (cases literal) (auto simp: literal_declared_def matches_digest_def matches_reviewed_template_def
      bindE_Inr_iff split: if_splits)

lemma locate_first:
  assumes "locate (JObj item) path = Some (JStr s, suffix)"
  shows "\<exists>k rest. k \<in> set (keys item) \<and> suffix = ''.'' @ k @ rest"
proof -
  obtain ps where ps: "locate_from (JObj item) ps = Some (JStr s, suffix)"
    using assms by (auto simp: locate_def split: option.splits)
  then obtain part rest where parts: "ps = part # rest" by (cases ps) auto
  then obtain shown v where step: "locate_step (JObj item) part = Some (shown, v)"
    using ps by (auto split: option.splits)
  then obtain k where k: "shown = ''.'' @ k" "dget item k = Some v"
    by (cases part) (auto simp: locate_step_def)
  then have "k \<in> set (keys item)" using map_of_in_keys [of k item] by (simp add: dget_def)
  then show ?thesis using ps parts step k by auto
qed

lemma exempted_under_field:
  assumes "exempted h owners (JObj d) p"
  shows "\<exists>k rest. k \<in> set (keys d) \<and> p = ''$.'' @ k @ rest"
proof -
  obtain here item owner e path literal suffix where o: "object_at ''$'' (JObj d) here item"
    "locate (JObj item) path = Some (literal, suffix)" "literal_declared h owner e literal" "p = here @ suffix"
    using assms unfolding exempted_def by blast
  consider "here = ''$''" "item = d" | k v where "(k, v) \<in> set d" "object_at (key_path ''$'' k) v here item"
    using o(1) by (auto elim: object_at_JObjE)
  then show ?thesis
  proof cases
    case 1
    obtain s where "literal = JStr s" using literal_declared_text [OF o(3)] by blast
    then have "locate (JObj item) path = Some (JStr s, suffix)" using o(2) by simp
    from locate_first [OF this] obtain k rest where k: "k \<in> set (keys item)" "suffix = ''.'' @ k @ rest" by blast
    then have "k \<in> set (keys d)" "p = ''$.'' @ k @ rest" using 1 o(4) by simp_all
    then show ?thesis by blast
  next
    case 2
    obtain s where "here = key_path ''$'' k @ s" using object_at_prefix [OF 2(2)] by blast
    then have "p = ''$.'' @ k @ (s @ suffix)" unfolding o(4) by (simp add: key_path_def)
    moreover have "k \<in> set (keys d)" using 2(1) by force
    ultimately show ?thesis by blast
  qed
qed

end
