(* ===== verification/Native.thy ===== *)
theory Native
  imports Model
begin

text \<open>
  \<^verbatim>\<open>comparison/native.py\<close>: normalisation of GTM object graphs (canonical native
  fields, server IDs replaced by semantic references) and their comparison. Python's depth
  limit is not modelled: normalisation is total on the values of the model.
\<close>

section \<open>Constants\<close>

definition root_metadata_keys :: "string list" where
  "root_metadata_keys = [''accountId'', ''containerId'', ''workspaceId'', ''path'',
     ''fingerprint'', ''tagManagerUrl'', ''tagId'', ''triggerId'', ''variableId'', ''clientId'',
     ''transformationId'', ''folderId'', ''templateId'', ''zoneId'', ''environmentId'',
     ''destinationLinkId'', ''gtagConfigId'', ''created_at'', ''updated_at'', ''createdAt'',
     ''updatedAt'', ''_meta'']"

definition set_like_keys :: "string list" where
  "set_like_keys = [''firingTriggerId'', ''blockingTriggerId'']"

definition reference_fields :: "(string \<times> string) list" where
  "reference_fields = [(''firingTriggerId'', ''triggerId''), (''blockingTriggerId'', ''triggerId''),
     (''parentFolderId'', ''folderId''), (''claimingClientId'', ''clientId''),
     (''transformationId'', ''transformationId'')]"

definition sequencing_keys :: "string list" where
  "sequencing_keys = [''setupTag'', ''teardownTag'']"

definition standalone_parameter_fields :: "string list" where
  "standalone_parameter_fields = [''checkValidation'', ''consentType'',
     ''continuousTimeMinMilliseconds'', ''convertFalseToValue'', ''convertNullToValue'',
     ''convertTrueToValue'', ''convertUndefinedToValue'', ''eventName'',
     ''horizontalScrollPercentageList'', ''interval'', ''intervalSeconds'', ''limit'',
     ''maxTimerLengthSeconds'', ''monitoringMetadata'', ''priority'', ''selector'',
     ''totalTimeMinMilliseconds'', ''uniqueTriggerId'', ''verticalScrollPercentageList'',
     ''visibilitySelector'', ''visiblePercentageMax'', ''visiblePercentageMin'', ''waitForTags'',
     ''waitForTagsTimeout'']"

definition graph_error :: "string \<Rightarrow> exn" where
  "graph_error m = GraphError m ''invalid_graph''"

section \<open>Canonical native fields\<close>

datatype param_mode = Keyed | Ordered

text \<open>The checks an element of a GTM Parameter array passes before it is normalised.\<close>

definition check_parameter ::
  "param_mode option \<Rightarrow> string \<Rightarrow> nat \<Rightarrow> json \<Rightarrow> json list \<Rightarrow> unit res" where
  "check_parameter mode path i item before =
     (case mode of
        None \<Rightarrow> Inr ()
      | Some m \<Rightarrow>
          if \<not> is_dict item then
            Inl (graph_error (index_path path i @ '' must be a GTM Parameter object''))
          else if m = Ordered then Inr ()
          else if \<not> nonblank_text (get_or_null (dict_of item) ''key'') then
            Inl (graph_error (index_path path i @ ''.key must be a non-empty string''))
          else if jget item ''key'' \<in> set (map (\<lambda>x. jget x ''key'') before) then
            Inl (graph_error (path @ '' contains duplicate GTM Parameter key '' @
                   py_repr (text_of (get_or_null (dict_of item) ''key''))))
          else Inr ())"

definition drop_default_priority :: "string option \<Rightarrow> dict \<Rightarrow> dict" where
  "drop_default_priority family d =
     (if family = Some ''client'' \<and> (dget d ''priority'' = None \<or> dget d ''priority'' = Some (JInt 0))
      then dpop d ''priority'' else d)"

definition omitted_field :: "bool \<Rightarrow> bool \<Rightarrow> string \<Rightarrow> json \<Rightarrow> bool" where
  "omitted_field tag_object native_object k v =
     (native_object \<and> k = ''parameter'' \<and> v = JArr [] \<or>
      tag_object \<and> k = ''consentSettings'' \<and> v = JObj [(''consentStatus'', JStr ''notSet'')])"

definition child_mode :: "string \<Rightarrow> json option \<Rightarrow> param_mode option" where
  "child_mode k parameter_type =
     (if k = ''parameter'' then Some Keyed
      else if k = ''map'' \<and> parameter_type = Some (JStr ''map'') then Some Keyed
      else if k = ''list'' \<and> parameter_type = Some (JStr ''list'') then Some Ordered
      else None)"

definition casefold_text :: "json \<Rightarrow> json" where
  "casefold_text v = (case v of JStr s \<Rightarrow> JStr (casefold s) | _ \<Rightarrow> v)"

text \<open>The server-side Google tag parameter that readback adds with its default.\<close>

definition drop_server_default ::
  "string option \<Rightarrow> container option \<Rightarrow> dict \<Rightarrow> dict \<Rightarrow> dict" where
  "drop_server_default family ctype raw out =
     (if family = Some ''tag'' \<and> ctype = Some Server \<and> dget raw ''type'' = Some (JStr ''sgtmgaaw'')
      then (case dget out ''parameter'' of
          Some (JArr rows) \<Rightarrow>
            (let kept = filter (\<lambda>row. \<not> py_eq row (JObj [(''type'', JStr ''boolean''),
                 (''key'', JStr ''isMeasurementIdMandatory''), (''value'', JStr ''false'')])) rows
             in if kept = [] then dpop out ''parameter'' else dset out ''parameter'' (JArr kept))
        | _ \<Rightarrow> out)
      else out)"

definition param_sort_key :: "json \<Rightarrow> string \<times> string" where
  "param_sort_key v = (text_of (get_or_null (dict_of v) ''key''), default_dumps v)"

definition order_items :: "param_mode option \<Rightarrow> string option \<Rightarrow> json list \<Rightarrow> json list" where
  "order_items mode parent items =
     (if mode = Some Keyed then sort_key param_sort_key items
      else if (case parent of Some k \<Rightarrow> k \<in> set set_like_keys | None \<Rightarrow> False)
      then sort_key default_dumps items
      else items)"

record canon_ctx =
  cx_parent :: "string option"
  cx_mode :: "param_mode option"
  cx_parameter :: bool
  cx_tag :: bool
  cx_native :: bool
  cx_family :: "string option"
  cx_container :: "container option"

definition child_ctx :: "string option \<Rightarrow> param_mode option \<Rightarrow> bool \<Rightarrow> canon_ctx" where
  "child_ctx parent mode parameter = \<lparr>cx_parent = parent, cx_mode = mode,
     cx_parameter = parameter, cx_tag = False, cx_native = False, cx_family = None,
     cx_container = None\<rparr>"

definition parameter_type_of :: "bool \<Rightarrow> dict \<Rightarrow> json option" where
  "parameter_type_of is_parameter d =
     (if is_parameter then map_option casefold_text (dget d ''type'') else dget d ''type'')"

definition ordered_item :: "param_mode option \<Rightarrow> json \<Rightarrow> json" where
  "ordered_item mode v = (case v of
     JObj d \<Rightarrow> if mode = Some Ordered then JObj (dpop d ''key'') else v | _ \<Rightarrow> v)"

lemma size_dpop: "size_list f (dpop d k) \<le> size_list f d"
  by (induction d) (auto simp: dpop_def)

lemma size_ordered_item: "size (ordered_item mode v) \<le> size v"
  by (cases v) (auto simp: ordered_item_def size_dpop)

lemma size_casefold_text [simp]: "size (casefold_text v) = size v"
  by (cases v) (simp_all add: casefold_text_def)

definition is_parameter_object :: "canon_ctx \<Rightarrow> bool" where
  "is_parameter_object cx = (cx_parameter cx \<or>
     (case cx_parent cx of Some k \<Rightarrow> k \<in> set standalone_parameter_fields | None \<Rightarrow> False))"

text \<open>The fields of a dictionary that are kept, in sorted order, and how each is visited.\<close>

definition kept_keys :: "canon_ctx \<Rightarrow> dict \<Rightarrow> string list" where
  "kept_keys cx d = filter (\<lambda>k. \<not> omitted_field (cx_tag cx) (cx_native cx) k (get_or_null d k))
     (sorted_set (keys d))"

definition field_ctx :: "canon_ctx \<Rightarrow> dict \<Rightarrow> string \<Rightarrow> canon_ctx" where
  "field_ctx cx d k = child_ctx (Some k)
     (child_mode k (parameter_type_of (is_parameter_object cx) d)) False"

definition field_value :: "canon_ctx \<Rightarrow> string \<Rightarrow> json \<Rightarrow> json" where
  "field_value cx k v = (if is_parameter_object cx \<and> k = ''type'' then casefold_text v else v)"

lemma size_field_value [simp]: "size (field_value cx k v) = size v"
  by (simp add: field_value_def)

function canonical_native_fields :: "canon_ctx \<Rightarrow> string \<Rightarrow> json \<Rightarrow> json res" where
  "canonical_native_fields cx path (JObj raw) =
     (let d = drop_default_priority (cx_family cx) raw
      in bindE (mapE (\<lambda>k. case map_of d k of
              None \<Rightarrow> Inr (k, JNull)
            | Some v \<Rightarrow>
                bindE (canonical_native_fields (field_ctx cx d k) (key_path path k)
                         (field_value cx k v))
                  (\<lambda>c. Inr (k, c)))
            (kept_keys cx d))
          (\<lambda>out. Inr (JObj (drop_server_default (cx_family cx) (cx_container cx) d out))))"
| "canonical_native_fields cx path (JArr xs) =
     bindE (mapE (\<lambda>(i, x). bindE (check_parameter (cx_mode cx) path i x (take i xs))
              (\<lambda>_. canonical_native_fields (child_ctx None None (cx_mode cx \<noteq> None))
                     (index_path path i) (ordered_item (cx_mode cx) x)))
            (enumerate 0 xs))
       (\<lambda>items. Inr (JArr (order_items (cx_mode cx) (cx_parent cx) items)))"
| "canonical_native_fields cx path JNull = Inr JNull"
| "canonical_native_fields cx path (JBool b) = Inr (JBool b)"
| "canonical_native_fields cx path (JInt n) = Inr (JInt n)"
| "canonical_native_fields cx path (JFloat f) = Inr (JFloat f)"
| "canonical_native_fields cx path (JStr s) = Inr (JStr s)"
  by pat_completeness auto
termination
proof (relation "measure (\<lambda>(cx, p, v). size v)", goal_cases)
  case 1
  then show ?case by simp
next
  case (2 cx path raw d k v)
  have "size v < size (JObj d)"
    using 2 by (intro size_obj_value)
  moreover have "size (JObj d) \<le> size (JObj raw)"
    using 2(1) by (simp add: drop_default_priority_def size_dpop)
  ultimately show ?case by simp
next
  case (3 cx path xs ix i x u)
  then have "x \<in> set xs" by (auto simp: in_set_enumerate_eq)
  then have "size x < size (JArr xs)" using size_arr_item by simp
  then show ?case using size_ordered_item [of "cx_mode cx" x] 3 by simp
qed

declare canonical_native_fields.simps(1,2) [simp del]

section \<open>Identities and semantic names\<close>

definition identity_of :: "dict \<Rightarrow> string \<Rightarrow> (string \<times> string) res" where
  "identity_of item path =
     (if \<not> nonblank_text (get_or_null item ''object_type'') then
        Inl (graph_error (path @ '' needs a non-empty object_type annotation''))
      else if \<not> nonblank_text (get_or_null item ''name'') then
        Inl (graph_error (path @ '' needs a non-empty name''))
      else Inr (strip (text_of (get_or_null item ''object_type'')),
                strip (text_of (get_or_null item ''name''))))"

definition target_id_of :: "dict \<Rightarrow> string \<Rightarrow> string option res" where
  "target_id_of item path =
     (if get_or_null item ''target_id'' = JNull then Inr None
      else if \<not> nonblank_text (get_or_null item ''target_id'') then
        Inl (graph_error (path @ ''.target_id must be a non-empty string''))
      else Inr (Some (strip (text_of (get_or_null item ''target_id'')))))"

definition semantic_name :: "string option \<Rightarrow> string \<Rightarrow> string \<Rightarrow> string" where
  "semantic_name target kind name =
     (case target of None \<Rightarrow> [] | Some t \<Rightarrow> t @ ''::'') @ kind @ ''::'' @ name"

definition mapping_key :: "string option \<Rightarrow> string \<Rightarrow> string" where
  "mapping_key target raw = (case target of None \<Rightarrow> raw | Some t \<Rightarrow> t @ ''::'' @ raw)"

definition field_type :: "string \<Rightarrow> string" where
  "field_type f = (case map_of id_fields f of None \<Rightarrow> [] | Some k \<Rightarrow> k)"

section \<open>Semantic references\<close>

definition collect_references :: "json \<Rightarrow> string \<Rightarrow> string list" where
  "collect_references item kind =
     concat (map (\<lambda>c. case c of
         JStr s \<Rightarrow>
           (let parts = split_colons s in
            if 2 \<le> length parts \<and> parts ! (length parts - 2) = kind \<and>
               kind \<in> set (map snd id_fields) \<and> last parts \<noteq> []
            then [s] else [])
       | _ \<Rightarrow> [])
       (case item of JArr xs \<Rightarrow> xs | _ \<Rightarrow> [item]))"

fun references_visit :: "string option \<Rightarrow> json \<Rightarrow> string list" where
  "references_visit parent (JObj d) = concat (map (\<lambda>(k, v).
     (case map_of reference_fields k of
        Some f \<Rightarrow> collect_references v (field_type f)
      | None \<Rightarrow>
          if k = ''tagName'' \<and> (case parent of Some p \<Rightarrow> p \<in> set sequencing_keys | None \<Rightarrow> False)
          then collect_references v ''tag''
          else references_visit (Some k) v)) d)"
| "references_visit parent (JArr xs) = concat (map (references_visit parent) xs)"
| "references_visit parent _ = []"

text \<open>The set of references is the set of the list's elements.\<close>

definition semantic_references :: "json \<Rightarrow> string list" where
  "semantic_references v = references_visit None v"

type_synonym id_maps = "string \<Rightarrow> string \<Rightarrow> string option"
type_synonym id_sets = "string \<Rightarrow> string list"

definition add_identity :: "string \<Rightarrow> string \<Rightarrow> id_sets \<Rightarrow> id_sets" where
  "add_identity kind s ids = ids(kind := s # ids kind)"

definition add_mapping :: "string \<Rightarrow> string \<Rightarrow> string \<Rightarrow> id_maps \<Rightarrow> id_maps" where
  "add_mapping field k s maps = maps(field := (maps field)(k := Some s))"

definition target_ids_of :: "dict list \<Rightarrow> string option list res" where
  "target_ids_of objects =
     bindE (mapE (\<lambda>item. target_id_of item ''$.objects[]'') objects) (\<lambda>ts. Inr (remdups ts))"

text \<open>The built-in triggers of every target whose container type is web (or unknown).\<close>

definition add_builtin :: "string option \<times> string \<Rightarrow> id_maps \<times> id_sets \<Rightarrow> id_maps \<times> id_sets" where
  "add_builtin tt mi =
     (let s = semantic_name (fst tt) ''trigger'' (''builtin::'' @ snd tt) in
      (add_mapping ''triggerId'' (mapping_key (fst tt) (snd tt)) s (fst mi),
       add_identity ''trigger'' s (snd mi)))"

definition builtin_maps ::
  "(string \<times> container) list option \<Rightarrow> string option list \<Rightarrow> id_maps \<times> id_sets" where
  "builtin_maps target_types targets =
     fold add_builtin
       (List.product
          (filter (\<lambda>t. case target_types of None \<Rightarrow> True
             | Some types \<Rightarrow> (case t of None \<Rightarrow> False | Some x \<Rightarrow> map_of types x = Some Web)) targets)
          built_in_trigger_ids)
       ((\<lambda>_ _. None), (\<lambda>_. []))"

definition map_object_field ::
  "nat \<Rightarrow> dict \<Rightarrow> string \<Rightarrow> string option \<Rightarrow> id_maps \<times> id_sets \<Rightarrow> string \<times> string \<Rightarrow>
   (id_maps \<times> id_sets) res" where
  "map_object_field i item name target acc fk =
     (case (acc, fk) of ((maps, ids), (field, kind)) \<Rightarrow>
        (case get_or_null item field of
           JNull \<Rightarrow> Inr (maps, ids)
         | JStr raw \<Rightarrow>
             if blank raw then
               Inl (graph_error (index_path ''$.objects'' i @ ''.'' @ field @
                      '' must be a non-empty string''))
             else
               (let s = semantic_name target kind name;
                    k = mapping_key target raw
                in (case maps field k of
                      None \<Rightarrow> Inr (add_mapping field k s maps, add_identity kind s ids)
                    | Some previous \<Rightarrow>
                        if previous \<noteq> s then
                          Inl (graph_error (''duplicate '' @ field @ '' '' @ py_repr raw @ '' for '' @
                                 py_repr previous @ '' and '' @ py_repr s))
                        else Inr (add_mapping field k s maps, add_identity kind s ids)))
         | _ \<Rightarrow> Inl (graph_error (index_path ''$.objects'' i @ ''.'' @ field @
                      '' must be a non-empty string''))))"

definition map_object ::
  "id_maps \<times> id_sets \<Rightarrow> nat \<times> dict \<Rightarrow> (id_maps \<times> id_sets) res" where
  "map_object acc ix =
     (case ix of (i, item) \<Rightarrow>
        bindE (identity_of item (index_path ''$.objects'' i)) (\<lambda>(object_type, name).
        bindE (target_id_of item (index_path ''$.objects'' i)) (\<lambda>target.
          (let kind = normalized_token object_type;
               acc' = (if kind \<in> set (map snd id_fields)
                       then (fst acc, add_identity kind (semantic_name target kind name) (snd acc))
                       else acc)
           in foldE (map_object_field i item name target) acc' id_fields))))"

definition reference_maps ::
  "dict list \<Rightarrow> (string \<times> container) list option \<Rightarrow> (id_maps \<times> id_sets) res" where
  "reference_maps objects target_types =
     bindE (target_ids_of objects) (\<lambda>targets.
       foldE map_object (builtin_maps target_types targets) (enumerate 0 objects))"

record ref_ctx =
  rx_maps :: id_maps
  rx_ids :: id_sets
  rx_target :: "string option"
  rx_allowed :: "string list"

text \<open>The semantic names one string reference may stand for.\<close>

definition reference_candidates ::
  "ref_ctx \<Rightarrow> string \<Rightarrow> string \<Rightarrow> bool \<Rightarrow> string \<Rightarrow> string list" where
  "reference_candidates rx id_field kind allow_name value =
     sorted_set (
       (case rx_target rx of
          Some t \<Rightarrow> (if starts_with value (t @ ''::'' @ kind @ ''::'') \<and> value \<in> set (rx_allowed rx)
                     then [value] else [])
        | None \<Rightarrow> []) @
       (case rx_maps rx id_field (mapping_key (rx_target rx) value) of
          None \<Rightarrow> [] | Some s \<Rightarrow> [s]) @
       (if rx_target rx = None
        then (case rx_maps rx id_field value of None \<Rightarrow> [] | Some s \<Rightarrow> [s]) else []) @
       (if value \<in> set (rx_ids rx kind) then [value] else []) @
       (let named = semantic_name (rx_target rx) kind value in
        if allow_name \<and> named \<in> set (rx_ids rx kind) then [named] else []))"

fun semantic_reference ::
  "ref_ctx \<Rightarrow> string \<Rightarrow> string \<Rightarrow> bool \<Rightarrow> string \<Rightarrow> json \<Rightarrow> json res" where
  "semantic_reference rx id_field kind allow_name path (JStr value) =
     (case reference_candidates rx id_field kind allow_name value of
        [] \<Rightarrow> Inl (graph_error (path @ '' contains unresolved '' @ kind @ '' reference '' @
                 py_repr value @ ''; include the referenced object in the graph''))
      | [c] \<Rightarrow> Inr (JStr c)
      | cs \<Rightarrow> Inl (graph_error (path @ '' contains ambiguous '' @ kind @ '' reference '' @
                 py_repr value @ '': '' @ join '', '' cs)))"
| "semantic_reference rx id_field kind allow_name path (JArr xs) =
     bindE (mapE (\<lambda>(i, x). semantic_reference rx id_field kind allow_name (index_path path i) x)
              (enumerate 0 xs)) (\<lambda>ys. Inr (JArr ys))"
| "semantic_reference rx id_field kind allow_name path _ =
     Inl (graph_error (path @ '' must be a string reference or an array of string references''))"

fun translate_references ::
  "ref_ctx \<Rightarrow> string option \<Rightarrow> string \<Rightarrow> json \<Rightarrow> json res" where
  "translate_references rx parent path (JObj d) =
     bindE (mapE (\<lambda>(k, v). bindE
         (case map_of reference_fields k of
            Some f \<Rightarrow> semantic_reference rx f (field_type f) False (key_path path k) v
          | None \<Rightarrow>
              if k = ''tagName'' \<and> (case parent of Some p \<Rightarrow> p \<in> set sequencing_keys | None \<Rightarrow> False)
              then semantic_reference rx ''tagId'' ''tag'' True (key_path path k) v
              else translate_references rx (Some k) (key_path path k) v)
         (\<lambda>w. Inr (k, w))) d) (\<lambda>out. Inr (JObj out))"
| "translate_references rx parent path (JArr xs) =
     bindE (mapE (\<lambda>(i, x). translate_references rx parent (index_path path i) x)
              (enumerate 0 xs)) (\<lambda>ys. Inr (JArr ys))"
| "translate_references rx parent path v = Inr v"

section \<open>Normalised graphs\<close>

definition check_objects :: "string \<Rightarrow> json list \<Rightarrow> dict list res" where
  "check_objects path xs =
     mapE (\<lambda>(i, raw). case raw of
         JObj d \<Rightarrow> bindE (identity_of d (index_path path i)) (\<lambda>_. Inr d)
       | _ \<Rightarrow> Inl (graph_error (index_path path i @ '' must be an object'')))
       (enumerate 0 xs)"

definition native_families :: "string list" where
  "native_families = [''tag'', ''trigger'', ''variable'', ''client'', ''transformation'']"

definition root_ctx :: "string option \<Rightarrow> container option \<Rightarrow> canon_ctx" where
  "root_ctx family ctype = \<lparr>cx_parent = None, cx_mode = None, cx_parameter = False,
     cx_tag = (family = Some ''tag''),
     cx_native = (case family of Some f \<Rightarrow> f \<in> set native_families | None \<Rightarrow> False),
     cx_family = family, cx_container = ctype\<rparr>"

definition clean_object :: "dict \<Rightarrow> string \<Rightarrow> string \<Rightarrow> dict" where
  "clean_object raw object_type name =
     dset (dset (filter (\<lambda>(f, _). f \<notin> set root_metadata_keys) raw)
       ''object_type'' (JStr object_type)) ''name'' (JStr name)"

definition normalize_object ::
  "(id_maps \<times> id_sets) \<Rightarrow> (string \<times> container) list option \<Rightarrow> string list \<Rightarrow>
   (string \<times> json) list \<Rightarrow> nat \<times> dict \<Rightarrow> (string \<times> json) list res" where
  "normalize_object mi target_types allowed acc ix =
     (case ix of (i, raw) \<Rightarrow>
       (let path = index_path ''$.objects'' i in
        bindE (identity_of raw path) (\<lambda>(object_type, name).
        bindE (target_id_of raw path) (\<lambda>target.
          (let k = semantic_name target object_type name in
           if has_key acc k then
             Inl (graph_error (''duplicate semantic object identity '' @ py_repr k))
           else
             (let rx = \<lparr>rx_maps = fst mi, rx_ids = snd mi, rx_target = target,
                        rx_allowed = allowed\<rparr>;
                  ctype = (case target_types of None \<Rightarrow> None
                     | Some types \<Rightarrow> (case target of None \<Rightarrow> None | Some t \<Rightarrow> map_of types t))
              in bindE (translate_references rx None path (JObj (clean_object raw object_type name)))
                (\<lambda>translated.
                 bindE (canonical_native_fields (root_ctx (Some object_type) ctype) path translated)
                   (\<lambda>c. Inr (dset acc k c)))))))))"

definition normalize_graph ::
  "(string \<times> container) list option \<Rightarrow> string list \<Rightarrow> json \<Rightarrow> (string \<times> json) list res" where
  "normalize_graph target_types allowed value =
     (let objects = (if is_dict value then get_or_null (dict_of value) ''objects'' else value);
          context = (if is_dict value then
              (case dget (dict_of value) ''context_objects'' of None \<Rightarrow> JArr [] | Some c \<Rightarrow> c)
            else JArr [])
      in if \<not> is_list objects then
           Inl (graph_error ''graph must be an array or an object containing an objects array'')
         else if \<not> is_list context then
           Inl (graph_error ''graph context_objects must be an array'')
         else
           bindE (check_objects ''$.objects'' (list_of objects)) (\<lambda>raws.
           bindE (check_objects ''$.context_objects'' (list_of context)) (\<lambda>contexts.
           bindE (reference_maps (raws @ contexts) target_types) (\<lambda>mi.
           bindE (foldE (normalize_object mi target_types allowed) [] (enumerate 0 raws))
             (\<lambda>normalized. Inr (sort_key fst normalized))))))"

section \<open>Comparison\<close>

record graph_report =
  gr_pass :: bool
  gr_missing :: "string list"
  gr_extra :: "string list"
  gr_differences :: "(string \<times> difference list) list"
  gr_expected_count :: nat
  gr_saved_count :: nat

definition object_differences ::
  "(string \<times> json) list \<Rightarrow> (string \<times> json) list \<Rightarrow> (string \<times> difference list) list" where
  "object_differences expected saved =
     filter (\<lambda>(k, ds). ds \<noteq> [])
       (map (\<lambda>k. (k, differences (get_or_null expected k) (get_or_null saved k)
                       (''$.objects['' @ py_repr k @ '']'')))
          (keys_common expected saved))"

definition graph_report_of ::
  "(string \<times> json) list \<Rightarrow> (string \<times> json) list \<Rightarrow> graph_report" where
  "graph_report_of expected saved =
     (let missing = keys_minus expected saved; extra = keys_minus saved expected;
          found = object_differences expected saved
      in \<lparr>gr_pass = (missing = [] \<and> extra = [] \<and> found = []), gr_missing = missing,
          gr_extra = extra, gr_differences = found, gr_expected_count = length expected,
          gr_saved_count = length saved\<rparr>)"

definition compare_graphs ::
  "(string \<times> container) list option \<Rightarrow> json \<Rightarrow> json \<Rightarrow> graph_report res" where
  "compare_graphs target_types expected saved =
     (let allowed = semantic_references expected in
      bindE (normalize_graph target_types allowed expected) (\<lambda>e.
      bindE (normalize_graph target_types allowed saved) (\<lambda>s.
        Inr (graph_report_of e s))))"

section \<open>Well-formedness is preserved\<close>

lemma keys_dset_distinct: "distinct (keys d) \<Longrightarrow> distinct (keys (dset d k v))"
  unfolding dset_def by (rule distinct_update)

lemma set_dset: "set (dset d k v) \<subseteq> insert (k, v) (set d)"
  unfolding dset_def by (induction d) auto

lemma wf_dset [intro]: "wf_json (JObj d) \<Longrightarrow> wf_json v \<Longrightarrow> wf_json (JObj (dset d k v))"
  using set_dset [of d k v] keys_dset_distinct [of d k v] by (fastforce simp: list_all_iff)

lemma wf_filter_dict [intro]: "wf_json (JObj d) \<Longrightarrow> wf_json (JObj (filter P d))"
  by (auto simp: list_all_iff distinct_map_filter)

lemma wf_dpop [intro]: "wf_json (JObj d) \<Longrightarrow> wf_json (JObj (dpop d k))"
  unfolding dpop_def by (rule wf_filter_dict)

lemma wf_casefold_text [simp]: "wf_json (casefold_text v) = wf_json v"
  by (cases v) (simp_all add: casefold_text_def)

lemma wf_ordered_item: "wf_json v \<Longrightarrow> wf_json (ordered_item m v)"
  unfolding ordered_item_def by (cases v) (auto simp del: wf_json.simps(2))

lemma set_order_items [simp]: "set (order_items m p xs) = set xs"
  by (simp add: order_items_def)

lemma wf_drop_server_default:
  "wf_json (JObj out) \<Longrightarrow> wf_json (JObj (drop_server_default f c raw out))"
proof -
  assume wf: "wf_json (JObj out)"
  have "wf_json (JObj (dset out ''parameter'' (JArr (filter P rows))))"
    if "dget out ''parameter'' = Some (JArr rows)" for rows P
  proof (rule wf_dset [OF wf])
    have "wf_json (JArr rows)" using wf that wf_dict_value unfolding dget_def by blast
    then show "wf_json (JArr (filter P rows))" by (simp add: list_all_iff)
  qed
  with wf show ?thesis
    unfolding drop_server_default_def Let_def
    by (auto simp del: wf_json.simps(2) split: option.split json.split)
qed

lemma wf_obj_of_values:
  "distinct (keys d) \<Longrightarrow> (\<And>k v. (k, v) \<in> set d \<Longrightarrow> wf_json v) \<Longrightarrow> wf_json (JObj d)"
  by (auto simp: list_all_iff)

text \<open>What a successful pass over the sorted items of a dictionary returns.\<close>

lemma mapE_keyed:
  assumes "mapE (\<lambda>k. case m k of None \<Rightarrow> Inr (k, d) | Some v \<Rightarrow> bindE (f k v) (\<lambda>c. Inr (k, c))) ks
           = Inr out"
  shows "map fst out = ks"
    and "(k, c) \<in> set out \<Longrightarrow> (m k = None \<and> c = d) \<or> (\<exists>v. m k = Some v \<and> f k v = Inr c)"
  using assms
  by (induction ks arbitrary: out) (auto simp: bindE_Inr_iff split: option.splits)

lemma mapE_memberD: "mapE f xs = Inr ys \<Longrightarrow> y \<in> set ys \<Longrightarrow> \<exists>x \<in> set xs. f x = Inr y"
  by (induction xs arbitrary: ys) (auto simp: bindE_Inr_iff)

lemma wf_field_value [simp]: "wf_json (field_value cx k v) = wf_json v"
  by (simp add: field_value_def)

lemma distinct_kept_keys [simp]: "distinct (kept_keys cx d)"
  by (simp add: kept_keys_def)

lemma canonical_native_fields_obj:
  "canonical_native_fields cx p (JObj raw) = Inr w \<longleftrightarrow>
     (\<exists>out. w = JObj (drop_server_default (cx_family cx) (cx_container cx)
               (drop_default_priority (cx_family cx) raw) out) \<and>
       mapE (\<lambda>k. case map_of (drop_default_priority (cx_family cx) raw) k of None \<Rightarrow> Inr (k, JNull)
         | Some v \<Rightarrow> bindE (canonical_native_fields
               (field_ctx cx (drop_default_priority (cx_family cx) raw) k) (key_path p k)
               (field_value cx k v)) (\<lambda>c. Inr (k, c)))
         (kept_keys cx (drop_default_priority (cx_family cx) raw)) = Inr out)"
  by (auto simp: canonical_native_fields.simps Let_def bindE_Inr_iff)

lemma canonical_native_fields_arr:
  "canonical_native_fields cx p (JArr xs) = Inr w \<longleftrightarrow>
     (\<exists>items. w = JArr (order_items (cx_mode cx) (cx_parent cx) items) \<and>
       mapE (\<lambda>(i, x). bindE (check_parameter (cx_mode cx) p i x (take i xs))
         (\<lambda>_. canonical_native_fields (child_ctx None None (cx_mode cx \<noteq> None)) (index_path p i)
                (ordered_item (cx_mode cx) x))) (enumerate 0 xs) = Inr items)"
  by (auto simp: canonical_native_fields.simps bindE_Inr_iff)

lemma canonical_native_fields_wf:
  "canonical_native_fields cx p v = Inr w \<Longrightarrow> wf_json v \<Longrightarrow> wf_json w"
proof (induction cx p v arbitrary: w rule: canonical_native_fields.induct)
  case (1 cx path raw)
  let ?d = "drop_default_priority (cx_family cx) raw"
  have wfd: "wf_json (JObj ?d)"
    using "1.prems"(2) unfolding drop_default_priority_def by (auto simp del: wf_json.simps(2))
  from "1.prems"(1)[unfolded canonical_native_fields_obj] obtain out where
    w: "w = JObj (drop_server_default (cx_family cx) (cx_container cx) ?d out)" and
    run: "mapE (\<lambda>k. case map_of ?d k of None \<Rightarrow> Inr (k, JNull)
      | Some v \<Rightarrow> bindE (canonical_native_fields (field_ctx cx ?d k) (key_path path k)
          (field_value cx k v)) (\<lambda>c. Inr (k, c))) (kept_keys cx ?d) = Inr out"
    by blast
  have "wf_json (JObj out)"
  proof (rule wf_obj_of_values)
    show "distinct (keys out)" unfolding mapE_keyed(1) [OF run] by simp
    fix k c assume kc: "(k, c) \<in> set out"
    then have "k \<in> set (keys out)" by force
    then have k: "k \<in> set (kept_keys cx ?d)" unfolding mapE_keyed(1) [OF run] .
    from mapE_keyed(2) [OF run kc] show "wf_json c"
    proof (elim disjE exE conjE)
      fix v assume v: "map_of ?d k = Some v"
        and c: "canonical_native_fields (field_ctx cx ?d k) (key_path path k) (field_value cx k v)
                = Inr c"
      show "wf_json c"
        by (rule "1.IH" [OF refl k v c]) (use wf_dict_value [OF wfd v] in simp)
    qed simp
  qed
  then show ?case unfolding w by (rule wf_drop_server_default)
next
  case (2 cx path xs)
  from "2.prems"(1)[unfolded canonical_native_fields_arr] obtain items where
    w: "w = JArr (order_items (cx_mode cx) (cx_parent cx) items)" and
    run: "mapE (\<lambda>(i, x). bindE (check_parameter (cx_mode cx) path i x (take i xs))
       (\<lambda>_. canonical_native_fields (child_ctx None None (cx_mode cx \<noteq> None)) (index_path path i)
              (ordered_item (cx_mode cx) x))) (enumerate 0 xs) = Inr items"
    by blast
  have "wf_json y" if "y \<in> set items" for y
  proof -
    from mapE_memberD [OF run that] obtain i x where ix: "(i, x) \<in> set (enumerate 0 xs)"
      and ok: "check_parameter (cx_mode cx) path i x (take i xs) = Inr ()"
      and y: "canonical_native_fields (child_ctx None None (cx_mode cx \<noteq> None)) (index_path path i)
              (ordered_item (cx_mode cx) x) = Inr y"
      by (auto simp: bindE_Inr_iff)
    have "wf_json x" using "2.prems"(2) enumerate_item [OF ix] by (simp add: list_all_iff)
    then show ?thesis using "2.IH" [OF ix refl ok y] wf_ordered_item by blast
  qed
  then show ?case unfolding w by (simp add: list_all_iff)
qed simp_all

lemma semantic_reference_wf:
  "semantic_reference rx f kind an p v = Inr w \<Longrightarrow> wf_json w"
proof (induction rx f kind an p v arbitrary: w rule: semantic_reference.induct)
  case (2 rx f kind an p xs)
  then show ?case
    by (fastforce simp: bindE_Inr_iff list_all_iff dest: mapE_memberD)
qed (auto split: list.splits)

lemma translate_references_wf:
  "translate_references rx parent p v = Inr w \<Longrightarrow> wf_json v \<Longrightarrow> wf_json w"
proof (induction rx parent p v arbitrary: w rule: translate_references.induct)
  case (1 rx parent p d)
  from "1.prems"(1) obtain out where w: "w = JObj out" and
    run: "mapE (\<lambda>(k, v). bindE
         (case map_of reference_fields k of
            Some f \<Rightarrow> semantic_reference rx f (field_type f) False (key_path p k) v
          | None \<Rightarrow>
              if k = ''tagName'' \<and> (case parent of Some q \<Rightarrow> q \<in> set sequencing_keys | None \<Rightarrow> False)
              then semantic_reference rx ''tagId'' ''tag'' True (key_path p k) v
              else translate_references rx (Some k) (key_path p k) v)
         (\<lambda>w. Inr (k, w))) d = Inr out"
    by (auto simp: bindE_Inr_iff)
  have "keys out = keys d"
    using run by (induction d arbitrary: out) (auto simp: bindE_Inr_iff)
  moreover have "wf_json c" if kc: "(k, c) \<in> set out" for k c
  proof -
    obtain v where kv: "(k, v) \<in> set d" and c: "(case map_of reference_fields k of
            Some f \<Rightarrow> semantic_reference rx f (field_type f) False (key_path p k) v
          | None \<Rightarrow>
              if k = ''tagName'' \<and> (case parent of Some q \<Rightarrow> q \<in> set sequencing_keys | None \<Rightarrow> False)
              then semantic_reference rx ''tagId'' ''tag'' True (key_path p k) v
              else translate_references rx (Some k) (key_path p k) v) = Inr c"
      using mapE_memberD [OF run kc] by (fastforce simp: bindE_Inr_iff)
    have "wf_json v" using "1.prems"(2) kv by (auto simp: list_all_iff)
    then show ?thesis
      using c "1.IH" [OF kv refl] by (auto split: option.splits if_splits intro: semantic_reference_wf)
  qed
  ultimately show ?case using "1.prems"(2) unfolding w by (intro wf_obj_of_values) simp_all
next
  case (2 rx parent p xs)
  then show ?case
    by (fastforce simp: bindE_Inr_iff list_all_iff dest: mapE_memberD enumerate_item)
qed auto

lemma check_objects_wf:
  assumes "check_objects p xs = Inr ds" and "\<And>x. x \<in> set xs \<Longrightarrow> wf_json x" and "d \<in> set ds"
  shows "wf_json (JObj d)"
  using mapE_memberD [OF assms(1)[unfolded check_objects_def] assms(3)] assms(2)
  by (force simp: bindE_Inr_iff simp del: wf_json.simps(2) split: json.splits dest: enumerate_item)

lemma wf_sort_key_dict: "wf_json (JObj (sort_key f d)) = wf_json (JObj d)"
proof -
  have "mset (keys (sort_key f d)) = mset (keys d)" by simp
  then have "distinct (keys (sort_key f d)) = distinct (keys d)" by (metis mset_eq_imp_distinct_iff)
  then show ?thesis by (simp add: list_all_iff)
qed

lemma normalize_object_cases:
  assumes "normalize_object mi tt allowed acc (i, raw) = Inr acc'"
  obtains object_type name target rx ctype translated c where
    "identity_of raw (index_path ''$.objects'' i) = Inr (object_type, name)"
    "target_id_of raw (index_path ''$.objects'' i) = Inr target"
    "\<not> has_key acc (semantic_name target object_type name)"
    "rx = \<lparr>rx_maps = fst mi, rx_ids = snd mi, rx_target = target, rx_allowed = allowed\<rparr>"
    "translate_references rx None (index_path ''$.objects'' i)
       (JObj (clean_object raw object_type name)) = Inr translated"
    "canonical_native_fields (root_ctx (Some object_type) ctype) (index_path ''$.objects'' i)
       translated = Inr c"
    "acc' = dset acc (semantic_name target object_type name) c"
  using assms that
  by (auto simp: normalize_object_def Let_def bindE_Inr_iff split: if_splits)

lemma normalize_object_wf:
  assumes "normalize_object mi tt allowed acc (i, raw) = Inr acc'"
    and "wf_json (JObj acc)" and "wf_json (JObj raw)"
  shows "wf_json (JObj acc')"
proof -
  have "wf_json (JObj (clean_object raw a b))" for a b
    unfolding clean_object_def using assms(3) by (intro wf_dset wf_filter_dict) auto
  then show ?thesis
    using normalize_object_cases [OF assms(1)] assms(2)
    by (metis wf_dset canonical_native_fields_wf translate_references_wf)
qed

lemma normalize_graph_wf:
  assumes "normalize_graph tt allowed v = Inr g" and "wf_json v"
  shows "wf_json (JObj g)"
proof -
  define objects where "objects = (if is_dict v then get_or_null (dict_of v) ''objects'' else v)"
  from assms(1) obtain raws mi n where
      raws: "check_objects ''$.objects'' (list_of objects) = Inr raws"
    and n: "foldE (normalize_object mi tt allowed) [] (enumerate 0 raws) = Inr n"
    and g: "g = sort_key fst n"
    by (auto simp: normalize_graph_def Let_def bindE_Inr_iff objects_def split: if_splits)
  have wfo: "wf_json objects"
    using assms(2) unfolding objects_def get_or_null_def dget_def dict_of_def
    by (cases v) (auto simp del: wf_json.simps(2) split: option.split dest: wf_dict_value)
  have "wf_json x" if "x \<in> set (list_of objects)" for x
    using wfo that by (cases objects) (auto simp: list_of_def list_all_iff)
  then have "wf_json (JObj d)" if "d \<in> set raws" for d
    using check_objects_wf [OF raws] that by blast
  then have "wf_json (JObj n)"
    by (intro foldE_invariant [OF n, where P = "\<lambda>acc. wf_json (JObj acc)"])
       (auto simp del: wf_json.simps(2) intro: normalize_object_wf dest: enumerate_item, simp)
  then show ?thesis unfolding g wf_sort_key_dict .
qed

section \<open>What the comparison decides\<close>

lemma get_or_null_same:
  "k \<in> set (keys d) \<Longrightarrow> map_of d k = Some (get_or_null d k)"
  by (metis get_or_null_Some map_of_in_keys)

lemma object_differences_empty:
  assumes "wf_json (JObj e)"
  shows "object_differences e s = [] \<longleftrightarrow>
    (\<forall>k v w. map_of e k = Some v \<longrightarrow> map_of s k = Some w \<longrightarrow> json_same v w)"
proof -
  have "object_differences e s = [] \<longleftrightarrow> (\<forall>k \<in> set (keys_common e s).
      differences (get_or_null e k) (get_or_null s k) (''$.objects['' @ py_repr k @ '']'') = [])"
    by (simp add: object_differences_def filter_empty_conv)
  also have "\<dots> \<longleftrightarrow> (\<forall>k \<in> set (keys_common e s). json_same (get_or_null e k) (get_or_null s k))"
  proof (rule ball_cong [OF refl])
    fix k assume "k \<in> set (keys_common e s)"
    then have "k \<in> set (keys e)" by simp
    from wf_dict_value [OF assms get_or_null_same [OF this]]
    show "(differences (get_or_null e k) (get_or_null s k) (''$.objects['' @ py_repr k @ '']'') = [])
      = json_same (get_or_null e k) (get_or_null s k)"
      by (rule differences_empty_iff_aux)
  qed
  also have "\<dots> \<longleftrightarrow> (\<forall>k v w. map_of e k = Some v \<longrightarrow> map_of s k = Some w \<longrightarrow> json_same v w)"
  proof (intro iffI allI impI ballI)
    fix k v w assume all: "\<forall>k \<in> set (keys_common e s). json_same (get_or_null e k) (get_or_null s k)"
      and "map_of e k = Some v" "map_of s k = Some w"
    moreover from this have "k \<in> set (keys_common e s)"
      unfolding keys_common_set map_of_in_keys Int_iff by blast
    ultimately show "json_same v w" using get_or_null_Some by metis
  next
    fix k assume all: "\<forall>k v w. map_of e k = Some v \<longrightarrow> map_of s k = Some w \<longrightarrow> json_same v w"
      and "k \<in> set (keys_common e s)"
    then show "json_same (get_or_null e k) (get_or_null s k)"
      unfolding keys_common_set using get_or_null_same by blast
  qed
  finally show ?thesis .
qed

lemma graph_report_pass_iff:
  assumes "wf_json (JObj e)"
  shows "gr_pass (graph_report_of e s) \<longleftrightarrow> json_same (JObj e) (JObj s)"
  by (simp only: graph_report_of_def Let_def graph_report.select_convs keys_minus_Nil_iff
        object_differences_empty [OF assms] json_same_obj [OF assms]) blast

section \<open>Reference maps\<close>

text \<open>Every semantic name a server ID maps to is an identity of the graph.\<close>

definition maps_indexed :: "id_maps \<times> id_sets \<Rightarrow> bool" where
  "maps_indexed mi \<longleftrightarrow>
     (\<forall>f k s. fst mi f k = Some s \<longrightarrow> f \<in> set (map fst id_fields) \<and> s \<in> set (snd mi (field_type f)))"

lemma field_type_id_fields: "(f, kind) \<in> set id_fields \<Longrightarrow> field_type f = kind"
proof -
  have "list_all (\<lambda>(f, kind). field_type f = kind) id_fields"
    by code_simp
  moreover assume "(f, kind) \<in> set id_fields"
  ultimately show "field_type f = kind" by (auto simp: list_all_iff)
qed

lemma maps_indexed_add:
  assumes "maps_indexed mi" and "(f, kind) \<in> set id_fields"
  shows "maps_indexed (add_mapping f k s (fst mi), add_identity kind s (snd mi))"
  unfolding maps_indexed_def
proof (intro allI impI)
  fix g l r
  assume "fst (add_mapping f k s (fst mi), add_identity kind s (snd mi)) g l = Some r"
  then have "g = f \<and> r = s \<or> fst mi g l = Some r"
    by (auto simp: add_mapping_def split: if_splits)
  moreover have "f \<in> set (map fst id_fields)" using assms(2) by force
  moreover have "set (snd mi t) \<subseteq> set (add_identity kind s (snd mi) t)" for t
    by (auto simp: add_identity_def)
  moreover have "s \<in> set (add_identity kind s (snd mi) (field_type f))"
    by (simp add: add_identity_def field_type_id_fields [OF assms(2)])
  ultimately show "g \<in> set (map fst id_fields) \<and>
      r \<in> set (snd (add_mapping f k s (fst mi), add_identity kind s (snd mi)) (field_type g))"
    using assms(1) unfolding maps_indexed_def snd_conv by blast
qed

lemma maps_indexed_identity:
  "maps_indexed mi \<Longrightarrow> maps_indexed (fst mi, add_identity kind s (snd mi))"
  by (auto simp: maps_indexed_def add_identity_def)

lemma maps_indexed_builtin: "maps_indexed (builtin_maps tt ts)"
proof -
  have "(''triggerId'', ''trigger'') \<in> set id_fields" by (simp add: id_fields_def)
  then have step: "maps_indexed mi \<Longrightarrow> maps_indexed (add_builtin tx mi)" for mi tx
    unfolding add_builtin_def Let_def by (intro maps_indexed_add)
  have "maps_indexed (fold add_builtin xs mi)" if "maps_indexed mi" for xs mi
    using that by (induction xs arbitrary: mi) (simp_all add: step)
  moreover have "maps_indexed (\<lambda>_ _. None, \<lambda>_. [])" by (simp add: maps_indexed_def)
  ultimately show ?thesis unfolding builtin_maps_def by blast
qed

lemma maps_indexed_field:
  assumes "map_object_field i item name target mi fk = Inr mi'" and "maps_indexed mi"
    and "fk \<in> set id_fields"
  shows "maps_indexed mi'"
  using assms maps_indexed_add [of mi]
  by (cases mi; cases fk)
     (auto simp: map_object_field_def Let_def split: json.splits if_splits option.splits)

lemma maps_indexed_object:
  assumes "map_object mi ix = Inr mi'" and "maps_indexed mi"
  shows "maps_indexed mi'"
proof -
  obtain i item where ix: "ix = (i, item)" by (cases ix)
  define start where "start object_type name target =
     (if normalized_token object_type \<in> set (map snd id_fields)
      then (fst mi, add_identity (normalized_token object_type)
              (semantic_name target (normalized_token object_type) name) (snd mi)) else mi)"
    for object_type name target
  from assms(1) obtain object_type name target where
    run: "foldE (map_object_field i item name target) (start object_type name target) id_fields
      = Inr mi'"
    by (auto simp: map_object_def ix bindE_Inr_iff Let_def start_def)
  have "maps_indexed (start object_type name target)"
    using assms(2) by (simp add: start_def maps_indexed_identity)
  then show ?thesis by (rule foldE_invariant [OF run]) (rule maps_indexed_field)
qed

lemma reference_maps_indexed:
  assumes "reference_maps objects tt = Inr mi"
  shows "maps_indexed mi"
proof -
  from assms obtain ts where
    run: "foldE map_object (builtin_maps tt ts) (enumerate 0 objects) = Inr mi"
    by (auto simp: reference_maps_def bindE_Inr_iff)
  show ?thesis
    by (rule foldE_invariant [OF run, where P = maps_indexed, OF maps_indexed_builtin])
      (rule maps_indexed_object)
qed

lemma reference_candidates_cases:
  assumes "c \<in> set (reference_candidates rx f kind an v)"
  shows "c = v \<and> v \<in> set (rx_allowed rx) \<or> (\<exists>k. rx_maps rx f k = Some c) \<or> c \<in> set (rx_ids rx kind)"
proof -
  have by_id: "c \<in> set (case rx_maps rx f k of None \<Rightarrow> [] | Some s \<Rightarrow> [s]) \<Longrightarrow>
    \<exists>k. rx_maps rx f k = Some c" for k
    by (auto split: option.split_asm)
  from assms show ?thesis
    unfolding reference_candidates_def Let_def set_sorted_set set_append Un_iff
    apply (elim disjE)
    subgoal by (cases "rx_target rx") (auto split: if_split_asm)
    subgoal by (blast dest: by_id)
    subgoal by (cases "rx_target rx") (auto dest: by_id)
    subgoal by (auto split: if_split_asm)
    subgoal by (auto split: if_split_asm)
    done
qed

lemma reference_candidates_indexed:
  assumes "maps_indexed (rx_maps rx, rx_ids rx)" and "(f, kind) \<in> set id_fields"
    and "c \<in> set (reference_candidates rx f kind an v)"
  shows "c \<in> set (rx_ids rx kind) \<or> c = v \<and> v \<in> set (rx_allowed rx)"
proof -
  have ft: "field_type f = kind" by (rule field_type_id_fields [OF assms(2)])
  have "s \<in> set (rx_ids rx kind)" if "rx_maps rx f k = Some s" for k s
    using assms(1) that unfolding maps_indexed_def fst_conv snd_conv ft [symmetric] by blast
  then show ?thesis using reference_candidates_cases [OF assms(3)] by blast
qed

section \<open>Parameter arrays are order-insensitive\<close>

lemma check_parameter_ok_iff:
  "check_parameter mode p i x before = Inr u \<longleftrightarrow>
     (mode = None \<or> is_dict x \<and> (mode = Some Ordered \<or>
        nonblank_text (get_or_null (dict_of x) ''key'') \<and>
        jget x ''key'' \<notin> set (map (\<lambda>y. jget y ''key'') before)))"
  by (cases mode) (auto simp: check_parameter_def)

lemma list_all2_pathfree:
  assumes "mapE f xs = Inr ys" and "\<And>x y. x \<in> set xs \<Longrightarrow> f x = Inr y \<Longrightarrow> g x = Inr y"
  shows "mapE g xs = Inr ys"
  using assms by (induction xs arbitrary: ys) (auto simp: bindE_Inr_iff)

text \<open>The path only names the place of an error: results do not depend on it.\<close>

lemma canonical_native_fields_path:
  "canonical_native_fields cx p v = Inr w \<Longrightarrow> canonical_native_fields cx q v = Inr w"
proof (induction cx p v arbitrary: w q rule: canonical_native_fields.induct)
  case (1 cx path raw)
  let ?d = "drop_default_priority (cx_family cx) raw"
  from "1.prems"[unfolded canonical_native_fields_obj] obtain out where
    w: "w = JObj (drop_server_default (cx_family cx) (cx_container cx) ?d out)" and
    run: "mapE (\<lambda>k. case map_of ?d k of None \<Rightarrow> Inr (k, JNull)
      | Some v \<Rightarrow> bindE (canonical_native_fields (field_ctx cx ?d k) (key_path path k)
          (field_value cx k v)) (\<lambda>c. Inr (k, c))) (kept_keys cx ?d) = Inr out"
    by blast
  have "mapE (\<lambda>k. case map_of ?d k of None \<Rightarrow> Inr (k, JNull)
      | Some v \<Rightarrow> bindE (canonical_native_fields (field_ctx cx ?d k) (key_path q k)
          (field_value cx k v)) (\<lambda>c. Inr (k, c))) (kept_keys cx ?d) = Inr out"
    by (rule list_all2_pathfree [OF run])
       (auto simp: bindE_Inr_iff split: option.splits intro: "1.IH")
  then show ?case unfolding canonical_native_fields_obj w by blast
next
  case (2 cx path xs)
  from "2.prems"[unfolded canonical_native_fields_arr] obtain items where
    w: "w = JArr (order_items (cx_mode cx) (cx_parent cx) items)" and
    run: "mapE (\<lambda>(i, x). bindE (check_parameter (cx_mode cx) path i x (take i xs))
       (\<lambda>_. canonical_native_fields (child_ctx None None (cx_mode cx \<noteq> None)) (index_path path i)
              (ordered_item (cx_mode cx) x))) (enumerate 0 xs) = Inr items"
    by blast
  have "mapE (\<lambda>(i, x). bindE (check_parameter (cx_mode cx) q i x (take i xs))
       (\<lambda>_. canonical_native_fields (child_ctx None None (cx_mode cx \<noteq> None)) (index_path q i)
              (ordered_item (cx_mode cx) x))) (enumerate 0 xs) = Inr items"
  proof (rule list_all2_pathfree [OF run], clarsimp simp only: split_paired_all prod.case bindE_Inr_iff)
    fix i x y u
    assume ix: "(i, x) \<in> set (enumerate 0 xs)"
      and ok: "check_parameter (cx_mode cx) path i x (take i xs) = Inr u"
      and y: "canonical_native_fields (child_ctx None None (cx_mode cx \<noteq> None)) (index_path path i)
        (ordered_item (cx_mode cx) x) = Inr y"
    then show "\<exists>u. check_parameter (cx_mode cx) q i x (take i xs) = Inr u \<and>
      canonical_native_fields (child_ctx None None (cx_mode cx \<noteq> None)) (index_path q i)
        (ordered_item (cx_mode cx) x) = Inr y"
      using "2.IH" [OF ix refl ok y] by (simp add: check_parameter_ok_iff)
  qed
  then show ?case unfolding canonical_native_fields_arr w by blast
qed auto

lemma canonical_key_field:
  assumes "canonical_native_fields (child_ctx None None b) p (JObj d) = Inr w"
    and "map_of d ''key'' = Some (JStr s)"
  shows "jget w ''key'' = Some (JStr s)"
proof -
  let ?cx = "child_ctx None None b"
  have d: "drop_default_priority (cx_family ?cx) d = d"
    by (simp add: drop_default_priority_def child_ctx_def)
  from assms(1)[unfolded canonical_native_fields_obj d] obtain out where
    w: "w = JObj (drop_server_default (cx_family ?cx) (cx_container ?cx) d out)" and
    run: "mapE (\<lambda>k. case map_of d k of None \<Rightarrow> Inr (k, JNull)
      | Some v \<Rightarrow> bindE (canonical_native_fields (field_ctx ?cx d k) (key_path p k)
          (field_value ?cx k v)) (\<lambda>c. Inr (k, c))) (kept_keys ?cx d) = Inr out"
    by blast
  have w': "w = JObj out" unfolding w by (simp add: drop_server_default_def child_ctx_def)
  have "''key'' \<in> set (kept_keys ?cx d)"
    using assms(2) by (auto simp: kept_keys_def omitted_field_def child_ctx_def
        simp flip: set_map simp: map_of_in_keys)
  then have "''key'' \<in> set (keys out)" unfolding mapE_keyed(1) [OF run] .
  then obtain c where c: "map_of out ''key'' = Some c" unfolding map_of_in_keys by blast
  from mapE_keyed(2) [OF run map_of_SomeD [OF c]] assms(2) have "c = JStr s"
    by (auto simp: field_value_def)
  with c show ?thesis by (simp add: w' jget_def dget_def dict_of_def)
qed

text \<open>A Parameter array in keyed mode: every element is a dictionary with its own key.\<close>

definition param_key :: "json \<Rightarrow> string" where
  "param_key x = text_of (get_or_null (dict_of x) ''key'')"

definition keyed_array :: "json list \<Rightarrow> bool" where
  "keyed_array xs \<longleftrightarrow> distinct (map param_key xs) \<and>
     (\<forall>x \<in> set xs. is_dict x \<and> nonblank_text (get_or_null (dict_of x) ''key''))"

lemma nonblank_jget:
  assumes "nonblank_text (get_or_null (dict_of x) ''key'')"
  shows "jget x ''key'' = Some (JStr (param_key x))"
  using assms
  by (auto simp: nonblank_text_def get_or_null_def jget_def param_key_def text_of_def
      split: option.splits json.splits)

lemma keyed_check_last:
  assumes "\<forall>y \<in> set xs. nonblank_text (get_or_null (dict_of y) ''key'')"
  shows "check_parameter (Some Keyed) p i x xs = Inr () \<longleftrightarrow>
    is_dict x \<and> nonblank_text (get_or_null (dict_of x) ''key'') \<and> param_key x \<notin> param_key ` set xs"
proof -
  have "jget x ''key'' = jget y ''key'' \<longleftrightarrow> param_key x = param_key y"
    if "y \<in> set xs" "nonblank_text (get_or_null (dict_of x) ''key'')" for y
    using assms that by (simp add: nonblank_jget)
  then show ?thesis by (auto simp: check_parameter_ok_iff image_iff)
qed

lemma keyed_checks:
  "(\<forall>i < length xs. check_parameter (Some Keyed) p i (xs ! i) (take i xs) = Inr ())
     \<longleftrightarrow> keyed_array xs"
proof (induction xs rule: rev_induct)
  case (snoc x xs)
  have "(\<forall>i < length (xs @ [x]). check_parameter (Some Keyed) p i ((xs @ [x]) ! i)
      (take i (xs @ [x])) = Inr ()) \<longleftrightarrow>
    keyed_array xs \<and> check_parameter (Some Keyed) p (length xs) x xs = Inr ()"
    unfolding snoc [symmetric] by (auto simp: nth_append less_Suc_eq)
  also have "\<dots> \<longleftrightarrow> keyed_array (xs @ [x])"
    using keyed_check_last [of xs p "length xs" x] by (auto simp: keyed_array_def)
  finally show ?case .
qed (simp add: keyed_array_def)

text \<open>A successful keyed pass is an element-wise pass over an array that is keyed.\<close>

lemma keyed_pass:
  assumes "cx_mode cx = Some Keyed"
  shows "canonical_native_fields cx p (JArr xs) = Inr w \<longleftrightarrow>
    keyed_array xs \<and> (\<exists>items. list_all2
      (\<lambda>x y. canonical_native_fields (child_ctx None None True) p x = Inr y) xs items \<and>
      w = JArr (sort_key param_sort_key items))"
proof -
  have item: "ordered_item (Some Keyed) x = x" for x
    by (cases x) (simp_all add: ordered_item_def)
  have path: "canonical_native_fields cx (index_path p i) x = Inr y \<longleftrightarrow>
      canonical_native_fields cx p x = Inr y" for cx i x y
    using canonical_native_fields_path by blast
  have "mapE (\<lambda>(i, x). bindE (check_parameter (cx_mode cx) p i x (take i xs))
         (\<lambda>_. canonical_native_fields (child_ctx None None (cx_mode cx \<noteq> None)) (index_path p i)
                (ordered_item (cx_mode cx) x))) (enumerate 0 xs) = Inr items \<longleftrightarrow>
    length xs = length items \<and>
    (\<forall>i < length xs. check_parameter (Some Keyed) p i (xs ! i) (take i xs) = Inr () \<and>
       canonical_native_fields (child_ctx None None True) p (xs ! i) = Inr (items ! i))"
    for items
    by (simp add: mapE_Inr_iff case_prod_beta bindE_Inr_iff assms item path list_all2_conv_all_nth
        nth_enumerate_eq)
  then show ?thesis
    unfolding canonical_native_fields_arr keyed_checks [of xs p, symmetric] list_all2_conv_all_nth
    by (simp add: order_items_def assms) blast
qed

lemma list_all2_reorder:
  assumes "list_all2 P xs ys" and "mset xs' = mset xs"
  obtains ys' where "list_all2 P xs' ys'" and "mset ys' = mset ys"
  using list_all2_reorder_left_invariance [OF assms(1)] assms(2) by metis

text \<open>
  A keyed Parameter array read back in another order normalises to the same value.
\<close>

lemma keyed_order_insensitive_aux:
  assumes "cx_mode cx = Some Keyed" and "canonical_native_fields cx p (JArr xs) = Inr w"
    and "mset ys = mset xs"
  shows "canonical_native_fields cx q (JArr ys) = Inr w"
proof -
  let ?P = "\<lambda>x y. canonical_native_fields (child_ctx None None True) p x = Inr y"
  from assms(2) obtain items where keyed: "keyed_array xs" and all: "list_all2 ?P xs items"
    and w: "w = JArr (sort_key param_sort_key items)"
    unfolding keyed_pass [OF assms(1)] by blast
  obtain items' where all': "list_all2 ?P ys items'" and items': "mset items' = mset items"
    by (rule list_all2_reorder [OF all assms(3)])
  have "set ys = set xs" using assms(3) by (rule mset_eq_setD)
  moreover have "distinct (map param_key ys) = distinct (map param_key xs)"
    using assms(3) by (intro mset_eq_imp_distinct_iff) simp
  ultimately have keyed': "keyed_array ys" using keyed by (simp add: keyed_array_def)
  have key: "fst (param_sort_key y) = param_key x" if "x \<in> set xs" "?P x y" for x y
  proof -
    have x: "is_dict x" "nonblank_text (get_or_null (dict_of x) ''key'')"
      using keyed that(1) by (simp_all add: keyed_array_def)
    then obtain d where d: "x = JObj d" by (cases x) (simp_all add: is_dict_def)
    have "map_of d ''key'' = Some (JStr (param_key x))"
      using nonblank_jget [OF x(2)] by (simp add: d jget_def dget_def dict_of_def)
    then have "jget y ''key'' = Some (JStr (param_key x))"
      using canonical_key_field that(2) unfolding d by blast
    then show ?thesis by (simp add: param_sort_key_def jget_def get_or_null_def text_of_def)
  qed
  have "map (fst \<circ> param_sort_key) items = map param_key xs"
    using all key by (auto simp: list_eq_iff_nth_eq list_all2_conv_all_nth)
  then have "distinct (map (fst \<circ> param_sort_key) items)"
    using keyed by (simp add: keyed_array_def)
  then have "inj_on (fst \<circ> param_sort_key) (set items)" by (simp add: distinct_map)
  then have "inj_on param_sort_key (set items)" by (rule inj_on_imageI2)
  then have "sort_key param_sort_key items = sort_key param_sort_key items'"
    using items' by (intro sort_key_inj_key_eq) simp_all
  moreover have "canonical_native_fields cx p (JArr ys) =
      Inr (JArr (sort_key param_sort_key items'))"
    using keyed' all' unfolding keyed_pass [OF assms(1)] by blast
  ultimately show ?thesis using canonical_native_fields_path w by metis
qed

end
