(* ===== verification/Persistence.thy ===== *)
theory Persistence
  imports PublicIdentifiers Native
begin

text \<open>
  \<^verbatim>\<open>redact_for_persistence\<close> of \<^verbatim>\<open>core/privacy.py\<close>: every value the
  detectors find is replaced by a marker before a document is saved. The findings come from
  the host; the walk over the value and the markers it writes are the code's.
\<close>

type_synonym findings = "(string \<times> string \<times> string) list"

definition source_marker :: "host \<Rightarrow> string \<Rightarrow> string \<Rightarrow> json \<Rightarrow> json res" where
  "source_marker h here source marker =
     (let d = dset (dict_of marker) ''source_integrity'' (template_source_integrity h source) in
      case inspect_template_source h source of
        Inl e \<Rightarrow> if is_value_error e then Inr (JObj d) else Inl e
      | Inr inspection \<Rightarrow> Inr (JObj (dset d ''source_inspection'' (JObj
          [(''native_type'', get_or_null (dict_of inspection) ''native_type''),
           (''parameter_types'', get_or_null (dict_of inspection) ''parameter_types'')]))))"

definition own_reference :: "dict \<Rightarrow> string option" where
  "own_reference d = (case dget d ''reference'' of
     Some (JStr r) \<Rightarrow> if secret_reference (strip r) then Some r else None
   | _ \<Rightarrow> None)"

definition finding_marker :: "host \<Rightarrow> string \<Rightarrow> string \<times> string \<Rightarrow> json \<Rightarrow> json res" where
  "finding_marker h here finding item =
     (if jget item ''secret_state'' = Some (JStr redacted_state)
      then redacted_marker (own_reference (dict_of item)) None
      else bindE (redacted_marker None (Some finding)) (\<lambda>marker.
        (case item of
           JStr source \<Rightarrow> if ends_with here ''.templateData''
             then source_marker h here source marker else Inr marker
         | _ \<Rightarrow> Inr marker)))"

text \<open>The last finding of a path counts, as in the dictionary the code builds.\<close>

definition finding_at :: "findings \<Rightarrow> string \<Rightarrow> (string \<times> string) option" where
  "finding_at fs here = map_of (rev fs) here"

function redact_visit :: "host \<Rightarrow> findings \<Rightarrow> string \<Rightarrow> json \<Rightarrow> json res" where
  "redact_visit h fs here item =
     (if is_redacted item then Inr item
      else (case finding_at fs here of
        Some finding \<Rightarrow> finding_marker h here finding item
      | None \<Rightarrow>
          (case item of
             JObj d \<Rightarrow> bindE (mapE (\<lambda>(k, v).
                 bindE (redact_visit h fs (key_path here k) v) (\<lambda>w. Inr (k, w))) d)
               (\<lambda>e. Inr (JObj e))
           | JArr xs \<Rightarrow> bindE (mapE (\<lambda>(i, v). redact_visit h fs (index_path here i) v)
                 (enumerate 0 xs)) (\<lambda>ys. Inr (JArr ys))
           | _ \<Rightarrow> Inr item)))"
  by pat_completeness auto
termination
  by (relation "measure (\<lambda>(h, fs, here, item). size item)")
     (auto intro: size_arr_enumerate size_dict_entry_pair)

declare redact_visit.simps [simp del]

definition redact_for_persistence :: "host \<Rightarrow> string list \<Rightarrow> json \<Rightarrow> json res" where
  "redact_for_persistence h public_paths value =
     redact_visit h (h_findings h value public_paths) ''$'' value"

text \<open>
  The call the runtime makes everywhere: the exempted paths are those the given records
  declare for the value itself.
\<close>

definition redact_for_records :: "host \<Rightarrow> json list \<Rightarrow> json \<Rightarrow> json res" where
  "redact_for_records h records value =
     bindE (public_identifier_paths h (Some records) value) (\<lambda>paths. redact_for_persistence h paths value)"

section \<open>The paths of a value\<close>

text \<open>Every path the walk of the detectors can stand at.\<close>

function value_paths :: "string \<Rightarrow> json \<Rightarrow> string list" where
  "value_paths here v = here # (case v of
      JObj d \<Rightarrow> concat (map (\<lambda>(k, w). value_paths (key_path here k) w) d)
    | JArr xs \<Rightarrow> concat (map (\<lambda>(i, w). value_paths (index_path here i) w) (enumerate 0 xs))
    | _ \<Rightarrow> [])"
  by pat_completeness auto
termination
  by (relation "measure (\<lambda>(here, v). size v)")
     (auto intro: size_arr_enumerate size_dict_entry_pair)

declare value_paths.simps [simp del]

text \<open>
  The detectors ask for an exemption only at the path they stand at (\<open>here in
  public_identifier_paths\<close>): exempted paths that the value does not have make no difference.
\<close>

definition exemptions_by_path :: "host \<Rightarrow> bool" where
  "exemptions_by_path h \<longleftrightarrow> (\<forall>v ps qs. (\<forall>p \<in> set (value_paths ''$'' v). p \<in> set ps \<longleftrightarrow> p \<in> set qs) \<longrightarrow>
     h_findings h v ps = h_findings h v qs)"

lemma value_paths_prefix: "p \<in> set (value_paths here v) \<Longrightarrow> \<exists>s. p = here @ s"
proof (induction here v rule: value_paths.induct)
  case (1 here v)
  have "p = here \<or> (\<exists>d k w. v = JObj d \<and> (k, w) \<in> set d \<and> p \<in> set (value_paths (key_path here k) w)) \<or>
      (\<exists>xs i w. v = JArr xs \<and> (i, w) \<in> set (enumerate 0 xs) \<and> p \<in> set (value_paths (index_path here i) w))"
    using "1.prems" unfolding value_paths.simps [of here v] by (cases v) auto
  then show ?case
  proof (elim disjE exE conjE)
    fix d k w assume "v = JObj d" "(k, w) \<in> set d" "p \<in> set (value_paths (key_path here k) w)"
    then have "\<exists>s. p = key_path here k @ s" using "1.IH"(2) by blast
    then show ?thesis by (auto simp: key_path_def)
  next
    fix xs i w assume "v = JArr xs" "(i, w) \<in> set (enumerate 0 xs)" "p \<in> set (value_paths (index_path here i) w)"
    then have "\<exists>s. p = index_path here i @ s" using "1.IH"(1) by blast
    then show ?thesis by (auto simp: index_path_def)
  qed simp
qed

lemma value_paths_field:
  "p \<in> set (value_paths ''$'' (JObj d)) \<Longrightarrow> p = ''$'' \<or> (\<exists>k s. k \<in> set (keys d) \<and> p = ''$.'' @ k @ s)"
  by (subst (asm) value_paths.simps) (force simp: key_path_def dest!: value_paths_prefix)

lemma redact_unexempted:
  assumes "exemptions_by_path h" and "\<And>p. p \<in> set ps \<Longrightarrow> p \<notin> set (value_paths ''$'' v)"
  shows "redact_for_persistence h ps v = redact_for_persistence h [] v"
proof -
  have "h_findings h v ps = h_findings h v []"
    using assms unfolding exemptions_by_path_def by (metis list.set(1) empty_iff)
  then show ?thesis by (simp add: redact_for_persistence_def)
qed

section \<open>What persistence exposes\<close>

text \<open>The paths of a value that no marker hides.\<close>

function exposed :: "string \<Rightarrow> json \<Rightarrow> string list" where
  "exposed here v =
     (if is_redacted v then []
      else here # (case v of
        JObj d \<Rightarrow> concat (map (\<lambda>(k, w). exposed (key_path here k) w) d)
      | JArr xs \<Rightarrow> concat (map (\<lambda>(i, w). exposed (index_path here i) w) (enumerate 0 xs))
      | _ \<Rightarrow> []))"
  by pat_completeness auto
termination
  by (relation "measure (\<lambda>(here, v). size v)")
     (auto intro: size_arr_enumerate size_dict_entry_pair)

declare exposed.simps [simp del]

text \<open>A digest is 64 lower-case hexadecimal digits.\<close>

definition hex_digests :: "host \<Rightarrow> bool" where
  "hex_digests h \<longleftrightarrow> (\<forall>s. hex64 (JStr (h_sha256 h s)))"

lemma source_integrity_valid:
  "hex_digests h \<Longrightarrow> valid_source_integrity (template_source_integrity h s)"
  by (simp add: hex_digests_def template_source_integrity_def valid_source_integrity_def
      same_keys_def)

definition input_shapes :: "dict \<Rightarrow> bool" where
  "input_shapes ts \<longleftrightarrow> list_all (\<lambda>(name, kind). name \<noteq> [] \<and>
     (kind = JNull \<or> text_among (Some kind) [''template'', ''boolean'', ''list''])) ts"

lemma field_shape_known:
  "field_shape t = JNull \<or> text_among (Some (field_shape t)) [''template'', ''boolean'', ''list'']"
  by (simp add: field_shape_def text_among_def)

text \<open>What every recorded input preserves holds of the whole inspection.\<close>

lemma inspect_input_invariant:
  assumes "inspect_input types f = Inr types'" and "P types"
    and "\<And>ts name t. P ts \<Longrightarrow> name \<noteq> [] \<Longrightarrow> P (dset ts name (field_shape t))"
  shows "P types'"
proof -
  obtain name where "name \<noteq> []" "types' = dset types name (field_shape (get_or_null f ''type''))"
    using assms(1) by (auto simp: inspect_input_def Let_def split: if_splits json.splits)
  then show ?thesis using assms(2,3) by simp
qed

lemma inspect_fields_invariant:
  assumes "\<And>ts name t. P ts \<Longrightarrow> name \<noteq> [] \<Longrightarrow> P (dset ts name (field_shape t))"
  shows "inspect_fields types v = Inr types' \<Longrightarrow> P types \<Longrightarrow> P types'"
proof (induction types v arbitrary: types' rule: inspect_fields.induct)
  case (1 types v)
  from "1.prems"(1) obtain rows where v: "v = JArr rows"
    by (auto simp: inspect_fields.simps split: json.splits)
  show ?case
  proof (rule foldE_invariant [where P = P, OF _ "1.prems"(2)])
    show "foldE (\<lambda>types field.
          (case field of
             JObj f \<Rightarrow>
               if get_or_null f ''type'' = JStr ''GROUP''
               then (case map_of f ''subParams'' of
                       None \<Rightarrow> Inr types | Some sub \<Rightarrow> inspect_fields types sub)
               else if get_or_null f ''type'' = JStr ''LABEL'' then Inr types
               else inspect_input types f
           | _ \<Rightarrow> Inl (ValueError ''Template field definition must be an object''))) types rows
        = Inr types'"
      using "1.prems"(1) unfolding v by (simp add: inspect_fields.simps [of types "JArr rows"])
    fix ts x ts'
    assume x: "x \<in> set rows" "P ts" "(case x of
             JObj f \<Rightarrow>
               if get_or_null f ''type'' = JStr ''GROUP''
               then (case map_of f ''subParams'' of
                       None \<Rightarrow> Inr ts | Some sub \<Rightarrow> inspect_fields ts sub)
               else if get_or_null f ''type'' = JStr ''LABEL'' then Inr ts
               else inspect_input ts f
           | _ \<Rightarrow> Inl (ValueError ''Template field definition must be an object'')) = Inr ts'"
    from x(3) obtain f where f: "x = JObj f" by (cases x) simp_all
    show "P ts'"
      using x "1.IH" [OF v x(1) f _ _ _ x(2)] inspect_input_invariant [where P = P, OF _ x(2) assms]
      unfolding f by (simp split: if_splits option.splits)
  qed
qed

lemma inspect_fields_shapes:
  assumes "inspect_fields [] v = Inr types"
  shows "input_shapes types" and "wf_json (JObj types)"
proof -
  have "input_shapes (dset ts name (field_shape t))" if "input_shapes ts" "name \<noteq> []" for ts name t
    using set_dset [of ts name "field_shape t"] that field_shape_known [of t]
    by (auto simp: input_shapes_def list_all_iff)
  then show "input_shapes types"
    by (rule inspect_fields_invariant [OF _ assms]) (simp_all add: input_shapes_def)
  have "wf_json (JObj (dset ts name (field_shape t)))" if "wf_json (JObj ts)" for ts name t
    using that by (rule wf_dset) (simp add: field_shape_def)
  then show "wf_json (JObj types)"
    by (rule inspect_fields_invariant [where P = "\<lambda>ts. wf_json (JObj ts)", OF _ assms]) simp_all
qed

lemma source_inspection_valid:
  assumes "inspect_template_source h s = Inr inspection"
  shows "valid_source_inspection (JObj
    [(''native_type'', get_or_null (dict_of inspection) ''native_type''),
     (''parameter_types'', get_or_null (dict_of inspection) ''parameter_types'')])"
proof -
  obtain n sections rows types where n: "inspect_template_identity h s = Inr n"
    and types: "inspect_fields [] rows = Inr types"
    and out: "inspection = JObj ([(''native_type'', JStr n), (''parameter_types'', JObj types)]
              @ dict_of (template_source_integrity h s))"
    using assms by (auto simp: inspect_template_source_def bindE_Inr_iff)
  have n_type: "native_template_type n"
    using n by (auto simp: inspect_template_identity_def bindE_Inr_iff Let_def split: if_splits)
  have "input_shapes types"
    by (rule inspect_fields_shapes [OF types])
  with n_type show ?thesis
    by (simp add: out valid_source_inspection_def same_keys_def dget_def get_or_null_def
        input_shapes_def dict_of_def)
qed

lemma dget_dset: "dget (dset d k v) j = (if j = k then Some v else dget d j)"
  by (simp add: dget_def dset_def update_conv')

lemma dset_marker:
  assumes "is_redacted (JObj d)" and "k = ''source_integrity'' \<and> valid_source_integrity v \<or>
    k = ''source_inspection'' \<and> valid_source_inspection v \<and> has_key d ''source_integrity''"
  shows "is_redacted (JObj (dset d k v))"
proof -
  have keys: "set (keys (dset d k v)) = insert k (set (keys d))"
    by (simp add: dset_def dom_update)
  then have "keys_within (dset d k v) ks" if "keys_within d ks" "k \<in> set ks" for ks
    using that by (simp only: keys_within_def list_all_iff) blast
  then have within: "keys_within (dset d k v) [''secret_state'', ''reference'', ''redaction'',
      ''source_integrity'', ''source_inspection'']"
    using assms by (auto simp: is_redacted_def)
  show ?thesis
    using assms(2)
  proof (elim disjE conjE)
    assume "k = ''source_integrity''" "valid_source_integrity v"
    then show ?thesis using assms(1) within by (simp add: is_redacted_def dget_dset has_key_def)
      (cases "dget d ''source_inspection''"; simp add: has_key_def dget_dset)
  next
    assume "k = ''source_inspection''" "valid_source_inspection v" "has_key d ''source_integrity''"
    then show ?thesis using assms(1) within by (simp add: is_redacted_def dget_dset has_key_def)
  qed
qed

lemma source_marker_redacted:
  assumes "source_marker h here s marker = Inr w" and "is_redacted marker" and "hex_digests h"
  shows "is_redacted w"
proof -
  obtain d where d: "marker = JObj d" using is_redacted_dict [OF assms(2)]
    by (cases marker) (simp_all add: is_dict_def)
  let ?d = "dset d ''source_integrity'' (template_source_integrity h s)"
  have d1: "is_redacted (JObj ?d)"
    using assms(2,3) source_integrity_valid by (intro dset_marker) (simp_all add: d)
  have "has_key ?d ''source_integrity''" by (simp add: has_key_def dget_def dset_def update_conv')
  then show ?thesis
    using assms(1) d1 source_inspection_valid
    by (auto simp: source_marker_def d dict_of_def Let_def split: sum.splits if_splits
        intro!: dset_marker)
qed

lemma finding_marker_redacted:
  "finding_marker h here finding item = Inr w \<Longrightarrow> hex_digests h \<Longrightarrow> is_redacted w"
  by (cases item) (auto simp: finding_marker_def bindE_Inr_iff split: if_splits
      dest: redacted_marker_valid source_marker_redacted)

lemma exposed_marker [simp]: "is_redacted v \<Longrightarrow> exposed here v = []"
  by (simp add: exposed.simps)

lemma exposed_scalar: "\<not> is_dict v \<Longrightarrow> \<not> is_list v \<Longrightarrow> set (exposed here v) \<subseteq> {here}"
  by (subst exposed.simps, cases v) (simp_all add: is_dict_def is_list_def)

lemma exposed_obj: "set (exposed here (JObj d)) \<subseteq>
    insert here (\<Union>(k, w) \<in> set d. set (exposed (key_path here k) w))"
  by (subst exposed.simps) auto

lemma exposed_arr: "set (exposed here (JArr xs)) \<subseteq>
    insert here (\<Union>i < length xs. set (exposed (index_path here i) (xs ! i)))"
  by (subst exposed.simps) (auto simp: in_set_enumerate_eq)

lemma redact_scalar_exposed:
  assumes "\<not> is_dict item" and "\<not> is_list item" and "hex_digests h"
    and "redact_visit h fs here item = Inr w" and "p \<in> set (exposed here w)"
  shows "finding_at fs p = None"
proof (cases "finding_at fs here")
  case None
  have "\<not> is_redacted item" using assms(1) is_redacted_dict by blast
  then have "w = item"
    using assms(1,2,4) None
    by (subst (asm) redact_visit.simps) (cases item, simp_all add: is_dict_def is_list_def)
  then show ?thesis using None assms(5) exposed_scalar [OF assms(1,2)] by blast
next
  case (Some finding)
  have "\<not> is_redacted item" using assms(1) is_redacted_dict by blast
  then have "finding_marker h here finding item = Inr w"
    using assms(4) Some by (subst (asm) redact_visit.simps) simp
  then show ?thesis using assms(5) finding_marker_redacted [OF _ assms(3)] by simp
qed

lemma redact_visit_exposed:
  assumes "hex_digests h"
  shows "redact_visit h fs here item = Inr w \<Longrightarrow> p \<in> set (exposed here w) \<Longrightarrow>
    finding_at fs p = None"
proof (induction item arbitrary: here w p rule: json_induct)
  case (Arr xs)
  show ?case
  proof (cases "finding_at fs here")
    case None
    then obtain ys where w: "w = JArr ys"
      and ys: "mapE (\<lambda>(i, v). redact_visit h fs (index_path here i) v) (enumerate 0 xs) = Inr ys"
      using Arr.prems(1)
      by (subst (asm) redact_visit.simps) (auto simp: bindE_Inr_iff is_redacted_def)
    have "length xs = length ys \<and>
        (\<forall>i < length xs. redact_visit h fs (index_path here i) (xs ! i) = Inr (ys ! i))"
      using ys unfolding mapE_Inr_iff
      by (simp add: case_prod_beta list_all2_enumerate [where P = "\<lambda>i x y. redact_visit h fs (index_path here i) x = Inr y"])
    then have run: "redact_visit h fs (index_path here i) (xs ! i) = Inr (ys ! i)"
      if "i < length ys" for i using that by simp
    have "p = here \<or> (\<exists>i < length ys. p \<in> set (exposed (index_path here i) (ys ! i)))"
      using Arr.prems(2) exposed_arr [of here ys] unfolding w by blast
    then show ?thesis
    proof
      assume "\<exists>i < length ys. p \<in> set (exposed (index_path here i) (ys ! i))"
      then obtain i where i: "i < length ys" "p \<in> set (exposed (index_path here i) (ys ! i))" by blast
      have "xs ! i \<in> set xs" using i(1) ys mapE_Inr_length by fastforce
      then show ?thesis using Arr.IH run [OF i(1)] i(2) by blast
    qed (simp add: None)
  next
    case (Some finding)
    then have "is_redacted w"
      using Arr.prems(1) finding_marker_redacted [OF _ assms]
      by (subst (asm) redact_visit.simps) (auto simp: is_redacted_def)
    then show ?thesis using Arr.prems(2) by simp
  qed
next
  case (Obj d)
  show ?case
  proof (cases "is_redacted w")
    case False
    then have "\<not> is_redacted (JObj d)" "finding_at fs here = None"
      using Obj.prems(1) finding_marker_redacted [OF _ assms]
      by (auto simp: redact_visit.simps [of h fs here "JObj d"] split: if_splits option.splits)
    then obtain e where w: "w = JObj e" and e: "mapE (\<lambda>(k, v).
          bindE (redact_visit h fs (key_path here k) v) (\<lambda>w. Inr (k, w))) d = Inr e"
      using Obj.prems(1)
      by (auto simp: redact_visit.simps [of h fs here "JObj d"] bindE_Inr_iff)
    have "finding_at fs p = None" if kv: "(k, v) \<in> set e" and q: "p \<in> set (exposed (key_path here k) v)" for k v
    proof -
      obtain v0 where "(k, v0) \<in> set d" "redact_visit h fs (key_path here k) v0 = Inr v"
        using mapE_memberD [OF e kv] by (auto simp: bindE_Inr_iff)
      then show ?thesis using Obj.IH q by blast
    qed
    then show ?thesis
      using Obj.prems(2) exposed_obj [of here e] \<open>finding_at fs here = None\<close> unfolding w by blast
  qed (use Obj.prems(2) in simp)
qed (erule (1) redact_scalar_exposed [OF _ _ assms, rotated 2]; simp add: is_dict_def is_list_def)+

text \<open>Where the detectors find nothing, persistence keeps the value.\<close>

lemma redact_visit_clean: "redact_visit h [] here v = Inr v"
proof (induction v arbitrary: here rule: json_induct)
  case (Arr xs)
  have "mapE (\<lambda>(i, v). redact_visit h [] (index_path here i) v) (enumerate 0 xs) = Inr xs"
    unfolding mapE_Inr_iff using Arr
    by (simp add: case_prod_beta list_all2_enumerate [where P = "\<lambda>i x y. redact_visit h [] (index_path here i) x = Inr y"])
  then show ?case by (subst redact_visit.simps) (simp add: finding_at_def)
next
  case (Obj d)
  have "mapE (\<lambda>(k, v). bindE (redact_visit h [] (key_path here k) v) (\<lambda>w. Inr (k, w))) ys = Inr ys"
    if "set ys \<subseteq> set d" for ys
    using that Obj by (induction ys) auto
  from this [of d] show ?case by (subst redact_visit.simps) (simp add: finding_at_def)
qed (simp_all add: redact_visit.simps finding_at_def)

section \<open>Well-formedness\<close>

lemma redacted_marker_wf: "redacted_marker r e = Inr m \<Longrightarrow> wf_json m"
  by (auto simp: redacted_marker_def bindE_Inr_iff marker_reference_def marker_evidence_def
      split: option.splits if_splits)

lemma source_marker_wf:
  assumes "source_marker h here s marker = Inr w" and "wf_json marker" and "is_dict marker"
  shows "wf_json w"
proof -
  obtain d where d: "marker = JObj d" using assms(3) by (cases marker) (simp_all add: is_dict_def)
  let ?d = "dset d ''source_integrity'' (template_source_integrity h s)"
  have d1: "wf_json (JObj ?d)"
    using assms(2) unfolding d by (rule wf_dset) (simp add: template_source_integrity_def)
  show ?thesis
  proof (cases "inspect_template_source h s")
    case (Inl e)
    then show ?thesis using assms(1) d1
      by (auto simp: source_marker_def d dict_of_def Let_def split: if_splits simp del: wf_json.simps)
  next
    case (Inr inspection)
    then obtain n rows types where "inspect_fields [] rows = Inr types"
      and out: "inspection = JObj ([(''native_type'', JStr n), (''parameter_types'', JObj types)]
                @ dict_of (template_source_integrity h s))"
      by (auto simp: inspect_template_source_def bindE_Inr_iff)
    then have "wf_json (JObj types)" by (intro inspect_fields_shapes)
    then have "wf_json (JObj [(''native_type'', get_or_null (dict_of inspection) ''native_type''),
           (''parameter_types'', get_or_null (dict_of inspection) ''parameter_types'')])"
      by (simp add: out get_or_null_def dget_def dict_of_def)
    then show ?thesis
      using assms(1) d1 Inr by (auto simp: source_marker_def d dict_of_def Let_def simp del: wf_json.simps)
  qed
qed

lemma finding_marker_wf: "finding_marker h here finding item = Inr w \<Longrightarrow> wf_json w"
  by (cases item) (auto simp: finding_marker_def bindE_Inr_iff split: if_splits
      dest: redacted_marker_wf redacted_marker_valid
      elim!: source_marker_wf dest!: is_redacted_dict)

lemma mapE_enumerate:
  "mapE (\<lambda>(i, v). f i v) (enumerate 0 xs) = Inr ys \<longleftrightarrow>
     length xs = length ys \<and> (\<forall>i < length xs. f i (xs ! i) = Inr (ys ! i))"
  unfolding mapE_Inr_iff
  using list_all2_enumerate [of "\<lambda>i x y. f i x = Inr y" xs ys] by (simp add: case_prod_beta)

lemma mapE_values_keys:
  "mapE (\<lambda>(k, v). bindE (f k v) (\<lambda>w. Inr (k, w))) d = Inr e \<Longrightarrow> keys e = keys d"
  by (induction d arbitrary: e) (auto simp: bindE_Inr_iff)

lemma mapE_values_item:
  "mapE (\<lambda>(k, v). bindE (f k v) (\<lambda>w. Inr (k, w))) d = Inr e \<Longrightarrow> (k, w) \<in> set e \<Longrightarrow>
   \<exists>v. (k, v) \<in> set d \<and> f k v = Inr w"
  by (induction d arbitrary: e) (fastforce simp: bindE_Inr_iff)+

lemma redact_visit_wf: "redact_visit h fs here v = Inr w \<Longrightarrow> wf_json v \<Longrightarrow> wf_json w"
proof (induction v arbitrary: here w rule: json_induct)
  case (Arr xs)
  show ?case
  proof (cases "finding_at fs here")
    case None
    then obtain ys where w: "w = JArr ys" "length xs = length ys"
      "\<forall>i < length xs. redact_visit h fs (index_path here i) (xs ! i) = Inr (ys ! i)"
      using Arr.prems(1) by (subst (asm) redact_visit.simps)
        (auto simp: bindE_Inr_iff is_redacted_def mapE_enumerate)
    have "wf_json (ys ! i)" if "i < length ys" for i
      using Arr.IH [of "xs ! i"] Arr.prems(2) w that by (auto simp: list_all_length)
    then show ?thesis by (simp add: w(1) list_all_length)
  next
    case (Some finding)
    then show ?thesis using Arr.prems(1) finding_marker_wf
      by (subst (asm) redact_visit.simps) (auto simp: is_redacted_def)
  qed
next
  case (Obj d)
  show ?case
  proof (cases "is_redacted (JObj d) \<or> finding_at fs here \<noteq> None")
    case True
    then show ?thesis using Obj.prems finding_marker_wf
      by (auto simp: redact_visit.simps [of h fs here "JObj d"] split: if_splits simp del: wf_json.simps)
  next
    case False
    then have "\<not> is_redacted (JObj d)" "finding_at fs here = None" by blast+
    then obtain e where w: "w = JObj e" and e: "mapE (\<lambda>(k, v).
          bindE (redact_visit h fs (key_path here k) v) (\<lambda>w. Inr (k, w))) d = Inr e"
      using Obj.prems(1)
      by (auto simp: redact_visit.simps [of h fs here "JObj d"] bindE_Inr_iff)
    show ?thesis
      unfolding w
    proof (rule wf_obj_of_values)
      show "distinct (keys e)" using Obj.prems(2) mapE_values_keys [OF e] by simp
      fix k v assume "(k, v) \<in> set e"
      then obtain v0 where v0: "(k, v0) \<in> set d" "redact_visit h fs (key_path here k) v0 = Inr v"
        using mapE_values_item [OF e] by blast
      then show "wf_json v" using Obj.IH Obj.prems(2) by (auto simp: list_all_iff)
    qed
  qed
qed (auto simp: redact_visit.simps is_redacted_def split: option.splits dest: finding_marker_wf)

end
