(* ===== verification/RunJson.thy ===== *)
theory RunJson
  imports Persistence
begin

text \<open>
  The run document as the JSON value the code holds: what is hashed, redacted, validated
  against the schema and written to disk. Optional fields appear only when they are present;
  Python's \<open>None\<close> is \<open>JNull\<close>.
\<close>

definition optional :: "string \<Rightarrow> json option \<Rightarrow> dict" where
  "optional k v = (case v of None \<Rightarrow> [] | Some x \<Rightarrow> [(k, x)])"

definition texts :: "string list \<Rightarrow> json" where
  "texts xs = JArr (map JStr xs)"

definition nullable_text :: "string option \<Rightarrow> json" where
  "nullable_text v = (case v of None \<Rightarrow> JNull | Some s \<Rightarrow> JStr s)"

definition container_json :: "container \<Rightarrow> json" where
  "container_json c = JStr (container_name c)"

fun mode_name :: "run_mode \<Rightarrow> string" where
  "mode_name WebMode = ''web''"
| "mode_name ServerMode = ''server''"
| "mode_name PipelineMode = ''pipeline''"

fun execution_mode_name :: "execution_mode \<Rightarrow> string" where
  "execution_mode_name IsolatedDurable = ''isolated-durable''"
| "execution_mode_name RefonteDurable = ''refonte-durable''"

fun phase_name :: "phase \<Rightarrow> string" where
  "phase_name Preflight = ''preflight''"
| "phase_name Mutation = ''mutation''"
| "phase_name Readback = ''readback''"
| "phase_name Complete = ''complete''"

section \<open>Operations\<close>

definition journal_json :: "journal_entry \<Rightarrow> json" where
  "journal_json e = JObj
     ([(''at'', JStr (je_at e)), (''state'', JStr (state_name (je_state e))),
       (''note'', JStr (je_note e))] @
      optional ''result'' (je_result e) @ optional ''error'' (je_error e) @
      (if je_reopened e then [(''reopened'', JBool True)] else []) @
      (if je_convergence_repair e then [(''convergence_repair'', JBool True)] else []))"

definition op_dict :: "operation \<Rightarrow> dict" where
  "op_dict op =
     [(''operation_id'', JStr (op_id op)), (''target_id'', JStr (op_target op)),
      (''container_type'', container_json (op_container op)),
      (''resource_family'', JStr (op_family op)), (''name'', JStr (op_name op)),
      (''object_key'', JStr (op_key op)), (''action'', JStr (action_name (op_action op))),
      (''requirement_ids'', texts (op_requirements op)),
      (''dependencies'', texts (op_dependencies op)),
      (''justification'', JStr (op_justification op)), (''evidence'', texts (op_evidence op)),
      (''risk'', JStr (op_risk op)), (''state'', JStr (state_name (op_state op))),
      (''journal'', JArr (map journal_json (op_journal op)))] @
     optional ''intended'' (op_intended op) @ optional ''pre_change'' (op_pre_change op) @
     optional ''object_id'' (map_option JStr (op_object_id op)) @
     optional ''new_name'' (map_option JStr (op_new_name op)) @
     optional ''approval'' (op_approval op) @
     optional ''replacement_reason'' (map_option JStr (op_replacement_reason op)) @
     optional ''permission_delta'' (op_permission_delta op) @
     optional ''public_identifiers'' (op_public_identifiers op) @
     optional ''assertions'' (op_assertions op) @
     optional ''pre_write_readback'' (op_pre_write_readback op) @
     optional ''pre_write_comparison'' (op_pre_write_comparison op) @
     optional ''comparison'' (op_comparison op) @
     optional ''saved_readback'' (op_saved_readback op)"

definition op_json :: "operation \<Rightarrow> json" where
  "op_json op = JObj (op_dict op)"

section \<open>Targets, baselines, results\<close>

definition identity_json :: "identity \<Rightarrow> json" where
  "identity_json i = JObj
     [(''account_id'', JStr (account_id i)), (''container_id'', JStr (container_id i)),
      (''workspace_id'', JStr (workspace_id i)), (''container_type'', container_json (container_type i))]"

definition capability_json :: "capability \<Rightarrow> json" where
  "capability_json c = JObj
     [(''list'', JBool (cap_list c)), (''get'', JBool (cap_get c)), (''create'', JBool (cap_create c)),
      (''update'', JBool (cap_update c)), (''remove'', JBool (cap_remove c))]"

definition map_json :: "('a \<Rightarrow> json) \<Rightarrow> (string \<times> 'a) list \<Rightarrow> json" where
  "map_json f m = JObj (map (\<lambda>(k, v). (k, f v)) m)"

definition target_dict :: "target \<Rightarrow> dict" where
  "target_dict t = [(''target_id'', JStr (tg_id t)),
     (''container_type'', container_json (container_type (tg_identity t))),
     (''account_id'', JStr (account_id (tg_identity t))),
     (''container_id'', JStr (container_id (tg_identity t))),
     (''workspace_id'', JStr (workspace_id (tg_identity t))),
     (''adapter_capabilities'', map_json capability_json (tg_capabilities t))]"

definition receipt_json :: "receipt \<Rightarrow> json" where
  "receipt_json r = JObj
     [(''pages_read'', JInt (int (pages_read r))), (''exhausted'', JBool (exhausted r))]"

definition evidence_json :: "capture_evidence \<Rightarrow> json" where
  "evidence_json e = JObj
     [(''captured_by'', JStr (ce_captured_by e)), (''source_identity'', identity_json (ce_identity e)),
      (''resource_pagination'', map_json receipt_json (ce_pagination e)),
      (''workspace_changes_pagination'', receipt_json (ce_changes_pagination e))]"

definition supplemental_json :: "(string \<times> capture_evidence) list \<Rightarrow> json" where
  "supplemental_json xs = JArr (map (\<lambda>(time, e). JObj
     [(''captured_at'', JStr time), (''capture_evidence'', evidence_json e)]) xs)"

definition nullable :: "json option \<Rightarrow> json" where
  "nullable v = (case v of None \<Rightarrow> JNull | Some x \<Rightarrow> x)"

definition resources_json :: "(string \<times> json list) list \<Rightarrow> json" where
  "resources_json rs = map_json JArr rs"

definition baseline_json :: "baseline \<Rightarrow> json" where
  "baseline_json b = JObj
     [(''target_id'', JStr (bl_target b)), (''captured_at'', nullable_text (bl_captured_at b)),
      (''complete'', JBool (bl_complete b)), (''resource_families'', texts (bl_families b)),
      (''family_counts'', map_json (\<lambda>n. JInt (int n)) (bl_counts b)),
      (''resource_identities'', map_json texts (bl_identities b)),
      (''resources'', resources_json (bl_resources b)),
      (''preexisting_workspace_changes'', nullable (map_option JArr (bl_changes b))),
      (''capture_evidence'', nullable (map_option evidence_json (bl_evidence b))),
      (''supplemental_captures'', supplemental_json (bl_supplemental b)),
      (''fingerprint'', nullable_text (bl_fingerprint b))]"

definition recovery_json :: "string list option \<Rightarrow> json" where
  "recovery_json r = (case r of None \<Rightarrow> JNull
     | Some ids \<Rightarrow> JObj [(''operation_ids'', texts ids),
         (''next_action'', JStr ''authoritative readback before retry'')])"

definition result_json :: "target_result \<Rightarrow> json" where
  "result_json r = JObj
     ([(''target_id'', JStr (tr_target r)), (''status'', JStr (status_name (tr_status r))),
       (''last_verified_operation_id'', nullable_text (tr_last_verified r)),
       (''recovery_boundary'', recovery_json (tr_recovery r))] @
      optional ''baseline_error'' (map_option (\<lambda>(time, e).
        JObj [(''at'', JStr time), (''error'', JStr e)]) (tr_baseline_error r)))"

definition observation_json :: "observation \<Rightarrow> json" where
  "observation_json ob = JObj
     [(''operation_id'', JStr (ob_operation ob)), (''target_id'', JStr (ob_target ob)),
      (''source'', JStr (ob_source ob)), (''source_identity'', identity_json (ob_identity ob)),
      (''observed_at'', JStr (ob_at ob)), (''decision'', JStr (ob_decision ob)),
      (''saved'', ob_saved ob), (''comparison'', ob_comparison ob)]"

definition idempotency_json :: "idempotency \<Rightarrow> json" where
  "idempotency_json i = JObj
     [(''checked'', JBool (id_checked i)), (''remaining_actions'', texts (id_remaining i)),
      (''observations'', JArr (map observation_json (id_observations i)))]"

definition inventory_json :: "final_inventory \<Rightarrow> json" where
  "inventory_json f = JObj
     [(''target_id'', JStr (fi_target f)), (''observed_at'', JStr (fi_at f)),
      (''source_identity'', identity_json (fi_identity f)),
      (''resources'', resources_json (fi_resources f)),
      (''resource_pagination'', map_json receipt_json (fi_pagination f))]"

section \<open>The document\<close>

definition requirement_dict :: "requirement \<Rightarrow> dict" where
  "requirement_dict r = [(''id'', JStr (rq_id r)), (''kind'', JStr (rq_kind r)),
     (''source_locator'', JStr (rq_source_locator r)), (''source_event'', rq_source_event r),
     (''event_name'', rq_event_name r), (''destination'', rq_destination r),
     (''status'', JStr (status_name (rq_status r))), (''object_keys'', texts (rq_object_keys r))]"

definition publication_json :: "publication_dependency \<Rightarrow> json" where
  "publication_json p = JObj
     [(''kind'', JStr (pd_kind p)), (''owner'', JStr (pd_owner p)), (''status'', JStr (pd_status p)),
      (''depends_on_kind'', nullable_text (pd_depends_on p)),
      (''blocks_saved_configuration'', JBool (pd_blocks_saved p))]"

definition revision_json :: "revision \<Rightarrow> json" where
  "revision_json r = JObj
     [(''at'', JStr (rv_at r)), (''note'', JStr (rv_note r)),
      (''previous_contract_fingerprint'', JStr (rv_previous r)),
      (''contract_fingerprint'', JStr (rv_fingerprint r)),
      (''changed_operation_keys'', texts (rv_changed r))]"

definition contract_ref_json :: "contract_ref \<Rightarrow> json" where
  "contract_ref_json c = JObj
     [(''schema_version'', JStr (cr_schema_version c)),
      (''requirement_ids'', texts (cr_requirement_ids c)),
      (''source_locator'', JStr (cr_source_locator c)), (''fingerprint'', JStr (cr_fingerprint c)),
      (''requirement_fingerprints'', map_json JStr (cr_requirement_fingerprints c))]"

definition materialization_json :: "materialization \<Rightarrow> json" where
  "materialization_json m = JObj
     [(''method'', JStr (mt_method m)), (''owned_sections'', texts (mt_owned_sections m)),
      (''contract_fingerprint'', JStr (mt_contract_fingerprint m)),
      (''section_fingerprints'', map_json JStr (mt_section_fingerprints m))]"

definition header_json :: "run_header \<Rightarrow> json" where
  "header_json r = JObj
     [(''id'', JStr (run_id r)), (''mode'', JStr (mode_name (run_header.run_mode r))),
      (''execution_mode'', JStr (execution_mode_name (run_execution_mode r))),
      (''phase'', JStr (phase_name (run_phase r))), (''status'', JStr (status_name (run_status r))),
      (''started_at'', JStr (run_started_at r)), (''updated_at'', JStr (run_updated_at r)),
      (''targets'', JArr (map (\<lambda>t. JObj (target_dict t)) (run_targets r))),
      (''contract'', contract_ref_json (run_contract r)),
      (''revisions'', JArr (map revision_json (run_revisions r))),
      (''publication'', JObj [(''performed'', JBool (run_publication_performed r)),
         (''version_created'', JBool (run_version_created r))]),
      (''materialization'', materialization_json (run_materialization r))]"

definition document_json :: "document \<Rightarrow> json" where
  "document_json d = JObj
     [(''schema_version'', JStr (d_schema_version d)), (''run'', header_json (d_run d)),
      (''requirements'', JArr (map (\<lambda>r. JObj (requirement_dict r)) (d_requirements d))),
      (''pipelines'', JArr (d_pipelines d)),
      (''object_changes'', JArr (map op_json (d_operations d))),
      (''payload_mappings'', JArr (d_mappings d)),
      (''consent_policies'', JArr (d_consent_policies d)),
      (''tag_policies'', JArr (d_tag_policies d)),
      (''page_view_decisions'', JArr (d_page_views d)),
      (''first_party_data_routes'', JArr (d_first_party d)),
      (''inventory_dispositions'', JArr (d_dispositions d)),
      (''container_baselines'', JArr (map baseline_json (d_baselines d))),
      (''dedup_contracts'', JArr (d_dedup d)),
      (''final_inventories'', JArr (map inventory_json (d_final_inventories d))),
      (''target_results'', JArr (map result_json (d_results d))),
      (''official_sources'', JArr (d_official_sources d)),
      (''external_dependencies'', JArr (d_external d)),
      (''publication_dependencies'', JArr (map publication_json (d_publication d))),
      (''recovery_boundary'', (case d_recovery d of None \<Rightarrow> JNull
         | Some rs \<Rightarrow> JObj [(''targets'', JArr (map result_json rs))])),
      (''idempotency'', idempotency_json (d_idempotency d))]"

section \<open>Materialized sections\<close>

text \<open>
  \<^verbatim>\<open>materialization_projection\<close> and \<^verbatim>\<open>materialization_fingerprints\<close>
  of \<^verbatim>\<open>runtime/verification.py\<close>: what the contract owns, without the fields the
  runtime writes.
\<close>

definition mutable_operation_fields :: "string list" where
  "mutable_operation_fields = [''state'', ''journal'', ''pre_write_readback'',
     ''pre_write_comparison'', ''comparison'', ''saved_readback'']"

definition op_spec :: "operation \<Rightarrow> json" where
  "op_spec op = JObj (filter (\<lambda>kv. fst kv \<notin> set mutable_operation_fields) (op_dict op))"

definition materialization_projection :: "document \<Rightarrow> dict" where
  "materialization_projection d =
     [(''targets'', JArr (map (\<lambda>t. JObj (dpop (target_dict t) ''adapter_capabilities''))
         (run_targets (d_run d)))),
      (''requirements'', JArr (map (\<lambda>r. JObj (dpop (requirement_dict r) ''status''))
         (d_requirements d))),
      (''pipelines'', JArr (d_pipelines d)),
      (''object_changes'', JArr (map op_spec (d_operations d))),
      (''payload_mappings'', JArr (d_mappings d)),
      (''consent_policies'', JArr (d_consent_policies d)),
      (''tag_policies'', JArr (d_tag_policies d)),
      (''page_view_decisions'', JArr (d_page_views d)),
      (''first_party_data_routes'', JArr (d_first_party d)),
      (''inventory_dispositions'', JArr (d_dispositions d)),
      (''dedup_contracts'', JArr (d_dedup d)),
      (''official_sources'', JArr (d_official_sources d)),
      (''external_dependencies'', JArr (d_external d)),
      (''publication_dependencies'', JArr (map publication_json (d_publication d)))]"

definition materialization_fingerprints :: "host \<Rightarrow> document \<Rightarrow> (string \<times> string) list" where
  "materialization_fingerprints h d =
     map (\<lambda>(k, v). (k, canonical_sha256 (h_sha256 h) v)) (materialization_projection d)"

definition owned_sections :: "string list" where
  "owned_sections = [''targets'', ''requirements'', ''pipelines'', ''object_changes'',
     ''payload_mappings'', ''consent_policies'', ''tag_policies'', ''page_view_decisions'',
     ''first_party_data_routes'', ''inventory_dispositions'', ''dedup_contracts'',
     ''official_sources'', ''external_dependencies'', ''publication_dependencies'']"

lemma projection_sections: "keys (materialization_projection d) = owned_sections"
  by (simp add: materialization_projection_def owned_sections_def)

text \<open>An operation's specification does not change when the runtime's fields do.\<close>

lemma op_spec_runtime [simp]:
  "op_spec (op\<lparr>op_state := s\<rparr>) = op_spec op"
  "op_spec (op\<lparr>op_journal := j\<rparr>) = op_spec op"
  "op_spec (op\<lparr>op_comparison := c\<rparr>) = op_spec op"
  "op_spec (op\<lparr>op_saved_readback := c\<rparr>) = op_spec op"
  "op_spec (op\<lparr>op_pre_write_readback := c\<rparr>) = op_spec op"
  "op_spec (op\<lparr>op_pre_write_comparison := c\<rparr>) = op_spec op"
  by (simp_all add: op_spec_def op_dict_def mutable_operation_fields_def optional_def
      split: option.splits)

end
