(* ===== verification/Verification.thy ===== *)
theory Verification
  imports RunJson
begin

text \<open>
  The comparisons of \<^verbatim>\<open>runtime/verification.py\<close>. A saved object is compared with
  the intended one through the graph comparison of \<^verbatim>\<open>comparison/native.py\<close>, after
  redaction and with every marker projected to presence evidence. Before a write the saved
  object must contain exactly the approved \<open>pre_change\<close> fields. A saved value that the code
  holds as \<open>None\<close> is \<open>JNull\<close>.
\<close>

section \<open>Presence evidence\<close>

definition final_name :: "operation \<Rightarrow> string" where
  "final_name op = (case op_new_name op of None \<Rightarrow> op_name op | Some n \<Rightarrow> n)"

text \<open>The intended object; the schema of a run admits only an object here.\<close>

definition expected_graph :: "operation \<Rightarrow> json" where
  "expected_graph op = JObj [(''objects'', JArr [JObj (dupdate (dict_of (nullable (op_intended op)))
     [(''target_id'', JStr (op_target op)), (''object_type'', JStr (op_family op)),
      (''name'', JStr (final_name op))])])]"

definition marker_projection :: "json \<Rightarrow> json" where
  "marker_projection v = JObj ([(''secret_state'', JStr redacted_state), (''path_only'', JBool True)] @
     (case jget v ''source_integrity'' of
        None \<Rightarrow> []
      | Some i \<Rightarrow> [(''source_integrity'',
          JObj [(''canonical_sha256'', get_or_null (dict_of i) ''canonical_sha256'')])]))"

function presence_projection :: "string \<Rightarrow> json \<Rightarrow> json \<times> string list" where
  "presence_projection path v =
     (if is_redacted v then (marker_projection v, [path])
      else (case v of
        JObj d \<Rightarrow> (let items = map (\<lambda>(k, w). (k, presence_projection (key_path path k) w)) d
          in (JObj (map (\<lambda>(k, r). (k, fst r)) items), concat (map (\<lambda>(k, r). snd r) items)))
      | JArr xs \<Rightarrow> (let items = map (\<lambda>(i, w). presence_projection (index_path path i) w)
              (enumerate 0 xs)
          in (JArr (map fst items), concat (map snd items)))
      | _ \<Rightarrow> (v, [])))"
  by pat_completeness auto
termination
  by (relation "measure (\<lambda>(path, v). size v)")
     (auto intro: size_arr_enumerate size_dict_entry_pair)

declare presence_projection.simps [simp del]

definition integrity_proof :: "host \<Rightarrow> json \<Rightarrow> json option" where
  "integrity_proof h value =
     (let body = (if is_dict value \<and> has_key (dict_of value) ''objects''
            then (case get_or_null (dict_of value) ''objects'' of JArr [x] \<Rightarrow> x | _ \<Rightarrow> JNull)
            else value);
          source = (case jget body ''templateData'' of None \<Rightarrow> JNull | Some s \<Rightarrow> s)
      in (case source of
            JStr s \<Rightarrow> Some (template_source_integrity h s)
          | _ \<Rightarrow> if is_redacted source then jget source ''source_integrity'' else None))"

definition same_digest :: "string \<Rightarrow> json option \<Rightarrow> json option \<Rightarrow> bool" where
  "same_digest k left right = (case (left, right) of
     (Some l, Some r) \<Rightarrow> truthy l \<and> truthy r \<and>
       py_eq (get_or_null (dict_of l) k) (get_or_null (dict_of r) k)
   | _ \<Rightarrow> False)"

definition template_integrity_evidence :: "host \<Rightarrow> json \<Rightarrow> json \<Rightarrow> json option" where
  "template_integrity_evidence h expected saved =
     (let left = integrity_proof h expected; right = integrity_proof h saved in
      if left = None \<and> right = None then None
      else Some (JObj
        [(''expected'', nullable left), (''saved'', nullable right),
         (''exact_bytes_equal'', JBool (same_digest ''source_sha256'' left right)),
         (''canonical_source_equal'', JBool (same_digest ''canonical_sha256'' left right)),
         (''proof'', JStr ''full-content-sha256''),
         (''hidden_value_equality_claimed'', JBool False)]))"

definition source_equal :: "json option \<Rightarrow> bool" where
  "source_equal integrity = (case integrity of None \<Rightarrow> True
     | Some i \<Rightarrow> jget i ''canonical_source_equal'' = Some (JBool True))"

definition secret_comparison :: "string list \<Rightarrow> string list \<Rightarrow> bool \<Rightarrow> dict" where
  "secret_comparison expected_paths saved_paths same =
     [(''state'', JStr (if expected_paths \<noteq> [] \<or> saved_paths \<noteq> [] then redacted_state else ''absent'')),
      (''expected_paths'', texts expected_paths), (''saved_paths'', texts saved_paths),
      (''value_equality_claimed'', JBool False), (''presence_paths_match'', JBool same)]"

section \<open>Verification of a saved object\<close>

text \<open>
  What one comparison establishes. \<open>vr_json\<close> is the record that is persisted, \<open>vr_saved\<close>
  the redacted readback; \<open>vr_report\<close> is the graph report, absent for a removal.
\<close>

record verdict =
  vr_pass :: bool
  vr_report :: "graph_report option"
  vr_json :: json
  vr_saved :: json

definition absence_verdict :: "host \<Rightarrow> operation \<Rightarrow> json \<Rightarrow> json \<Rightarrow> verdict" where
  "absence_verdict h op saved safe_saved =
     (let passed = (saved = JNull) in
      \<lparr>vr_pass = passed, vr_report = None,
       vr_json = JObj
         [(''schema_version'', JStr verification_schema_version),
          (''method'', JStr ''target-object-absence''),
          (''operation_id'', JStr (op_id op)), (''target_id'', JStr (op_target op)),
          (''expected_sha256'', JStr (canonical_sha256 (h_sha256 h) (JObj
             [(''target_id'', JStr (op_target op)), (''object_key'', JStr (op_key op)),
              (''absent'', JBool True)]))),
          (''saved_sha256'', JStr (canonical_sha256 (h_sha256 h) safe_saved)),
          (''pass'', JBool passed),
          (''report'', JObj
             [(''pass'', JBool passed), (''expected_absence'', JBool True),
              (''saved_absence'', JBool passed),
              (''secret_comparison'', JObj (secret_comparison [] [] True))])],
       vr_saved = safe_saved\<rparr>)"

text \<open>Template bodies are compared by their canonical source.\<close>

definition canonical_source_body :: "host \<Rightarrow> json \<Rightarrow> json" where
  "canonical_source_body h body = (case body of
     JObj d \<Rightarrow> (case dget d ''templateData'' of
         Some (JStr s) \<Rightarrow> JObj (dset d ''templateData'' (JStr (canonical_template_source h s)))
       | _ \<Rightarrow> body)
   | _ \<Rightarrow> body)"

definition comparable_bodies ::
  "host \<Rightarrow> operation \<Rightarrow> (string \<times> json) list \<Rightarrow> (string \<times> json) list \<Rightarrow> (string \<times> json) list" where
  "comparable_bodies h op other graph =
     map (\<lambda>(k, body). (k, if op_family op = ''template'' \<and> k \<in> set (keys other)
                          then canonical_source_body h body else body)) graph"

definition object_difference_json :: "string \<times> difference list \<Rightarrow> json" where
  "object_difference_json kd = JObj
     [(''identity'', JStr (fst kd)), (''differences'', JArr (map difference_json (snd kd)))]"

definition context_keys :: "string list" where
  "context_keys = keys id_fields @ [''target_id'', ''object_type'', ''name'', ''type'', ''fingerprint'']"

definition reduced_context :: "json \<Rightarrow> json" where
  "reduced_context safe_saved = (case safe_saved of
     JObj d \<Rightarrow> (case dget d ''context_objects'' of
         None \<Rightarrow> safe_saved
       | Some c \<Rightarrow> JObj (dset d ''context_objects'' (JArr (map (\<lambda>item.
           JObj (filter (\<lambda>kv. fst kv \<in> set context_keys) (dict_of item))) (list_of c)))))
   | _ \<Rightarrow> safe_saved)"

text \<open>The verdict on two comparable graphs with their redacted paths.\<close>

definition graph_verdict ::
  "host \<Rightarrow> operation \<Rightarrow> dict \<times> string list \<Rightarrow> dict \<times> string list \<Rightarrow> json option \<Rightarrow> json \<Rightarrow> verdict" where
  "graph_verdict h op expected saved integrity safe_saved =
     (let e = comparable_bodies h op (fst saved) (fst expected);
          s = comparable_bodies h op (fst expected) (fst saved);
          report = graph_report_of e s;
          same = (snd expected = snd saved);
          passed = (gr_pass report \<and> same \<and> source_equal integrity)
      in \<lparr>vr_pass = passed, vr_report = Some report,
          vr_json = JObj
            [(''schema_version'', JStr verification_schema_version),
             (''method'', JStr ''target-scoped-object-graph''),
             (''operation_id'', JStr (op_id op)), (''target_id'', JStr (op_target op)),
             (''expected_sha256'', JStr (canonical_sha256 (h_sha256 h) (JObj e))),
             (''saved_sha256'', JStr (canonical_sha256 (h_sha256 h) (JObj s))),
             (''pass'', JBool passed),
             (''report'', JObj
               ([(''pass'', JBool passed), (''missing_objects'', texts (gr_missing report)),
                 (''extra_objects'', texts (gr_extra report)),
                 (''object_differences'', JArr (map object_difference_json (gr_differences report))),
                 (''normalized_expected_count'', JInt (int (length e))),
                 (''normalized_saved_count'', JInt (int (length s))),
                 (''secret_comparison'', JObj (secret_comparison (snd expected) (snd saved) same))] @
                optional ''template_source_integrity'' integrity))],
          vr_saved = reduced_context safe_saved\<rparr>)"

definition projected_graph ::
  "operation \<Rightarrow> string list \<Rightarrow> json \<Rightarrow> (dict \<times> string list) res" where
  "projected_graph op allowed graph =
     bindE (normalize_graph (Some [(op_target op, op_container op)]) allowed graph) (\<lambda>n.
       (case presence_projection ''$'' (JObj n) of (p, paths) \<Rightarrow> Inr (dict_of p, paths)))"

definition build_verification_comparison :: "host \<Rightarrow> operation \<Rightarrow> json \<Rightarrow> verdict res" where
  "build_verification_comparison h op saved =
     bindE (redact_for_records h [op_json op] saved) (\<lambda>safe_saved.
     if op_action op = Remove then Inr (absence_verdict h op saved safe_saved)
     else
       bindE (redact_for_records h [op_json op] (expected_graph op)) (\<lambda>safe_expected.
       let allowed = semantic_references safe_expected in
       bindE (projected_graph op allowed safe_expected) (\<lambda>expected.
       bindE (projected_graph op allowed safe_saved) (\<lambda>saved_graph.
         Inr (graph_verdict h op expected saved_graph
           (if op_family op = ''template''
            then template_integrity_evidence h safe_expected safe_saved else None)
           safe_saved)))))"

definition comparison_fields :: "string list" where
  "comparison_fields = [''schema_version'', ''method'', ''operation_id'', ''target_id'',
     ''expected_sha256'', ''saved_sha256'', ''pass'', ''report'']"

definition validate_verification_comparison ::
  "host \<Rightarrow> operation \<Rightarrow> json \<Rightarrow> json \<Rightarrow> unit res" where
  "validate_verification_comparison h op comparison saved = seqE
     [failE (\<not> is_dict comparison) (ValueError ''comparison must be an object''),
      failE (\<not> same_keys (dict_of comparison) comparison_fields)
        (ValueError ''comparison has missing or unexpected fields''),
      failE (jget comparison ''schema_version'' \<noteq> Some (JStr verification_schema_version))
        (ValueError ''comparison schema_version is unsupported''),
      failE (jget comparison ''operation_id'' \<noteq> Some (JStr (op_id op)))
        (ValueError ''comparison operation_id does not match''),
      failE (jget comparison ''target_id'' \<noteq> Some (JStr (op_target op)))
        (ValueError ''comparison target_id does not match''),
      bindE (build_verification_comparison h op saved) (\<lambda>rebuilt.
        failE (differences (vr_json rebuilt) comparison ''$'' \<noteq> []) (ValueError
          ''comparison is not bound to the intended object and saved readback'')),
      failE (jget (get_or_null (dict_of (get_or_null (dict_of comparison) ''report''))
               ''secret_comparison'') ''value_equality_claimed'' \<noteq> Some (JBool False))
        (ValueError ''redacted secret fields cannot be treated as value equality'')]"

section \<open>Pre-write drift\<close>

function subset_differences :: "string \<Rightarrow> json \<Rightarrow> json \<Rightarrow> string list" where
  "subset_differences path expected actual =
     (if \<not> same_type expected actual then [path @ '': type differs'']
      else (case (expected, actual) of
        (JObj d, JObj e) \<Rightarrow>
          (let metadata = (if path = ''$'' then root_metadata_keys else []) in
           map (\<lambda>k. key_path path k @ '': unexpected'')
             (sorted_set (filter (\<lambda>k. k \<notin> set (keys d) \<and> k \<notin> set metadata) (keys e))) @
           concat (map (\<lambda>(k, v). (case map_of e k of
               None \<Rightarrow> [key_path path k @ '': missing'']
             | Some w \<Rightarrow> subset_differences (key_path path k) v w)) d))
      | (JArr xs, JArr ys) \<Rightarrow>
          (if length xs \<noteq> length ys then [path @ '': array length differs'']
           else concat (map (\<lambda>(i, x, y). subset_differences (index_path path i) x y)
             (enumerate 0 (zip xs ys))))
      | _ \<Rightarrow> if py_eq expected actual then [] else [path @ '': value differs'']))"
  by pat_completeness auto
termination
  by (relation "measure (\<lambda>(path, e, a). size e)")
     (auto dest!: enumerate_item intro: size_arr_zip size_dict_entry_pair)

declare subset_differences.simps [simp del]

definition reference_text :: "json \<Rightarrow> string option" where
  "reference_text v = (case jget v ''reference'' of
     Some (JStr r) \<Rightarrow> if blank r then None else Some r | _ \<Rightarrow> None)"

function redacted_references :: "string \<Rightarrow> json \<Rightarrow> (string \<times> string option) list" where
  "redacted_references path v =
     (if is_redacted v then
        (if ends_with path ''.templateData'' \<and> has_key (dict_of v) ''source_integrity'' then []
         else [(path, reference_text v)])
      else (case v of
        JObj d \<Rightarrow> concat (map (\<lambda>(k, w). redacted_references (key_path path k) w) d)
      | JArr xs \<Rightarrow> concat (map (\<lambda>(i, w). redacted_references (index_path path i) w) (enumerate 0 xs))
      | _ \<Rightarrow> []))"
  by pat_completeness auto
termination
  by (relation "measure (\<lambda>(path, v). size v)")
     (auto intro: size_arr_enumerate size_dict_entry_pair)

declare redacted_references.simps [simp del]

text \<open>The dictionary those items build: a later item replaces an earlier one of its path.\<close>

definition reference_dict :: "json \<Rightarrow> (string \<times> string option) list" where
  "reference_dict v = fold (\<lambda>kv m. AList.update (fst kv) (snd kv) m) (redacted_references ''$'' v) []"

definition references_proved :: "json \<Rightarrow> json \<Rightarrow> bool" where
  "references_proved expected saved =
     (set (reference_dict expected) = set (reference_dict saved) \<and>
      list_all (\<lambda>kv. snd kv \<noteq> None) (reference_dict expected))"

record pre_write =
  pw_pass :: bool
  pw_differences :: "string list"
  pw_json :: json
  pw_saved :: json

text \<open>The primary object of a readback graph, without its scope fields.\<close>

definition primary_object :: "operation \<Rightarrow> json \<Rightarrow> json res" where
  "primary_object op saved =
     (if is_dict saved \<and> has_key (dict_of saved) ''objects'' then
        (case get_or_null (dict_of saved) ''objects'' of
           JArr [JObj primary] \<Rightarrow>
             (if dget primary ''target_id'' \<noteq> Some (JStr (op_target op)) \<or>
                 dget primary ''object_type'' \<noteq> Some (JStr (op_family op))
              then Inl (ValueError ''pre-write graph identity differs from the operation'')
              else Inr (JObj (filter (\<lambda>kv. fst kv \<notin> {''target_id'', ''object_type''}) primary)))
         | JArr [x] \<Rightarrow> Inl (ValueError ''pre-write graph identity differs from the operation'')
         | _ \<Rightarrow> Inl (ValueError ''pre-write readback requires exactly one primary object''))
      else Inr saved)"

definition named_expected :: "operation \<Rightarrow> json \<Rightarrow> json" where
  "named_expected op expected = (case expected of
     JObj d \<Rightarrow> if has_key d ''name'' then expected else JObj ((''name'', JStr (op_name op)) # d)
   | _ \<Rightarrow> expected)"

definition template_body :: "host \<Rightarrow> operation \<Rightarrow> json \<Rightarrow> json" where
  "template_body h op body = (if op_family op = ''template'' then canonical_source_body h body else body)"

definition pre_write_verdict ::
  "host \<Rightarrow> operation \<Rightarrow> json \<Rightarrow> json \<Rightarrow> json \<Rightarrow> pre_write" where
  "pre_write_verdict h op expected saved safe_saved =
     (case (presence_projection ''$'' expected, presence_projection ''$'' saved) of
        ((ce, ep), (cs, sp)) \<Rightarrow>
       (let found = subset_differences ''$'' ce cs;
            references = references_proved expected saved;
            presence = list_all (\<lambda>p. p \<in> set sp) ep;
            integrity = (if op_family op = ''template''
              then template_integrity_evidence h expected safe_saved else None);
            passed = (found = [] \<and> presence \<and> references \<and> source_equal integrity)
        in \<lparr>pw_pass = passed, pw_differences = found,
            pw_json = JObj
              ([(''schema_version'', JStr verification_schema_version),
                (''method'', JStr ''pre-change-subset''),
                (''operation_id'', JStr (op_id op)), (''target_id'', JStr (op_target op)),
                (''expected_sha256'', JStr (canonical_sha256 (h_sha256 h) ce)),
                (''saved_sha256'', JStr (canonical_sha256 (h_sha256 h) cs)),
                (''pass'', JBool passed), (''differences'', texts found),
                (''secret_comparison'', JObj (secret_comparison ep sp presence @
                   [(''reference_proved'', JBool references)]))] @
               optional ''template_source_integrity'' integrity),
            pw_saved = safe_saved\<rparr>))"

definition build_pre_write_comparison :: "host \<Rightarrow> operation \<Rightarrow> json \<Rightarrow> pre_write res" where
  "build_pre_write_comparison h op saved =
     bindE (primary_object op saved) (\<lambda>primary.
     bindE (redact_for_records h [op_json op] primary) (\<lambda>safe_saved.
     bindE (redact_for_records h [op_json op] (nullable (op_pre_change op))) (\<lambda>pre_change.
     bindE (canonical_native_fields (root_ctx (Some (op_family op)) (Some (op_container op))) ''$''
              (named_expected op pre_change)) (\<lambda>expected.
     bindE (canonical_native_fields (root_ctx (Some (op_family op)) (Some (op_container op))) ''$''
              safe_saved) (\<lambda>canonical_saved.
       Inr (pre_write_verdict h op (template_body h op expected) (template_body h op canonical_saved)
              safe_saved))))))"

section \<open>Pre-write comparison: exact cover up to server metadata\<close>

text \<open>The saved object without the server metadata that the approved snapshot does not name.\<close>

definition without_metadata :: "json \<Rightarrow> json \<Rightarrow> json" where
  "without_metadata expected actual = (case (expected, actual) of
     (JObj d, JObj e) \<Rightarrow>
       JObj (filter (\<lambda>kv. fst kv \<in> set (keys d) \<or> fst kv \<notin> set root_metadata_keys) e)
   | _ \<Rightarrow> actual)"

lemma key_path_not_root [simp]: "key_path p k \<noteq> ''$''"
  by (cases p) (auto simp: key_path_def)

lemma index_path_not_root [simp]: "index_path p i \<noteq> ''$''"
  by (cases p) (auto simp: index_path_def)

lemma subset_differences_type: "\<not> same_type e a \<Longrightarrow> subset_differences p e a \<noteq> []"
  by (simp add: subset_differences.simps)

lemma subset_differences_scalar:
  "same_type e a \<Longrightarrow> \<not> is_dict e \<Longrightarrow> \<not> is_list e \<Longrightarrow>
   subset_differences p e a = [] \<longleftrightarrow> py_eq e a"
  by (subst subset_differences.simps, cases e)
     (simp_all add: is_dict_def is_list_def split: json.splits)

lemma ball_enumerate: "(\<forall>ix \<in> set (enumerate 0 zs). P ix) \<longleftrightarrow> (\<forall>i < length zs. P (i, zs ! i))"
  by (simp add: all_set_conv_all_nth nth_enumerate_eq)

lemma subset_differences_arr:
  "subset_differences p (JArr xs) (JArr ys) = [] \<longleftrightarrow> length xs = length ys \<and>
     (\<forall>i < length xs. subset_differences (index_path p i) (xs ! i) (ys ! i) = [])"
  by (subst subset_differences.simps) (simp add: ball_enumerate)

lemma sorted_filter_Nil: "sorted_set (filter P ks) = [] \<longleftrightarrow> (\<forall>k \<in> set ks. \<not> P k)"
  by (simp add: filter_empty_conv)

lemma subset_differences_obj_eq:
  "subset_differences p (JObj d) (JObj e) =
     map (\<lambda>k. key_path p k @ '': unexpected'') (sorted_set (filter (\<lambda>k. k \<notin> set (keys d) \<and>
       k \<notin> set (if p = ''$'' then root_metadata_keys else [])) (keys e))) @
     concat (map (\<lambda>kv. (case map_of e (fst kv) of
       None \<Rightarrow> [key_path p (fst kv) @ '': missing'']
     | Some w \<Rightarrow> subset_differences (key_path p (fst kv)) (snd kv) w)) d)"
  by (simp add: subset_differences.simps [of p "JObj d"] Let_def)
     (rule arg_cong [where f = concat], rule map_cong [OF refl], auto split: option.split)

lemma subset_differences_scalar_same:
  "\<not> is_dict e \<Longrightarrow> \<not> is_list e \<Longrightarrow> subset_differences p e a = [] \<longleftrightarrow> json_same e a"
  by (cases "same_type e a")
     (simp_all add: subset_differences_scalar subset_differences_type json_same_scalar)

lemma subset_differences_obj:
  "subset_differences p (JObj d) (JObj e) = [] \<longleftrightarrow>
     (\<forall>k \<in> set (keys e). k \<in> set (keys d) \<or> p = ''$'' \<and> k \<in> set root_metadata_keys) \<and>
     (\<forall>(k, v) \<in> set d. \<exists>w. map_of e k = Some w \<and> subset_differences (key_path p k) v w = [])"
proof -
  have item: "(case map_of e k of None \<Rightarrow> [key_path p k @ '': missing'']
      | Some w \<Rightarrow> subset_differences (key_path p k) v w) = [] \<longleftrightarrow>
      (\<exists>w. map_of e k = Some w \<and> subset_differences (key_path p k) v w = [])" for k v
    by (cases "map_of e k") simp_all
  have "subset_differences p (JObj d) (JObj e) = [] \<longleftrightarrow>
     (\<forall>k \<in> set (keys e). \<not> (k \<notin> set (keys d) \<and> k \<notin> set (if p = ''$'' then root_metadata_keys else []))) \<and>
     (\<forall>kv \<in> set d. (case map_of e (fst kv) of None \<Rightarrow> [key_path p (fst kv) @ '': missing'']
      | Some w \<Rightarrow> subset_differences (key_path p (fst kv)) (snd kv) w) = [])"
    unfolding subset_differences_obj_eq append_is_Nil_conv map_is_Nil_conv sorted_filter_Nil
      concat_eq_Nil_conv set_map ball_simps case_prod_beta ..
  also have "\<dots> \<longleftrightarrow> (\<forall>k \<in> set (keys e). k \<in> set (keys d) \<or> p = ''$'' \<and> k \<in> set root_metadata_keys) \<and>
     (\<forall>kv \<in> set d. \<exists>w. map_of e (fst kv) = Some w \<and>
        subset_differences (key_path p (fst kv)) (snd kv) w = [])"
    unfolding item by (cases "p = ''$''") auto
  finally show ?thesis by (simp add: case_prod_beta)
qed

lemma map_of_filter_keys: "map_of (filter (\<lambda>kv. P (fst kv)) e) k = (if P k then map_of e k else None)"
  by (induction e) auto

lemma keys_filter_keys: "set (keys (filter (\<lambda>kv. P (fst kv)) e)) = {k \<in> set (keys e). P k}"
  by auto

lemma covers_same:
  assumes wf: "wf_json (JObj d)"
    and keys: "\<And>k. k \<in> set (keys d) \<Longrightarrow> P k"
    and child: "\<And>k v w. map_of d k = Some v \<Longrightarrow> map_of e k = Some w \<Longrightarrow> Q k v w \<longleftrightarrow> json_same v w"
  shows "(\<forall>k \<in> set (keys e). k \<in> set (keys d) \<or> \<not> P k) \<and>
      (\<forall>(k, v) \<in> set d. \<exists>w. map_of e k = Some w \<and> Q k v w) \<longleftrightarrow>
    json_same (JObj d) (JObj (filter (\<lambda>kv. P (fst kv)) e))"
proof -
  have items: "(k, v) \<in> set d \<longleftrightarrow> map_of d k = Some v" for k v
    using wf by simp
  have dom: "k \<in> set (keys d) \<longleftrightarrow> (\<exists>v. map_of d k = Some v)"
    "k \<in> set (keys e) \<longleftrightarrow> (\<exists>v. map_of e k = Some v)" for k by (rule map_of_in_keys)+
  have "json_same (JObj d) (JObj (filter (\<lambda>kv. P (fst kv)) e)) \<longleftrightarrow>
      set (keys d) = {k \<in> set (keys e). P k} \<and>
      (\<forall>k v w. map_of d k = Some v \<longrightarrow> map_of e k = Some w \<longrightarrow> json_same v w)"
    unfolding json_same_obj [OF wf] keys_filter_keys map_of_filter_keys
    using keys map_of_in_keys [of _ d] by (metis (no_types, lifting))
  also have "\<dots> \<longleftrightarrow> (\<forall>k \<in> set (keys e). k \<in> set (keys d) \<or> \<not> P k) \<and>
      (\<forall>(k, v) \<in> set d. \<exists>w. map_of e k = Some w \<and> Q k v w)" (is "?l \<longleftrightarrow> ?r")
  proof
    assume l: ?l
    have "\<exists>w. map_of e k = Some w \<and> Q k v w" if "map_of d k = Some v" for k v
    proof -
      have "k \<in> set (keys e)" using l that dom by blast
      then obtain w where "map_of e k = Some w" using dom by blast
      then show ?thesis using l that child by blast
    qed
    then show ?r using l items by (intro conjI) blast+
  next
    assume r: ?r
    have ex: "\<exists>w. map_of e k = Some w \<and> Q k v w" if "map_of d k = Some v" for k v
      using r that items by blast
    have same: "json_same v w" if "map_of d k = Some v" "map_of e k = Some w" for k v w
      using ex [OF that(1)] that child by auto
    have "set (keys d) = {k \<in> set (keys e). P k}"
    proof (intro equalityI subsetI CollectI conjI)
      fix k assume k: "k \<in> set (keys d)"
      then obtain v where "map_of d k = Some v" using dom by blast
      from ex [OF this] show "k \<in> set (keys e)" using dom by blast
      show "P k" by (rule keys [OF k])
    next
      fix k assume "k \<in> {k \<in> set (keys e). P k}"
      then show "k \<in> set (keys d)" using r by blast
    qed
    then show ?l using same by (intro conjI) simp_all
  qed
  finally show ?thesis by blast
qed

lemma subset_differences_same:
  "wf_json e \<Longrightarrow> p \<noteq> ''$'' \<Longrightarrow> subset_differences p e a = [] \<longleftrightarrow> json_same e a"
proof (induction e arbitrary: p a rule: json_induct)
  case (Arr xs)
  show ?case
  proof (cases a)
    case (JArr ys)
    have "subset_differences (index_path p i) (xs ! i) (ys ! i) = [] \<longleftrightarrow> json_same (xs ! i) (ys ! i)"
      if "i < length xs" for i
      using Arr.IH [of "xs ! i"] Arr.prems(1) that nth_mem by (auto simp: list_all_iff)
    then show ?thesis
      unfolding JArr subset_differences_arr json_same_arr list_all2_conv_all_nth by auto
  qed (simp_all add: subset_differences_type)
next
  case (Obj d)
  show ?case
  proof (cases a)
    case (JObj e)
    have "subset_differences p (JObj d) (JObj e) = [] \<longleftrightarrow>
        (\<forall>k \<in> set (keys e). k \<in> set (keys d) \<or> \<not> True) \<and>
        (\<forall>(k, v) \<in> set d. \<exists>w. map_of e k = Some w \<and> subset_differences (key_path p k) v w = [])"
      unfolding subset_differences_obj using Obj.prems(2) by simp
    also have "\<dots> \<longleftrightarrow> json_same (JObj d) (JObj (filter (\<lambda>kv. True) e))"
    proof (rule covers_same [OF Obj.prems(1)])
      fix k v w assume k: "map_of d k = Some v"
      show "(subset_differences (key_path p k) v w = []) = json_same v w"
        by (rule Obj.IH [OF map_of_SomeD [OF k] wf_dict_value [OF Obj.prems(1) k]]) simp
    qed simp
    finally show ?thesis by (simp add: JObj)
  qed (simp_all add: subset_differences_type)
qed (simp_all add: subset_differences_scalar_same is_dict_def is_list_def del: json_same.simps)

lemma subset_differences_root:
  assumes "wf_json e"
  shows "subset_differences ''$'' e a = [] \<longleftrightarrow> json_same e (without_metadata e a)"
proof (cases e)
  case (JArr xs)
  have "subset_differences (index_path ''$'' i) (xs ! i) (ys ! i) = [] \<longleftrightarrow> json_same (xs ! i) (ys ! i)"
    if "i < length xs" for i ys
    using subset_differences_same assms that nth_mem by (auto simp: JArr list_all_iff)
  then show ?thesis
    unfolding JArr without_metadata_def
    by (cases a) (auto simp: subset_differences_arr subset_differences_type json_same_arr
        list_all2_conv_all_nth simp del: json_same.simps(1) dest: json_same_type)
next
  case (JObj d)
  show ?thesis
  proof (cases a)
    case a: (JObj b)
    have "subset_differences ''$'' (JObj d) (JObj b) = [] \<longleftrightarrow>
        (\<forall>k \<in> set (keys b). k \<in> set (keys d) \<or>
           \<not> (k \<in> set (keys d) \<or> k \<notin> set root_metadata_keys)) \<and>
        (\<forall>(k, v) \<in> set d. \<exists>w. map_of b k = Some w \<and> subset_differences (key_path ''$'' k) v w = [])"
      unfolding subset_differences_obj by blast
    also have "\<dots> \<longleftrightarrow> json_same (JObj d)
        (JObj (filter (\<lambda>kv. fst kv \<in> set (keys d) \<or> fst kv \<notin> set root_metadata_keys) b))"
    proof (rule covers_same [OF assms [unfolded JObj]])
      fix k v w assume k: "map_of d k = Some v"
      show "(subset_differences (key_path ''$'' k) v w = []) = json_same v w"
        by (rule subset_differences_same [OF wf_dict_value [OF assms [unfolded JObj] k]]) simp
    qed simp
    finally show ?thesis by (simp only: JObj a without_metadata_def prod.case json.case)
  qed (simp_all add: JObj subset_differences_type without_metadata_def)
qed (simp_all add: without_metadata_def subset_differences_scalar_same is_dict_def is_list_def
    del: json_same.simps)

section \<open>What a verification establishes\<close>

lemma wf_dupdate:
  "wf_json (JObj d) \<Longrightarrow> (\<And>k v. (k, v) \<in> set e \<Longrightarrow> wf_json v) \<Longrightarrow> wf_json (JObj (dupdate d e))"
  unfolding dupdate_def
proof (induction e arbitrary: d)
  case (Cons kv e)
  have "wf_json (JObj (dset d (fst kv) (snd kv)))"
    using Cons.prems(1) Cons.prems(2) [of "fst kv" "snd kv"] by (intro wf_dset) simp_all
  then show ?case
    unfolding fold_Cons comp_apply by (rule Cons.IH) (meson Cons.prems(2) list.set_intros(2))
qed simp

lemma wf_expected_graph:
  assumes "wf_json (nullable (op_intended op))"
  shows "wf_json (expected_graph op)"
proof -
  have "wf_json (JObj (dict_of (nullable (op_intended op))))"
    using assms by (cases "nullable (op_intended op)") (simp_all add: dict_of_def)
  then have "wf_json (JObj (dupdate (dict_of (nullable (op_intended op)))
     [(''target_id'', JStr (op_target op)), (''object_type'', JStr (op_family op)),
      (''name'', JStr (final_name op))]))"
    by (rule wf_dupdate) auto
  then show ?thesis unfolding expected_graph_def by (simp del: wf_json.simps(2) add: wf_json.simps(2) [of "[(k, v)]" for k v])
qed

lemma marker_projection_wf: "wf_json v \<Longrightarrow> wf_json (marker_projection v)"
proof -
  assume v: "wf_json v"
  have "wf_json (get_or_null (dict_of i) k)" if "jget v ''source_integrity'' = Some i" for i k
  proof -
    have "wf_json i" using v that
      by (cases v) (auto simp: jget_def dget_def dict_of_def simp del: wf_json.simps(2)
          dest: wf_dict_value)
    then show ?thesis
      by (cases i) (auto simp: get_or_null_def dget_def dict_of_def simp del: wf_json.simps(2)
          dest: wf_dict_value split: option.split)
  qed
  then show ?thesis by (simp add: marker_projection_def split: option.split)
qed

lemma presence_projection_wf: "wf_json v \<Longrightarrow> wf_json (fst (presence_projection p v))"
proof (induction v arbitrary: p rule: json_induct)
  case (Arr xs)
  then show ?case
    by (subst presence_projection.simps)
       (auto simp: marker_projection_wf is_redacted_def list_all_iff dest!: enumerate_item)
next
  case (Obj d)
  show ?case
  proof (cases "is_redacted (JObj d)")
    case True
    then show ?thesis using Obj.prems marker_projection_wf [of "JObj d"]
      by (simp add: presence_projection.simps [of p "JObj d"])
  next
    case False
    have "wf_json (JObj (map (\<lambda>kv. (fst kv, fst (presence_projection (key_path p (fst kv)) (snd kv)))) d))"
    proof (rule wf_obj_of_values)
      show "distinct (keys (map (\<lambda>kv. (fst kv, fst (presence_projection (key_path p (fst kv)) (snd kv)))) d))"
        using Obj.prems by (simp add: comp_def)
      fix k v
      assume "(k, v) \<in> set (map (\<lambda>kv. (fst kv, fst (presence_projection (key_path p (fst kv)) (snd kv)))) d)"
      then obtain w where w: "(k, w) \<in> set d" "v = fst (presence_projection (key_path p k) w)" by auto
      have "wf_json w" using Obj.prems w(1) by (auto simp: list_all_iff)
      with w show "wf_json v" using Obj.IH by blast
    qed
    then show ?thesis
      using False by (simp add: presence_projection.simps [of p "JObj d"] Let_def case_prod_beta comp_def
          del: wf_json.simps)
  qed
qed (simp_all add: presence_projection.simps is_redacted_def)

lemma canonical_source_body_wf: "wf_json b \<Longrightarrow> wf_json (canonical_source_body h b)"
  by (cases b) (auto simp: canonical_source_body_def simp del: wf_json.simps(2)
      intro!: wf_dset split: option.split json.split)

lemma comparable_bodies_wf:
  assumes "wf_json (JObj g)"
  shows "wf_json (JObj (comparable_bodies h op other g))"
proof (rule wf_obj_of_values)
  show "distinct (keys (comparable_bodies h op other g))"
    using assms by (simp add: comparable_bodies_def comp_def case_prod_beta)
  fix k v assume "(k, v) \<in> set (comparable_bodies h op other g)"
  then show "wf_json v"
    using assms canonical_source_body_wf by (auto simp: comparable_bodies_def list_all_iff)
qed

lemma projected_graph_wf:
  assumes "projected_graph op allowed g = Inr r" and "wf_json g"
  shows "wf_json (JObj (fst r))"
proof -
  obtain n where n: "normalize_graph (Some [(op_target op, op_container op)]) allowed g = Inr n"
    and r: "r = (dict_of (fst (presence_projection ''$'' (JObj n))), snd (presence_projection ''$'' (JObj n)))"
    using assms(1) by (auto simp: projected_graph_def bindE_Inr_iff case_prod_beta)
  have "wf_json (fst (presence_projection ''$'' (JObj n)))"
    by (rule presence_projection_wf [OF normalize_graph_wf [OF n assms(2)]])
  then show ?thesis unfolding r
    by (cases "fst (presence_projection ''$'' (JObj n))") (simp_all add: dict_of_def)
qed

lemma graph_verdict_pass:
  assumes "wf_json (JObj (fst expected))"
  shows "vr_pass (graph_verdict h op expected saved integrity safe_saved) \<longleftrightarrow>
    json_same (JObj (comparable_bodies h op (fst saved) (fst expected)))
              (JObj (comparable_bodies h op (fst expected) (fst saved))) \<and>
    snd expected = snd saved \<and> source_equal integrity"
  by (simp add: graph_verdict_def Let_def graph_report_pass_iff [OF comparable_bodies_wf [OF assms]]
      del: json_same.simps)

lemma redact_for_records_wf: "redact_for_records h rs v = Inr w \<Longrightarrow> wf_json v \<Longrightarrow> wf_json w"
  unfolding redact_for_records_def redact_for_persistence_def bindE_Inr_iff by (blast intro: redact_visit_wf)

lemma verification_cases:
  assumes "build_verification_comparison h op saved = Inr v" and "op_action op \<noteq> Remove"
  obtains safe_saved safe_expected expected saved_graph integrity where
    "redact_for_records h [op_json op] saved = Inr safe_saved"
    and "redact_for_records h [op_json op] (expected_graph op) = Inr safe_expected"
    and "projected_graph op (semantic_references safe_expected) safe_expected = Inr expected"
    and "projected_graph op (semantic_references safe_expected) safe_saved = Inr saved_graph"
    and "integrity = (if op_family op = ''template''
          then template_integrity_evidence h safe_expected safe_saved else None)"
    and "v = graph_verdict h op expected saved_graph integrity safe_saved"
  using assms by (auto simp: build_verification_comparison_def Let_def bindE_Inr_iff)

lemma verification_pass_iff:
  assumes "build_verification_comparison h op saved = Inr v" and "op_action op \<noteq> Remove"
    and "wf_json (nullable (op_intended op))"
  shows "\<exists>safe_saved safe_expected e s.
    redact_for_records h [op_json op] saved = Inr safe_saved \<and>
    redact_for_records h [op_json op] (expected_graph op) = Inr safe_expected \<and>
    projected_graph op (semantic_references safe_expected) safe_expected = Inr e \<and>
    projected_graph op (semantic_references safe_expected) safe_saved = Inr s \<and>
    (vr_pass v \<longleftrightarrow>
       json_same (JObj (comparable_bodies h op (fst s) (fst e)))
                 (JObj (comparable_bodies h op (fst e) (fst s))) \<and>
       snd e = snd s \<and>
       source_equal (if op_family op = ''template''
          then template_integrity_evidence h safe_expected safe_saved else None))"
proof -
  obtain ss se e g i where
      ss: "redact_for_records h [op_json op] saved = Inr ss"
    and se: "redact_for_records h [op_json op] (expected_graph op) = Inr se"
    and e: "projected_graph op (semantic_references se) se = Inr e"
    and g: "projected_graph op (semantic_references se) ss = Inr g"
    and i: "i = (if op_family op = ''template'' then template_integrity_evidence h se ss else None)"
    and v: "v = graph_verdict h op e g i ss"
    using verification_cases [OF assms(1,2)] by blast
  have "wf_json (JObj (fst e))"
    by (rule projected_graph_wf [OF e redact_for_records_wf [OF se wf_expected_graph [OF assms(3)]]])
  from graph_verdict_pass [OF this, of h op g i ss] show ?thesis
    using ss se e g unfolding v i by blast
qed

lemma verification_removal:
  assumes "build_verification_comparison h op saved = Inr v" and "op_action op = Remove"
  shows "vr_pass v \<longleftrightarrow> saved = JNull"
  using assms by (auto simp: build_verification_comparison_def bindE_Inr_iff absence_verdict_def Let_def)

text \<open>The persisted record carries the verdict and claims no equality of hidden values.\<close>

lemma verdict_json:
  assumes "build_verification_comparison h op saved = Inr v"
  shows "jget (vr_json v) ''pass'' = Some (JBool (vr_pass v))"
    and "is_dict (vr_json v)"
    and "jget (get_or_null (dict_of (get_or_null (dict_of (vr_json v)) ''report''))
               ''secret_comparison'') ''value_equality_claimed'' = Some (JBool False)"
proof (atomize(full), cases "op_action op = Remove")
  case True
  then obtain ss where v: "v = absence_verdict h op saved ss"
    using assms by (auto simp: build_verification_comparison_def bindE_Inr_iff)
  show "jget (vr_json v) ''pass'' = Some (JBool (vr_pass v)) \<and> is_dict (vr_json v) \<and>
    jget (get_or_null (dict_of (get_or_null (dict_of (vr_json v)) ''report''))
      ''secret_comparison'') ''value_equality_claimed'' = Some (JBool False)"
    by (simp add: v absence_verdict_def Let_def jget_def dget_def dict_of_def is_dict_def
        get_or_null_def secret_comparison_def)
next
  case False
  obtain e s i ss where v: "v = graph_verdict h op e s i ss"
    using verification_cases [OF assms False] by metis
  show "jget (vr_json v) ''pass'' = Some (JBool (vr_pass v)) \<and> is_dict (vr_json v) \<and>
    jget (get_or_null (dict_of (get_or_null (dict_of (vr_json v)) ''report''))
      ''secret_comparison'') ''value_equality_claimed'' = Some (JBool False)"
    by (simp add: v graph_verdict_def Let_def jget_def dget_def dict_of_def is_dict_def
        get_or_null_def secret_comparison_def)
qed

lemma differences_bool: "differences (JBool b) w q = [] \<Longrightarrow> w = JBool b"
  by (cases w) (simp_all add: differences_type differences_scalar is_dict_def is_list_def split: if_splits)

text \<open>A comparison the validation accepts has the verdict of a rebuilt one.\<close>

lemma validate_verification_ok:
  assumes "validate_verification_comparison h op comparison saved = Inr ()"
  shows "\<exists>v. build_verification_comparison h op saved = Inr v \<and>
    jget comparison ''pass'' = Some (JBool (vr_pass v))"
proof -
  from assms obtain v where v: "build_verification_comparison h op saved = Inr v"
    and diff: "differences (vr_json v) comparison ''$'' = []" and dict: "is_dict comparison"
    unfolding validate_verification_comparison_def checks_iff by (auto simp: bindE_Inr_iff)
  obtain d e where d: "vr_json v = JObj d" and e: "comparison = JObj e"
    using verdict_json(2) [OF v] dict by (cases "vr_json v"; cases comparison) (auto simp: is_dict_def)
  have p: "map_of d ''pass'' = Some (JBool (vr_pass v))"
    using verdict_json(1) [OF v] by (simp add: d jget_def dget_def dict_of_def)
  from diff have "set (keys d) = set (keys e)"
    and all: "\<And>k v w. map_of d k = Some v \<Longrightarrow> map_of e k = Some w \<Longrightarrow> differences v w (''$'' @ ''.'' @ k) = []"
    unfolding d e differences_obj_empty by blast+
  then have "''pass'' \<in> set (keys e)"
    using map_of_in_keys [THEN iffD2, OF exI, OF p] by simp
  then obtain w where w: "map_of e ''pass'' = Some w"
    using map_of_in_keys [of "''pass''" e] by blast
  from all [OF p w] have "w = JBool (vr_pass v)" by (rule differences_bool)
  then have "jget comparison ''pass'' = Some (JBool (vr_pass v))"
    using w by (simp add: e jget_def dget_def dict_of_def)
  with v show ?thesis by blast
qed

section \<open>What a pre-write comparison establishes\<close>

lemma pre_write_verdict_pass:
  assumes "wf_json expected"
  shows "pw_pass (pre_write_verdict h op expected saved safe_saved) \<longleftrightarrow>
    (let ce = fst (presence_projection ''$'' expected); cs = fst (presence_projection ''$'' saved) in
      json_same ce (without_metadata ce cs)) \<and>
    set (snd (presence_projection ''$'' expected)) \<subseteq> set (snd (presence_projection ''$'' saved)) \<and>
    references_proved expected saved \<and>
    source_equal (if op_family op = ''template''
      then template_integrity_evidence h expected safe_saved else None)"
  by (simp add: pre_write_verdict_def Let_def case_prod_beta list_all_iff subset_eq
      subset_differences_root [OF presence_projection_wf [OF assms]])

lemma named_expected_wf: "wf_json v \<Longrightarrow> wf_json (named_expected op v)"
proof (cases v)
  case (JObj d)
  assume "wf_json v"
  then show ?thesis
    by (cases "has_key d ''name''")
       (auto simp: JObj named_expected_def has_key_def dget_def map_of_eq_None_iff)
qed (simp_all add: named_expected_def)

lemma pre_write_json:
  assumes "build_pre_write_comparison h op saved = Inr w"
  shows "jget (pw_json w) ''pass'' = Some (JBool (pw_pass w))"
  using assms
  by (auto simp: build_pre_write_comparison_def bindE_Inr_iff pre_write_verdict_def Let_def
      case_prod_beta jget_def dget_def dict_of_def)

end
