(* ===== verification/Graph.thy ===== *)
theory Graph
  imports Model
begin

text \<open>
  Dependency graphs: \<^verbatim>\<open>graphlib.TopologicalSorter.static_order\<close> as the program uses it,
  the cycle check \<^verbatim>\<open>_reject_dependency_cycle\<close> of
  \<^verbatim>\<open>runtime/validation.py\<close> and \<^verbatim>\<open>served_requirements\<close> of
  \<^verbatim>\<open>domain/graph.py\<close>. Both traversals are Kahn's algorithm: the sorter takes the
  oldest ready node, the cycle check pops the newest. A graph is the dictionary from a node
  to its predecessors.
\<close>

type_synonym graph = "(string \<times> string list) list"

definition preds :: "graph \<Rightarrow> string \<Rightarrow> string list" where
  "preds g n = (case map_of g n of None \<Rightarrow> [] | Some ps \<Rightarrow> ps)"

text \<open>The nodes in the order they are first mentioned.\<close>

definition nodes :: "graph \<Rightarrow> string list" where
  "nodes g = rev (remdups (rev (concat (map (\<lambda>(k, ps). k # ps) g))))"

definition successors :: "graph \<Rightarrow> string \<Rightarrow> string list" where
  "successors g x = concat (map (\<lambda>(k, ps). replicate (count_list ps x) k) g)"

definition release_one :: "string \<Rightarrow> string list \<times> (string \<Rightarrow> nat) \<Rightarrow> string list \<times> (string \<Rightarrow> nat)" where
  "release_one s rc =
     (let c = snd rc s - 1
      in (if c = 0 then fst rc @ [s] else fst rc, (snd rc)(s := c)))"

definition release :: "graph \<Rightarrow> string \<Rightarrow> (string \<Rightarrow> nat) \<Rightarrow> string list \<times> (string \<Rightarrow> nat)" where
  "release g x cnt = fold release_one (successors g x) ([], cnt)"

datatype discipline = Fifo | Lifo

fun take_ready :: "discipline \<Rightarrow> string list \<Rightarrow> string \<times> string list" where
  "take_ready Fifo ready = (hd ready, tl ready)"
| "take_ready Lifo ready = (last ready, butlast ready)"

fun kahn :: "nat \<Rightarrow> discipline \<Rightarrow> graph \<Rightarrow> string list \<Rightarrow> (string \<Rightarrow> nat) \<Rightarrow> string list" where
  "kahn 0 q g ready cnt = []"
| "kahn (Suc fuel) q g ready cnt =
     (if ready = [] then []
      else (case take_ready q ready of (x, rest) \<Rightarrow>
        (case release g x cnt of (new, cnt') \<Rightarrow> x # kahn fuel q g (rest @ new) cnt')))"

definition initial_count :: "graph \<Rightarrow> string \<Rightarrow> nat" where
  "initial_count g n = length (preds g n)"

definition initial_ready :: "graph \<Rightarrow> string list" where
  "initial_ready g = filter (\<lambda>n. initial_count g n = 0) (nodes g)"

definition kahn_order :: "discipline \<Rightarrow> graph \<Rightarrow> string list" where
  "kahn_order q g = kahn (length (nodes g)) q g (initial_ready g) (initial_count g)"

definition static_order :: "graph \<Rightarrow> string list res" where
  "static_order g =
     (if length (kahn_order Fifo g) = length (nodes g) then Inr (kahn_order Fifo g)
      else Inl (ValueError ''nodes are in a cycle''))"

text \<open>
  The cycle check indexes the dependents by dependency: one that is not an operation raises
  the \<^verbatim>\<open>KeyError\<close>.
\<close>

definition reject_dependency_cycle :: "graph \<Rightarrow> unit res" where
  "reject_dependency_cycle g =
     (case find (\<lambda>p. p \<notin> set (keys g)) (concat (map snd g)) of
        Some p \<Rightarrow> Inl (KeyError p)
      | None \<Rightarrow> failE (length (kahn_order Lifo g) \<noteq> length g)
          (run_error ''$.object_changes dependency graph contains a cycle''))"

section \<open>Kahn's algorithm\<close>

lemma set_nodes: "set (nodes g) = (\<Union>e \<in> set g. insert (fst e) (set (snd e)))"
  by (simp add: nodes_def case_prod_beta)

lemma distinct_nodes [simp]: "distinct (nodes g)"
  by (simp add: nodes_def)

lemma preds_entry: "p \<in> set (preds g n) \<Longrightarrow> \<exists>ps. (n, ps) \<in> set g \<and> p \<in> set ps"
  by (cases "map_of g n") (simp_all add: preds_def, meson map_of_SomeD)

lemma preds_nodes: "p \<in> set (preds g n) \<Longrightarrow> p \<in> set (nodes g)"
  unfolding set_nodes by (drule preds_entry) force

lemma preds_in_keys: "p \<in> set (preds g n) \<Longrightarrow> n \<in> set (nodes g)"
  unfolding set_nodes by (drule preds_entry) force

lemma keys_in_nodes: "set (keys g) \<subseteq> set (nodes g)"
  by (force simp: set_nodes)

lemma count_list_replicate [simp]:
  "count_list (replicate n x) y = (if x = y then n else 0)"
  by (cases "x = y"; induction n) simp_all

lemma count_list_absent: "x \<notin> set xs \<Longrightarrow> count_list xs x = 0"
  by (simp add: count_list_0_iff)

lemma successors_in_keys: "n \<in> set (successors g x) \<Longrightarrow> n \<in> set (keys g)"
proof -
  assume "n \<in> set (successors g x)"
  then obtain e where "e \<in> set g" "n \<in> set (replicate (count_list (snd e) x) (fst e))"
    by (auto simp: successors_def case_prod_beta)
  then show ?thesis by (simp split: if_splits)
qed

lemma count_successors:
  "distinct (keys g) \<Longrightarrow> count_list (successors g x) n = count_list (preds g n) x"
proof (induction g)
  case (Cons e g)
  obtain k ps where e: "e = (k, ps)" by (cases e)
  have split: "successors (e # g) x = replicate (count_list ps x) k @ successors g x"
    by (simp add: successors_def e)
  have rest: "count_list (successors g x) n = count_list (preds g n) x"
    using Cons by simp
  show ?case
  proof (cases "k = n")
    case True
    then have "count_list (successors g x) n = 0"
      using Cons.prems successors_in_keys by (intro count_list_absent) (auto simp: e)
    then show ?thesis unfolding split by (simp add: e True preds_def)
  next
    case False
    then show ?thesis unfolding split by (simp add: e rest preds_def)
  qed
qed (simp add: successors_def preds_def)

text \<open>What releasing the successors of one node does to the counters and the ready list.\<close>

definition released :: "string list \<Rightarrow> (string \<Rightarrow> nat) \<Rightarrow> string list \<Rightarrow> string list \<Rightarrow> (string \<Rightarrow> nat) \<Rightarrow> bool" where
  "released r c ss r' c' \<longleftrightarrow>
     (\<forall>n. c' n = c n - count_list ss n) \<and> distinct r' \<and>
     set r' = set r \<union> {n \<in> set ss. c n = count_list ss n}"

lemma release_one_step:
  "fold release_one (s # ss) (r, c) =
     fold release_one ss (if c s - 1 = 0 then r @ [s] else r, c(s := c s - 1))"
  by (simp add: release_one_def Let_def)

lemma release_fold:
  "fold release_one ss (r, c) = (r', c') \<Longrightarrow> (\<And>n. count_list ss n \<le> c n) \<Longrightarrow>
   distinct r \<Longrightarrow> (\<And>n. n \<in> set r \<Longrightarrow> n \<notin> set ss) \<Longrightarrow> released r c ss r' c'"
proof (induction ss arbitrary: r c)
  case (Cons s ss)
  define r1 where "r1 = (if c s - 1 = 0 then r @ [s] else r)"
  define c1 where "c1 = c(s := c s - 1)"
  have run: "fold release_one ss (r1, c1) = (r', c')"
    using Cons.prems(1) unfolding release_one_step r1_def c1_def .
  have le: "Suc (count_list ss s) \<le> c s" using Cons.prems(2) [of s] by simp
  have last: "s \<notin> set ss" if "c s - 1 = 0"
  proof -
    have "count_list ss s = 0" using that le by linarith
    then show ?thesis by (simp add: count_list_0_iff)
  qed
  have ih: "released r1 c1 ss r' c'"
  proof (rule Cons.IH [OF run])
    show "count_list ss n \<le> c1 n" for n
      using Cons.prems(2) [of n] by (cases "s = n") (simp_all add: c1_def)
    have "s \<notin> set r" using Cons.prems(4) [of s] by (metis list.set_intros(1))
    then show "distinct r1" using Cons.prems(3) by (simp add: r1_def)
    show "n \<notin> set ss" if n: "n \<in> set r1" for n
    proof (cases "n = s")
      case True
      with n \<open>s \<notin> set r\<close> have "c s - 1 = 0" unfolding r1_def by (metis (full_types))
      then show ?thesis unfolding True by (rule last)
    next
      case False
      with n have "n \<in> set r" unfolding r1_def by (cases "c s - 1 = 0") simp_all
      then show ?thesis using Cons.prems(4) [of n] by (metis list.set_intros(2))
    qed
  qed
  have set1: "set r1 \<union> {n \<in> set ss. c1 n = count_list ss n} =
      set r \<union> {n \<in> set (s # ss). c n = count_list (s # ss) n}"
  proof (rule set_eqI)
    fix n
    show "n \<in> set r1 \<union> {n \<in> set ss. c1 n = count_list ss n} \<longleftrightarrow>
        n \<in> set r \<union> {n \<in> set (s # ss). c n = count_list (s # ss) n}"
    proof (cases "n = s")
      case True
      have "s \<in> set ss" if "c s = Suc (count_list ss s)" "c s - 1 \<noteq> 0"
        using that count_list_0_iff [of ss s] by simp
      moreover have "c s = Suc (count_list ss s)" if "c s - 1 = 0" using that le by linarith
      moreover have "s \<in> set r1 \<longleftrightarrow> s \<in> set r \<or> c s - 1 = 0" by (simp add: r1_def)
      moreover have "s \<in> set ss \<and> c1 s = count_list ss s \<longleftrightarrow>
          s \<in> set ss \<and> c s = Suc (count_list ss s)" using le by (auto simp: c1_def)
      ultimately show ?thesis unfolding True by auto
    qed (simp add: r1_def c1_def)
  qed
  have "c1 n - count_list ss n = c n - count_list (s # ss) n" for n
    by (simp add: c1_def)
  then show ?case using ih set1 by (simp only: released_def) simp
qed (simp add: released_def)

text \<open>
  The loop invariant: the emitted nodes and the ready ones are distinct, a counter is the
  number of predecessors not yet emitted, exactly the nodes with counter 0 are emitted or
  ready, and every emitted node comes after its predecessors.
\<close>

definition pending :: "graph \<Rightarrow> string list \<Rightarrow> string \<Rightarrow> nat" where
  "pending g out n = length (filter (\<lambda>p. p \<notin> set out) (preds g n))"

definition closed_order :: "graph \<Rightarrow> string list \<Rightarrow> bool" where
  "closed_order g out \<longleftrightarrow> (\<forall>i < length out. set (preds g (out ! i)) \<subseteq> set (take i out))"

definition kahn_inv :: "graph \<Rightarrow> string list \<Rightarrow> string list \<Rightarrow> (string \<Rightarrow> nat) \<Rightarrow> bool" where
  "kahn_inv g out ready cnt \<longleftrightarrow>
     distinct (out @ ready) \<and> set (out @ ready) \<subseteq> set (nodes g) \<and>
     (\<forall>n. cnt n = pending g out n) \<and>
     (\<forall>n \<in> set (nodes g). n \<in> set (out @ ready) \<longleftrightarrow> cnt n = 0) \<and> closed_order g out"

lemma kahn_inv_initial: "kahn_inv g [] (initial_ready g) (initial_count g)"
  by (auto simp: kahn_inv_def initial_ready_def initial_count_def pending_def closed_order_def)

lemma closed_order_snoc:
  "closed_order g (out @ [x]) \<longleftrightarrow> closed_order g out \<and> set (preds g x) \<subseteq> set out"
  by (auto simp: closed_order_def nth_append less_Suc_eq)

lemma filter_absent_snoc:
  "x \<notin> set out \<Longrightarrow> length (filter (\<lambda>p. p \<notin> set (out @ [x])) ps) + count_list ps x
     = length (filter (\<lambda>p. p \<notin> set out) ps)"
  by (induction ps) auto

lemma pending_snoc:
  assumes "x \<notin> set out"
  shows "pending g (out @ [x]) n = pending g out n - count_list (preds g n) x"
    and "count_list (preds g n) x \<le> pending g out n"
  using filter_absent_snoc [OF assms, of "preds g n"] unfolding pending_def by simp_all

lemma take_ready_set:
  "ready \<noteq> [] \<Longrightarrow> take_ready q ready = (x, rest) \<Longrightarrow>
   set ready = insert x (set rest) \<and> (distinct ready \<longrightarrow> x \<notin> set rest \<and> distinct rest)"
proof (cases q)
  case Fifo
  assume "ready \<noteq> []" "take_ready q ready = (x, rest)"
  then show ?thesis by (cases ready) (simp_all add: Fifo)
next
  case Lifo
  assume "ready \<noteq> []" "take_ready q ready = (x, rest)"
  then have "ready = rest @ [x]" by (auto simp: Lifo)
  then show ?thesis by auto
qed

lemma kahn_inv_step:
  assumes keys: "distinct (keys g)" and inv: "kahn_inv g out ready cnt" and "ready \<noteq> []"
    and take: "take_ready q ready = (x, rest)" and rel: "release g x cnt = (new, cnt')"
  shows "kahn_inv g (out @ [x]) (rest @ new) cnt'"
proof -
  note inv = inv [unfolded kahn_inv_def]
  note ready = take_ready_set [OF assms(3) take]
  have x: "x \<notin> set out" "x \<in> set (nodes g)" "x \<notin> set rest" "cnt x = 0"
    using inv ready by auto
  define k where "k = (\<lambda>n. count_list (preds g n) x)"
  have k: "count_list (successors g x) n = k n" for n
    by (simp add: k_def count_successors [OF keys])
  have le: "k n \<le> cnt n" for n
    using pending_snoc(2) [OF x(1), of g n] inv by (simp add: k_def)
  have rel: "released [] cnt (successors g x) new cnt'"
    using le k by (intro release_fold [OF rel [unfolded release_def]]) simp_all
  have cnt': "cnt' n = cnt n - k n" for n using rel by (simp add: released_def k)
  have succ: "n \<in> set (successors g x) \<longleftrightarrow> k n \<noteq> 0" for n
    by (metis count_list_0_iff k)
  then have new: "n \<in> set new \<longleftrightarrow> k n \<noteq> 0 \<and> cnt n = k n" for n
    using rel by (simp add: released_def k)
  have new_nodes: "set new \<subseteq> set (nodes g)"
    using new preds_in_keys by (fastforce simp: k_def count_list_0_iff)
  have old: "set (out @ ready) \<subseteq> set (nodes g)" "distinct (out @ ready)"
    and zero: "\<And>n. n \<in> set (nodes g) \<Longrightarrow> n \<in> set (out @ ready) \<longleftrightarrow> cnt n = 0"
    and counts: "\<And>n. cnt n = pending g out n" and closed: "closed_order g out"
    using inv by blast+
  have same: "set ((out @ [x]) @ rest) = set (out @ ready)" using ready by auto
  have distinct: "distinct ((out @ [x]) @ rest)" using old ready by auto
  have "set new \<inter> set (out @ ready) = {}" using new zero new_nodes by fastforce
  moreover have "distinct new" using rel by (simp add: released_def)
  ultimately have "distinct ((out @ [x]) @ (rest @ new))"
    using distinct same by (metis append.assoc distinct_append inf_commute)
  moreover have "set ((out @ [x]) @ (rest @ new)) = set (out @ ready) \<union> set new"
    using same by auto
  moreover have "n \<in> set (out @ ready) \<union> set new \<longleftrightarrow> cnt' n = 0" if "n \<in> set (nodes g)" for n
    unfolding Un_iff zero [OF that] new cnt' using le [of n] by auto
  moreover have "closed_order g (out @ [x])"
    unfolding closed_order_snoc
    using closed x(4) counts [of x] by (auto simp: pending_def filter_empty_conv)
  moreover have "cnt' n = pending g (out @ [x]) n" for n
    by (simp add: cnt' counts k_def pending_snoc(1) [OF x(1)])
  ultimately show ?thesis
    unfolding kahn_inv_def using old(1) new_nodes by simp
qed

text \<open>With fuel for every node, the loop stops because nothing is ready.\<close>

lemma kahn_final:
  assumes "distinct (keys g)"
  shows "kahn_inv g out ready cnt \<Longrightarrow> length out + fuel = length (nodes g) \<Longrightarrow>
    \<exists>cnt'. kahn_inv g (out @ kahn fuel q g ready cnt) [] cnt'"
proof (induction fuel arbitrary: out ready cnt)
  case 0
  have out: "distinct out" "set out \<subseteq> set (nodes g)" and r: "set ready \<subseteq> set (nodes g) - set out"
    using 0(1) by (auto simp: kahn_inv_def)
  have "set out = set (nodes g)"
    using out 0(2) by (intro card_subset_eq) (simp_all add: distinct_card)
  then have "ready = []" using r by simp
  then show ?case using 0(1) by auto
next
  case (Suc fuel)
  show ?case
  proof (cases "ready = []")
    case True
    then show ?thesis using Suc.prems(1) by auto
  next
    case False
    obtain x rest where t: "take_ready q ready = (x, rest)" by (cases "take_ready q ready")
    obtain new cnt' where r: "release g x cnt = (new, cnt')" by (cases "release g x cnt")
    have "kahn_inv g (out @ [x]) (rest @ new) cnt'"
      by (rule kahn_inv_step [OF assms Suc.prems(1) False t r])
    from Suc.IH [OF this] Suc.prems(2) show ?thesis by (simp add: False t r)
  qed
qed

lemma kahn_order_inv:
  assumes "distinct (keys g)"
  shows "\<exists>cnt. kahn_inv g (kahn_order q g) [] cnt"
  using kahn_final [OF assms kahn_inv_initial, of "length (nodes g)" q]
  by (simp add: kahn_order_def)

section \<open>Correctness of the traversals\<close>

definition edges :: "graph \<Rightarrow> (string \<times> string) set" where
  "edges g = {(p, n). p \<in> set (preds g n)}"

lemma edges_iff [simp]: "(p, n) \<in> edges g \<longleftrightarrow> p \<in> set (preds g n)"
  by (simp add: edges_def)

lemma finite_edges: "finite (edges g)"
proof (rule finite_subset)
  show "edges g \<subseteq> set (nodes g) \<times> set (nodes g)"
    by (auto simp: edges_def preds_nodes preds_in_keys)
qed simp

definition position :: "string list \<Rightarrow> string \<Rightarrow> nat" where
  "position out x = length (takeWhile (\<lambda>y. y \<noteq> x) out)"

lemma position_nth: "distinct out \<Longrightarrow> i < length out \<Longrightarrow> position out (out ! i) = i"
  unfolding position_def by (induction out arbitrary: i) (auto simp: nth_Cons split: nat.splits)

lemma position_prefix: "x \<in> set xs \<Longrightarrow> position (xs @ ys) x < length xs"
  unfolding position_def by (induction xs) auto

lemma closed_order_position:
  assumes "closed_order g out" and "distinct out" and "p \<in> set (preds g n)" and "n \<in> set out"
  shows "position out p < position out n" and "p \<in> set out"
proof -
  obtain i where i: "i < length out" "n = out ! i" using assms(4) by (metis in_set_conv_nth)
  then have "p \<in> set (take i out)" using assms(1,3) by (auto simp: closed_order_def)
  then obtain j where "j < i" "p = out ! j" using i by (auto simp: in_set_conv_nth)
  then show "position out p < position out n" and "p \<in> set out"
    using i assms(2) by (simp_all add: position_nth)
qed

lemma kahn_order_facts:
  assumes "distinct (keys g)"
  shows "distinct (kahn_order q g)" and "set (kahn_order q g) \<subseteq> set (nodes g)"
    and "closed_order g (kahn_order q g)"
    and "\<And>n. n \<in> set (nodes g) \<Longrightarrow> n \<notin> set (kahn_order q g) \<Longrightarrow>
           \<exists>p \<in> set (preds g n). p \<notin> set (kahn_order q g)"
proof -
  obtain cnt where inv: "kahn_inv g (kahn_order q g) [] cnt"
    using kahn_order_inv [OF assms] by blast
  then show "distinct (kahn_order q g)" and "set (kahn_order q g) \<subseteq> set (nodes g)"
    and "closed_order g (kahn_order q g)" by (simp_all add: kahn_inv_def)
  fix n assume n: "n \<in> set (nodes g)" "n \<notin> set (kahn_order q g)"
  have "pending g (kahn_order q g) n \<noteq> 0"
    using inv n by (simp add: kahn_inv_def)
  then show "\<exists>p \<in> set (preds g n). p \<notin> set (kahn_order q g)"
    by (auto simp: pending_def filter_empty_conv)
qed

lemma kahn_order_full:
  assumes "distinct (keys g)"
  shows "length (kahn_order q g) = length (nodes g) \<longleftrightarrow> set (kahn_order q g) = set (nodes g)"
  using kahn_order_facts(1,2) [OF assms, of q] card_subset_eq [of "set (nodes g)" "set (kahn_order q g)"]
  by (metis List.finite_set distinct_card distinct_nodes)

lemma kahn_order_acyclic:
  assumes "distinct (keys g)"
  shows "length (kahn_order q g) = length (nodes g) \<longleftrightarrow> acyclic (edges g)"
proof
  assume "length (kahn_order q g) = length (nodes g)"
  then have full: "set (kahn_order q g) = set (nodes g)"
    using kahn_order_full [OF assms] by blast
  have "edges g \<subseteq> measure (position (kahn_order q g))"
  proof (rule subrelI)
    fix p n assume "(p, n) \<in> edges g"
    then have "p \<in> set (preds g n)" by simp
    then show "(p, n) \<in> measure (position (kahn_order q g))"
      using closed_order_position(1) [OF kahn_order_facts(3,1) [OF assms]] full preds_in_keys
      by simp
  qed
  then show "acyclic (edges g)" by (rule acyclic_subset [OF wf_acyclic [OF wf_measure]])
next
  assume "acyclic (edges g)"
  then have wf: "wf (edges g)" by (rule finite_acyclic_wf [OF finite_edges])
  have "set (nodes g) \<subseteq> set (kahn_order q g)"
  proof (rule ccontr)
    assume "\<not> set (nodes g) \<subseteq> set (kahn_order q g)"
    then obtain z where "z \<in> set (nodes g) - set (kahn_order q g)" by blast
    from wfE_min [OF wf this] obtain n where n: "n \<in> set (nodes g) - set (kahn_order q g)"
      "\<And>p. (p, n) \<in> edges g \<Longrightarrow> p \<notin> set (nodes g) - set (kahn_order q g)" by blast
    then show False using kahn_order_facts(4) [OF assms, of n q] preds_nodes by auto
  qed
  then show "length (kahn_order q g) = length (nodes g)"
    using kahn_order_full [OF assms] kahn_order_facts(2) [OF assms] by blast
qed

lemma static_order_facts:
  assumes "distinct (keys g)" and "static_order g = Inr order"
  shows "distinct order" and "set order = set (nodes g)" and "closed_order g order"
proof -
  have order: "order = kahn_order Fifo g" "length (kahn_order Fifo g) = length (nodes g)"
    using assms(2) by (simp_all add: static_order_def split: if_splits)
  then show "distinct order" and "set order = set (nodes g)" and "closed_order g order"
    using kahn_order_facts [OF assms(1)] kahn_order_full [OF assms(1)] by blast+
qed

lemma closed_graph_nodes:
  assumes "distinct (keys g)" and "\<And>n p. p \<in> set (preds g n) \<Longrightarrow> p \<in> set (keys g)"
  shows "length (nodes g) = length g"
proof -
  have "set (nodes g) = set (keys g)"
  proof
    show "set (nodes g) \<subseteq> set (keys g)"
    proof
      fix x assume "x \<in> set (nodes g)"
      then obtain e where e: "e \<in> set g" "x = fst e \<or> x \<in> set (snd e)"
        by (auto simp: set_nodes)
      then have "map_of g (fst e) = Some (snd e)"
        using assms(1) by (intro map_of_is_SomeI) simp_all
      then have "preds g (fst e) = snd e" by (simp add: preds_def)
      then show "x \<in> set (keys g)" using e assms(2) [of x "fst e"] by auto
    qed
  qed (rule keys_in_nodes)
  then show ?thesis by (metis assms(1) distinct_card distinct_nodes length_map)
qed

lemma reject_dependency_cycle_iff:
  assumes "distinct (keys g)"
  shows "reject_dependency_cycle g = Inr () \<longleftrightarrow>
    (\<forall>n p. p \<in> set (preds g n) \<longrightarrow> p \<in> set (keys g)) \<and> acyclic (edges g)"
proof -
  have items: "(k, ps) \<in> set g \<longleftrightarrow> map_of g k = Some ps" for k ps using assms by simp
  have known: "find (\<lambda>p. p \<notin> set (keys g)) (concat (map snd g)) = None \<longleftrightarrow>
      (\<forall>n p. p \<in> set (preds g n) \<longrightarrow> p \<in> set (keys g))" (is "?l \<longleftrightarrow> ?r")
  proof
    assume ?l
    then show ?r by (fastforce simp: find_None_iff dest!: preds_entry)
  next
    assume r: ?r
    have "p \<in> set (keys g)" if "(k, ps) \<in> set g" "p \<in> set ps" for k ps p
      using r that unfolding items preds_def by (metis option.simps(5))
    then show ?l by (auto simp: find_None_iff)
  qed
  show ?thesis
  proof (cases "\<forall>n p. p \<in> set (preds g n) \<longrightarrow> p \<in> set (keys g)")
    case True
    then have "length (nodes g) = length g" by (intro closed_graph_nodes assms) blast
    then show ?thesis
      using True known kahn_order_acyclic [OF assms, of Lifo]
      unfolding reject_dependency_cycle_def by simp
  next
    case False
    then have "find (\<lambda>p. p \<notin> set (keys g)) (concat (map snd g)) \<noteq> None" using known by blast
    then show ?thesis using False unfolding reject_dependency_cycle_def by (auto split: option.split)
  qed
qed

section \<open>Served requirements\<close>

text \<open>
  \<^verbatim>\<open>served_requirements\<close> of \<^verbatim>\<open>domain/graph.py\<close>: every operation serves the
  requirements of the operations that depend on it. An operation is its dependencies and its
  requirement identifiers.
\<close>

type_synonym demands = "(string \<times> string list \<times> string list) list"

definition demand_graph :: "demands \<Rightarrow> graph" where
  "demand_graph ops = map (\<lambda>(k, ds, rs). (k, ds)) ops"

definition own_requirements :: "demands \<Rightarrow> string \<Rightarrow> string set" where
  "own_requirements ops k = (case map_of ops k of None \<Rightarrow> {} | Some (ds, rs) \<Rightarrow> set rs)"

definition serve_dependency ::
  "demands \<Rightarrow> string \<Rightarrow> (string \<Rightarrow> string set) \<Rightarrow> string \<Rightarrow> (string \<Rightarrow> string set) res" where
  "serve_dependency ops key serves d =
     (if d \<in> set (keys ops) then Inr (serves(d := serves d \<union> serves key)) else Inl (KeyError d))"

definition serve_key :: "demands \<Rightarrow> (string \<Rightarrow> string set) \<Rightarrow> string \<Rightarrow> (string \<Rightarrow> string set) res" where
  "serve_key ops serves key =
     (case map_of ops key of
        None \<Rightarrow> Inl (KeyError key)
      | Some (ds, rs) \<Rightarrow> foldE (serve_dependency ops key) serves ds)"

definition served_requirements :: "demands \<Rightarrow> (string \<Rightarrow> string set) res" where
  "served_requirements ops =
     bindE (static_order (demand_graph ops)) (\<lambda>order.
       foldE (serve_key ops) (own_requirements ops) (rev order))"

lemma keys_demand_graph [simp]: "keys (demand_graph ops) = keys ops"
  by (simp add: demand_graph_def comp_def case_prod_beta)

lemma preds_demand_graph: "preds (demand_graph ops) k =
    (case map_of ops k of None \<Rightarrow> [] | Some (ds, rs) \<Rightarrow> ds)"
  by (induction ops) (auto simp: demand_graph_def preds_def)

lemma serve_dependencies:
  "foldE (serve_dependency ops key) serves ds = Inr s \<Longrightarrow> key \<notin> set ds \<Longrightarrow>
   s n = (if n \<in> set ds then serves n \<union> serves key else serves n)"
proof (induction ds arbitrary: serves)
  case (Cons d ds)
  obtain s1 where step: "serve_dependency ops key serves d = Inr s1"
      and rest: "foldE (serve_dependency ops key) s1 ds = Inr s"
    using Cons.prems(1) unfolding foldE_Cons_Inr by blast
  have s1: "s1 = serves(d := serves d \<union> serves key)"
    using step by (simp add: serve_dependency_def split: if_splits)
  show ?case using Cons.IH [OF rest] Cons.prems(2) by (auto simp: s1)
qed simp

text \<open>What an operation serves: the requirements of itself and of all that reach it.\<close>

definition demanded :: "demands \<Rightarrow> string \<Rightarrow> string set" where
  "demanded ops k = (\<Union>j \<in> {j. (k, j) \<in> (edges (demand_graph ops))\<^sup>*}. own_requirements ops j)"

lemma rtrancl_first_step:
  "(a, c) \<in> r\<^sup>* \<longleftrightarrow> a = c \<or> (\<exists>b. (a, b) \<in> r \<and> (b, c) \<in> r\<^sup>*)"
  by (meson converse_rtranclE converse_rtrancl_into_rtrancl rtrancl.rtrancl_refl)

lemma demanded_unfold:
  "demanded ops k = own_requirements ops k \<union>
     (\<Union>j \<in> {j. k \<in> set (preds (demand_graph ops) j)}. demanded ops j)"
proof -
  have "j \<in> {j. (k, j) \<in> r\<^sup>*} \<longleftrightarrow> j \<in> insert k (\<Union>i \<in> {i. (k, i) \<in> r}. {j. (i, j) \<in> r\<^sup>*})"
    for j and r :: "(string \<times> string) set"
    unfolding mem_Collect_eq by (subst rtrancl_first_step) blast
  then have "{j. (k, j) \<in> r\<^sup>*} = insert k (\<Union>i \<in> {i. (k, i) \<in> r}. {j. (i, j) \<in> r\<^sup>*})"
    for r :: "(string \<times> string) set" by (rule set_eqI)
  from this [of "edges (demand_graph ops)"] show ?thesis
    unfolding demanded_def edges_iff by (simp only: UN_insert UN_UN_flatten)
qed

lemma serve_order:
  assumes "distinct (pre @ post)" and "closed_order (demand_graph ops) (pre @ post)"
    and "set (pre @ post) = set (nodes (demand_graph ops))"
    and "\<And>n. serves n = own_requirements ops n \<union>
           (\<Union>j \<in> {j \<in> set post. n \<in> set (preds (demand_graph ops) j)}. demanded ops j)"
    and "foldE (serve_key ops) serves (rev pre) = Inr s"
  shows "s n = demanded ops n"
  using assms
proof (induction pre arbitrary: post serves rule: rev_induct)
  case Nil
  then have "{j \<in> set post. n \<in> set (preds (demand_graph ops) j)} =
      {j. n \<in> set (preds (demand_graph ops) j)}" using preds_in_keys by auto
  moreover have "s = serves" using Nil(5) by simp
  ultimately show ?case using Nil(4) [of n] demanded_unfold [of ops n] by simp
next
  case (snoc key pre)
  let ?g = "demand_graph ops"
  obtain s1 where s1: "serve_key ops serves key = Inr s1"
      "foldE (serve_key ops) s1 (rev pre) = Inr s"
    using snoc.prems(5) by (auto simp: bindE_Inr_iff)
  obtain ds rs where entry: "map_of ops key = Some (ds, rs)"
      and fold: "foldE (serve_dependency ops key) serves ds = Inr s1"
    using s1(1) by (auto simp: serve_key_def split: option.splits)
  have ds: "preds ?g key = ds" by (simp add: preds_demand_graph entry)
  have later: "j \<in> set post" if "key \<in> set (preds ?g j)" for j
  proof -
    have j: "j \<in> set (pre @ key # post)" using that preds_in_keys snoc.prems(3) by simp
    have pos: "position (pre @ key # post) key < position (pre @ key # post) j"
      using closed_order_position(1) [of ?g "pre @ key # post" key j] that j snoc.prems(1,2) by simp
    have "position (pre @ key # post) key = length pre"
      using position_nth [of "pre @ key # post" "length pre"] snoc.prems(1) by simp
    moreover have "position (pre @ key # post) j < length pre" if "j \<in> set pre"
      using that by (rule position_prefix)
    ultimately show ?thesis using pos j by auto
  qed
  then have "{j \<in> set post. key \<in> set (preds ?g j)} = {j. key \<in> set (preds ?g j)}" by blast
  then have key: "serves key = demanded ops key"
    using snoc.prems(4) [of key] demanded_unfold [of ops key] by simp
  have "key \<notin> set ds" using later ds snoc.prems(1) by auto
  note after = serve_dependencies [OF fold this, unfolded key]
  show ?case
  proof (rule snoc.IH)
    show "distinct (pre @ key # post)" "closed_order ?g (pre @ key # post)"
      "set (pre @ key # post) = set (nodes ?g)" using snoc.prems by simp_all
    show "foldE (serve_key ops) s1 (rev pre) = Inr s" by (rule s1(2))
    show "s1 m = own_requirements ops m \<union>
        (\<Union>j \<in> {j \<in> set (key # post). m \<in> set (preds ?g j)}. demanded ops j)" for m
      using after [of m] snoc.prems(4) [of m] ds by (cases "m \<in> set ds") auto
  qed
qed

lemma served_requirements_sound:
  assumes "distinct (keys ops)" and "served_requirements ops = Inr s"
  shows "s n = demanded ops n"
proof -
  obtain order where order: "static_order (demand_graph ops) = Inr order"
      "foldE (serve_key ops) (own_requirements ops) (rev order) = Inr s"
    using assms(2) by (auto simp: served_requirements_def bindE_Inr_iff)
  note facts = static_order_facts [of "demand_graph ops" order]
  show ?thesis
    using serve_order [of order "[]" ops "own_requirements ops" s n] facts order assms(1) by simp
qed

end
