(* ===== verification/NativeFields.thy ===== *)
theory NativeFields
  imports Model
begin

text \<open>
  The part of \<^verbatim>\<open>domain/native.py\<close> the runtime calls: decoding of native Parameter
  tables, variable references in native values, and the consumers of a changed variable.
  \<open>FieldResolutionError\<close> is a \<open>ValueError\<close>.
\<close>

section \<open>str and repr\<close>

definition quoted_char :: "char \<Rightarrow> char \<Rightarrow> string" where
  "quoted_char q c =
     (let n = of_char c :: nat in
      if c = q \<or> c = CHR 0x5C then [CHR 0x5C, c]
      else if n = 10 then [CHR 0x5C, CHR ''n'']
      else if n = 13 then [CHR 0x5C, CHR ''r'']
      else if n = 9 then [CHR 0x5C, CHR ''t'']
      else if n < 32 \<or> 127 \<le> n \<and> n \<le> 160 \<or> n = 173
      then [CHR 0x5C, CHR ''x'', hex_digit (n div 16), hex_digit (n mod 16)]
      else [c])"

definition quoted :: "string \<Rightarrow> string" where
  "quoted s = (let q = (if CHR 0x27 \<in> set s \<and> CHR 0x22 \<notin> set s then CHR 0x22 else CHR 0x27)
               in q # concat (map (quoted_char q) s) @ [q])"

fun py_repr_json :: "json \<Rightarrow> string" where
  "py_repr_json JNull = ''None''"
| "py_repr_json (JBool b) = (if b then ''True'' else ''False'')"
| "py_repr_json (JInt i) = show_int i"
| "py_repr_json (JFloat s) = s"
| "py_repr_json (JStr s) = quoted s"
| "py_repr_json (JArr xs) = ''['' @ join '', '' (map py_repr_json xs) @ '']''"
| "py_repr_json (JObj d) = ''{'' @ join '', ''
     (map (\<lambda>(k, v). quoted k @ '': '' @ py_repr_json v) d) @ ''}''"

definition py_str :: "json \<Rightarrow> string" where
  "py_str v = (case v of JStr s \<Rightarrow> s | _ \<Rightarrow> py_repr_json v)"

definition is_decimal :: "string \<Rightarrow> bool" where
  "is_decimal s = (s \<noteq> [] \<and> list_all is_digit s)"

section \<open>Native fields\<close>

definition configuration_settings_types :: "string list" where
  "configuration_settings_types = [''gtcs'', ''googtagconfigsettings'',
     ''googtagconfigurationsettings'', ''googletagconfigurationsettings'']"

definition event_settings_types :: "string list" where
  "event_settings_types = [''gtes'', ''googtageventsettings'', ''googletageventsettings'']"

definition user_data_variable_types :: "string list" where
  "user_data_variable_types = [''awec'', ''userprovideddata'', ''userprovideddatavariable'']"

definition settings_references :: "(string \<times> string list) list" where
  "settings_references =
     [(''configsettingsvariable'', configuration_settings_types),
      (''configurationsettingsvariable'', configuration_settings_types),
      (''eventsettingsvariable'', event_settings_types),
      (''inheritedeventsettings'', event_settings_types)]"

definition settings_tables :: "string list" where
  "settings_tables = [''configsettingstable'', ''eventsettingstable'', ''eventparameters'']"

definition object_metadata :: "string list" where
  "object_metadata = [''name'', ''notes'', ''fingerprint'', ''path'', ''accountId'',
     ''containerId'', ''workspaceId'', ''tagManagerUrl'', ''parentFolderId'', ''object_type'',
     ''object_id'', ''variableId'', ''triggerId'']"

definition user_data_aliases :: "string list" where
  "user_data_aliases = [''userdata'', ''userdatavariable'', ''userprovideddata'',
     ''userprovideddatavariable'']"

definition field_key :: "string \<Rightarrow> string" where
  "field_key value =
     (if normalized_token value \<in> set user_data_aliases then ''userdata''
      else normalized_token value)"

definition decoded_value :: "dict \<Rightarrow> json \<Rightarrow> json" where
  "decoded_value d result =
     (case result of
        JStr s \<Rightarrow>
          if normalized_token (py_str (case dget d ''type'' of None \<Rightarrow> JStr [] | Some t \<Rightarrow> t)) = ''boolean''
             \<and> casefold s \<in> {''true'', ''false''}
          then JBool (casefold s = ''true'') else result
      | _ \<Rightarrow> result)"

function decode_parameter :: "json \<Rightarrow> json res" where
  "decode_parameter value =
     (case value of
        JObj d \<Rightarrow>
          (case map_of d ''value'' of
             Some r \<Rightarrow> Inr (decoded_value d r)
           | None \<Rightarrow>
          (case map_of d ''list'' of
             Some (JArr items) \<Rightarrow> bindE (mapE decode_parameter items) (\<lambda>ys. Inr (JArr ys))
           | Some _ \<Rightarrow> Inl (ValueError ''native parameter list must be an array'')
           | None \<Rightarrow>
          (case map_of d ''map'' of
             Some (JArr items) \<Rightarrow>
               bindE (foldE (\<lambda>result item. (case item of
                   JObj e \<Rightarrow> (case map_of e ''key'' of
                       Some (JStr k) \<Rightarrow>
                         if has_key result k then Inl (ValueError ''duplicate native map key'')
                         else bindE (decode_parameter item) (\<lambda>v. Inr (result @ [(k, v)]))
                     | _ \<Rightarrow> Inl (ValueError ''native map entry needs a key''))
                 | _ \<Rightarrow> Inl (ValueError ''native map entry needs a key''))) [] items)
                 (\<lambda>m. Inr (JObj m))
           | Some _ \<Rightarrow> Inl (ValueError ''native parameter map must be an array'')
           | None \<Rightarrow> Inr value)))
      | _ \<Rightarrow> Inr value)"
  by pat_completeness auto
termination
  by (relation "measure size") (auto dest!: size_obj_value size_arr_item)

declare decode_parameter.simps [simp del]

definition add_field :: "dict \<Rightarrow> string \<Rightarrow> json \<Rightarrow> dict res" where
  "add_field result k v =
     (if has_key result (field_key k)
      then Inl (ValueError (''duplicate or ambiguous configuration field '' @ py_repr (field_key k)))
      else Inr (result @ [(field_key k, v)]))"

definition field_containers :: "string list" where
  "field_containers = [''fields'', ''parameters'', ''configuration'', ''eventParameters'', ''parameter'']"

definition hashable :: "json \<Rightarrow> bool" where
  "hashable v = (\<not> is_dict v \<and> \<not> is_list v)"

text \<open>The set of native parameter keys; an unhashable key raises.\<close>

definition native_keys :: "dict \<Rightarrow> json list res" where
  "native_keys target =
     (let rows = filter is_dict (list_of (case dget target ''parameter'' of None \<Rightarrow> JArr [] | Some p \<Rightarrow> p));
          ks = map (\<lambda>r. get_or_null (dict_of r) ''key'') rows
      in if list_all hashable ks then Inr ks else Inl (OtherError ''unhashable type''))"

definition entry_name :: "dict \<Rightarrow> json" where
  "entry_name d = (if truthy (get_or_null d ''key'') then get_or_null d ''key'' else get_or_null d ''name'')"

definition add_row :: "string \<Rightarrow> dict \<Rightarrow> json \<Rightarrow> dict res" where
  "add_row table result row =
     (case row of
        JObj r \<Rightarrow>
          (let pair = (if table = ''eventparameters'' then (''name'', ''value'')
                       else (''parameter'', ''parameterValue''))
           in if \<not> nonblank_text (get_or_null r (fst pair)) \<or> \<not> has_key r (snd pair)
              then Inl (ValueError ''native settings row needs its parameter name and value'')
              else add_field result (text_of (get_or_null r (fst pair))) (get_or_null r (snd pair)))
      | _ \<Rightarrow> Inl (ValueError ''native settings table row must be a map''))"

definition add_entry :: "bool \<Rightarrow> dict \<Rightarrow> json \<Rightarrow> dict res" where
  "add_entry event_settings result item =
     (case item of
        JObj d \<Rightarrow>
          (case entry_name d of
             JStr name \<Rightarrow>
               if \<not> event_settings \<and> normalized_token name \<in> {''eventsettingstable'', ''eventparameters''}
               then Inr result
               else if normalized_token name \<notin> set settings_tables
               then bindE (decode_parameter item) (add_field result name)
               else bindE (decode_parameter item) (\<lambda>rows. (case rows of
                   JArr rs \<Rightarrow> foldE (add_row (normalized_token name)) result rs
                 | _ \<Rightarrow> Inl (ValueError ''native settings table must contain map rows'')))
           | _ \<Rightarrow> Inl (ValueError ''native parameter entry needs a key''))
      | _ \<Rightarrow> Inl (ValueError ''native parameter entry needs a key''))"

definition add_container :: "bool \<Rightarrow> dict \<Rightarrow> dict \<Rightarrow> string \<Rightarrow> dict res" where
  "add_container event_settings target result k =
     (if \<not> event_settings \<and> k = ''eventParameters'' then Inr result
      else (case get_or_null target k of
        JObj d \<Rightarrow> foldE (\<lambda>r (n, v). add_field r n v) result d
      | JArr items \<Rightarrow> foldE (add_entry event_settings) result items
      | _ \<Rightarrow> Inr result))"

definition add_own_field :: "json list \<Rightarrow> dict \<Rightarrow> string \<times> json \<Rightarrow> dict res" where
  "add_own_field ks result kv =
     (case kv of (k, v) \<Rightarrow>
       if k \<notin> set field_containers \<and> k \<notin> set object_metadata \<and>
          (k \<noteq> ''tagId'' \<or> JStr k \<notin> set ks \<and> \<not> is_decimal (py_str v))
       then add_field result k v else Inr result)"

definition local_fields :: "bool \<Rightarrow> dict \<Rightarrow> dict res" where
  "local_fields event_settings target =
     bindE (native_keys target) (\<lambda>ks.
     bindE (foldE (add_own_field ks) [] target) (\<lambda>result.
       foldE (add_container event_settings target) result field_containers))"

section \<open>Variable references\<close>

text \<open>\<open>reference.split("variable::", 1)\<close>: the text after the first occurrence, if any.\<close>

fun after_first :: "string \<Rightarrow> string \<Rightarrow> string option" where
  "after_first p [] = (if p = [] then Some [] else None)"
| "after_first p (c # s) = (if starts_with (c # s) p then Some (drop (length p) (c # s))
                            else after_first p s)"

definition variable_name :: "string \<Rightarrow> string" where
  "variable_name reference =
     (if starts_with reference ''{{'' \<and> ends_with reference ''}}''
      then strip (take (length reference - 4) (drop 2 reference))
      else (case after_first ''variable::'' reference of Some s \<Rightarrow> s | None \<Rightarrow> reference))"

definition no_brace :: "char \<Rightarrow> bool" where
  "no_brace c = (c \<noteq> CHR ''{'' \<and> c \<noteq> CHR ''}'')"

lemma length_dropWhile_less: "length (drop n (dropWhile P (tl s))) < Suc (length s)"
proof -
  have "length (dropWhile P (tl s)) \<le> length s"
    using length_dropWhile_le [of P "tl s"] by simp
  then show ?thesis by simp
qed

function scan_references :: "string \<Rightarrow> string list" where
  "scan_references [] = []"
| "scan_references (c # s) =
     (if starts_with (c # s) ''{{'' \<and> takeWhile no_brace (tl s) \<noteq> [] \<and>
         starts_with (dropWhile no_brace (tl s)) ''}}''
      then takeWhile no_brace (tl s) # scan_references (drop 2 (dropWhile no_brace (tl s)))
      else scan_references s)"
  by pat_completeness auto
termination
  by (relation "measure length") (simp_all add: length_dropWhile_less del: length_drop)

fun variable_references :: "json \<Rightarrow> string list" where
  "variable_references (JObj d) = concat (map (\<lambda>(k, v). variable_references v) d)"
| "variable_references (JArr xs) = concat (map variable_references xs)"
| "variable_references (JStr s) = map strip (scan_references s) @
     (if after_first ''variable::'' s \<noteq> None \<and> after_first ''{{'' s = None
      then [variable_name s] else [])"
| "variable_references _ = []"

definition item_references :: "dict \<Rightarrow> string list res" where
  "item_references item =
     (let found = variable_references (JObj (dpop (dpop item ''name'') ''notes'')) in
      bindE (local_fields True item) (\<lambda>local.
        Inr (found @ concat (map (\<lambda>(k, v). (case v of
            JStr s \<Rightarrow> if k \<in> set (keys settings_references) \<and> s \<noteq> [] then [variable_name s] else []
          | _ \<Rightarrow> [])) local))))"

section \<open>Consumers of a changed variable\<close>

text \<open>
  A listed object is its name, when that is a text, and its references. The loop adds the
  variables that reference a known name until none is new. \<open>item_references\<close> of an object
  is read only for objects with a name; all are read in the first round, so an error in one
  of them is raised there.
\<close>

type_synonym named_items = "(string \<times> string list) list"

definition referencing :: "string list \<Rightarrow> named_items \<Rightarrow> string list" where
  "referencing names items =
     map fst (filter (\<lambda>(n, rs). list_ex (\<lambda>r. r \<in> set names) rs) items)"

lemma set_referencing:
  "set (referencing names items) = {n. \<exists>rs. (n, rs) \<in> set items \<and> set rs \<inter> set names \<noteq> {}}"
  by (force simp: referencing_def list_ex_iff)

function closure_loop :: "string list \<Rightarrow> named_items \<Rightarrow> string list" where
  "closure_loop names items =
     (if set (referencing names items) \<subseteq> set names then names
      else closure_loop (names @ referencing names items) items)"
  by pat_completeness auto
termination
proof (relation "measure (\<lambda>(names, items). card (set (keys items) - set names))", goal_cases)
  case (2 names items)
  have "set (referencing names items) \<subseteq> set (keys items)"
    by (auto simp: referencing_def)
  then show ?case
    using 2 by (simp del: set_map) (intro psubset_card_mono; auto simp del: set_map)
qed simp

declare closure_loop.simps [simp del]

definition named_items :: "json list \<Rightarrow> named_items res" where
  "named_items items =
     bindE (mapE (\<lambda>item. (case get_or_null (dict_of item) ''name'' of
         JStr n \<Rightarrow> bindE (item_references (dict_of item)) (\<lambda>rs. Inr [(n, rs)])
       | _ \<Rightarrow> Inr [])) items) (\<lambda>xss. Inr (concat xss))"

definition changed_names :: "operation \<Rightarrow> string list" where
  "changed_names op = op_name op #
     (case op_new_name op of None \<Rightarrow> [] | Some n \<Rightarrow> if n = [] then [] else [n]) @
     (case op_pre_change op of Some (JObj d) \<Rightarrow>
        (case dget d ''name'' of Some (JStr n) \<Rightarrow> [n] | _ \<Rightarrow> []) | _ \<Rightarrow> [])"

definition variable_consumers :: "operation \<Rightarrow> json list \<Rightarrow> json list \<Rightarrow> string list res" where
  "variable_consumers op tags variables =
     bindE (named_items variables) (\<lambda>vs.
       let names = closure_loop (changed_names op) vs in
       bindE (named_items tags) (\<lambda>ts. Inr (sorted_set (referencing names ts))))"

text \<open>The specification: a name is reached through a chain of references.\<close>

definition uses :: "named_items \<Rightarrow> (string \<times> string) set" where
  "uses items = {(used, n). \<exists>rs. (n, rs) \<in> set items \<and> used \<in> set rs}"

lemma referencing_uses: "set (referencing names items) = uses items `` set names"
  by (auto simp: set_referencing uses_def)

lemma closure_loop_reaches:
  "set (closure_loop names items) = (uses items)\<^sup>* `` set names"
proof (induction names items rule: closure_loop.induct)
  case (1 names items)
  show ?case
  proof (cases "set (referencing names items) \<subseteq> set names")
    case True
    have "n \<in> set names" if "(m, n) \<in> (uses items)\<^sup>*" "m \<in> set names" for m n
      using that by (induction rule: rtrancl_induct) (use True in \<open>auto simp: referencing_uses\<close>)
    then have "(uses items)\<^sup>* `` set names = set names" by auto
    then show ?thesis using True by (simp add: closure_loop.simps)
  next
    case False
    have "(uses items)\<^sup>* `` (set names \<union> uses items `` set names) = (uses items)\<^sup>* `` set names"
      by (auto intro: converse_rtrancl_into_rtrancl)
    then show ?thesis
      using "1.IH" [OF False] False
      by (subst closure_loop.simps) (simp add: referencing_uses)
  qed
qed

end
