(* ===== verification/Resources.thy ===== *)
theory Resources
  imports NativeFields RunJson
begin

text \<open>
  \<^verbatim>\<open>domain/resources.py\<close>: resource families, native inventory identities, the
  capability matrix of a target and the capability an action needs.
\<close>

section \<open>Variable changes that need a review of their consumers\<close>

definition snapshots :: "operation \<Rightarrow> dict list" where
  "snapshots op = concat (map (\<lambda>s. case s of Some (JObj d) \<Rightarrow> [d] | _ \<Rightarrow> [])
     [op_intended op, op_pre_change op])"

definition snapshot_type :: "dict \<Rightarrow> string" where
  "snapshot_type d = normalized_token (py_str (case dget d ''type'' of None \<Rightarrow> JStr [] | Some t \<Rightarrow> t))"

definition is_google_settings_mutation :: "operation \<Rightarrow> bool" where
  "is_google_settings_mutation op =
     (op_family op = ''variable'' \<and> mutating_action (op_action op) \<and>
      list_ex (\<lambda>d. snapshot_type d \<in> set (configuration_settings_types @ event_settings_types))
        (snapshots op))"

text \<open>An update that changes the notes only.\<close>

definition notes_only_update :: "operation \<Rightarrow> bool" where
  "notes_only_update op =
     (op_action op = Update \<and>
      (case (op_pre_change op, op_intended op) of
         (Some (JObj before), Some (JObj after)) \<Rightarrow>
           \<not> py_eq (JObj before) (JObj after) \<and>
           py_eq (JObj (dpop before ''notes'')) (JObj (dpop after ''notes''))
       | _ \<Rightarrow> False))"

definition requires_variable_consumer_check :: "operation \<Rightarrow> bool" where
  "requires_variable_consumer_check op =
     (op_family op = ''variable'' \<and> mutating_action (op_action op) \<and> \<not> notes_only_update op \<and>
      (op_action op \<noteq> Create \<or> is_google_settings_mutation op \<or>
       list_ex (\<lambda>d. snapshot_type d \<in> set user_data_variable_types) (snapshots op)))"

definition required_baseline_families :: "operation list \<Rightarrow> container \<Rightarrow> string list" where
  "required_baseline_families ops c = sorted_set (map op_family ops @
     (if c = Web \<and> list_ex requires_variable_consumer_check ops then [''tag'', ''variable''] else []))"

section \<open>Families and identities\<close>

definition normalized_family :: "string \<Rightarrow> string res" where
  "normalized_family value =
     (let family = strip (casefold value) in
      if family \<in> set resource_families then Inr family
      else Inl (ResourceRegistryError (''unsupported GTM resource family '' @ py_repr value)))"

definition special_id_fields :: "(string \<times> string) list" where
  "special_id_fields = [(''built-in variable'', ''type''), (''container setting'', ''containerId''),
     (''destination'', ''destinationLinkId''), (''google tag configuration'', ''gtagConfigId''),
     (''workspace'', ''workspaceId'')]"

definition family_id_field :: "string \<Rightarrow> string option" where
  "family_id_field family = map_option fst (find (\<lambda>fk. snd fk = family) id_fields)"

definition native_scope :: "string \<Rightarrow> identity \<Rightarrow> (string \<times> string) list" where
  "native_scope family i =
     [(''accountId'', account_id i), (''containerId'', container_id i)] @
     (if family \<in> {''built-in variable'', ''google tag configuration''}
      then [(''workspaceId'', workspace_id i)] else [])"

definition inventory_field :: "string \<Rightarrow> dict \<Rightarrow> identity \<Rightarrow> string res" where
  "inventory_field family resource i =
     (case map_of special_id_fields family of
        Some field \<Rightarrow>
          if list_ex (\<lambda>(k, v). dget resource k \<noteq> Some (JStr v)) (native_scope family i)
          then Inl (ResourceRegistryError (family @ '' inventory differs from the authorized native scope''))
          else Inr field
      | None \<Rightarrow> (case family_id_field family of
          Some field \<Rightarrow> Inr field | None \<Rightarrow> Inl (OtherError ''StopIteration'')))"

definition native_inventory_identity ::
  "string \<Rightarrow> dict \<Rightarrow> identity \<Rightarrow> (string option \<times> string) res" where
  "native_inventory_identity family resource i =
     bindE (inventory_field family resource i) (\<lambda>field.
     (let native = get_or_null resource field; name = get_or_null resource ''name'' in
      if \<not> nonblank_text native then Inl (ResourceRegistryError
        (family @ '' inventory lacks native '' @ field @ '' evidence''))
      else if family = ''google tag configuration'' then Inr (None, text_of native)
      else if \<not> nonblank_text name then Inl (ResourceRegistryError
        (family @ '' inventory lacks native name evidence''))
      else Inr (Some (text_of name), text_of native)))"

definition semantic_object_key :: "string \<Rightarrow> string \<Rightarrow> string \<Rightarrow> string res" where
  "semantic_object_key target family name =
     (if blank target then Inl (ResourceRegistryError ''target_id must be a non-empty string'')
      else if blank name then Inl (ResourceRegistryError ''object name must be a non-empty string'')
      else bindE (normalized_family family) (\<lambda>f.
        Inr (strip target @ ''::'' @ f @ ''::'' @ strip name)))"

definition validate_target_family :: "container \<Rightarrow> string \<Rightarrow> string res" where
  "validate_target_family c family =
     bindE (normalized_family family) (\<lambda>f.
       if f \<in> set (target_families c) then Inr f
       else Inl (ResourceRegistryError
         (py_repr f @ '' is not a '' @ py_repr (container_name c) @ '' container resource family'')))"

section \<open>Capabilities\<close>

definition is_true :: "json option \<Rightarrow> bool" where
  "is_true v = (v = Some (JBool True))"

definition capability_of :: "dict \<Rightarrow> capability" where
  "capability_of raw = \<lparr>cap_list = is_true (dget raw ''list''), cap_get = is_true (dget raw ''get''),
     cap_create = is_true (dget raw ''create''), cap_update = is_true (dget raw ''update''),
     cap_remove = is_true (dget raw ''remove'')\<rparr>"

definition capability_matrix :: "container \<Rightarrow> dict \<Rightarrow> capability_map res" where
  "capability_matrix c discovered =
     mapE (\<lambda>family. (case dget discovered family of
         None \<Rightarrow> Inr (family, capability_of [])
       | Some (JObj raw) \<Rightarrow> Inr (family, capability_of raw)
       | Some _ \<Rightarrow> Inl (ResourceRegistryError
           (''capability record for '' @ py_repr family @ '' must be an object''))))
       (sorted_set (target_families c))"

datatype capability_name = ListCap | GetCap | CreateCap | UpdateCap | RemoveCap

fun cap_has :: "capability_name \<Rightarrow> capability \<Rightarrow> bool" where
  "cap_has ListCap c = cap_list c"
| "cap_has GetCap c = cap_get c"
| "cap_has CreateCap c = cap_create c"
| "cap_has UpdateCap c = cap_update c"
| "cap_has RemoveCap c = cap_remove c"

fun capability_label :: "capability_name \<Rightarrow> string" where
  "capability_label ListCap = ''list''"
| "capability_label GetCap = ''get''"
| "capability_label CreateCap = ''create''"
| "capability_label UpdateCap = ''update''"
| "capability_label RemoveCap = ''remove''"

definition matrix_has :: "capability_map \<Rightarrow> string \<Rightarrow> capability_name \<Rightarrow> bool" where
  "matrix_has matrix family cap =
     (case map_of matrix family of None \<Rightarrow> False | Some c \<Rightarrow> cap_has cap c)"

fun operation_capability :: "action \<Rightarrow> capability_name" where
  "operation_capability Reuse = GetCap"
| "operation_capability Untouched = GetCap"
| "operation_capability Create = CreateCap"
| "operation_capability Update = UpdateCap"
| "operation_capability Rename = UpdateCap"
| "operation_capability Pause = UpdateCap"
| "operation_capability Unpause = UpdateCap"
| "operation_capability Remove = RemoveCap"
| "operation_capability Replace = RemoveCap"

definition unsupported_operation_reason :: "operation \<Rightarrow> capability_map \<Rightarrow> string option res" where
  "unsupported_operation_reason op matrix =
     bindE (normalized_family (op_family op)) (\<lambda>family.
     if op_action op = Replace then
       (let missing = filter (\<lambda>c. \<not> matrix_has matrix family c) [RemoveCap, CreateCap] in
        Inr (if missing = [] then None
          else Some (''adapter lacks '' @ join '' and '' (map (\<lambda>c. py_repr (capability_label c)) missing)
                 @ '' capability for governed replace of '' @ py_repr family)))
     else
       (let cap = operation_capability (op_action op) in
        Inr (if matrix_has matrix family cap then None
          else Some (''adapter lacks '' @ py_repr (capability_label cap) @ '' capability for ''
                 @ py_repr family))))"

section \<open>Facts\<close>

lemma required_baseline_includes: "op \<in> set ops \<Longrightarrow> op_family op \<in> set (required_baseline_families ops c)"
  by (simp add: required_baseline_families_def)

lemma set_required_baseline: "set (required_baseline_families ops c) = op_family ` set ops \<union>
    (if c = Web \<and> (\<exists>op \<in> set ops. requires_variable_consumer_check op) then {''tag'', ''variable''} else {})"
  by (cases "c = Web \<and> (\<exists>op \<in> set ops. requires_variable_consumer_check op)")
     (auto simp: required_baseline_families_def list_ex_iff)

lemma normalized_family_range: "normalized_family v = Inr f \<Longrightarrow> f \<in> set resource_families"
  by (auto simp: normalized_family_def Let_def split: if_splits)

lemma starts_with_append: "starts_with (p @ s) p"
  by (simp add: starts_with_iff)

lemma capability_matrix_families:
  "capability_matrix c d = Inr m \<Longrightarrow> keys m = sorted_set (target_families c)"
proof -
  assume "capability_matrix c d = Inr m"
  then have "list_all2 (\<lambda>f e. fst e = f) (sorted_set (target_families c)) m"
    unfolding capability_matrix_def mapE_Inr_iff
    by (rule list_all2_mono) (auto split: option.splits json.splits)
  then show ?thesis by (induction rule: list_all2_induct) auto
qed

lemma unsupported_none_iff:
  "unsupported_operation_reason op matrix = Inr None \<longleftrightarrow>
     (\<exists>family. normalized_family (op_family op) = Inr family \<and>
        matrix_has matrix family (operation_capability (op_action op)) \<and>
        (op_action op = Replace \<longrightarrow> matrix_has matrix family CreateCap))"
proof (cases "normalized_family (op_family op)")
  case (Inr family)
  have "filter (\<lambda>c. \<not> matrix_has matrix family c) [RemoveCap, CreateCap] = [] \<longleftrightarrow>
      matrix_has matrix family RemoveCap \<and> matrix_has matrix family CreateCap" by simp
  then show ?thesis
    unfolding unsupported_operation_reason_def Inr Let_def
    by (cases "op_action op = Replace") (simp_all only: bindE_simps if_True if_False sum.inject
      operation_capability.simps option.distinct split: if_split, simp_all)
qed (simp add: unsupported_operation_reason_def)

end
