(* ===== verification/DataProperties.thy ===== *)
theory DataProperties
  imports Verification Graph Resources
begin

text \<open>
  What the data components promise, as theorems about their definitions: the JSON
  differences, the graph comparison, the dependency graphs, redaction and persistence, template
  sources, the two verifications, variable consumers and capabilities. Each property whose
  statement has a hypothesis is followed by a witness at a concrete input.
\<close>

section \<open>Comparisons\<close>

text \<open>
  C18. The difference list of two JSON values is empty exactly when they are equal up to the
  order of dictionary keys, with Python's distinction of types (a Boolean is not the integer
  it equals).
\<close>

theorem differences_empty_iff:
  "wf_json e \<Longrightarrow> differences e a p = [] \<longleftrightarrow> json_same e a"
  by (rule differences_empty_iff_aux)

lemma differences_empty_iff_witness:
  "differences (JObj [(''a'', JInt 1), (''b'', JArr [JNull])])
     (JObj [(''b'', JArr [JNull]), (''a'', JInt 1)]) ''$'' = [] \<and>
   differences (JObj [(''a'', JInt 1)]) (JObj [(''a'', JBool True)]) ''$'' \<noteq> []"
  using differences_empty_iff [of "JObj [(''a'', JInt 1), (''b'', JArr [JNull])]"
      "JObj [(''b'', JArr [JNull]), (''a'', JInt 1)]" "''$''"]
    differences_empty_iff [of "JObj [(''a'', JInt 1)]" "JObj [(''a'', JBool True)]" "''$''"]
  by (simp add: insert_commute)

text \<open>
  C17. Two object graphs compare as equal exactly when their normal forms (references
  translated to semantic names, native defaults dropped, Parameter arrays ordered) are the
  same JSON value up to key order.
\<close>

theorem compare_graphs_pass_iff:
  assumes "compare_graphs tt e s = Inr r" and "wf_json e"
  shows "gr_pass r \<longleftrightarrow> (\<exists>ne ns. normalize_graph tt (semantic_references e) e = Inr ne \<and>
    normalize_graph tt (semantic_references e) s = Inr ns \<and> json_same (JObj ne) (JObj ns))"
proof -
  obtain ne ns where n: "normalize_graph tt (semantic_references e) e = Inr ne"
      "normalize_graph tt (semantic_references e) s = Inr ns" "r = graph_report_of ne ns"
    using assms(1) by (auto simp: compare_graphs_def Let_def bindE_Inr_iff)
  then show ?thesis
    using graph_report_pass_iff [OF normalize_graph_wf [OF n(1) assms(2)], of ns]
    by (simp del: json_same.simps)
qed

definition sample_graph :: "string \<Rightarrow> json" where
  "sample_graph html = JArr [JObj [(''object_type'', JStr ''tag''), (''name'', JStr ''T''),
     (''type'', JStr ''html''), (''fingerprint'', JStr html), (''notes'', JStr ''n'')]]"

lemma sample_graph_report:
  "map_sum id gr_pass (compare_graphs None (sample_graph ''1'') (sample_graph ''2'')) = Inr True"
  by code_simp

lemma compare_graphs_pass_iff_witness:
  "\<exists>ne ns. normalize_graph None (semantic_references (sample_graph ''1'')) (sample_graph ''1'') = Inr ne \<and>
     normalize_graph None (semantic_references (sample_graph ''1'')) (sample_graph ''2'') = Inr ns \<and>
     json_same (JObj ne) (JObj ns)"
proof -
  obtain r where r: "compare_graphs None (sample_graph ''1'') (sample_graph ''2'') = Inr r" "gr_pass r"
    using sample_graph_report
    by (cases "compare_graphs None (sample_graph ''1'') (sample_graph ''2'')") auto
  have "wf_json (sample_graph ''1'')" by (simp add: sample_graph_def)
  from compare_graphs_pass_iff [OF r(1) this] r(2) show ?thesis by blast
qed

text \<open>
  A saved graph that is the expected graph always passes: normalisation cannot make a
  graph differ from itself.
\<close>

theorem compare_graphs_self:
  assumes "compare_graphs tt g g = Inr r" and "wf_json g"
  shows "gr_pass r"
proof -
  obtain n where n: "normalize_graph tt (semantic_references g) g = Inr n" "r = graph_report_of n n"
    using assms(1) by (auto simp: compare_graphs_def Let_def bindE_Inr_iff)
  have wf: "wf_json (JObj n)" by (rule normalize_graph_wf [OF n(1) assms(2)])
  show ?thesis unfolding n(2) graph_report_pass_iff [OF wf] by (rule json_same_refl [OF wf])
qed

lemma compare_graphs_self_witness:
  "\<exists>r. compare_graphs None (sample_graph ''1'') (sample_graph ''1'') = Inr r \<and> gr_pass r"
proof -
  have ok: "map_sum (\<lambda>_. ()) (\<lambda>_. ()) (compare_graphs None (sample_graph ''1'') (sample_graph ''1''))
      = Inr ()" by code_simp
  then obtain r where r: "compare_graphs None (sample_graph ''1'') (sample_graph ''1'') = Inr r"
    by (cases "compare_graphs None (sample_graph ''1'') (sample_graph ''1'')") auto
  have "wf_json (sample_graph ''1'')" by (simp add: sample_graph_def)
  from compare_graphs_self [OF r this] r show ?thesis by blast
qed

text \<open>
  A reference by server ID or name is only ever resolved to the semantic name of an object
  of the graph (or a built-in trigger) of the referenced kind, or to a name the expected graph
  itself uses as a reference.
\<close>

theorem references_resolve_to_known:
  assumes "reference_maps objects tt = Inr mi" and "(f, kind) \<in> set id_fields"
    and "semantic_reference \<lparr>rx_maps = fst mi, rx_ids = snd mi, rx_target = t, rx_allowed = allowed\<rparr>
           f kind allow_name path (JStr v) = Inr w"
  shows "\<exists>c. w = JStr c \<and> (c \<in> set (snd mi kind) \<or> c = v \<and> v \<in> set allowed)"
proof -
  let ?rx = "\<lparr>rx_maps = fst mi, rx_ids = snd mi, rx_target = t, rx_allowed = allowed\<rparr>"
  obtain c where c: "reference_candidates ?rx f kind allow_name v = [c]" "w = JStr c"
    using assms(3) by (auto split: list.splits)
  have "maps_indexed (rx_maps ?rx, rx_ids ?rx)" using reference_maps_indexed [OF assms(1)] by simp
  from reference_candidates_indexed [OF this assms(2), of c allow_name v] c show ?thesis by simp
qed

definition sample_trigger :: dict where
  "sample_trigger = [(''object_type'', JStr ''trigger''), (''name'', JStr ''All''),
     (''triggerId'', JStr ''7'')]"

lemma references_resolve_to_known_witness:
  "\<exists>mi w. reference_maps [sample_trigger] None = Inr mi \<and>
     semantic_reference \<lparr>rx_maps = fst mi, rx_ids = snd mi, rx_target = None, rx_allowed = []\<rparr>
       ''triggerId'' ''trigger'' False ''$'' (JStr ''7'') = Inr w \<and>
     (\<exists>c. w = JStr c \<and> c \<in> set (snd mi ''trigger''))"
proof -
  have "map_sum id (\<lambda>mi. map_sum id id (semantic_reference
      \<lparr>rx_maps = fst mi, rx_ids = snd mi, rx_target = None, rx_allowed = []\<rparr>
       ''triggerId'' ''trigger'' False ''$'' (JStr ''7''))) (reference_maps [sample_trigger] None)
    = Inr (Inr (JStr ''trigger::All''))" by code_simp
  then obtain mi where mi: "reference_maps [sample_trigger] None = Inr mi"
    and w: "semantic_reference \<lparr>rx_maps = fst mi, rx_ids = snd mi, rx_target = None, rx_allowed = []\<rparr>
       ''triggerId'' ''trigger'' False ''$'' (JStr ''7'') = Inr (JStr ''trigger::All'')"
    by (cases "reference_maps [sample_trigger] None") (auto simp: sum.map_id)
  have "(''triggerId'', ''trigger'') \<in> set id_fields" by (simp add: id_fields_def)
  from references_resolve_to_known [OF mi this w] mi w show ?thesis by (auto simp del: semantic_reference.simps)
qed

text \<open>
  A keyed Parameter array that Tag Manager returns in another order has the same canonical
  form, whatever path it is reported under.
\<close>

theorem keyed_parameters_order_insensitive:
  assumes "cx_mode cx = Some Keyed" and "canonical_native_fields cx p (JArr xs) = Inr w"
    and "mset ys = mset xs"
  shows "canonical_native_fields cx q (JArr ys) = Inr w"
  by (rule keyed_order_insensitive_aux [OF assms])

definition sample_parameters :: "json list" where
  "sample_parameters = [JObj [(''type'', JStr ''template''), (''key'', JStr ''b''), (''value'', JStr ''1'')],
     JObj [(''type'', JStr ''template''), (''key'', JStr ''a''), (''value'', JStr ''2'')]]"

lemma keyed_parameters_order_insensitive_witness:
  "\<exists>w. canonical_native_fields (child_ctx None (Some Keyed) False) ''$'' (JArr sample_parameters) = Inr w \<and>
     canonical_native_fields (child_ctx None (Some Keyed) False) ''$'' (JArr (rev sample_parameters)) = Inr w"
proof -
  have "map_sum (\<lambda>_. ()) (\<lambda>_. ()) (canonical_native_fields (child_ctx None (Some Keyed) False) ''$''
      (JArr sample_parameters)) = Inr ()" by code_simp
  then obtain w where w: "canonical_native_fields (child_ctx None (Some Keyed) False) ''$''
      (JArr sample_parameters) = Inr w"
    by (cases "canonical_native_fields (child_ctx None (Some Keyed) False) ''$'' (JArr sample_parameters)") auto
  have "cx_mode (child_ctx None (Some Keyed) False) = Some Keyed" by (simp add: child_ctx_def)
  from keyed_parameters_order_insensitive [OF this w, of "rev sample_parameters"] w show ?thesis by simp
qed

section \<open>Graphs and references\<close>

text \<open>
  A static order of a dependency dictionary lists every node once, and every node after all
  of its predecessors.
\<close>

theorem static_order_topological:
  assumes "distinct (keys g)" and "static_order g = Inr order"
  shows "distinct order \<and> set order = set (nodes g) \<and>
    (\<forall>n \<in> set order. \<forall>p \<in> set (preds g n). position order p < position order n)"
  using static_order_facts [OF assms] closed_order_position(1) by blast

lemma static_order_topological_witness:
  "position [''c'', ''b'', ''a''] ''c'' < position [''c'', ''b'', ''a''] ''b'' \<and>
   position [''c'', ''b'', ''a''] ''b'' < position [''c'', ''b'', ''a''] ''a''"
proof -
  let ?g = "[(''a'', [''b'', ''c'']), (''b'', [''c''])]"
  have "static_order ?g = Inr [''c'', ''b'', ''a'']" by code_simp
  from static_order_topological [OF _ this]
  have all: "\<forall>n \<in> set [''c'', ''b'', ''a'']. \<forall>p \<in> set (preds ?g n).
      position [''c'', ''b'', ''a''] p < position [''c'', ''b'', ''a''] n" by fastforce
  have "''c'' \<in> set (preds ?g ''b'')" "''b'' \<in> set (preds ?g ''a'')" by (simp_all add: preds_def)
  then show ?thesis using all by (meson list.set_intros)
qed

text \<open>
  When every dependency names an operation, the cycle check of the run validation accepts
  exactly the acyclic graphs, which are exactly those the topological sorter can order.
\<close>

theorem cycle_check_decides:
  assumes "distinct (keys g)" and "\<And>n p. p \<in> set (preds g n) \<Longrightarrow> p \<in> set (keys g)"
  shows "(reject_dependency_cycle g = Inr () \<longleftrightarrow> acyclic (edges g)) \<and>
    (reject_dependency_cycle g = Inr () \<longleftrightarrow> (\<exists>order. static_order g = Inr order))"
  using kahn_order_acyclic [OF assms(1), of Fifo] reject_dependency_cycle_iff [OF assms(1)] assms(2)
  by (auto simp: static_order_def)

lemma cycle_check_decides_witness:
  "reject_dependency_cycle [(''a'', [''b'']), (''b'', [])] = Inr () \<and>
   acyclic (edges [(''a'', [''b'']), (''b'', [])])"
proof -
  have "reject_dependency_cycle [(''a'', [''b'']), (''b'', [])] = Inr ()" by code_simp
  moreover have "p \<in> set (keys [(''a'', [''b'']), (''b'', [])])"
    if "p \<in> set (preds [(''a'', [''b'']), (''b'', [])] n)" for n p
    using that by (simp add: preds_def split: if_splits)
  ultimately show ?thesis
    using cycle_check_decides [of "[(''a'', [''b'']), (''b'', [])]"] by simp
qed

text \<open>
  The requirements an operation serves are its own and those of every operation that
  depends on it, directly or through others.
\<close>

theorem served_requirements_transitive:
  assumes "distinct (keys ops)" and "served_requirements ops = Inr s"
  shows "s n = (\<Union>j \<in> {j. (n, j) \<in> (edges (demand_graph ops))\<^sup>*}. own_requirements ops j)"
  unfolding served_requirements_sound [OF assms] demanded_def ..

lemma served_requirements_transitive_witness:
  "\<exists>s. served_requirements [(''t'', [''v''], [''R1'']), (''v'', [], [])] = Inr s \<and> ''R1'' \<in> s ''v''"
proof -
  let ?ops = "[(''t'', [''v''], [''R1'']), (''v'', [], [])] :: demands"
  have "map_sum id (\<lambda>s. ''R1'' \<in> s ''v'') (served_requirements ?ops) = Inr True" by code_simp
  then obtain s where s: "served_requirements ?ops = Inr s"
    by (cases "served_requirements ?ops") auto
  have "(''v'', ''t'') \<in> edges (demand_graph ?ops)"
    by (simp add: demand_graph_def preds_def)
  then have "(''v'', ''t'') \<in> (edges (demand_graph ?ops))\<^sup>*" by (rule r_into_rtrancl)
  moreover have "''R1'' \<in> own_requirements ?ops ''t''" by (simp add: own_requirements_def)
  ultimately have "''R1'' \<in> s ''v''"
    using served_requirements_transitive [OF _ s, of "''v''"] by auto
  then show ?thesis using s by blast
qed

text \<open>
  The consumers reported for a changed variable are exactly the tags that reference one of
  its names, or a variable that reaches one of them through references.
\<close>

theorem variable_consumers_closed:
  assumes "variable_consumers op tags variables = Inr cs"
  shows "\<exists>vs ts. named_items variables = Inr vs \<and> named_items tags = Inr ts \<and>
    set cs = {n. \<exists>rs. (n, rs) \<in> set ts \<and>
       set rs \<inter> (uses vs)\<^sup>* `` set (changed_names op) \<noteq> {}}"
proof -
  obtain vs ts where "named_items variables = Inr vs" "named_items tags = Inr ts"
    "cs = sorted_set (referencing (closure_loop (changed_names op) vs) ts)"
    using assms by (auto simp: variable_consumers_def Let_def bindE_Inr_iff)
  then show ?thesis by (auto simp: set_referencing closure_loop_reaches)
qed

definition sample_operation :: "action \<Rightarrow> operation" where
  "sample_operation a = \<lparr>op_id = ''OP-1'', op_target = ''T'', op_container = Web, op_family = ''tag'',
     op_name = ''Tag'', op_key = ''T::tag::Tag'', op_action = a, op_requirements = [''R1''],
     op_dependencies = [], op_justification = ''j'', op_evidence = [], op_risk = ''routine'',
     op_intended = Some (JObj [(''type'', JStr ''html''), (''notes'', JStr ''new'')]),
     op_pre_change = Some (JObj [(''type'', JStr ''html'')]), op_object_id = Some ''7'',
     op_new_name = None, op_approval = None, op_replacement_reason = None,
     op_permission_delta = None, op_public_identifiers = None, op_assertions = None,
     op_state = Planned, op_journal = [], op_comparison = None, op_saved_readback = None,
     op_pre_write_readback = None, op_pre_write_comparison = None\<rparr>"

definition sample_variable :: operation where
  "sample_variable = (sample_operation Update)\<lparr>op_name := ''price'', op_family := ''variable''\<rparr>"

lemma variable_consumers_closed_witness:
  "\<exists>ts. named_items [JObj [(''name'', JStr ''T''), (''value'', JStr ''{{total}}'')]] = Inr ts"
proof -
  have "variable_consumers sample_variable [JObj [(''name'', JStr ''T''), (''value'', JStr ''{{total}}'')]]
      [JObj [(''name'', JStr ''total''), (''value'', JStr ''{{price}} * 2'')]] = Inr [''T'']"
    by code_simp
  from variable_consumers_closed [OF this] show ?thesis by blast
qed

section \<open>Redaction\<close>

text \<open>
  C36. No path at which the detectors find a sensitive value is readable in what is persisted:
  every exposed path of the redacted value is one without a finding.
\<close>

theorem persistence_hides_findings:
  assumes "hex_digests h" and "redact_for_persistence h paths v = Inr w"
    and "p \<in> set (exposed ''$'' w)"
  shows "finding_at (h_findings h v paths) p = None"
  using redact_visit_exposed [OF assms(1)] assms(2,3) unfolding redact_for_persistence_def by blast

definition sample_host :: host where
  "sample_host = \<lparr>h_sha256 = (\<lambda>s. replicate 64 (CHR ''0'')), h_loads = (\<lambda>s. None),
     h_instant = (\<lambda>s. None), h_findings = (\<lambda>v ps. [(''$.password'', ''credential'', ''credential-key'')]),
     h_scrub = (\<lambda>s ss. s),
     h_schema_error = (\<lambda>kind v. None), h_domain = (\<lambda>rule d. Inr ())\<rparr>"

lemma sample_host_digests: "hex_digests sample_host"
proof -
  have "hex64 (JStr (replicate 64 (CHR ''0'')))" by code_simp
  then show ?thesis by (simp add: hex_digests_def sample_host_def)
qed

definition sample_login :: json where
  "sample_login = JObj [(''user'', JStr ''u''), (''password'', JStr ''secret'')]"

lemma sample_login_redacted: "redact_for_persistence sample_host [] sample_login =
    Inr (JObj [(''user'', JStr ''u''), (''password'', JObj [(''secret_state'', JStr redacted_state),
      (''redaction'', JObj [(''category'', JStr ''credential''), (''detector'', JStr ''credential-key'')])])])"
  by code_simp

lemma persistence_hides_findings_witness:
  "finding_at (h_findings sample_host sample_login []) ''$.user'' = None \<and>
   finding_at (h_findings sample_host sample_login []) ''$.password'' \<noteq> None"
proof -
  have "''$.user'' \<in> set (exposed ''$'' (JObj [(''user'', JStr ''u''), (''password'',
      JObj [(''secret_state'', JStr redacted_state), (''redaction'',
        JObj [(''category'', JStr ''credential''), (''detector'', JStr ''credential-key'')])])]))"
    by code_simp
  from persistence_hides_findings [OF sample_host_digests sample_login_redacted this]
  have "finding_at (h_findings sample_host sample_login []) ''$.user'' = None" .
  then show ?thesis by (simp add: sample_host_def finding_at_def)
qed

text \<open>
  A marker is never equal to anything, another marker included: redacted values cannot be
  used as evidence of equality.
\<close>

theorem redacted_values_incomparable:
  assumes "redacted_marker reference evidence = Inr m"
  shows "\<not> safe_equal m v \<and> \<not> safe_equal v m \<and> is_redacted m"
  using redacted_marker_valid [OF assms] safe_equal_redacted by blast

lemma redacted_values_incomparable_witness:
  "\<not> safe_equal (JObj [(''secret_state'', JStr redacted_state)]) (JObj [(''secret_state'', JStr redacted_state)])"
proof -
  have "redacted_marker None None = Inr (JObj [(''secret_state'', JStr redacted_state)])" by code_simp
  from redacted_values_incomparable [OF this] show ?thesis by blast
qed

text \<open>
  Resolving a payload without markers for a mutation returns it unchanged and asks the
  secret provider for nothing.
\<close>

theorem resolution_keeps_unmarked:
  "\<not> contains_redacted v \<Longrightarrow> resolve_for_mutation provider v = Inr (v, [])"
  by (rule resolve_keeps_unmarked)

lemma resolution_keeps_unmarked_witness:
  "resolve_for_mutation None sample_login = Inr (sample_login, [])"
proof -
  have "\<not> contains_redacted sample_login" by code_simp
  then show ?thesis by (rule resolution_keeps_unmarked)
qed

text \<open>
  Rendering native sections and reading them back: a template with distinct headers and
  bodies that contain no header line splits into exactly these sections.
\<close>

theorem template_sections_roundtrip:
  assumes "list_all (\<lambda>(h, b). is_header h \<and> plain_text b) ss" and "plain_text pre"
    and "ss \<noteq> []" and "distinct (keys ss)"
  shows "\<exists>sections. template_sections (pre @ render_sections ss) = Inr sections \<and>
    map (\<lambda>(h, b). (h, strip b)) sections = map (\<lambda>(h, b). (h, strip b)) ss"
  by (rule template_sections_render [OF assms])

lemma template_sections_roundtrip_witness:
  "\<exists>sections. template_sections (''x'' @ render_sections [(''___INFO___'', ''{}'')]) = Inr sections \<and>
    map (\<lambda>(h, b). (h, strip b)) sections = [(''___INFO___'', ''{}'')]"
proof -
  have "list_all (\<lambda>(h, b). is_header h \<and> plain_text b) [(''___INFO___'', ''{}'')]" by code_simp
  moreover have "plain_text ''x''" by code_simp
  moreover have "strip ''{}'' = ''{}''" by code_simp
  ultimately show ?thesis
    using template_sections_roundtrip [of "[(''___INFO___'', ''{}'')]" "''x''"] by simp
qed

section \<open>Verification\<close>

text \<open>
  C16. A saved object verifies an operation (other than a removal) exactly when the redacted
  intended graph and the redacted saved graph have the same normal form, hidden fields stand
  at the same paths in both, and, for a template, the canonical sources agree.
\<close>

theorem verification_decides:
  assumes "build_verification_comparison h op saved = Inr v" and "op_action op \<noteq> Remove"
    and "wf_json (nullable (op_intended op))"
  shows "\<exists>safe_saved safe_expected e s.
    redact_for_records h [op_json op] saved = Inr safe_saved \<and>
    redact_for_records h [op_json op] (expected_graph op) = Inr safe_expected \<and>
    projected_graph op (semantic_references safe_expected) safe_expected = Inr e \<and>
    projected_graph op (semantic_references safe_expected) safe_saved = Inr s \<and>
    (vr_pass v \<longleftrightarrow>
       json_same (JObj (comparable_bodies h op (fst s) (fst e)))
                 (JObj (comparable_bodies h op (fst e) (fst s))) \<and>
       snd e = snd s \<and>
       source_equal (if op_family op = ''template''
          then template_integrity_evidence h safe_expected safe_saved else None))"
  by (rule verification_pass_iff [OF assms])

definition plain_host :: host where
  "plain_host = sample_host\<lparr>h_findings := (\<lambda>v ps. [])\<rparr>"

definition sample_saved :: "string \<Rightarrow> json" where
  "sample_saved notes = JObj [(''objects'', JArr [JObj [(''target_id'', JStr ''T''),
     (''object_type'', JStr ''tag''), (''name'', JStr ''Tag''), (''type'', JStr ''html''),
     (''notes'', JStr notes), (''tagId'', JStr ''7'')]])]"

lemma verification_decides_witness:
  "\<exists>v. build_verification_comparison plain_host (sample_operation Update) (sample_saved ''new'') = Inr v \<and>
     (\<exists>safe_saved safe_expected.
        redact_for_records plain_host [op_json (sample_operation Update)] (sample_saved ''new'') = Inr safe_saved \<and>
        redact_for_records plain_host [op_json (sample_operation Update)]
          (expected_graph (sample_operation Update)) = Inr safe_expected)"
proof -
  let ?b = "build_verification_comparison plain_host (sample_operation Update) (sample_saved ''new'')"
  have "map_sum (\<lambda>_. ()) vr_pass ?b = Inr True" by code_simp
  then obtain v where v: "?b = Inr v" by (cases ?b) auto
  have "op_action (sample_operation Update) \<noteq> Remove"
    and "wf_json (nullable (op_intended (sample_operation Update)))"
    by (simp_all add: sample_operation_def nullable_def)
  from verification_decides [OF v this] v show ?thesis by blast
qed

text \<open>A removal is verified exactly by the absence of the object.\<close>

theorem removal_verified_by_absence:
  assumes "build_verification_comparison h op saved = Inr v" and "op_action op = Remove"
  shows "vr_pass v \<longleftrightarrow> saved = JNull"
  by (rule verification_removal [OF assms])

lemma removal_verified_by_absence_witness:
  "\<exists>v. build_verification_comparison plain_host (sample_operation Remove) JNull = Inr v \<and> vr_pass v"
proof -
  let ?b = "build_verification_comparison plain_host (sample_operation Remove) JNull"
  have "map_sum (\<lambda>_. ()) (\<lambda>_. ()) ?b = Inr ()" by code_simp
  then obtain v where v: "?b = Inr v" by (cases ?b) auto
  have "op_action (sample_operation Remove) = Remove" by (simp add: sample_operation_def)
  from removal_verified_by_absence [OF v this] v show ?thesis by simp
qed

text \<open>
  C32. A pre-write comparison that passes proves that the target has not drifted: the saved
  object, in canonical form and without server metadata the snapshot does not name, is the
  approved pre-change snapshot, and every hidden field is bound by the same secret reference.
\<close>

theorem pre_write_detects_drift:
  assumes "build_pre_write_comparison h op saved = Inr w" and "pw_pass w"
    and "wf_json (nullable (op_pre_change op))"
  shows "\<exists>primary safe_saved pre_change expected actual.
    primary_object op saved = Inr primary \<and>
    redact_for_records h [op_json op] primary = Inr safe_saved \<and>
    redact_for_records h [op_json op] (nullable (op_pre_change op)) = Inr pre_change \<and>
    canonical_native_fields (root_ctx (Some (op_family op)) (Some (op_container op))) ''$''
      (named_expected op pre_change) = Inr expected \<and>
    canonical_native_fields (root_ctx (Some (op_family op)) (Some (op_container op))) ''$''
      safe_saved = Inr actual \<and>
    (let ce = fst (presence_projection ''$'' (template_body h op expected));
         cs = fst (presence_projection ''$'' (template_body h op actual))
     in json_same ce (without_metadata ce cs)) \<and>
    references_proved (template_body h op expected) (template_body h op actual)"
proof -
  obtain primary safe_saved pre_change expected actual where run:
      "primary_object op saved = Inr primary"
      "redact_for_records h [op_json op] primary = Inr safe_saved"
    and pre: "redact_for_records h [op_json op] (nullable (op_pre_change op)) = Inr pre_change"
    and exp: "canonical_native_fields (root_ctx (Some (op_family op)) (Some (op_container op))) ''$''
          (named_expected op pre_change) = Inr expected"
    and act: "canonical_native_fields (root_ctx (Some (op_family op)) (Some (op_container op))) ''$''
          safe_saved = Inr actual"
    and w: "w = pre_write_verdict h op (template_body h op expected) (template_body h op actual) safe_saved"
    using assms(1) by (auto simp: build_pre_write_comparison_def bindE_Inr_iff)
  have "wf_json pre_change" by (rule redact_for_records_wf [OF pre assms(3)])
  then have "wf_json (named_expected op pre_change)" by (rule named_expected_wf)
  then have "wf_json (template_body h op expected)"
    using canonical_native_fields_wf [OF exp] canonical_source_body_wf by (simp add: template_body_def)
  from pre_write_verdict_pass [OF this, of h op "template_body h op actual" safe_saved] assms(2)
  show ?thesis using run pre exp act unfolding w by blast
qed

lemma pre_write_detects_drift_witness:
  "\<exists>primary. primary_object (sample_operation Update)
     (JObj [(''name'', JStr ''Tag''), (''type'', JStr ''html''), (''tagId'', JStr ''7'')]) = Inr primary"
proof -
  let ?b = "build_pre_write_comparison plain_host (sample_operation Update)
     (JObj [(''name'', JStr ''Tag''), (''type'', JStr ''html''), (''tagId'', JStr ''7'')])"
  have "map_sum (\<lambda>_. ()) pw_pass ?b = Inr True" by code_simp
  then obtain w where w: "?b = Inr w" "pw_pass w" by (cases ?b) auto
  have "wf_json (nullable (op_pre_change (sample_operation Update)))"
    by (simp add: sample_operation_def nullable_def)
  from pre_write_detects_drift [OF w this] show ?thesis by blast
qed

section \<open>Capabilities\<close>

text \<open>
  An operation is supported by a target exactly when its family is known and the matrix
  grants the capability of its action; a replacement needs both removal and creation.
\<close>

theorem operation_supported_iff:
  "unsupported_operation_reason op matrix = Inr None \<longleftrightarrow>
     (\<exists>family. normalized_family (op_family op) = Inr family \<and>
        matrix_has matrix family (operation_capability (op_action op)) \<and>
        (op_action op = Replace \<longrightarrow> matrix_has matrix family CreateCap))"
  by (rule unsupported_none_iff)

lemma operation_supported_iff_witness:
  "unsupported_operation_reason (sample_operation Replace)
     [(''tag'', \<lparr>cap_list = True, cap_get = True, cap_create = False, cap_update = True, cap_remove = True\<rparr>)]
     \<noteq> Inr None"
proof -
  have "normalized_family ''tag'' = Inr ''tag''" by code_simp
  then show ?thesis
    using operation_supported_iff [of "sample_operation Replace"
      "[(''tag'', \<lparr>cap_list = True, cap_get = True, cap_create = False, cap_update = True, cap_remove = True\<rparr>)]"]
    by (simp add: sample_operation_def matrix_has_def)
qed

end
