(* ===== verification/Actions.thy ===== *)
theory Actions
  imports Resources
begin

text \<open>
  \<^verbatim>\<open>domain/actions.py\<close>: what each action requires of an operation (snapshots,
  object identity, approval), and the approval that binds an approved mutation to its exact
  payload. \<open>fail\<close> raises in the runtime, so a contract is the sequence of its checks.
\<close>

section \<open>Native authoring\<close>

definition json_field :: "dict \<Rightarrow> string \<Rightarrow> json \<Rightarrow> json" where
  "json_field d k otherwise = (case dget d k of None \<Rightarrow> otherwise | Some v \<Rightarrow> v)"

definition lowered_type :: "dict \<Rightarrow> string" where
  "lowered_type d = casefold (py_str (json_field d ''type'' (JStr [])))"

definition native_condition :: "json \<Rightarrow> bool" where
  "native_condition row = (case row of
     JObj r \<Rightarrow> is_list (get_or_null r ''parameter'') \<and> truthy (get_or_null r ''type'')
   | _ \<Rightarrow> False)"

definition condition_checks :: "dict \<Rightarrow> string \<Rightarrow> string \<Rightarrow> unit res" where
  "condition_checks intended path field =
     failE (case dget intended field of
         None \<Rightarrow> False
       | Some (JArr rows) \<Rightarrow> \<not> list_all native_condition rows
       | Some _ \<Rightarrow> True)
       (run_error (path @ ''.'' @ field @ '' requires native Condition objects''))"

text \<open>A set of keys: an unhashable one raises.\<close>

definition key_set :: "json list \<Rightarrow> json list res" where
  "key_set rows =
     (let ks = map (\<lambda>r. get_or_null (dict_of r) ''key'') (filter is_dict rows)
      in if list_all hashable ks then Inr ks else Inl (OtherError ''unhashable type''))"

definition map_cell :: "json \<Rightarrow> bool res" where
  "map_cell cell = (case cell of
     JObj c \<Rightarrow>
       (if lowered_type c \<noteq> ''map'' then Inr False
        else (case json_field c ''map'' (JArr []) of
            JArr fs \<Rightarrow> bindE (key_set fs) (\<lambda>ks.
              Inr (set ks = {JStr ''parameter'', JStr ''parameterValue''}))
          | _ \<Rightarrow> Inr False))
   | _ \<Rightarrow> Inr False)"

definition settings_cell_check :: "string \<Rightarrow> json \<Rightarrow> unit res" where
  "settings_cell_check path cell = bindE (map_cell cell) (\<lambda>ok.
     failE (\<not> ok) (run_error (path @
       ''.eventSettingsTable rows require parameter/parameterValue MAP cells'')))"

definition event_parameter_check :: "string \<Rightarrow> json \<Rightarrow> unit res" where
  "event_parameter_check path row = (case row of
     JObj r \<Rightarrow>
       (let k = get_or_null r ''key'' in
        if k = JStr ''sendEcommerceData'' then
          (if lowered_type r = ''boolean'' \<and> \<not> hashable (get_or_null r ''value'')
           then Inl (OtherError ''unhashable type'')
           else failE (lowered_type r \<noteq> ''boolean'' \<or>
               get_or_null r ''value'' \<notin> {JStr ''true'', JStr ''false''})
             (run_error (path @ ''.sendEcommerceData requires native BOOLEAN true/false'')))
        else if k = JStr ''eventSettingsTable'' then seqE
          [failE (lowered_type r \<noteq> ''list'' \<or> \<not> is_list (get_or_null r ''list''))
             (run_error (path @ ''.eventSettingsTable requires a native LIST'')),
           forE (list_of (get_or_null r ''list'')) (settings_cell_check path)]
        else Inr ())
   | _ \<Rightarrow> Inl (run_error (path @ ''.parameter requires native Parameter objects'')))"

definition event_tag_checks :: "dict \<Rightarrow> string \<Rightarrow> unit res" where
  "event_tag_checks intended path =
     (let parameters = list_of (json_field intended ''parameter'' (JArr [])) in seqE
      [bindE (key_set parameters) (\<lambda>ks.
         failE (list_ex (\<lambda>old. old \<in> set (keys intended) \<or> JStr old \<in> set ks)
             [''eventParameters'', ''sendEcommerce''])
           (run_error (path @ '' uses obsolete GA4 authoring fields; use '' @
             ''eventSettingsTable and sendEcommerceData''))),
       forE parameters (event_parameter_check path)])"

definition validate_native_authoring :: "string \<Rightarrow> json \<Rightarrow> string \<Rightarrow> unit res" where
  "validate_native_authoring family intended path = (case intended of
     JObj d \<Rightarrow> seqE
       [whenE (family = ''trigger'')
          (forE [''customEventFilter'', ''filter'', ''autoEventFilter''] (condition_checks d path)),
        whenE (family = ''tag'' \<and> dget d ''type'' = Some (JStr ''gaawe''))
          (event_tag_checks d path)]
   | _ \<Rightarrow> Inr ())"

section \<open>Approvals\<close>

definition mutation_approval_projection :: "operation \<Rightarrow> dict" where
  "mutation_approval_projection op =
     [(''object_key'', JStr (op_key op)), (''action'', JStr (action_name (op_action op))),
      (''requirement_ids'', texts (sort (op_requirements op)))] @
     optional ''object_id'' (map_option JStr (op_object_id op)) @
     optional ''intended'' (op_intended op) @ optional ''pre_change'' (op_pre_change op) @
     optional ''new_name'' (map_option JStr (op_new_name op)) @
     optional ''replacement_reason'' (map_option JStr (op_replacement_reason op)) @
     optional ''permission_delta'' (op_permission_delta op) @
     optional ''public_identifiers'' (op_public_identifiers op) @
     optional ''assertions'' (op_assertions op)"

definition build_mutation_approval :: "host \<Rightarrow> operation \<Rightarrow> string \<Rightarrow> json" where
  "build_mutation_approval h op locator = JObj
     [(''grade'', JStr ''approved-input''), (''locator'', JStr locator),
      (''object_key'', JStr (op_key op)), (''action'', JStr (action_name (op_action op))),
      (''requirement_ids'', texts (sort (op_requirements op))),
      (''payload_sha256'', JStr (canonical_sha256 (h_sha256 h)
         (JObj (mutation_approval_projection op))))]"

section \<open>Action contracts\<close>

definition non_empty_object :: "json option \<Rightarrow> bool" where
  "non_empty_object v = (case v of Some (JObj d) \<Rightarrow> d \<noteq> [] | _ \<Rightarrow> False)"

definition non_empty_text :: "string option \<Rightarrow> bool" where
  "non_empty_text v = (case v of Some s \<Rightarrow> \<not> blank s | None \<Rightarrow> False)"

definition typed_families :: "string list" where
  "typed_families = [''tag'', ''trigger'', ''variable'', ''client'', ''transformation'']"

text \<open>
  The snapshots whose native type is required. Each of them was found to be a non-empty object by
  the checks before, so another value never gets here.
\<close>

definition typed_snapshots :: "operation \<Rightarrow> (string \<times> json option) list" where
  "typed_snapshots op =
     (if op_action op = Remove then [(''pre_change'', op_pre_change op)]
      else (''intended'', op_intended op) #
        (if delta_action (op_action op) then [(''pre_change'', op_pre_change op)] else []))"

definition snapshot_typed :: "json option \<Rightarrow> bool" where
  "snapshot_typed v = (case v of
     Some (JObj d) \<Rightarrow> nonblank_text (get_or_null d ''type'') | _ \<Rightarrow> False)"

definition approval_checks ::
  "host \<Rightarrow> operation \<Rightarrow> string \<Rightarrow> string list \<Rightarrow> unit res" where
  "approval_checks h op path locators = (case op_approval op of
     Some (JObj approval) \<Rightarrow> seqE
       [failE (\<not> py_eq (JObj approval) (build_mutation_approval h op
            (py_str (json_field approval ''locator'' (JStr []))))
           \<or> dget approval ''grade'' \<noteq> Some (JStr ''approved-input''))
          (run_error (path @ ''.approval differs from the exact mutation projection'')),
        failE (\<not> list_ex (\<lambda>l. dget approval ''locator'' = Some (JStr l)) locators)
          (run_error (path @ ''.approval.locator is not an approved linked requirement source''))]
   | _ \<Rightarrow> Inl (run_error (path @ ''.approval must bind the exact approved mutation'')))"

definition written :: "action \<Rightarrow> bool" where
  "written a = (mutating_action a \<and> a \<noteq> Remove)"

definition validate_action_contract ::
  "host \<Rightarrow> operation \<Rightarrow> string \<Rightarrow> string list \<Rightarrow> unit res" where
  "validate_action_contract h op path locators =
     (let a = op_action op; shown = py_repr (action_name a) in seqE
      [whenE (written a) (validate_native_authoring (op_family op)
         (case op_intended op of None \<Rightarrow> JObj [] | Some v \<Rightarrow> v) path),
       failE ((written a \<or> a \<in> {Reuse, Untouched}) \<and> \<not> non_empty_object (op_intended op))
         (run_error (path @ ''.intended must be a non-empty object for action '' @ shown)),
       failE (delta_action a \<and> \<not> non_empty_text (op_object_id op))
         (run_error (path @ ''.object_id is required for delta action '' @ shown)),
       failE (delta_action a \<and> \<not> non_empty_object (op_pre_change op))
         (run_error (path @ ''.pre_change must be a non-empty object for delta action '' @ shown)),
       whenE (op_family op \<in> set typed_families)
         (forE (typed_snapshots op) (\<lambda>(name, snapshot). failE (\<not> snapshot_typed snapshot)
           (run_error (path @ ''.'' @ name @
             ''.type is required; use complete object snapshots, not patches'')))),
       failE (a = Rename \<and> \<not> non_empty_text (op_new_name op))
         (run_error (path @ ''.new_name is required for rename'')),
       failE (a \<in> {Pause, Unpause} \<and>
           jget (nullable (op_intended op)) ''paused'' \<noteq> Some (JBool (a = Pause)))
         (run_error (path @ ''.intended.paused must be '' @
           (if a = Pause then ''true'' else ''false'') @ '' for '' @ action_name a)),
       whenE (mutating_action a) (approval_checks h op path locators),
       failE (a = Replace \<and> \<not> non_empty_text (op_replacement_reason op))
         (run_error (path @ ''.replacement_reason is required for replace'')),
       failE (op_family op = ''template'' \<and> mutating_action a \<and>
           \<not> (case op_permission_delta op of Some (JObj _) \<Rightarrow> True | _ \<Rightarrow> False))
         (run_error (path @ ''.permission_delta is required for a template mutation''))])"

section \<open>What an accepted contract guarantees\<close>

lemma approval_checks_ok:
  assumes "approval_checks h op path locators = Inr ()"
  shows "\<exists>approval l. op_approval op = Some (JObj approval) \<and> l \<in> set locators \<and>
    dget approval ''locator'' = Some (JStr l) \<and>
    py_eq (JObj approval) (build_mutation_approval h op l)"
proof -
  obtain d where d: "op_approval op = Some (JObj d)"
    using assms by (auto simp: approval_checks_def split: option.splits json.splits)
  have "list_ex (\<lambda>l. dget d ''locator'' = Some (JStr l)) locators"
    and eq: "py_eq (JObj d) (build_mutation_approval h op (py_str (json_field d ''locator'' (JStr []))))"
    using assms unfolding approval_checks_def d option.case json.case checks_iff by auto
  then obtain l where l: "l \<in> set locators" "dget d ''locator'' = Some (JStr l)"
    by (auto simp: list_ex_iff)
  have "py_str (json_field d ''locator'' (JStr [])) = l"
    by (simp add: json_field_def l(2) py_str_def)
  then show ?thesis using d l eq by auto
qed

lemma py_eq_field:
  assumes "py_eq (JObj d) (JObj e)" and "map_of d k = Some v"
  shows "\<exists>w. map_of e k = Some w \<and> py_eq v w"
proof -
  have "(k, v) \<in> set d" using assms(2) by (rule map_of_SomeD)
  then show ?thesis using assms(1) by (auto simp: list_all_iff split: option.splits)
qed

text \<open>The digest of an accepted approval is that of the operation's own payload.\<close>

lemma py_eq_keys:
  assumes "py_eq (JObj d) (JObj e)" and "distinct (keys d)" and "k \<in> set (keys e)"
  shows "k \<in> set (keys d)"
proof -
  have len: "length d = length e" using assms(1) by simp
  have sub: "set (keys d) \<subseteq> set (keys e)"
    using assms(1) by (force simp: list_all_iff map_of_eq_None_iff split: option.splits)
  have "card (set (keys d)) = length d" using assms(2) distinct_card [of "keys d"] by simp
  moreover have "card (set (keys e)) \<le> length e" using card_length [of "keys e"] by simp
  ultimately have "set (keys d) = set (keys e)"
    using len sub card_subset_eq [of "set (keys e)" "set (keys d)"] card_mono [of "set (keys e)" "set (keys d)"] by simp
  then show ?thesis using assms(3) by simp
qed

lemma action_contract_approval:
  assumes "validate_action_contract h op path locators = Inr ()" and "mutating_action (op_action op)"
    and "wf_json (nullable (op_approval op))"
  shows "\<exists>approval l. op_approval op = Some (JObj approval) \<and> l \<in> set locators \<and>
    dget approval ''locator'' = Some (JStr l) \<and>
    dget approval ''payload_sha256'' =
      Some (JStr (canonical_sha256 (h_sha256 h) (JObj (mutation_approval_projection op))))"
proof -
  have "approval_checks h op path locators = Inr ()"
    using assms(1,2) unfolding validate_action_contract_def Let_def checks_iff by simp
  from approval_checks_ok [OF this] obtain d l where d: "op_approval op = Some (JObj d)"
    and l: "l \<in> set locators" "dget d ''locator'' = Some (JStr l)"
    and eq: "py_eq (JObj d) (build_mutation_approval h op l)" by blast
  obtain e where e: "build_mutation_approval h op l = JObj e"
    and sha: "map_of e ''payload_sha256'' = Some (JStr (canonical_sha256 (h_sha256 h)
      (JObj (mutation_approval_projection op))))"
    by (simp add: build_mutation_approval_def)
  have "distinct (keys d)" using assms(3) by (simp add: d nullable_def)
  moreover have "''payload_sha256'' \<in> set (keys e)"
    using sha map_of_in_keys [of "''payload_sha256''" e] by blast
  ultimately have "''payload_sha256'' \<in> set (keys d)"
    using py_eq_keys [of d e] eq e by simp
  then obtain v where v: "map_of d ''payload_sha256'' = Some v"
    using map_of_in_keys [of _ d] by blast
  obtain w where w: "map_of e ''payload_sha256'' = Some w" "py_eq v w"
    using py_eq_field [OF eq [unfolded e] v] by blast
  have "v = w" using w sha by (cases v) (auto split: json.splits)
  then show ?thesis using d l v w sha by (auto simp: dget_def)
qed

lemma action_contract_delta:
  assumes "validate_action_contract h op path locators = Inr ()" and "delta_action (op_action op)"
  shows "non_empty_text (op_object_id op)" and "non_empty_object (op_pre_change op)"
  using assms unfolding validate_action_contract_def Let_def checks_iff by auto

lemma action_contract_intended:
  assumes "validate_action_contract h op path locators = Inr ()" and "op_action op \<noteq> Remove"
  shows "non_empty_object (op_intended op)"
  using assms unfolding validate_action_contract_def Let_def checks_iff
  by (cases "op_action op") (auto simp: written_def mutating_action_def delta_action_def)

end
