(* ===== verification/Readiness.thy ===== *)
theory Readiness
  imports Graph Resources
begin

text \<open>
  \<^verbatim>\<open>runtime/readiness.py\<close>: which operations may run. An operation is blocked by
  unresolved fields, an incomplete baseline, an unauthenticated target or the failure of
  something it depends on; it waits while a dependency can still be verified. Rows of the
  open sections were validated against the schema: their named fields are texts.
\<close>

section \<open>Field blockers\<close>

definition index_ops :: "operation list \<Rightarrow> (string \<times> operation) list" where
  "index_ops ops = fold (\<lambda>op m. AList.update (op_id op) op m) ops []"

definition field_text :: "dict \<Rightarrow> string \<Rightarrow> string res" where
  "field_text d k = (case dget d k of
     Some (JStr s) \<Rightarrow> Inr s | Some _ \<Rightarrow> Inl (OtherError k) | None \<Rightarrow> Inl (KeyError k))"

definition field_list :: "dict \<Rightarrow> string \<Rightarrow> json list res" where
  "field_list d k = (case dget d k of
     Some (JArr xs) \<Rightarrow> Inr xs | Some _ \<Rightarrow> Inl (OtherError k) | None \<Rightarrow> Inl (KeyError k))"

text \<open>One unresolved field: its requirement, the operation that owns it, and the reason.\<close>

type_synonym field_bind = "string \<times> string \<times> string"

definition bind_field ::
  "(string \<times> operation) list \<Rightarrow> string \<Rightarrow> string \<Rightarrow> string \<Rightarrow> field_bind res" where
  "bind_field ops requirement owner_key reason =
     (case map_of (rev (map (\<lambda>(k, op). (op_key op, k)) ops)) owner_key of
        None \<Rightarrow> Inl (KeyError owner_key)
      | Some k \<Rightarrow> Inr (requirement, k, reason))"

definition mapping_binds :: "(string \<times> operation) list \<Rightarrow> json \<Rightarrow> field_bind list res" where
  "mapping_binds ops row =
     (let r = dict_of row in
      bindE (field_text r ''status'') (\<lambda>status.
      if status \<in> {''pending'', ''blocked''} then
        bindE (field_text r ''requirement_id'') (\<lambda>req.
        bindE (field_text r ''owner_object_key'') (\<lambda>owner.
        bindE (field_text r ''field_scope'') (\<lambda>scope.
        bindE (field_text r ''destination_field'') (\<lambda>field.
        bindE (bind_field ops req owner
            (req @ '': field '' @ scope @ ''::'' @ field @ '' is '' @ status))
          (\<lambda>b. Inr [b])))))
      else Inr []))"

definition flow_binds :: "(string \<times> operation) list \<Rightarrow> json \<Rightarrow> field_bind list res" where
  "flow_binds ops row =
     (let r = dict_of row in
      bindE (field_text r ''status'') (\<lambda>status.
      if status = ''proved'' then Inr []
      else bindE (field_list r ''requirement_ids'') (\<lambda>reqs.
        mapE (\<lambda>req.
          bindE (field_text r ''receiver_owner'') (\<lambda>owner.
          bindE (field_text r ''destination_field'') (\<lambda>field.
            bind_field ops (text_of req) owner
              (text_of req @ '': pipeline field '' @ field @ '' is '' @ status)))) reqs)))"

definition pipeline_binds :: "(string \<times> operation) list \<Rightarrow> json \<Rightarrow> field_bind list res" where
  "pipeline_binds ops pipeline =
     bindE (field_list (dict_of pipeline) ''field_flows'') (\<lambda>rows.
     bindE (mapE (flow_binds ops) rows) (\<lambda>bs. Inr (concat bs)))"

definition field_binds :: "document \<Rightarrow> (string \<times> operation) list \<Rightarrow> field_bind list res" where
  "field_binds d ops =
     bindE (mapE (mapping_binds ops) (d_mappings d)) (\<lambda>ms.
     bindE (mapE (pipeline_binds ops) (d_pipelines d)) (\<lambda>ps. Inr (concat ms @ concat ps)))"

definition op_demands :: "(string \<times> operation) list \<Rightarrow> demands" where
  "op_demands ops = map (\<lambda>(k, op). (k, op_dependencies op, op_requirements op)) ops"

text \<open>
  The reasons of an operation: those of the fields it owns, and, when every requirement it
  serves has an unresolved field, those of all these requirements.
\<close>

definition blocker_reasons :: "field_bind list \<Rightarrow> string set \<Rightarrow> string \<Rightarrow> string list" where
  "blocker_reasons binds served key =
     map (\<lambda>(r, k, reason). reason) (filter (\<lambda>(r, k, reason). k = key) binds) @
     (if served \<noteq> {} \<and> served \<subseteq> set (map fst binds)
      then map (\<lambda>(r, k, reason). reason) (filter (\<lambda>(r, k, reason). r \<in> served) binds) else [])"

definition field_blockers ::
  "document \<Rightarrow> (string \<times> operation) list \<Rightarrow> (string \<Rightarrow> string list) res" where
  "field_blockers d ops =
     bindE (field_binds d ops) (\<lambda>binds.
     bindE (served_requirements (op_demands ops)) (\<lambda>served.
       Inr (\<lambda>key. blocker_reasons binds (served key) key)))"

section \<open>Readiness\<close>

definition target_container :: "document \<Rightarrow> string \<Rightarrow> container res" where
  "target_container d t =
     (case find (\<lambda>x. tg_id x = t) (run_targets (d_run d)) of
        None \<Rightarrow> Inl (OtherError ''StopIteration'')
      | Some x \<Rightarrow> Inr (container_type (tg_identity x)))"

definition baseline_missing :: "document \<Rightarrow> (string \<times> operation) list \<Rightarrow> baseline \<Rightarrow> bool res" where
  "baseline_missing d ops b =
     (if \<not> bl_complete b then Inr True
      else bindE (target_container d (bl_target b)) (\<lambda>c.
        Inr (\<not> list_all (\<lambda>f. f \<in> set (bl_families b))
          (required_baseline_families (filter (\<lambda>op. op_target op = bl_target b) (map snd ops)) c))))"

definition missing_baselines :: "document \<Rightarrow> (string \<times> operation) list \<Rightarrow> string list res" where
  "missing_baselines d ops =
     bindE (mapE (baseline_missing d ops) (d_baselines d)) (\<lambda>flags.
       Inr (map (\<lambda>(b, m). bl_target b) (filter snd (zip (d_baselines d) flags))))"

definition journal_error_text :: "journal_entry \<Rightarrow> string" where
  "journal_error_text e = (case je_error e of None \<Rightarrow> [] | Some v \<Rightarrow> py_str v)"

definition authentication_failed :: "operation \<Rightarrow> bool" where
  "authentication_failed op =
     (op_state op \<in> {Failed, Uncertain} \<and> op_journal op \<noteq> [] \<and>
      starts_with (journal_error_text (last (op_journal op))) ''authentication_required:'')"

record readiness =
  rd_blocked :: "string list"
  rd_waiting :: "string list"

type_synonym reasons = "(string \<times> string) list"

definition dependency_reasons ::
  "(string \<times> operation) list \<Rightarrow> (string \<Rightarrow> reasons) \<Rightarrow> string \<Rightarrow> reasons res" where
  "dependency_reasons ops origins dep =
     (case map_of ops dep of
        None \<Rightarrow> Inl (KeyError dep)
      | Some dop \<Rightarrow>
          if op_state dop = Verified then Inr []
          else Inr (origins dep @
            (if op_state dop \<in> {Failed, Uncertain, Skipped}
             then [(dep, ''operation is '' @ state_name (op_state dop))] else [])))"

definition own_reasons ::
  "(string \<Rightarrow> string list) \<Rightarrow> string list \<Rightarrow> string list \<Rightarrow> string \<Rightarrow> operation \<Rightarrow> reasons" where
  "own_reasons blockers missing unauthenticated key op =
     map (\<lambda>reason. (key, reason)) (blockers key) @
     (if op_target op \<in> set missing then [(key, ''complete target baseline required'')] else []) @
     (if op_target op \<in> set unauthenticated
      then [(key, ''target authentication requires revalidation'')] else [])"

definition unverified_dependencies :: "(string \<times> operation) list \<Rightarrow> operation \<Rightarrow> string list" where
  "unverified_dependencies ops op =
     filter (\<lambda>dep. case map_of ops dep of None \<Rightarrow> True | Some dop \<Rightarrow> op_state dop \<noteq> Verified)
       (op_dependencies op)"

definition reason_text :: "string \<times> string \<Rightarrow> string" where
  "reason_text r = fst r @ '': '' @ snd r"

definition readiness_step ::
  "(string \<times> operation) list \<Rightarrow> (string \<Rightarrow> operation \<Rightarrow> reasons) \<Rightarrow>
   (string \<Rightarrow> reasons) \<times> (string \<times> readiness) list \<Rightarrow> string \<Rightarrow>
   ((string \<Rightarrow> reasons) \<times> (string \<times> readiness) list) res" where
  "readiness_step ops own acc key =
     (case map_of ops key of
        None \<Rightarrow> Inl (KeyError key)
      | Some op \<Rightarrow>
          bindE (mapE (dependency_reasons ops (fst acc)) (op_dependencies op)) (\<lambda>inherited.
            (let reasons = remdups (own key op @ concat inherited) in
             Inr ((fst acc)(key := reasons),
               snd acc @ [(key, \<lparr>rd_blocked = sort (map reason_text reasons),
                 rd_waiting = (if reasons = [] then sort (unverified_dependencies ops op) else [])\<rparr>)]))))"

definition operation_readiness :: "document \<Rightarrow> (string \<times> readiness) list res" where
  "operation_readiness d =
     (let ops = index_ops (d_operations d) in
      bindE (static_order (map (\<lambda>(k, op). (k, op_dependencies op)) ops)) (\<lambda>order.
      bindE (field_blockers d ops) (\<lambda>blockers.
      bindE (missing_baselines d ops) (\<lambda>missing.
      bindE (foldE (readiness_step ops (own_reasons blockers missing
                (map op_target (filter authentication_failed (map snd ops)))))
              (\<lambda>_. [], []) order) (\<lambda>acc. Inr (snd acc))))))"

text \<open>The row the code reads as \<open>operation_readiness(value)[operation_id]\<close>.\<close>

definition readiness_of :: "document \<Rightarrow> string \<Rightarrow> readiness res" where
  "readiness_of d k = bindE (operation_readiness d) (\<lambda>rows.
     (case map_of rows k of None \<Rightarrow> Inl (KeyError k) | Some r \<Rightarrow> Inr r))"

section \<open>Indexing\<close>

lemma find_snoc: "find P (xs @ [x]) =
    (case find P xs of None \<Rightarrow> if P x then Some x else None | Some y \<Rightarrow> Some y)"
  by (induction xs) auto

lemma find_SomeD: "find P xs = Some x \<Longrightarrow> P x \<and> x \<in> set xs"
  by (auto simp: find_Some_iff)

lemma index_ops_map_of:
  "map_of (fold (\<lambda>op m. AList.update (op_id op) op m) ops m) k =
     (case find (\<lambda>op. op_id op = k) (rev ops) of None \<Rightarrow> map_of m k | Some op \<Rightarrow> Some op)"
proof (induction ops arbitrary: m)
  case (Cons op ops)
  show ?case by (auto simp: Cons.IH find_snoc update_conv' split: option.split)
qed simp

lemma distinct_index_ops [simp]: "distinct (keys (index_ops ops))"
proof -
  have "distinct (keys m) \<Longrightarrow> distinct (keys (fold (\<lambda>op m. AList.update (op_id op) op m) ops m))" for m
    by (induction ops arbitrary: m) (simp_all add: distinct_update)
  then show ?thesis by (simp add: index_ops_def)
qed

lemma index_ops_id: "map_of (index_ops ops) k = Some op \<Longrightarrow> op \<in> set ops \<and> op_id op = k"
  by (auto simp: index_ops_def index_ops_map_of split: option.splits dest: find_SomeD)

lemma index_ops_member:
  "distinct (map op_id ops) \<Longrightarrow> op \<in> set ops \<Longrightarrow> map_of (index_ops ops) (op_id op) = Some op"
proof -
  assume d: "distinct (map op_id ops)" and op: "op \<in> set ops"
  then have "find (\<lambda>x. op_id x = op_id op) (rev ops) \<noteq> None"
    by (auto simp: find_None_iff)
  then obtain x where x: "find (\<lambda>x. op_id x = op_id op) (rev ops) = Some x" by blast
  then have "x \<in> set ops" "op_id x = op_id op" using find_SomeD by fastforce+
  then have "x = op" using d op by (metis distinct_map inj_onD)
  then show ?thesis using x by (simp add: index_ops_def index_ops_map_of)
qed

section \<open>What blocks an operation\<close>

definition failure_reason :: "(string \<times> operation) list \<Rightarrow> string \<Rightarrow> (string \<times> string) set" where
  "failure_reason ops dep = (case map_of ops dep of None \<Rightarrow> {} | Some dop \<Rightarrow>
     if op_state dop \<in> {Failed, Uncertain, Skipped}
     then {(dep, ''operation is '' @ state_name (op_state dop))} else {})"

text \<open>\<open>(dep, k)\<close>: operation \<open>k\<close> depends on \<open>dep\<close>, which is not verified.\<close>

definition waits_for :: "(string \<times> operation) list \<Rightarrow> (string \<times> string) set" where
  "waits_for ops = {(dep, k). \<exists>op dop. map_of ops k = Some op \<and> dep \<in> set (op_dependencies op) \<and>
     map_of ops dep = Some dop \<and> op_state dop \<noteq> Verified}"

definition op_graph :: "(string \<times> operation) list \<Rightarrow> graph" where
  "op_graph ops = map (\<lambda>(k, op). (k, op_dependencies op)) ops"

lemma preds_op_graph: "preds (op_graph ops) k =
    (case map_of ops k of None \<Rightarrow> [] | Some op \<Rightarrow> op_dependencies op)"
  by (induction ops) (auto simp: op_graph_def preds_def)

lemma keys_op_graph [simp]: "keys (op_graph ops) = keys ops"
  by (simp add: op_graph_def comp_def case_prod_beta)

definition reasons_closed ::
  "(string \<times> operation) list \<Rightarrow> (string \<Rightarrow> operation \<Rightarrow> reasons) \<Rightarrow> (string \<Rightarrow> reasons) \<Rightarrow> string \<Rightarrow> bool" where
  "reasons_closed ops own orig k \<longleftrightarrow> (\<exists>op. map_of ops k = Some op \<and>
     (\<forall>dep \<in> set (op_dependencies op). map_of ops dep \<noteq> None) \<and>
     set (orig k) = set (own k op) \<union>
       (\<Union>dep \<in> {dep. (dep, k) \<in> waits_for ops}. set (orig dep) \<union> failure_reason ops dep))"

definition row_of :: "(string \<times> operation) list \<Rightarrow> (string \<Rightarrow> reasons) \<Rightarrow> string \<Rightarrow> readiness" where
  "row_of ops orig k = \<lparr>rd_blocked = sort (map reason_text (orig k)),
     rd_waiting = (if orig k = [] then sort (case map_of ops k of None \<Rightarrow> []
        | Some op \<Rightarrow> unverified_dependencies ops op) else [])\<rparr>"

lemma dependency_reasons_set:
  assumes "dependency_reasons ops orig dep = Inr rs"
  shows "map_of ops dep \<noteq> None" and "set rs = (if (\<exists>dop. map_of ops dep = Some dop \<and> op_state dop \<noteq> Verified)
     then set (orig dep) \<union> failure_reason ops dep else {})"
  using assms
  by (auto simp: dependency_reasons_def failure_reason_def split: option.splits if_splits)

lemma readiness_step_reasons:
  assumes "readiness_step ops own (orig, rows) key = Inr (orig', rows')"
    and "key \<notin> set (preds (op_graph ops) key)"
  shows "reasons_closed ops own orig' key" and "orig' = orig(key := orig' key)"
    and "rows' = rows @ [(key, row_of ops orig' key)]"
proof -
  obtain op where op: "map_of ops key = Some op"
    using assms(1) by (cases "map_of ops key") (simp_all add: readiness_step_def)
  obtain inherited where inh: "mapE (dependency_reasons ops orig) (op_dependencies op) = Inr inherited"
    using assms(1) by (cases "mapE (dependency_reasons ops orig) (op_dependencies op)")
      (simp_all add: readiness_step_def op)
  have step: "readiness_step ops own (orig, rows) key = Inr (orig(key := remdups (own key op @ concat inherited)),
      rows @ [(key, row_of ops (orig(key := remdups (own key op @ concat inherited))) key)])"
    by (simp only: readiness_step_def op inh Let_def row_of_def option.case bindE_simps
      fst_conv snd_conv fun_upd_same)
  have "orig(key := remdups (own key op @ concat inherited)) = orig' \<and>
      rows @ [(key, row_of ops (orig(key := remdups (own key op @ concat inherited))) key)] = rows'"
    using assms(1) by (metis step sum.inject(2) prod.inject)
  then have out: "orig' = orig(key := remdups (own key op @ concat inherited))"
      "rows' = rows @ [(key, row_of ops orig' key)]" by blast+
  have all: "list_all2 (\<lambda>dep rs. dependency_reasons ops orig dep = Inr rs) (op_dependencies op) inherited"
    using inh unfolding mapE_Inr_iff .
  have deps: "dep \<noteq> key" if "dep \<in> set (op_dependencies op)" for dep
    using assms(2) that by (auto simp: preds_op_graph op)
  have known: "\<forall>dep \<in> set (op_dependencies op). map_of ops dep \<noteq> None"
    using all by (induction rule: list_all2_induct) 
      (simp, simp add: dependency_reasons_set(1) del: not_None_eq)
  have "set (concat inherited) = (\<Union>dep \<in> set (op_dependencies op).
      if (\<exists>dop. map_of ops dep = Some dop \<and> op_state dop \<noteq> Verified)
      then set (orig dep) \<union> failure_reason ops dep else {})"
    using all by (induction rule: list_all2_induct) (auto simp: dependency_reasons_set(2))
  also have "\<dots> = (\<Union>dep \<in> {dep. (dep, key) \<in> waits_for ops}. set (orig dep) \<union> failure_reason ops dep)"
    by (auto simp: waits_for_def op split: if_splits)
  also have "\<dots> = (\<Union>dep \<in> {dep. (dep, key) \<in> waits_for ops}. set (orig' dep) \<union> failure_reason ops dep)"
    using deps by (intro SUP_cong) (auto simp: waits_for_def op out(1))
  finally show "reasons_closed ops own orig' key"
    using known by (simp add: reasons_closed_def op out(1))
  show "orig' = orig(key := orig' key)" by (simp add: out(1))
  show "rows' = rows @ [(key, row_of ops orig' key)]" by (rule out(2))
qed

lemma reasons_closed_cong:
  assumes "reasons_closed ops own orig k" and "orig' k = orig k"
    and "\<And>dep. dep \<in> set (preds (op_graph ops) k) \<Longrightarrow> orig' dep = orig dep"
  shows "reasons_closed ops own orig' k"
proof -
  have "(\<Union>dep \<in> {dep. (dep, k) \<in> waits_for ops}. set (orig' dep) \<union> failure_reason ops dep) =
    (\<Union>dep \<in> {dep. (dep, k) \<in> waits_for ops}. set (orig dep) \<union> failure_reason ops dep)"
    using assms(3) by (intro SUP_cong) (auto simp: waits_for_def preds_op_graph)
  then show ?thesis using assms(1,2) by (simp add: reasons_closed_def)
qed

lemma closed_order_pred:
  assumes "closed_order g (pre @ k # post)" and "distinct (pre @ k # post)" and "p \<in> set (preds g k)"
  shows "p \<in> set pre" and "p \<noteq> k"
proof -
  have "set (preds g ((pre @ k # post) ! length pre)) \<subseteq> set (take (length pre) (pre @ k # post))"
    using assms(1) unfolding closed_order_def by (metis add_Suc_right length_Cons length_append less_add_Suc1)
  then show "p \<in> set pre" using assms(3) by auto
  then show "p \<noteq> k" using assms(2) by auto
qed

lemma readiness_fold:
  "foldE (readiness_step ops own) (orig, rows) ks = Inr (orig', rows') \<Longrightarrow>
   distinct (pre @ ks) \<Longrightarrow> closed_order (op_graph ops) (pre @ ks) \<Longrightarrow>
   (\<And>k. k \<in> set pre \<Longrightarrow> reasons_closed ops own orig k) \<Longrightarrow>
   rows = map (\<lambda>k. (k, row_of ops orig k)) pre \<Longrightarrow>
   (\<forall>k \<in> set (pre @ ks). reasons_closed ops own orig' k) \<and>
   rows' = map (\<lambda>k. (k, row_of ops orig' k)) (pre @ ks)"
proof (induction ks arbitrary: pre orig rows)
  case (Cons key ks)
  obtain orig1 rows1 where step: "readiness_step ops own (orig, rows) key = Inr (orig1, rows1)"
    and rest: "foldE (readiness_step ops own) (orig1, rows1) ks = Inr (orig', rows')"
    using Cons.prems(1) unfolding foldE_Cons_Inr by auto
  have self: "key \<notin> set (preds (op_graph ops) key)"
    using closed_order_pred(2) [OF Cons.prems(3,2)] by blast
  note new = readiness_step_reasons [OF step self]
  have same: "orig1 k = orig k" if "k \<in> set pre" for k
    using new(2) that Cons.prems(2) by (metis disjoint_iff distinct_append fun_upd_apply list.set_intros(1))
  have in_pre: "dep \<in> set pre" if k: "k \<in> set pre" and dep: "dep \<in> set (preds (op_graph ops) k)" for k dep
  proof -
    obtain a b where ab: "pre = a @ k # b" using k by (auto simp: in_set_conv_decomp)
    have "closed_order (op_graph ops) (a @ k # (b @ key # ks))" "distinct (a @ k # (b @ key # ks))"
      using Cons.prems(2,3) by (simp_all add: ab)
    from closed_order_pred(1) [OF this dep] show ?thesis by (simp add: ab)
  qed
  have closed: "reasons_closed ops own orig1 k" if k: "k \<in> set pre" for k
    using reasons_closed_cong [OF Cons.prems(4) [OF k], of orig1] same k in_pre by blast
  have rows1: "rows1 = map (\<lambda>k. (k, row_of ops orig1 k)) (pre @ [key])"
    using Cons.prems(5) new(3) same by (simp add: row_of_def)
  have "(\<forall>k \<in> set ((pre @ [key]) @ ks). reasons_closed ops own orig' k) \<and>
      rows' = map (\<lambda>k. (k, row_of ops orig' k)) ((pre @ [key]) @ ks)"
    using Cons.prems(2,3) closed new(1) rows1 by (intro Cons.IH [OF rest]) auto
  then show ?case by simp
qed simp

lemma rtrancl_last_step: "(j, k) \<in> r\<^sup>* \<longleftrightarrow> j = k \<or> (\<exists>d. (j, d) \<in> r\<^sup>* \<and> (d, k) \<in> r)"
  by (auto elim: rtranclE intro: rtrancl_into_rtrancl)

lemma Nil_iff_no_member: "xs = [] \<longleftrightarrow> (\<forall>r. r \<notin> set xs)"
  by (cases xs) auto

lemma empty_iff_no_member: "A = {} \<longleftrightarrow> (\<forall>r. r \<notin> A)"
  by blast

lemma sort_eq_Nil [simp]: "sort xs = [] \<longleftrightarrow> xs = []" "[] = sort xs \<longleftrightarrow> xs = []"
  by (metis length_0_conv length_sort)+

lemma no_member_cong:
  "(\<forall>r. \<not> (\<exists>j x. A j \<and> B j x \<and> (P r j x \<or> (\<exists>e. C e j \<and> Q r e)))) \<longleftrightarrow>
   (\<forall>j x. A j \<longrightarrow> B j x \<longrightarrow> (\<forall>r. \<not> P r j x) \<and> (\<forall>e. C e j \<longrightarrow> (\<forall>r. \<not> Q r e)))"
  by blast

text \<open>The reasons are those of every operation waited for, directly or through others.\<close>

lemma reasons_transitive:
  assumes closed: "\<And>k. k \<in> set order \<Longrightarrow> reasons_closed ops own orig k"
    and order: "set order = set (nodes (op_graph ops))" "closed_order (op_graph ops) order" "distinct order"
    and k: "k \<in> set order"
  shows "r \<in> set (orig k) \<longleftrightarrow> (\<exists>j op. (j, k) \<in> (waits_for ops)\<^sup>* \<and> map_of ops j = Some op \<and>
    (r \<in> set (own j op) \<or> (\<exists>dep. (dep, j) \<in> waits_for ops \<and> r \<in> failure_reason ops dep)))"
  using k
proof (induction k rule: measure_induct_rule [where f = "position order"])
  case (less k)
  obtain op where op: "map_of ops k = Some op"
    and eq: "set (orig k) = set (own k op) \<union>
       (\<Union>dep \<in> {dep. (dep, k) \<in> waits_for ops}. set (orig dep) \<union> failure_reason ops dep)"
    using closed [OF less.prems] by (auto simp: reasons_closed_def)
  have dep: "position order dep < position order k \<and> dep \<in> set order" if "(dep, k) \<in> waits_for ops" for dep
  proof -
    have "dep \<in> set (preds (op_graph ops) k)" using that by (auto simp: waits_for_def preds_op_graph)
    from closed_order_position [OF order(2,3) this less.prems] show ?thesis by blast
  qed
  have split: "(\<exists>j op. (j, k) \<in> (waits_for ops)\<^sup>* \<and> map_of ops j = Some op \<and> Q j op) \<longleftrightarrow>
      Q k op \<or> (\<exists>dep. (dep, k) \<in> waits_for ops \<and>
        (\<exists>j op. (j, dep) \<in> (waits_for ops)\<^sup>* \<and> map_of ops j = Some op \<and> Q j op))" for Q
    unfolding rtrancl_last_step [of _ k] using op by (auto; blast)
  have "r \<in> set (orig k) \<longleftrightarrow> r \<in> set (own k op) \<or>
      (\<exists>dep. (dep, k) \<in> waits_for ops \<and> (r \<in> set (orig dep) \<or> r \<in> failure_reason ops dep))"
    unfolding eq by blast
  also have "\<dots> \<longleftrightarrow> (r \<in> set (own k op) \<or> (\<exists>dep. (dep, k) \<in> waits_for ops \<and> r \<in> failure_reason ops dep)) \<or>
      (\<exists>dep. (dep, k) \<in> waits_for ops \<and> r \<in> set (orig dep))" by blast
  also have "\<dots> \<longleftrightarrow> (\<exists>j op. (j, k) \<in> (waits_for ops)\<^sup>* \<and> map_of ops j = Some op \<and>
    (r \<in> set (own j op) \<or> (\<exists>dep. (dep, j) \<in> waits_for ops \<and> r \<in> failure_reason ops dep)))"
    unfolding split using less.IH dep by blast
  finally show ?case .
qed

definition own_cause :: "document \<Rightarrow> string \<Rightarrow> operation \<Rightarrow> reasons" where
  "own_cause d k op =
     (case (field_blockers d (index_ops (d_operations d)), missing_baselines d (index_ops (d_operations d))) of
        (Inr blockers, Inr missing) \<Rightarrow> own_reasons blockers missing
          (map op_target (filter authentication_failed (map snd (index_ops (d_operations d))))) k op
      | _ \<Rightarrow> [])"

lemma readiness_rows:
  assumes "operation_readiness d = Inr rows"
  shows "\<exists>orig order. rows = map (\<lambda>k. (k, row_of (index_ops (d_operations d)) orig k)) order \<and>
    (\<forall>k \<in> set order. reasons_closed (index_ops (d_operations d)) (own_cause d) orig k) \<and>
    distinct order \<and> set order = set (nodes (op_graph (index_ops (d_operations d)))) \<and>
    closed_order (op_graph (index_ops (d_operations d))) order"
proof -
  let ?ops = "index_ops (d_operations d)"
  obtain order blockers missing orig where
      order: "static_order (op_graph ?ops) = Inr order"
    and b: "field_blockers d ?ops = Inr blockers" and m: "missing_baselines d ?ops = Inr missing"
    and fold: "foldE (readiness_step ?ops (own_reasons blockers missing
        (map op_target (filter authentication_failed (map snd ?ops))))) (\<lambda>_. [], []) order = Inr (orig, rows)"
    using assms by (auto simp: operation_readiness_def Let_def bindE_Inr_iff op_graph_def)
  have own: "own_reasons blockers missing
      (map op_target (filter authentication_failed (map snd ?ops))) = own_cause d"
    by (intro ext) (simp add: own_cause_def b m)
  have "distinct (keys (op_graph ?ops))" by simp
  note facts = static_order_facts [OF this order]
  from readiness_fold [OF fold [unfolded own], of "[]"] facts(1,3)
  have "(\<forall>k \<in> set order. reasons_closed ?ops (own_cause d) orig k) \<and>
    rows = map (\<lambda>k. (k, row_of ?ops orig k)) order" by simp
  then show ?thesis using facts by blast
qed

lemma readiness_row:
  assumes "operation_readiness d = Inr rows" and "map_of rows k = Some row"
  defines "ops \<equiv> index_ops (d_operations d)"
  shows "\<exists>op. map_of ops k = Some op \<and> (\<forall>dep \<in> set (op_dependencies op). map_of ops dep \<noteq> None) \<and>
    (rd_blocked row = [] \<longleftrightarrow> (\<forall>j jop. (j, k) \<in> (waits_for ops)\<^sup>* \<longrightarrow> map_of ops j = Some jop \<longrightarrow>
       own_cause d j jop = [] \<and> (\<forall>dep. (dep, j) \<in> waits_for ops \<longrightarrow> failure_reason ops dep = {}))) \<and>
    (rd_waiting row = (if rd_blocked row = [] then sort (unverified_dependencies ops op) else []))"
proof -
  obtain orig order where rows: "rows = map (\<lambda>k. (k, row_of ops orig k)) order"
    and closed: "\<And>k. k \<in> set order \<Longrightarrow> reasons_closed ops (own_cause d) orig k"
    and order: "distinct order" "set order = set (nodes (op_graph ops))" "closed_order (op_graph ops) order"
    using readiness_rows [OF assms(1)] unfolding ops_def by blast
  have k: "k \<in> set order" and row: "row = row_of ops orig k"
    using assms(2) by (auto simp: rows map_of_map_restrict restrict_map_def split: if_splits)
  obtain op where op: "map_of ops k = Some op" "\<forall>dep \<in> set (op_dependencies op). map_of ops dep \<noteq> None"
    using closed [OF k] by (auto simp: reasons_closed_def)
  have trans: "r \<in> set (orig k) \<longleftrightarrow> (\<exists>j op. (j, k) \<in> (waits_for ops)\<^sup>* \<and> map_of ops j = Some op \<and>
    (r \<in> set (own_cause d j op) \<or> (\<exists>dep. (dep, j) \<in> waits_for ops \<and> r \<in> failure_reason ops dep)))" for r
    by (rule reasons_transitive [OF closed order(2,3,1) k])
  have "orig k = [] \<longleftrightarrow> (\<forall>r. r \<notin> set (orig k))" by (rule Nil_iff_no_member)
  also have "\<dots> \<longleftrightarrow> (\<forall>j jop. (j, k) \<in> (waits_for ops)\<^sup>* \<longrightarrow> map_of ops j = Some jop \<longrightarrow>
       own_cause d j jop = [] \<and> (\<forall>dep. (dep, j) \<in> waits_for ops \<longrightarrow> failure_reason ops dep = {}))"
    unfolding trans Nil_iff_no_member empty_iff_no_member 
    by (rule no_member_cong [of "\<lambda>j. (j, k) \<in> (waits_for ops)\<^sup>*" "\<lambda>j x. map_of ops j = Some x"
      "\<lambda>r j x. r \<in> set (own_cause d j x)" "\<lambda>e j. (e, j) \<in> waits_for ops" "\<lambda>r e. r \<in> failure_reason ops e"])
  finally have "rd_blocked row = [] \<longleftrightarrow> (\<forall>j jop. (j, k) \<in> (waits_for ops)\<^sup>* \<longrightarrow> map_of ops j = Some jop \<longrightarrow>
       own_cause d j jop = [] \<and> (\<forall>dep. (dep, j) \<in> waits_for ops \<longrightarrow> failure_reason ops dep = {}))"
    by (simp add: row row_of_def)
  moreover have "rd_waiting row = (if rd_blocked row = [] then sort (unverified_dependencies ops op) else [])"
    by (simp add: row row_of_def op(1))
  ultimately show ?thesis using op by blast
qed

text \<open>A row without blockers and without waiting: every dependency is verified.\<close>

lemma readiness_clear:
  assumes "readiness_of d k = Inr row" and "rd_blocked row = []" and "rd_waiting row = []"
  shows "\<exists>op. map_of (index_ops (d_operations d)) k = Some op \<and> own_cause d k op = [] \<and>
    (\<forall>dep \<in> set (op_dependencies op). \<exists>dop. map_of (index_ops (d_operations d)) dep = Some dop \<and>
       op_state dop = Verified)"
proof -
  let ?ops = "index_ops (d_operations d)"
  obtain rows where rows: "operation_readiness d = Inr rows" "map_of rows k = Some row"
    using assms(1) by (auto simp: readiness_of_def bindE_Inr_iff split: option.splits)
  obtain op where op: "map_of ?ops k = Some op" "\<forall>dep \<in> set (op_dependencies op). map_of ?ops dep \<noteq> None"
    and clear: "\<forall>j jop. (j, k) \<in> (waits_for ?ops)\<^sup>* \<longrightarrow> map_of ?ops j = Some jop \<longrightarrow> own_cause d j jop = []"
    and waiting: "unverified_dependencies ?ops op = []"
    using readiness_row [OF rows] assms(2,3) by auto
  from waiting have "\<exists>dop. map_of ?ops dep = Some dop \<and> op_state dop = Verified"
    if "dep \<in> set (op_dependencies op)" for dep
    using that op(2) by (cases "map_of ?ops dep") (auto simp: unverified_dependencies_def filter_empty_conv)
  then show ?thesis using op(1) clear by blast
qed

lemma own_cause_baseline:
  assumes "own_cause d k op = []" and "operation_readiness d = Inr rows"
    and "b \<in> set (d_baselines d)" and "bl_target b = op_target op"
  shows "bl_complete b"
proof (rule ccontr)
  assume incomplete: "\<not> bl_complete b"
  let ?ops = "index_ops (d_operations d)"
  obtain blockers missing where b: "field_blockers d ?ops = Inr blockers"
    and m: "missing_baselines d ?ops = Inr missing"
    using assms(2) by (auto simp: operation_readiness_def Let_def bindE_Inr_iff)
  obtain flags where flags: "mapE (baseline_missing d ?ops) (d_baselines d) = Inr flags"
    and missing: "missing = map (\<lambda>(b, m). bl_target b) (filter snd (zip (d_baselines d) flags))"
    using m by (auto simp: missing_baselines_def bindE_Inr_iff)
  obtain i where i: "i < length (d_baselines d)" "d_baselines d ! i = b"
    using assms(3) by (meson in_set_conv_nth)
  have len: "length flags = length (d_baselines d)" using mapE_Inr_length [OF flags] by simp
  have "flags ! i"
    using flags i incomplete unfolding mapE_Inr_iff list_all2_conv_all_nth baseline_missing_def by fastforce
  then have "(b, True) \<in> set (zip (d_baselines d) flags)"
    using i len by (auto simp: set_zip)
  then have "op_target op \<in> set missing" unfolding missing assms(4) [symmetric] by force
  then show False using assms(1) by (simp add: own_cause_def b m own_reasons_def)
qed

end
