(* ===== verification/RunValidation.thy ===== *)
theory RunValidation
  imports Actions Verification Readiness
begin

text \<open>
  \<^verbatim>\<open>runtime/validation.py\<close>: the validation every run document passes when it is
  loaded and before it is saved. The record types already give the checks that a field is an
  object, an array or a member of a vocabulary; the others are written out in the code's order.
  The structural schema and the domain rules of web, server and pipeline documents are functions
  of the host (\<open>h_schema_error\<close>, \<open>h_domain\<close>).
\<close>

section \<open>Validation primitives\<close>

text \<open>\<^verbatim>\<open>core/validation.py\<close>: \<open>text\<close>, \<open>unique_texts\<close> and
  \<open>timestamp\<close> on fields whose type is text.\<close>

definition text_field :: "string \<Rightarrow> string \<Rightarrow> string res" where
  "text_field path s =
     (if blank s then Inl (run_error (path @ '' must be a non-empty string'')) else Inr (strip s))"

definition text_check :: "string \<Rightarrow> string \<Rightarrow> unit res" where
  "text_check path s = bindE (text_field path s) (\<lambda>_. Inr ())"

definition required_text :: "string \<Rightarrow> string option \<Rightarrow> unit res" where
  "required_text path v = (case v of
     None \<Rightarrow> Inl (run_error (path @ '' must be a non-empty string'')) | Some s \<Rightarrow> text_check path s)"

definition unique_texts :: "string \<Rightarrow> string list \<Rightarrow> string list res" where
  "unique_texts path xs = bindE (mapE (text_field (path @ ''[]'')) xs) (\<lambda>normalized.
     if distinct normalized then Inr normalized
     else Inl (run_error (path @ '' contains duplicate values'')))"

definition unique_check :: "string \<Rightarrow> string list \<Rightarrow> unit res" where
  "unique_check path xs = bindE (unique_texts path xs) (\<lambda>_. Inr ())"

text \<open>\<open>s.replace(''Z'', ''+00:00'')\<close>.\<close>

definition zulu :: "string \<Rightarrow> string" where
  "zulu s = concat (map (\<lambda>c. if c = CHR ''Z'' then ''+00:00'' else [c]) s)"

definition timestamp_instant :: "host \<Rightarrow> string \<Rightarrow> string \<Rightarrow> int res" where
  "timestamp_instant h path s = bindE (text_field path s) (\<lambda>t.
     (case h_instant h (zulu t) of
        None \<Rightarrow> Inl (run_error (path @ '' must be an ISO-8601 timestamp''))
      | Some None \<Rightarrow> Inl (run_error (path @ '' must include a timezone''))
      | Some (Some i) \<Rightarrow> Inr i))"

definition timestamp_check :: "host \<Rightarrow> string \<Rightarrow> string \<Rightarrow> unit res" where
  "timestamp_check h path s = bindE (timestamp_instant h path s) (\<lambda>_. Inr ())"

text \<open>Equality of two dictionaries.\<close>

definition dict_eq :: "(string \<times> 'a) list \<Rightarrow> (string \<times> 'a) list \<Rightarrow> bool" where
  "dict_eq a b = (set (keys a) = set (keys b) \<and> list_all (\<lambda>k. map_of a k = map_of b k) (keys a))"

text \<open>A \<^verbatim>\<open>ValueError\<close> raised by a check is reported as a validation error.\<close>

definition reported :: "(string \<Rightarrow> string) \<Rightarrow> 'a res \<Rightarrow> 'a res" where
  "reported message r = (case r of
     Inl e \<Rightarrow> Inl (if is_value_error e then run_error (message (exn_message e)) else e)
   | Inr a \<Rightarrow> Inr a)"

section \<open>Header\<close>

type_synonym target_types = "(string \<times> container) list"

definition target_step :: "target_types \<Rightarrow> nat \<times> target \<Rightarrow> target_types res" where
  "target_step seen it =
     (let t = snd it; path = index_path ''$.run.targets'' (fst it) in
      bindE (text_field (path @ ''.target_id'') (tg_id t)) (\<lambda>target_id.
      bindE (seqE
        [failE (target_id \<in> set (keys seen)) (run_error (''duplicate target_id '' @ py_repr target_id)),
         text_check (path @ ''.account_id'') (account_id (tg_identity t)),
         text_check (path @ ''.container_id'') (container_id (tg_identity t)),
         text_check (path @ ''.workspace_id'') (workspace_id (tg_identity t))])
      (\<lambda>_. Inr (seen @ [(target_id, container_type (tg_identity t))]))))"

definition mode_checks :: "run_mode \<Rightarrow> container set \<Rightarrow> unit res" where
  "mode_checks mode types = seqE
     [failE (mode = WebMode \<and> types \<noteq> {Web}) (run_error ''web mode requires only web targets''),
      failE (mode = ServerMode \<and> types \<noteq> {Server})
        (run_error ''server mode requires only server targets''),
      failE (mode = PipelineMode \<and> types \<noteq> {Web, Server})
        (run_error ''pipeline mode requires web and server targets'')]"

definition lineage_checks :: "revision list \<Rightarrow> string \<Rightarrow> unit res" where
  "lineage_checks revisions fingerprint = seqE
     [forE (zip revisions (tl revisions)) (\<lambda>(previous, following).
        failE (rv_fingerprint previous \<noteq> rv_previous following)
          (run_error ''run revision contract fingerprints form a continuous lineage'')),
      failE (revisions \<noteq> [] \<and> rv_fingerprint (last revisions) \<noteq> fingerprint)
        (run_error ''current contract fingerprint must close the run revision lineage'')]"

text \<open>The container type of every target, and the requirements of the contract.\<close>

definition validate_header :: "document \<Rightarrow> (target_types \<times> string list) res" where
  "validate_header d =
     (let r = d_run d; c = run_contract r; m = run_materialization r in
      bindE (seqE
        [failE (d_schema_version d \<noteq> schema_version)
           (run_error (''$.schema_version must be '' @ py_repr schema_version)),
         text_check ''$.run.id'' (run_id r),
         failE (run_publication_performed r \<or> run_version_created r)
           (run_error ''$.run.publication must prove no publish and no version creation''),
         text_check ''$.run.contract.schema_version'' (cr_schema_version c),
         text_check ''$.run.contract.source_locator'' (cr_source_locator c),
         text_check ''$.run.contract.fingerprint'' (cr_fingerprint c)]) (\<lambda>_.
      bindE (unique_texts ''$.run.contract.requirement_ids'' (cr_requirement_ids c)) (\<lambda>requirement_ids.
      bindE (seqE
        [text_check ''$.run.materialization.method'' (mt_method m),
         text_check ''$.run.materialization.contract_fingerprint'' (mt_contract_fingerprint m)]) (\<lambda>_.
      bindE (foldE target_step [] (enumerate 0 (run_targets r))) (\<lambda>types.
      bindE (seqE
        [failE (types = []) (run_error ''$.run.targets must not be empty''),
         mode_checks (run_header.run_mode r) (set (map snd types)),
         failE (set (keys (cr_requirement_fingerprints c)) \<noteq> set requirement_ids)
           (run_error ''requirement fingerprints cover the complete approved source scope''),
         lineage_checks (run_revisions r) (cr_fingerprint c)]) (\<lambda>_.
        Inr (types, requirement_ids)))))))"

section \<open>Requirements\<close>

definition requirement_step :: "string list \<Rightarrow> nat \<times> requirement \<Rightarrow> string list res" where
  "requirement_step found ir =
     (let r = snd ir; path = index_path ''$.requirements'' (fst ir) in
      bindE (text_field (path @ ''.id'') (rq_id r)) (\<lambda>requirement_id.
      bindE (seqE
        [failE (requirement_id \<in> set found)
           (run_error (''duplicate requirement id '' @ py_repr requirement_id)),
         unique_check (path @ ''.object_keys'') (rq_object_keys r),
         failE (rq_object_keys r = []) (run_error (path @
           ''.object_keys must bind every included requirement to implementation''))])
      (\<lambda>_. Inr (requirement_id # found))))"

definition validate_requirements :: "document \<Rightarrow> string list \<Rightarrow> unit res" where
  "validate_requirements d expected =
     bindE (foldE requirement_step [] (enumerate 0 (d_requirements d))) (\<lambda>found.
       failE (set found \<noteq> set expected)
         (run_error ''$.requirements IDs must equal $.run.contract.requirement_ids''))"

section \<open>Operations\<close>

definition requirement_locator :: "document \<Rightarrow> string \<Rightarrow> string res" where
  "requirement_locator d k =
     (case map_of (rev (map (\<lambda>r. (rq_id r, rq_source_locator r)) (d_requirements d))) k of
        None \<Rightarrow> Inl (KeyError k) | Some l \<Rightarrow> Inr l)"

definition state_checks :: "host \<Rightarrow> operation \<Rightarrow> string \<Rightarrow> unit res" where
  "state_checks h op path = (case op_state op of
     Verified \<Rightarrow> (case op_comparison op of
         Some (JObj c) \<Rightarrow> seqE
           [failE (dget c ''pass'' \<noteq> Some (JBool True))
              (run_error (path @ ''.comparison.pass must be true for verified'')),
            failE (op_saved_readback op = None)
              (run_error (path @ ''.saved_readback is required for verified'')),
            reported (\<lambda>m. path @ ''.comparison is not bound to saved readback: '' @ m)
              (validate_verification_comparison h op (JObj c) (nullable (op_saved_readback op)))]
       | _ \<Rightarrow> Inl (run_error (path @ ''.comparison must be an object'')))
   | Saved \<Rightarrow> failE (op_saved_readback op = None)
       (run_error (path @ ''.saved_readback is required for saved''))
   | _ \<Rightarrow> Inr ())"

definition pre_write_checks :: "host \<Rightarrow> operation \<Rightarrow> string \<Rightarrow> unit res" where
  "pre_write_checks h op path = (case (op_pre_write_comparison op, op_pre_write_readback op) of
     (None, None) \<Rightarrow> Inr ()
   | (Some comparison, Some readback) \<Rightarrow>
       bindE (build_pre_write_comparison h op readback) (\<lambda>rebuilt.
         failE (\<not> py_eq comparison (pw_json rebuilt) \<or> \<not> pw_pass rebuilt)
           (run_error (path @ ''.pre_write_comparison is not bound to pre-change readback'')))
   | _ \<Rightarrow> Inl (run_error (path @ '' needs both pre-write comparison and readback'')))"

definition operation_family :: "container \<Rightarrow> string \<Rightarrow> string \<Rightarrow> string res" where
  "operation_family c path family = (case validate_target_family c family of
     Inl (ResourceRegistryError m) \<Rightarrow> Inl (run_error (path @ '': '' @ m))
   | r \<Rightarrow> r)"

text \<open>One operation; \<open>seen\<close> holds those before it under their identifiers.\<close>

definition operation_checks ::
  "host \<Rightarrow> document \<Rightarrow> target_types \<Rightarrow> string list \<Rightarrow> (string \<times> operation) list \<Rightarrow>
   string \<Rightarrow> string \<Rightarrow> operation \<Rightarrow> unit res" where
  "operation_checks h d types requirement_ids seen path operation_id op =
     bindE (text_check (path @ ''.justification'') (op_justification op)) (\<lambda>_.
     bindE (failE (operation_id \<in> set (keys seen))
       (run_error (''duplicate operation_id '' @ py_repr operation_id))) (\<lambda>_.
     bindE (text_field (path @ ''.target_id'') (op_target op)) (\<lambda>target_id.
     (case map_of types target_id of
        None \<Rightarrow> Inl (run_error (path @ ''.target_id is unknown''))
      | Some c \<Rightarrow>
     bindE (failE (op_container op \<noteq> c)
       (run_error (path @ ''.container_type differs from its target''))) (\<lambda>_.
     bindE (text_field (path @ ''.resource_family'') (op_family op)) (\<lambda>raw_family.
     bindE (operation_family c path raw_family) (\<lambda>family.
     bindE (text_field (path @ ''.name'') (op_name op)) (\<lambda>name.
     bindE (semantic_object_key target_id family name) (\<lambda>expected_key.
     bindE (seqE
       [failE (op_key op \<noteq> expected_key)
          (run_error (path @ ''.object_key must equal '' @ py_repr expected_key)),
        failE (expected_key \<in> set (map (\<lambda>ko. op_key (snd ko)) seen))
          (run_error (''duplicate object_key '' @ py_repr expected_key)),
        failE (op_action op \<in> {Pause, Unpause} \<and> family \<noteq> ''tag'')
          (run_error (path @ ''.'' @ action_name (op_action op) @ '' is supported only for tag objects''))])
       (\<lambda>_.
     bindE (unique_texts (path @ ''.requirement_ids'') (op_requirements op)) (\<lambda>linked.
     bindE (failE (\<not> list_all (\<lambda>r. r \<in> set requirement_ids) linked)
       (run_error (path @ ''.requirement_ids contains unknown IDs''))) (\<lambda>_.
     bindE (whenE (mutating_action (op_action op)) (seqE
       [failE (linked = [])
          (run_error (path @ ''.requirement_ids must bind every mutation to approved scope'')),
        bindE (unique_texts (path @ ''.evidence'') (op_evidence op)) (\<lambda>evidence.
          failE (''approved-input'' \<notin> set evidence)
            (run_error (path @ ''.evidence needs '' @ py_repr ''approved-input'' @ '' mutation authority'')))]))
       (\<lambda>_.
     bindE (mapE (requirement_locator d) linked) (\<lambda>locators. seqE
       [validate_action_contract h op path locators,
        state_checks h op path,
        pre_write_checks h op path]))))))))))))))"

definition operation_step ::
  "host \<Rightarrow> document \<Rightarrow> target_types \<Rightarrow> string list \<Rightarrow> (string \<times> operation) list \<Rightarrow>
   nat \<times> operation \<Rightarrow> (string \<times> operation) list res" where
  "operation_step h d types requirement_ids seen iop =
     (let op = snd iop; path = index_path ''$.object_changes'' (fst iop) in
      bindE (text_field (path @ ''.operation_id'') (op_id op)) (\<lambda>operation_id.
      bindE (operation_checks h d types requirement_ids seen path operation_id op)
        (\<lambda>_. Inr (seen @ [(operation_id, op)]))))"

definition dependency_checks :: "(string \<times> operation) list \<Rightarrow> string \<times> operation \<Rightarrow> unit res" where
  "dependency_checks ops ko =
     bindE (unique_texts (''$.object_changes['' @ py_repr (fst ko) @ ''].dependencies'')
       (op_dependencies (snd ko))) (\<lambda>deps.
     forE deps (\<lambda>dependency. seqE
       [failE (dependency \<notin> set (keys ops)) (run_error (''operation '' @ py_repr (fst ko) @
          '' depends on unknown '' @ py_repr dependency)),
        failE (dependency = fst ko)
          (run_error (''operation '' @ py_repr (fst ko) @ '' cannot depend on itself''))]))"

definition validate_operations ::
  "host \<Rightarrow> document \<Rightarrow> target_types \<Rightarrow> string list \<Rightarrow> (string \<times> operation) list res" where
  "validate_operations h d types requirement_ids =
     bindE (foldE (operation_step h d types requirement_ids) [] (enumerate 0 (d_operations d))) (\<lambda>ops.
     bindE (seqE [forE ops (dependency_checks ops), reject_dependency_cycle (op_graph ops)])
       (\<lambda>_. Inr ops))"

section \<open>Target records\<close>

definition find_target :: "document \<Rightarrow> string \<Rightarrow> target res" where
  "find_target d t = (case find (\<lambda>x. tg_id x = t) (run_targets (d_run d)) of
     None \<Rightarrow> Inl (OtherError ''StopIteration'') | Some x \<Rightarrow> Inr x)"

text \<open>The semantic names of the resources of one family, as a baseline lists them.\<close>

definition named_resources :: "string \<Rightarrow> string \<Rightarrow> json list \<Rightarrow> string list" where
  "named_resources target family items = sort (map (\<lambda>item. target @ ''::'' @ family @ ''::'' @
       strip (text_of (get_or_null (dict_of item) ''name'')))
     (filter (\<lambda>item. nonblank_text (get_or_null (dict_of item) ''name'')) items))"

definition baseline_body :: "host \<Rightarrow> (string \<times> json list) list \<Rightarrow> json list option \<Rightarrow>
    capture_evidence option \<Rightarrow> (string \<times> capture_evidence) list \<Rightarrow> string" where
  "baseline_body h resources changes evidence supplemental = canonical_sha256 (h_sha256 h) (JObj
     [(''resources'', resources_json resources),
      (''workspace_changes'', nullable (map_option JArr changes)),
      (''capture_evidence'', nullable (map_option evidence_json evidence)),
      (''supplemental_captures'', supplemental_json supplemental)])"

definition family_checks :: "baseline \<Rightarrow> string \<Rightarrow> string \<times> string list \<Rightarrow> unit res" where
  "family_checks b path fv =
     (let family = fst fv in
      bindE (unique_check (path @ ''.resource_identities.'' @ family) (snd fv)) (\<lambda>_.
      (case map_of (bl_resources b) family of
         None \<Rightarrow> Inl (KeyError family)
       | Some items \<Rightarrow> seqE
           [failE (\<not> list_all is_dict items)
              (run_error (path @ ''.resources.'' @ family @ ''[] must be an object'')),
            failE (map_of (bl_counts b) family \<noteq> Some (length items))
              (run_error (path @ ''.family_counts.'' @ family @ '' differs from retained resources'')),
            failE (snd fv \<noteq> named_resources (bl_target b) family items)
              (run_error (path @ ''.resource_identities.'' @ family @
                '' differs from retained resources''))])))"

definition receipt_step ::
  "string \<Rightarrow> identity \<Rightarrow> string list \<Rightarrow> string \<times> capture_evidence \<Rightarrow> string list res" where
  "receipt_step path i covered extra =
     (let e = snd extra; added = keys (ce_pagination e) in
      bindE (seqE
        [failE (ce_identity e \<noteq> i)
           (run_error (path @ ''.supplemental capture source differs from the authorized target'')),
         failE (set covered \<inter> set added \<noteq> {})
           (run_error (path @ ''.captured resource families each retain one original receipt''))])
      (\<lambda>_. Inr (covered @ added)))"

definition capture_checks ::
  "host \<Rightarrow> document \<Rightarrow> target_types \<Rightarrow> baseline \<Rightarrow> string \<Rightarrow> capture_evidence \<Rightarrow> unit res" where
  "capture_checks h d types b path capture =
     bindE (find_target d (bl_target b)) (\<lambda>target.
     bindE (seqE
       [failE (ce_identity capture \<noteq> tg_identity target) (run_error (path @
          ''.capture_evidence.source_identity differs from the authorized target'')),
        failE (bl_fingerprint b \<noteq> Some (baseline_body h (bl_resources b) (bl_changes b)
            (Some capture) (bl_supplemental b)))
          (run_error (path @ ''.fingerprint differs from retained baseline evidence''))]) (\<lambda>_.
     bindE (foldE (receipt_step path (tg_identity target)) (keys (ce_pagination capture))
        (bl_supplemental b)) (\<lambda>covered. seqE
       [failE (set covered \<noteq> set (bl_families b))
          (run_error (path @ ''.capture receipts must cover exactly the retained families'')),
        whenE (run_execution_mode (d_run d) = RefonteDurable)
          (case map_of types (bl_target b) of
             None \<Rightarrow> Inl (KeyError (bl_target b))
           | Some c \<Rightarrow> failE (set (bl_families b) \<noteq> set (target_families c))
               (run_error (path @ '' refonte baseline does not cover the complete target surface'')))])))"

definition baseline_checks ::
  "host \<Rightarrow> document \<Rightarrow> target_types \<Rightarrow> nat \<times> baseline \<Rightarrow> unit res" where
  "baseline_checks h d types ib =
     (let b = snd ib; path = index_path ''$.container_baselines'' (fst ib) in seqE
      [failE (set (keys (bl_identities b)) \<noteq> set (bl_families b))
         (run_error (path @ ''.resource_identities must cover exactly the captured families'')),
       failE (set (keys (bl_resources b)) \<noteq> set (bl_families b))
         (run_error (path @ ''.resources must cover exactly the captured families'')),
       forE (bl_identities b) (family_checks b path),
       if bl_complete b then seqE
         [required_text (path @ ''.captured_at'') (bl_captured_at b),
          required_text (path @ ''.fingerprint'') (bl_fingerprint b),
          failE (bl_families b = [])
            (run_error (path @ ''.resource_families must not be empty when complete'')),
          failE (bl_changes b = None)
            (run_error (path @ ''.preexisting_workspace_changes is required when complete'')),
          (case bl_evidence b of
             None \<Rightarrow> Inl (run_error (path @ ''.capture_evidence must be an object''))
           | Some capture \<Rightarrow> capture_checks h d types b path capture)]
       else failE (bl_evidence b \<noteq> None)
         (run_error (path @ ''.capture_evidence must be null while incomplete''))])"

definition inventory_family_checks ::
  "container \<Rightarrow> target \<Rightarrow> string \<Rightarrow> string \<times> json list \<Rightarrow> unit res" where
  "inventory_family_checks c target path fv =
     bindE (validate_target_family c (fst fv)) (\<lambda>_.
     forE (snd fv) (\<lambda>item. (case item of
        JObj i \<Rightarrow> (case native_inventory_identity (fst fv) i (tg_identity target) of
            Inl (ResourceRegistryError m) \<Rightarrow> Inl (run_error (path @ ''.resources.'' @ fst fv @ '': '' @ m))
          | Inl e \<Rightarrow> Inl e
          | Inr _ \<Rightarrow> Inr ())
      | _ \<Rightarrow> Inl (run_error (path @ ''.resources.'' @ fst fv @ ''[] must be an object'')))))"

definition inventory_step ::
  "host \<Rightarrow> document \<Rightarrow> target_types \<Rightarrow> string list \<Rightarrow> nat \<times> final_inventory \<Rightarrow> string list res" where
  "inventory_step h d types seen ifi =
     (let f = snd ifi; path = index_path ''$.final_inventories'' (fst ifi) in
      (case map_of types (fi_target f) of
         None \<Rightarrow> Inl (run_error (path @ '' has an unknown or duplicate target''))
       | Some c \<Rightarrow>
      bindE (seqE
        [failE (fi_target f \<in> set seen) (run_error (path @ '' has an unknown or duplicate target'')),
         timestamp_check h (path @ ''.observed_at'') (fi_at f)]) (\<lambda>_.
      bindE (find_target d (fi_target f)) (\<lambda>target.
      bindE (seqE
        [failE (fi_identity f \<noteq> tg_identity target)
           (run_error (path @ ''.source_identity differs from the authorized target'')),
         failE (fi_resources f = [] \<or> set (keys (fi_resources f)) \<noteq> set (keys (fi_pagination f)))
           (run_error (path @ ''.resource_pagination must cover captured families'')),
         forE (fi_resources f) (inventory_family_checks c target path)])
        (\<lambda>_. Inr (fi_target f # seen))))))"

definition result_checks :: "host \<Rightarrow> document \<Rightarrow> nat \<times> target_result \<Rightarrow> unit res" where
  "result_checks h d ir =
     (let r = snd ir; path = index_path ''$.target_results'' (fst ir) in
      (case tr_baseline_error r of
         None \<Rightarrow> Inr ()
       | Some (time, error) \<Rightarrow> seqE
           [timestamp_check h (path @ ''.baseline_error.at'') time,
            text_check (path @ ''.baseline_error.error'') error,
            failE (list_ex (\<lambda>b. bl_target b = tr_target r \<and> bl_complete b) (d_baselines d))
              (run_error ''baseline_error requires an incomplete target baseline'')]))"

definition covers_targets :: "string list \<Rightarrow> target_types \<Rightarrow> bool" where
  "covers_targets ids types = (set ids = set (keys types) \<and> length ids = length types)"

definition validate_target_records :: "host \<Rightarrow> document \<Rightarrow> target_types \<Rightarrow> unit res" where
  "validate_target_records h d types = seqE
     [failE (\<not> covers_targets (map bl_target (d_baselines d)) types)
        (run_error ''$.container_baselines must contain exactly one record per target''),
      forE (enumerate 0 (d_baselines d)) (baseline_checks h d types),
      bindE (foldE (inventory_step h d types) [] (enumerate 0 (d_final_inventories d))) (\<lambda>_. Inr ()),
      failE (\<not> covers_targets (map tr_target (d_results d)) types)
        (run_error ''$.target_results must contain exactly one record per target''),
      forE (enumerate 0 (d_results d)) (result_checks h d)]"

section \<open>Convergence observations\<close>

definition verified_instants :: "host \<Rightarrow> string \<Rightarrow> operation \<Rightarrow> int list res" where
  "verified_instants h path op = mapE (\<lambda>e. timestamp_instant h (path @ ''.verified_at'') (je_at e))
     (filter (\<lambda>e. je_state e = Verified) (op_journal op))"

text \<open>\<open>max(...)\<close> of instants; \<open>max\<close> of nothing raises a \<^verbatim>\<open>ValueError\<close>.\<close>

definition latest :: "int list \<Rightarrow> int res" where
  "latest xs = (if xs = [] then Inl (ValueError ''max() iterable argument is empty'')
     else Inr (Max (set xs)))"

definition observed_after :: "host \<Rightarrow> string \<Rightarrow> operation \<Rightarrow> string \<Rightarrow> unit res" where
  "observed_after h path op time = reported
     (\<lambda>_. path @ ''.observed_at cannot be validated against verification'')
     (bindE (timestamp_instant h (path @ ''.observed_at'') time) (\<lambda>observed.
      bindE (verified_instants h path op) (\<lambda>instants.
      bindE (latest instants) (\<lambda>verified.
        failE (observed \<le> verified)
          (run_error (path @ ''.observed_at must be newer than operation verification''))))))"

definition observation_step ::
  "host \<Rightarrow> document \<Rightarrow> string list \<times> string list \<Rightarrow> nat \<times> observation \<Rightarrow>
   (string list \<times> string list) res" where
  "observation_step h d acc io =
     (let ob = snd io; path = index_path ''$.idempotency.observations'' (fst io) in
      (case map_of (index_ops (d_operations d)) (ob_operation ob) of
         None \<Rightarrow> Inl (run_error (path @ ''.operation_id is unknown or duplicated''))
       | Some op \<Rightarrow>
      bindE (seqE
        [failE (ob_operation ob \<in> set (fst acc))
           (run_error (path @ ''.operation_id is unknown or duplicated'')),
         failE (ob_target ob \<noteq> op_target op)
           (run_error (path @ ''.target_id differs from its operation'')),
         failE (ob_source ob \<noteq> ''target-adapter-read'')
           (run_error (path @ ''.source must be target-adapter-read''))]) (\<lambda>_.
      bindE (find_target d (op_target op)) (\<lambda>target.
      bindE (seqE
        [failE (ob_identity ob \<noteq> tg_identity target)
           (run_error (path @ ''.source_identity differs from the authorized target'')),
         observed_after h path op (ob_at ob),
         reported (\<lambda>m. path @ ''.comparison is invalid: '' @ m)
           (validate_verification_comparison h op (ob_comparison ob) (ob_saved ob)),
         failE (ob_decision ob \<noteq> (if truthy (get_or_null (dict_of (ob_comparison ob)) ''pass'')
             then ''no-op'' else ''mutation-required''))
           (run_error (path @ ''.decision differs from its comparison''))]) (\<lambda>_.
        Inr (fst acc @ [ob_operation ob],
          if truthy (get_or_null (dict_of (ob_comparison ob)) ''pass'') then snd acc
          else snd acc @ [ob_operation ob]))))))"

definition validate_idempotency :: "host \<Rightarrow> document \<Rightarrow> unit res" where
  "validate_idempotency h d =
     (let i = d_idempotency d in
      bindE (failE (\<not> distinct (id_remaining i))
        (run_error ''$.idempotency.remaining_actions must be a unique array'')) (\<lambda>_.
      bindE (foldE (observation_step h d) ([], []) (enumerate 0 (id_observations i)))
        (\<lambda>(observed, required). seqE
        [failE (set (id_remaining i) \<noteq> set required)
           (run_error ''$.idempotency.remaining_actions differs from convergence observations''),
         failE (id_checked i \<and>
             (set observed \<noteq> set (keys (index_ops (d_operations d))) \<or> required \<noteq> []))
           (run_error ''checked idempotency requires one no-op observation per operation'')])))"

section \<open>Materialization, publication and the configured status\<close>

definition validate_materialization :: "host \<Rightarrow> document \<Rightarrow> unit res" where
  "validate_materialization h d =
     (let m = run_materialization (d_run d); expected = materialization_fingerprints h d in seqE
      [failE (mt_method m \<noteq> materialization_method) (run_error ''unsupported materialization method''),
       failE (set (mt_owned_sections m) \<noteq> set (keys expected))
         (run_error ''$.run.materialization.owned_sections differs from the owned projection''),
       failE (\<not> dict_eq (mt_section_fingerprints m) expected)
         (run_error ''contract-owned run sections differ from deterministic materialization'')])"

text \<open>\<^verbatim>\<open>validate_publication_dependencies\<close> of \<^verbatim>\<open>domain/pipeline.py\<close>.\<close>

definition predecessors :: "string list \<Rightarrow> (string \<times> string option) list" where
  "predecessors order = zip order (None # map Some order)"

definition validate_publication_dependencies ::
  "publication_dependency list \<Rightarrow> run_mode \<Rightarrow> unit res" where
  "validate_publication_dependencies deps mode =
     (let order = publication_order mode;
          by_kind = rev (map (\<lambda>p. (pd_kind p, p)) deps) in seqE
      [failE (\<not> distinct (map pd_kind deps) \<or> set (map pd_kind deps) \<noteq> set order)
         (run_error (''$.publication_dependencies must contain exactly the required '' @
           ''acceptance/deployment steps'')),
       forE (predecessors order) (\<lambda>(kind, expected). (case map_of by_kind kind of
          None \<Rightarrow> Inl (KeyError kind)
        | Some p \<Rightarrow> failE (pd_depends_on p \<noteq> expected) (run_error (kind @ '' must depend on '' @
            (case expected of None \<Rightarrow> ''None'' | Some e \<Rightarrow> py_repr e) @
            ''; runtime acceptance precedes publication'')))),
       failE (list_ex pd_blocks_saved deps)
         (run_error ''publication dependencies cannot block saved configuration status'')])"

definition sensitive_paths :: "host \<Rightarrow> document \<Rightarrow> string list res" where
  "sensitive_paths h d =
     (let v = document_json d in
      bindE (public_identifier_paths h None v) (\<lambda>paths. Inr (map fst (h_findings h v paths))))"

definition configured_checks :: "document \<Rightarrow> unit res" where
  "configured_checks d = whenE (run_status (d_run d) = Configured) (seqE
     [failE (run_phase (d_run d) \<noteq> Complete \<or> list_ex (\<lambda>op. op_state op \<noteq> Verified) (d_operations d))
        (run_error ''Configured requires complete phase and every operation verified''),
      failE (list_ex (\<lambda>b. \<not> bl_complete b) (d_baselines d))
        (run_error ''Configured requires complete baselines''),
      failE (\<not> id_checked (d_idempotency d) \<or> id_remaining (d_idempotency d) \<noteq> [])
        (run_error ''Configured requires an identical-rerun no-op check'')])"

section \<open>The document\<close>

definition validate_document :: "host \<Rightarrow> document \<Rightarrow> unit res" where
  "validate_document h d =
     bindE (case h_schema_error h ''run'' (document_json d) of
         None \<Rightarrow> Inr () | Some m \<Rightarrow> Inl (run_error m)) (\<lambda>_.
     bindE (validate_header d) (\<lambda>(types, requirement_ids).
     bindE (validate_requirements d requirement_ids) (\<lambda>_.
     bindE (validate_operations h d types requirement_ids) (\<lambda>ops. seqE
       [validate_target_records h d types,
        validate_idempotency h d,
        validate_materialization h d,
        h_domain h ''server'' d,
        reported (\<lambda>m. m) (h_domain h ''pipeline'' d),
        validate_publication_dependencies (d_publication d) (run_header.run_mode (d_run d)),
        reported (\<lambda>m. m) (validate_public_identifiers h (document_json d)),
        bindE (sensitive_paths h d) (\<lambda>leaks. failE (leaks \<noteq> [])
           (run_error (''run contains literal secret or user data at: '' @ join '', '' leaks))),
        h_domain h ''web'' d,
        configured_checks d]))))"

section \<open>What a valid document guarantees\<close>

lemma text_field_Inr: "text_field path s = Inr t \<longleftrightarrow> \<not> blank s \<and> t = strip s"
  by (auto simp: text_field_def)

lemma reported_Inr [simp]: "reported f r = Inr a \<longleftrightarrow> r = Inr a"
  by (simp add: reported_def split: sum.split)

lemma keys_index_ops: "set (keys (index_ops ops)) = set (map op_id ops)"
proof -
  have one: "set (keys (AList.update k v m)) = insert k (set (keys m))" for k v and m :: "(string \<times> operation) list"
    unfolding update_keys by (simp add: insert_absorb)
  have "set (keys (fold (\<lambda>op m. AList.update (op_id op) op m) ops m)) = set (keys m) \<union> op_id ` set ops" for m
  proof (induction ops arbitrary: m)
    case (Cons op ops)
    show ?case unfolding fold_Cons comp_apply Cons.IH one by auto
  qed simp
  from this [of "[]"] show ?thesis by (simp add: index_ops_def)
qed

text \<open>What one accepted operation satisfies.\<close>

definition accepted :: "host \<Rightarrow> operation \<Rightarrow> bool" where
  "accepted h op \<longleftrightarrow> \<not> blank (op_id op) \<and>
     (\<exists>path locators. validate_action_contract h op path locators = Inr () \<and>
        state_checks h op path = Inr () \<and> pre_write_checks h op path = Inr ())"

lemma operation_checks_ok:
  assumes "operation_checks h d types reqs seen path k op = Inr ()"
  shows "k \<notin> set (keys seen)" and "op_key op \<notin> set (map (\<lambda>ko. op_key (snd ko)) seen)"
    and "\<exists>locators. validate_action_contract h op path locators = Inr () \<and>
        state_checks h op path = Inr () \<and> pre_write_checks h op path = Inr ()"
    and "map_of types (strip (op_target op)) = Some (op_container op)"
proof -
  obtain c where c: "map_of types (strip (op_target op)) = Some c"
    using assms by (cases "map_of types (strip (op_target op))")
      (auto simp: operation_checks_def bindE_Inr_iff text_field_Inr)
  show "k \<notin> set (keys seen)" "op_key op \<notin> set (map (\<lambda>ko. op_key (snd ko)) seen)"
    "\<exists>locators. validate_action_contract h op path locators = Inr () \<and>
        state_checks h op path = Inr () \<and> pre_write_checks h op path = Inr ()"
    "map_of types (strip (op_target op)) = Some (op_container op)"
    using assms
    by (auto simp: operation_checks_def c bindE_Inr_iff text_field_Inr checks_iff simp del: seqE.simps)
qed

lemma operation_step_Inr:
  assumes "operation_step h d types reqs seen iop = Inr ops"
  shows "ops = seen @ [(strip (op_id (snd iop)), snd iop)]" and "strip (op_id (snd iop)) \<notin> set (keys seen)"
    and "op_key (snd iop) \<notin> set (map (\<lambda>ko. op_key (snd ko)) seen)" and "accepted h (snd iop)"
proof -
  have k: "\<not> blank (op_id (snd iop))" "ops = seen @ [(strip (op_id (snd iop)), snd iop)]"
    and ok: "operation_checks h d types reqs seen (index_path ''$.object_changes'' (fst iop))
        (strip (op_id (snd iop))) (snd iop) = Inr ()"
    using assms by (auto simp: operation_step_def Let_def bindE_Inr_iff text_field_Inr)
  show "ops = seen @ [(strip (op_id (snd iop)), snd iop)]" by (rule k)
  show "strip (op_id (snd iop)) \<notin> set (keys seen)" by (rule operation_checks_ok(1) [OF ok])
  show "op_key (snd iop) \<notin> set (map (\<lambda>ko. op_key (snd ko)) seen)" by (rule operation_checks_ok(2) [OF ok])
  show "accepted h (snd iop)" using operation_checks_ok(3) [OF ok] k(1) by (auto simp: accepted_def)
qed

lemma operation_fold:
  "foldE (operation_step h d types reqs) seen (enumerate n xs) = Inr ops \<Longrightarrow>
   distinct (keys seen) \<Longrightarrow> distinct (map (\<lambda>ko. op_key (snd ko)) seen) \<Longrightarrow>
   ops = seen @ map (\<lambda>op. (strip (op_id op), op)) xs \<and> distinct (keys ops) \<and>
   distinct (map (\<lambda>ko. op_key (snd ko)) ops) \<and> (\<forall>op \<in> set xs. accepted h op)"
proof (induction xs arbitrary: seen n)
  case (Cons x xs)
  obtain seen' where step: "operation_step h d types reqs seen (n, x) = Inr seen'"
    and rest: "foldE (operation_step h d types reqs) seen' (enumerate (Suc n) xs) = Inr ops"
    using Cons.prems(1) by (auto simp: bindE_Inr_iff)
  note one = operation_step_Inr [OF step, simplified]
  have ih: "ops = seen' @ map (\<lambda>op. (strip (op_id op), op)) xs \<and> distinct (keys ops) \<and>
   distinct (map (\<lambda>ko. op_key (snd ko)) ops) \<and> (\<forall>op \<in> set xs. accepted h op)"
    using one Cons.prems(2,3) by (intro Cons.IH [OF rest]) simp_all
  have "ops = seen @ map (\<lambda>op. (strip (op_id op), op)) (x # xs)" using ih one(1) by simp
  moreover have "\<forall>op \<in> set (x # xs). accepted h op" using ih one(4) by simp
  ultimately show ?case using ih by blast
qed simp

lemma validate_document_operations:
  assumes "validate_document h d = Inr ()"
  shows "distinct (map op_id (d_operations d))" and "distinct (map op_key (d_operations d))"
    and "\<And>op. op \<in> set (d_operations d) \<Longrightarrow> accepted h op"
    and "acyclic (edges (op_graph (map (\<lambda>op. (strip (op_id op), op)) (d_operations d))))"
proof -
  let ?ops = "map (\<lambda>op. (strip (op_id op), op)) (d_operations d)"
  obtain types reqs ops where valid: "validate_operations h d types reqs = Inr ops"
    using assms by (auto simp: validate_document_def bindE_Inr_iff simp del: seqE.simps)
  then have fold: "foldE (operation_step h d types reqs) [] (enumerate 0 (d_operations d)) = Inr ops"
    and cycle: "reject_dependency_cycle (op_graph ops) = Inr ()"
    by (auto simp: validate_operations_def bindE_Inr_iff checks_iff simp del: seqE.simps)
  have ops: "ops = ?ops" and facts: "distinct (keys ops)" "distinct (map (\<lambda>ko. op_key (snd ko)) ops)"
      "\<forall>op \<in> set (d_operations d). accepted h op"
    using operation_fold [OF fold] unfolding append_Nil by (metis distinct.simps(1) list.map(1))+
  then have keys: "distinct (map (\<lambda>op. strip (op_id op)) (d_operations d))"
    by (simp add: comp_def)
  have "map (\<lambda>op. strip (op_id op)) (d_operations d) = map strip (map op_id (d_operations d))"
    by simp
  then show "distinct (map op_id (d_operations d))" using keys by (metis distinct_map)
  show "distinct (map op_key (d_operations d))" using facts by (simp add: ops comp_def)
  show "accepted h op" if "op \<in> set (d_operations d)" for op using facts that by blast
  show "acyclic (edges (op_graph ?ops))"
    using cycle reject_dependency_cycle_iff [of "op_graph ops"] facts by (simp add: ops)
qed

text \<open>A verified operation retains a readback whose comparison passes when it is rebuilt.\<close>

lemma accepted_verified:
  assumes "accepted h op" and "op_state op = Verified"
  shows "\<exists>saved v. op_saved_readback op = Some saved \<and>
    build_verification_comparison h op saved = Inr v \<and> vr_pass v"
proof -
  obtain path where checks: "state_checks h op path = Inr ()"
    using assms(1) by (auto simp: accepted_def)
  then obtain c where c: "op_comparison op = Some (JObj c)"
    by (cases "op_comparison op"; cases "the (op_comparison op)")
      (simp_all add: state_checks_def assms(2))
  have pass: "dget c ''pass'' = Some (JBool True)" and saved: "op_saved_readback op \<noteq> None"
    and valid: "validate_verification_comparison h op (JObj c) (nullable (op_saved_readback op)) = Inr ()"
    using checks by (auto simp: state_checks_def assms(2) c checks_iff simp del: seqE.simps)
  from validate_verification_ok [OF valid] pass saved show ?thesis
    by (auto simp: jget_def dict_of_def nullable_def)
qed

lemma accepted_pre_write:
  assumes "accepted h op" and "op_pre_write_comparison op = Some comparison"
  shows "\<exists>readback w. op_pre_write_readback op = Some readback \<and>
    build_pre_write_comparison h op readback = Inr w \<and> pw_pass w"
  using assms by (auto simp: accepted_def pre_write_checks_def bindE_Inr_iff split: option.splits)

lemma accepted_action:
  assumes "accepted h op"
  shows "delta_action (op_action op) \<Longrightarrow> non_empty_text (op_object_id op) \<and> non_empty_object (op_pre_change op)"
    and "op_action op \<noteq> Remove \<Longrightarrow> non_empty_object (op_intended op)"
  using assms action_contract_delta action_contract_intended unfolding accepted_def by blast+

lemma validate_document_parts:
  assumes "validate_document h d = Inr ()"
  shows "\<exists>types reqs. validate_header d = Inr (types, reqs) \<and> validate_requirements d reqs = Inr () \<and>
      validate_target_records h d types = Inr ()"
    and "validate_idempotency h d = Inr ()" and "validate_materialization h d = Inr ()"
    and "validate_publication_dependencies (d_publication d) (run_header.run_mode (d_run d)) = Inr ()"
    and "sensitive_paths h d = Inr []" and "configured_checks d = Inr ()"
  using assms by (auto simp: validate_document_def bindE_Inr_iff checks_iff Let_def simp del: seqE.simps)

lemma validate_configured:
  assumes "validate_document h d = Inr ()" and "run_status (d_run d) = Configured"
  shows "\<forall>op \<in> set (d_operations d). op_state op = Verified" and "\<forall>b \<in> set (d_baselines d). bl_complete b"
    and "id_checked (d_idempotency d)" and "id_remaining (d_idempotency d) = []"
  using validate_document_parts(6) [OF assms(1)] assms(2)
  by (auto simp: configured_checks_def checks_iff list_ex_iff simp del: seqE.simps)

text \<open>The observations of a valid document: one per operation, and later than its verification.\<close>

definition observation_valid :: "host \<Rightarrow> document \<Rightarrow> observation \<Rightarrow> bool" where
  "observation_valid h d ob \<longleftrightarrow> (\<exists>op path v.
     map_of (index_ops (d_operations d)) (ob_operation ob) = Some op \<and>
     observed_after h path op (ob_at ob) = Inr () \<and>
     build_verification_comparison h op (ob_saved ob) = Inr v \<and>
     (ob_decision ob = ''no-op'' \<longleftrightarrow> vr_pass v))"

lemma observation_step_Inr:
  assumes "observation_step h d acc io = Inr acc'"
  shows "observation_valid h d (snd io)" and "fst acc' = fst acc @ [ob_operation (snd io)]"
    and "ob_operation (snd io) \<notin> set (fst acc)"
    and "snd acc' = (if ob_decision (snd io) = ''no-op'' then snd acc else snd acc @ [ob_operation (snd io)])"
proof -
  obtain i ob where io: "io = (i, ob)" by (cases io)
  obtain op where op: "map_of (index_ops (d_operations d)) (ob_operation ob) = Some op"
    using assms by (cases "map_of (index_ops (d_operations d)) (ob_operation ob)")
      (auto simp: observation_step_def Let_def io)
  let ?pass = "truthy (get_or_null (dict_of (ob_comparison ob)) ''pass'')"
  have after: "observed_after h (index_path ''$.idempotency.observations'' i) op (ob_at ob) = Inr ()"
    and valid: "validate_verification_comparison h op (ob_comparison ob) (ob_saved ob) = Inr ()"
    and decision: "ob_decision ob = (if ?pass then ''no-op'' else ''mutation-required'')"
    and fresh: "ob_operation ob \<notin> set (fst acc)"
    and acc': "acc' = (fst acc @ [ob_operation ob], if ?pass then snd acc else snd acc @ [ob_operation ob])"
    using assms
    by (auto simp: observation_step_def Let_def io op bindE_Inr_iff checks_iff simp del: seqE.simps)
  obtain v where v: "build_verification_comparison h op (ob_saved ob) = Inr v"
      "jget (ob_comparison ob) ''pass'' = Some (JBool (vr_pass v))"
    using validate_verification_ok [OF valid] by blast
  have pass: "?pass = vr_pass v" using v(2) by (simp add: jget_def get_or_null_def)
  show "observation_valid h d (snd io)"
    unfolding observation_valid_def using op after v(1) decision pass by (auto simp: io)
  show "fst acc' = fst acc @ [ob_operation (snd io)]" by (simp add: acc' io)
  show "ob_operation (snd io) \<notin> set (fst acc)" using fresh by (simp add: io)
  show "snd acc' = (if ob_decision (snd io) = ''no-op'' then snd acc else snd acc @ [ob_operation (snd io)])"
    using decision by (simp add: acc' io)
qed

lemma observation_fold:
  "foldE (observation_step h d) acc (enumerate n obs) = Inr acc' \<Longrightarrow> distinct (fst acc) \<Longrightarrow>
   fst acc' = fst acc @ map ob_operation obs \<and> distinct (fst acc') \<and>
   snd acc' = snd acc @ map ob_operation (filter (\<lambda>ob. ob_decision ob \<noteq> ''no-op'') obs) \<and>
   (\<forall>ob \<in> set obs. observation_valid h d ob)"
proof (induction obs arbitrary: acc n)
  case (Cons ob obs)
  obtain acc1 where step: "observation_step h d acc (n, ob) = Inr acc1"
    and rest: "foldE (observation_step h d) acc1 (enumerate (Suc n) obs) = Inr acc'"
    using Cons.prems(1) by (auto simp: bindE_Inr_iff)
  note one = observation_step_Inr [OF step, simplified]
  have "distinct (fst acc1)" using one Cons.prems(2) by simp
  from Cons.IH [OF rest this] have ih: "fst acc' = fst acc1 @ map ob_operation obs" "distinct (fst acc')"
    "snd acc' = snd acc1 @ map ob_operation (filter (\<lambda>ob. ob_decision ob \<noteq> ''no-op'') obs)"
    "\<forall>ob \<in> set obs. observation_valid h d ob" by blast+
  show ?case using ih one by (intro conjI) (simp_all only: ih(1,3), simp_all)
qed simp

lemma validate_observations:
  assumes "validate_document h d = Inr ()"
  shows "distinct (map ob_operation (id_observations (d_idempotency d)))"
    and "\<forall>ob \<in> set (id_observations (d_idempotency d)). observation_valid h d ob"
    and "id_checked (d_idempotency d) \<Longrightarrow>
      set (map ob_operation (id_observations (d_idempotency d))) = set (map op_id (d_operations d)) \<and>
      (\<forall>ob \<in> set (id_observations (d_idempotency d)). ob_decision ob = ''no-op'')"
proof -
  let ?obs = "id_observations (d_idempotency d)"
  obtain acc where fold: "foldE (observation_step h d) ([], []) (enumerate 0 ?obs) = Inr acc"
    and checked: "id_checked (d_idempotency d) \<longrightarrow>
      set (fst acc) = set (keys (index_ops (d_operations d))) \<and> snd acc = []"
    using validate_document_parts(2) [OF assms]
    by (auto simp: validate_idempotency_def Let_def bindE_Inr_iff checks_iff case_prod_beta
        simp del: seqE.simps)
  have facts: "fst acc = map ob_operation ?obs" "distinct (fst acc)"
      "snd acc = map ob_operation (filter (\<lambda>ob. ob_decision ob \<noteq> ''no-op'') ?obs)"
      "\<forall>ob \<in> set ?obs. observation_valid h d ob"
    using observation_fold [OF fold] unfolding fst_conv snd_conv append_Nil by (metis distinct.simps(1))+
  show "distinct (map ob_operation ?obs)" using facts(1,2) by metis
  show "\<forall>ob \<in> set ?obs. observation_valid h d ob" by (rule facts(4))
  show "set (map ob_operation ?obs) = set (map op_id (d_operations d)) \<and>
      (\<forall>ob \<in> set ?obs. ob_decision ob = ''no-op'')" if "id_checked (d_idempotency d)"
  proof
    show "set (map ob_operation ?obs) = set (map op_id (d_operations d))"
      using checked that facts(1) keys_index_ops [of "d_operations d"] by metis
    have "filter (\<lambda>ob. ob_decision ob \<noteq> ''no-op'') ?obs = []" using checked that facts(3) by simp
    then show "\<forall>ob \<in> set ?obs. ob_decision ob = ''no-op''" by (simp add: filter_empty_conv)
  qed
qed

end
