(* ===== verification/StateExn.thy ===== *)
theory StateExn
  imports Prelude
begin

text \<open>
  Programs that change a state and may raise. A computation returns its result or the
  exception together with the state reached: what a Python function assigned before it raised
  stays assigned. \<open>wpX m Q E s\<close> is the weakest precondition with a postcondition for the
  normal and one for the exceptional outcome; each combinator has a rewrite rule for it.
\<close>

type_synonym ('s, 'a) prog = "'s \<Rightarrow> 'a res \<times> 's"

section \<open>Combinators\<close>

definition returnX :: "'a \<Rightarrow> ('s, 'a) prog" where
  "returnX a = (\<lambda>s. (Inr a, s))"

definition raiseX :: "exn \<Rightarrow> ('s, 'a) prog" where
  "raiseX e = (\<lambda>s. (Inl e, s))"

definition bindX :: "('s, 'a) prog \<Rightarrow> ('a \<Rightarrow> ('s, 'b) prog) \<Rightarrow> ('s, 'b) prog" where
  "bindX m f = (\<lambda>s. case m s of (Inl e, t) \<Rightarrow> (Inl e, t) | (Inr a, t) \<Rightarrow> f a t)"

definition thenX :: "('s, 'a) prog \<Rightarrow> ('s, 'b) prog \<Rightarrow> ('s, 'b) prog" where
  "thenX m n = bindX m (\<lambda>_. n)"

definition getX :: "('s \<Rightarrow> 'a) \<Rightarrow> ('s, 'a) prog" where
  "getX f = (\<lambda>s. (Inr (f s), s))"

definition modifyX :: "('s \<Rightarrow> 's) \<Rightarrow> ('s, unit) prog" where
  "modifyX f = (\<lambda>s. (Inr (), f s))"

text \<open>A computation without effects, and the guarded \<^verbatim>\<open>raise\<close>.\<close>

definition liftX :: "'a res \<Rightarrow> ('s, 'a) prog" where
  "liftX r = (\<lambda>s. (r, s))"

definition askX :: "('s \<Rightarrow> 'a res) \<Rightarrow> ('s, 'a) prog" where
  "askX f = (\<lambda>s. (f s, s))"

definition checkX :: "bool \<Rightarrow> exn \<Rightarrow> ('s, unit) prog" where
  "checkX bad e = (if bad then raiseX e else returnX ())"

definition whenX :: "bool \<Rightarrow> ('s, unit) prog \<Rightarrow> ('s, unit) prog" where
  "whenX b m = (if b then m else returnX ())"

text \<open>\<^verbatim>\<open>try: m except Exception as e: h(e)\<close>: the handler starts in the state the
  body reached.\<close>

definition catchX :: "('s, 'a) prog \<Rightarrow> (exn \<Rightarrow> ('s, 'a) prog) \<Rightarrow> ('s, 'a) prog" where
  "catchX m h = (\<lambda>s. case m s of (Inl e, t) \<Rightarrow> h e t | (Inr a, t) \<Rightarrow> (Inr a, t))"

fun mapX :: "('a \<Rightarrow> ('s, 'b) prog) \<Rightarrow> 'a list \<Rightarrow> ('s, 'b list) prog" where
  "mapX f [] = returnX []"
| "mapX f (x # xs) = bindX (f x) (\<lambda>y. bindX (mapX f xs) (\<lambda>ys. returnX (y # ys)))"

fun forX :: "'a list \<Rightarrow> ('a \<Rightarrow> ('s, unit) prog) \<Rightarrow> ('s, unit) prog" where
  "forX [] f = returnX ()"
| "forX (x # xs) f = thenX (f x) (forX xs f)"

text \<open>Run a computation on a part of the state.\<close>

definition zoomX :: "('s \<Rightarrow> 't) \<Rightarrow> ('t \<Rightarrow> 's \<Rightarrow> 's) \<Rightarrow> ('t, 'a) prog \<Rightarrow> ('s, 'a) prog" where
  "zoomX get put m = (\<lambda>s. case m (get s) of (r, t) \<Rightarrow> (r, put t s))"

text \<open>The state a computation on a private copy returns, its exception otherwise.\<close>

definition copyX :: "('s, unit) prog \<Rightarrow> 's \<Rightarrow> 's res" where
  "copyX m s = (case m s of (Inl e, t) \<Rightarrow> Inl e | (Inr u, t) \<Rightarrow> Inr t)"

section \<open>Weakest preconditions\<close>

definition wpX :: "('s, 'a) prog \<Rightarrow> ('a \<Rightarrow> 's \<Rightarrow> bool) \<Rightarrow> (exn \<Rightarrow> 's \<Rightarrow> bool) \<Rightarrow> 's \<Rightarrow> bool" where
  "wpX m Q E s = (case m s of (Inl e, t) \<Rightarrow> E e t | (Inr a, t) \<Rightarrow> Q a t)"

lemma wpX_result: "wpX m Q E s \<Longrightarrow> m s = (Inr a, t) \<Longrightarrow> Q a t"
  by (simp add: wpX_def)

lemma wpX_exception: "wpX m Q E s \<Longrightarrow> m s = (Inl e, t) \<Longrightarrow> E e t"
  by (simp add: wpX_def)

lemma wpX_mono:
  assumes "wpX m Q E s" and "\<And>a t. Q a t \<Longrightarrow> Q' a t" and "\<And>e t. E e t \<Longrightarrow> E' e t"
  shows "wpX m Q' E' s"
  using assms by (simp add: wpX_def split: prod.splits sum.splits)

lemma wpX_conj:
  "wpX m Q E s \<Longrightarrow> wpX m Q' E' s \<Longrightarrow> wpX m (\<lambda>a t. Q a t \<and> Q' a t) (\<lambda>e t. E e t \<and> E' e t) s"
  by (simp add: wpX_def split: prod.splits sum.splits)

lemma wpX_self: "wpX m (\<lambda>a t. m s = (Inr a, t)) (\<lambda>e t. m s = (Inl e, t)) s"
  by (simp add: wpX_def split: prod.split sum.split)

lemma wpX_returnX [simp, sx_simps]: "wpX (returnX a) Q E = Q a"
  by (rule ext) (simp add: wpX_def returnX_def split: prod.split sum.split)

lemma wpX_raiseX [simp, sx_simps]: "wpX (raiseX e) Q E = E e"
  by (rule ext) (simp add: wpX_def raiseX_def split: prod.split sum.split)

lemma wpX_bindX [simp, sx_simps]: "wpX (bindX m f) Q E = wpX m (\<lambda>a. wpX (f a) Q E) E"
  by (rule ext) (simp add: wpX_def bindX_def split: prod.split sum.split)

lemma wpX_thenX [simp, sx_simps]: "wpX (thenX m n) Q E = wpX m (\<lambda>_. wpX n Q E) E"
  by (rule ext) (simp add: wpX_def thenX_def bindX_def split: prod.split sum.split)

lemma wpX_getX [simp, sx_simps]: "wpX (getX g) Q E = (\<lambda>s. Q (g s) s)"
  by (rule ext) (simp add: wpX_def getX_def split: prod.split sum.split)

lemma wpX_modifyX [simp, sx_simps]: "wpX (modifyX f) Q E = (\<lambda>s. Q () (f s))"
  by (rule ext) (simp add: wpX_def modifyX_def split: prod.split sum.split)

lemma wpX_catchX [simp, sx_simps]: "wpX (catchX m h) Q E = wpX m Q (\<lambda>e. wpX (h e) Q E)"
  by (rule ext) (simp add: wpX_def catchX_def split: prod.split sum.split)

lemma wpX_zoomX [simp, sx_simps]: "wpX (zoomX get put p) Q E =
     (\<lambda>s. wpX p (\<lambda>a t. Q a (put t s)) (\<lambda>e t. E e (put t s)) (get s))"
  by (rule ext) (simp add: wpX_def zoomX_def split: prod.split sum.split)

lemma wpX_liftX [simp, sx_simps]: "wpX (liftX r) Q E = (\<lambda>s. case r of Inl e \<Rightarrow> E e s | Inr a \<Rightarrow> Q a s)"
  by (rule ext) (simp add: wpX_def liftX_def split: prod.split sum.split)

lemma wpX_askX [simp, sx_simps]: "wpX (askX f) Q E = (\<lambda>s. case f s of Inl e \<Rightarrow> E e s | Inr a \<Rightarrow> Q a s)"
  by (rule ext) (simp add: wpX_def askX_def split: prod.split sum.split)

lemma copyX_wp: "wpX m (\<lambda>_ t. Q t) (\<lambda>_ _. True) s \<Longrightarrow> copyX m s = Inr t \<Longrightarrow> Q t"
  by (auto simp: wpX_def copyX_def split: prod.splits sum.splits)

lemma wpX_checkX [simp, sx_simps]: "wpX (checkX b e) Q E = (if b then E e else Q ())"
  by (rule ext) (simp add: wpX_def checkX_def raiseX_def returnX_def split: prod.split sum.split)

lemma wpX_whenX [simp, sx_simps]: "wpX (whenX b m) Q E = (if b then wpX m Q E else Q ())"
  by (rule ext) (simp add: wpX_def whenX_def returnX_def split: prod.split sum.split)

lemma wpX_forX:
  assumes "\<And>x t. x \<in> set xs \<Longrightarrow> I t \<Longrightarrow> wpX (f x) (\<lambda>_. I) E t" and "I s"
  shows "wpX (forX xs f) (\<lambda>_. I) E s"
  using assms
proof (induction xs arbitrary: s)
  case (Cons x xs)
  have rest: "wpX (forX xs f) (\<lambda>_. I) E t" if "I t" for t
    by (rule Cons.IH [OF Cons.prems(1) that]) simp
  show ?case by (simp, rule wpX_mono [OF Cons.prems(1)]) (auto intro: Cons.prems(2) rest)
qed simp

lemma wpX_mapX:
  assumes "\<And>x t. x \<in> set xs \<Longrightarrow> I t \<Longrightarrow> wpX (f x) (\<lambda>_. I) E t" and "I s"
  shows "wpX (mapX f xs) (\<lambda>_. I) E s"
  using assms
proof (induction xs arbitrary: s)
  case (Cons x xs)
  have rest: "wpX (mapX f xs) (\<lambda>_. I) E t" if "I t" for t
    by (rule Cons.IH [OF Cons.prems(1) that]) simp
  show ?case by (simp, rule wpX_mono [OF Cons.prems(1)]) (auto intro: Cons.prems(2) rest)
qed simp

lemma bindX_run: "m s = (Inr a, t) \<Longrightarrow> bindX m f s = f a t"
  by (simp add: bindX_def)

lemma returnX_run: "returnX a s = (Inr a, s)"
  by (simp add: returnX_def)

lemma bindX_pure [simp]:
  "bindX (returnX a) f = f a"
  "bindX (liftX (Inr a)) f = f a"
  "bindX (liftX (Inl e)) f = raiseX e"
  by (simp_all add: bindX_def returnX_def liftX_def raiseX_def)

lemma bindX_assoc: "bindX (bindX m f) g = bindX m (\<lambda>a. bindX (f a) g)"
  by (rule ext) (simp add: bindX_def split: prod.split sum.split)

lemma bindX_cong [fundef_cong]:
  assumes "m = m'" and "\<And>a. f a = f' a"
  shows "bindX m f = bindX m' f'"
  using assms by presburger

section \<open>Invariants\<close>

text \<open>A program keeps \<open>P\<close> when it ends in \<open>P\<close>, by returning or raising,
  wherever it starts in \<open>P\<close>.\<close>

definition keepsX :: "('s \<Rightarrow> bool) \<Rightarrow> ('s, 'a) prog \<Rightarrow> bool" where
  "keepsX P m \<longleftrightarrow> (\<forall>s. P s \<longrightarrow> wpX m (\<lambda>_. P) (\<lambda>_. P) s)"

lemma keepsX_wp: "keepsX P m \<Longrightarrow> P s \<Longrightarrow> wpX m (\<lambda>_. P) (\<lambda>_. P) s"
  by (simp add: keepsX_def)

named_theorems keeps_intros

lemma keepsX_returnX [keeps_intros]: "keepsX P (returnX a)"
  by (simp add: keepsX_def)

lemma keepsX_raiseX [keeps_intros]: "keepsX P (raiseX e)"
  by (simp add: keepsX_def)

lemma keepsX_liftX [keeps_intros]: "keepsX P (liftX r)"
  by (simp add: keepsX_def split: sum.split)

lemma keepsX_askX [keeps_intros]: "keepsX P (askX f)"
  by (simp add: keepsX_def split: sum.split)

lemma keepsX_getX [keeps_intros]: "keepsX P (getX f)"
  by (simp add: keepsX_def)

lemma keepsX_checkX [keeps_intros]: "keepsX P (checkX b e)"
  by (simp add: keepsX_def)

lemma keepsX_modifyX: "(\<And>s. P s \<Longrightarrow> P (f s)) \<Longrightarrow> keepsX P (modifyX f)"
  by (simp add: keepsX_def)

lemma keepsX_bindX [keeps_intros]:
  assumes "keepsX P m" and "\<And>a. keepsX P (f a)"
  shows "keepsX P (bindX m f)"
  unfolding keepsX_def wpX_bindX
  using assms by (auto intro!: wpX_mono [OF keepsX_wp [OF assms(1)]] keepsX_wp)

lemma keepsX_thenX [keeps_intros]: "keepsX P m \<Longrightarrow> keepsX P n \<Longrightarrow> keepsX P (thenX m n)"
  unfolding thenX_def by (rule keepsX_bindX)

lemma keepsX_whenX [keeps_intros]: "(b \<Longrightarrow> keepsX P m) \<Longrightarrow> keepsX P (whenX b m)"
  by (simp add: whenX_def keepsX_returnX)

lemma keepsX_catchX [keeps_intros]:
  assumes "keepsX P m" and "\<And>e. keepsX P (h e)"
  shows "keepsX P (catchX m h)"
  unfolding keepsX_def wpX_catchX
  using assms by (auto intro!: wpX_mono [OF keepsX_wp [OF assms(1)]] keepsX_wp)

lemma keepsX_forX [keeps_intros]: "(\<And>x. x \<in> set xs \<Longrightarrow> keepsX P (f x)) \<Longrightarrow> keepsX P (forX xs f)"
  by (auto simp: keepsX_def intro: wpX_forX)

lemma keepsX_if [keeps_intros]:
  "(b \<Longrightarrow> keepsX P m) \<Longrightarrow> (\<not> b \<Longrightarrow> keepsX P n) \<Longrightarrow> keepsX P (if b then m else n)"
  by simp

lemma keepsX_zoomX:
  "(\<And>s. P s \<Longrightarrow> wpX m (\<lambda>_ t. P (put t s)) (\<lambda>_ t. P (put t s)) (get s)) \<Longrightarrow> keepsX P (zoomX get put m)"
  by (simp add: keepsX_def)

end
