(* ===== verification/State.thy ===== *)
theory State
  imports RunValidation StateExn
begin

text \<open>
  \<^verbatim>\<open>runtime/state.py\<close>: what changes a run document. The document is a mutable
  object of the program: \<open>checkpoint_validated_operation\<close> and \<open>derive_live_status\<close>
  work on it in place, as programs over it, and keep what they assigned when they raise. The
  other operations work on a deep copy and return it. \<open>None\<close> as an argument is
  \<open>JNull\<close>; a time argument is the timestamp passed or else the current time.
\<close>

section \<open>Operations of a document\<close>

fun update_first :: "('a \<Rightarrow> bool) \<Rightarrow> ('a \<Rightarrow> 'a) \<Rightarrow> 'a list \<Rightarrow> 'a list" where
  "update_first P f [] = []"
| "update_first P f (x # xs) = (if P x then f x # xs else x # update_first P f xs)"

definition find_operation :: "document \<Rightarrow> string \<Rightarrow> operation res" where
  "find_operation d k = (case find (\<lambda>op. op_id op = k) (d_operations d) of
     None \<Rightarrow> Inl (run_error (''unknown operation_id '' @ py_repr k)) | Some op \<Rightarrow> Inr op)"

definition update_operation :: "string \<Rightarrow> (operation \<Rightarrow> operation) \<Rightarrow> document \<Rightarrow> document" where
  "update_operation k f d =
     d\<lparr>d_operations := update_first (\<lambda>op. op_id op = k) f (d_operations d)\<rparr>"

definition update_run :: "(run_header \<Rightarrow> run_header) \<Rightarrow> document \<Rightarrow> document" where
  "update_run f d = d\<lparr>d_run := f (d_run d)\<rparr>"

definition look_operation :: "string \<Rightarrow> document \<Rightarrow> operation option" where
  "look_operation k d = find (\<lambda>op. op_id op = k) (d_operations d)"

definition look_result :: "string \<Rightarrow> document \<Rightarrow> target_result option" where
  "look_result t d = find (\<lambda>r. tr_target r = t) (d_results d)"

definition update_result :: "string \<Rightarrow> (target_result \<Rightarrow> target_result) \<Rightarrow> document \<Rightarrow> document" where
  "update_result t f d = d\<lparr>d_results := update_first (\<lambda>r. tr_target r = t) f (d_results d)\<rparr>"

section \<open>Live status\<close>

fun anyE :: "('a \<Rightarrow> bool res) \<Rightarrow> 'a list \<Rightarrow> bool res" where
  "anyE f [] = Inr False"
| "anyE f (x # xs) = bindE (f x) (\<lambda>b. if b then Inr True else anyE f xs)"

definition row_blocked :: "(string \<times> readiness) list \<Rightarrow> operation \<Rightarrow> bool res" where
  "row_blocked rows op = (case map_of rows (op_id op) of
     None \<Rightarrow> Inl (KeyError (op_id op)) | Some r \<Rightarrow> Inr (rd_blocked r \<noteq> []))"

definition last_time :: "operation \<Rightarrow> string res" where
  "last_time op = (if op_journal op = [] then Inl (OtherError ''IndexError'')
     else Inr (je_at (last (op_journal op))))"

text \<open>\<open>max(..., key=...)\<close>: the first of the greatest.\<close>

fun first_max :: "('a \<times> 'k::linorder) list \<Rightarrow> ('a \<times> 'k) option" where
  "first_max [] = None"
| "first_max (x # xs) = (case first_max xs of
     None \<Rightarrow> Some x | Some y \<Rightarrow> if snd x < snd y then Some y else Some x)"

definition latest_verified :: "operation list \<Rightarrow> string option res" where
  "latest_verified ops = bindE (mapE last_time ops) (\<lambda>times.
     Inr (map_option (\<lambda>(op, t). op_id op) (first_max (zip ops times))))"

definition live_status ::
  "(string \<times> readiness) list \<Rightarrow> target_result \<Rightarrow> operation list \<Rightarrow> status res" where
  "live_status rows r ops =
     (let states = set (map op_state ops); progress = Verified \<in> states in
      if tr_baseline_error r \<noteq> None then Inr (if progress then Partial else Blocked)
      else if Uncertain \<in> states then Inr Partial
      else if Failed \<in> states then Inr (if progress then Partial else Blocked)
      else if Skipped \<in> states then Inr (if progress then Partial else Deferred)
      else bindE (anyE (row_blocked rows) (filter (\<lambda>op. op_state op = Planned) ops)) (\<lambda>blocked.
        Inr (if blocked then (if progress then Partial else Blocked) else InProgressRun)))"

definition derive_result ::
  "(string \<times> readiness) list \<Rightarrow> document \<Rightarrow> target_result \<Rightarrow> target_result res" where
  "derive_result rows d r =
     (let ops = filter (\<lambda>op. op_target op = tr_target r) (d_operations d);
          verified = filter (\<lambda>op. op_state op = Verified) ops in
      bindE (latest_verified verified) (\<lambda>newest.
      bindE (live_status rows r ops) (\<lambda>s.
        Inr (r\<lparr>tr_last_verified :=
            (if list_ex (\<lambda>op. tr_last_verified r = Some (op_id op)) verified
             then tr_last_verified r else newest),
          tr_status := s\<rparr>))))"

definition run_live_status :: "document \<Rightarrow> status" where
  "run_live_status d =
     (let statuses = set (map tr_status (d_results d));
          progress = list_ex (\<lambda>op. op_state op \<in> {Verified, Saved, InProgress}) (d_operations d) in
      if Partial \<in> statuses then Partial
      else if Blocked \<in> statuses then (if progress then Partial else Blocked)
      else if Deferred \<in> statuses then (if progress then Partial else Deferred)
      else InProgressRun)"

definition recovery_of :: "document \<Rightarrow> target_result \<Rightarrow> target_result" where
  "recovery_of d r =
     (let pending = map op_id (filter (\<lambda>op. op_target op = tr_target r \<and>
            op_state op \<in> {Failed, Uncertain, Saved, InProgress}) (d_operations d))
      in r\<lparr>tr_recovery := (if pending = [] then None else Some pending)\<rparr>)"

definition derive_boundaries :: "document \<Rightarrow> document" where
  "derive_boundaries d =
     (let results = map (recovery_of d) (d_results d);
          boundaries = filter (\<lambda>r. tr_recovery r \<noteq> None) results
      in d\<lparr>d_results := results, d_recovery := (if boundaries = [] then None else Some boundaries)\<rparr>)"

definition derive_live_status :: "(document, unit) prog" where
  "derive_live_status =
     bindX (askX operation_readiness) (\<lambda>rows.
     bindX (getX (\<lambda>d. length (d_results d))) (\<lambda>n.
     thenX (forX [0..<n] (\<lambda>i.
       bindX (askX (\<lambda>d. derive_result rows d (d_results d ! i))) (\<lambda>r.
         modifyX (\<lambda>d. d\<lparr>d_results := (d_results d)[i := r]\<rparr>))))
     (modifyX (\<lambda>d. derive_boundaries
       (update_run (\<lambda>run. run\<lparr>run_status := run_live_status d\<rparr>) d)))))"

section \<open>Checkpoints\<close>

record checkpoint =
  ck_operation :: string
  ck_state :: op_state
  ck_note :: string
  ck_time :: string
  ck_result :: json
  ck_comparison :: json
  ck_pre_write_comparison :: json
  ck_pre_write_saved :: json
  ck_saved :: json
  ck_error :: json

definition executing :: "op_state \<Rightarrow> bool" where
  "executing s = (s \<in> {InProgress, Saved, Verified})"

definition readiness_gate :: "checkpoint \<Rightarrow> (document, unit) prog" where
  "readiness_gate c = whenX (executing (ck_state c))
     (bindX (askX (\<lambda>d. readiness_of d (ck_operation c))) (\<lambda>r.
       checkX (rd_blocked r \<noteq> [] \<or> rd_waiting r \<noteq> [])
         (run_error (''execution requires resolved fields, complete baseline and every '' @
           ''dependency verified: '' @ join ''; '' (rd_blocked r @ rd_waiting r)))))"

definition pre_write_step :: "host \<Rightarrow> checkpoint \<Rightarrow> operation \<Rightarrow> (document, unit) prog" where
  "pre_write_step h c op =
     (if op_state op = Planned \<and> executing (ck_state c) \<and> delta_action (op_action op) then
        bindX (liftX (build_pre_write_comparison h op (ck_pre_write_saved c))) (\<lambda>rebuilt.
        thenX (checkX (ck_pre_write_comparison c \<noteq> JNull \<and>
            \<not> py_eq (pw_json rebuilt) (ck_pre_write_comparison c))
          (run_error ''supplied pre-write comparison is not bound to authoritative readback''))
        (thenX (checkX (\<not> pw_pass rebuilt)
          (run_error ''fresh saved state does not match pre_change''))
        (modifyX (update_operation (ck_operation c) (\<lambda>op.
           op\<lparr>op_pre_write_readback := Some (pw_saved rebuilt),
              op_pre_write_comparison := Some (pw_json rebuilt)\<rparr>)))))
      else checkX (ck_pre_write_comparison c \<noteq> JNull \<or> ck_pre_write_saved c \<noteq> JNull)
        (run_error ''pre-write evidence is accepted only for a planned delta write boundary''))"

definition evidence_checks :: "checkpoint \<Rightarrow> operation \<Rightarrow> unit res" where
  "evidence_checks c op = seqE
     [failE (ck_state c \<notin> {Saved, Verified} \<and> ck_saved c \<noteq> JNull)
        (run_error ''saved readback is accepted only for saved or verified states''),
      failE (ck_state c \<noteq> Verified \<and> ck_comparison c \<noteq> JNull)
        (run_error ''comparison evidence is accepted only for a verified state''),
      failE (ck_state c = Saved \<and> ck_saved c = JNull)
        (run_error ''saved requires authoritative saved readback''),
      failE (ck_state c = Verified \<and> ck_saved c = JNull \<and> op_action op \<noteq> Remove)
        (run_error ''verified requires authoritative saved readback''),
      failE (ck_state c = Verified \<and> delta_action (op_action op) \<and> op_pre_write_comparison op = None)
        (run_error ''verified delta operation lacks pre-write drift evidence'')]"

definition safe_readback :: "host \<Rightarrow> operation \<Rightarrow> json \<Rightarrow> json res" where
  "safe_readback h op saved =
     (if saved = JNull then Inr JNull else redact_for_records h [op_json op] saved)"

text \<open>The comparison given, or built from the readback, with the readback to persist.\<close>

definition verification_evidence ::
  "host \<Rightarrow> checkpoint \<Rightarrow> operation \<Rightarrow> json \<Rightarrow> (json \<times> json) res" where
  "verification_evidence h c op safe_saved = reported (\<lambda>m. m)
     (bindE (if ck_comparison c \<noteq> JNull then Inr (ck_comparison c, safe_saved)
        else bindE (build_verification_comparison h op (ck_saved c)) (\<lambda>v.
          Inr (vr_json v, vr_saved v))) (\<lambda>(comparison, saved).
      bindE (validate_verification_comparison h op comparison (ck_saved c)) (\<lambda>_.
        Inr (comparison, saved))))"

definition record_last_verified :: "operation \<Rightarrow> (document, unit) prog" where
  "record_last_verified op =
     bindX (askX (\<lambda>d. if look_result (op_target op) d \<noteq> None then Inr ()
        else Inl (OtherError ''StopIteration''))) (\<lambda>_.
     modifyX (update_result (op_target op) (\<lambda>r. r\<lparr>tr_last_verified := Some (op_id op)\<rparr>)))"

definition evidence_step :: "host \<Rightarrow> checkpoint \<Rightarrow> operation \<Rightarrow> (document, unit) prog" where
  "evidence_step h c op =
     bindX (liftX (safe_readback h op (ck_saved c))) (\<lambda>safe_saved.
     (case ck_state c of
        Verified \<Rightarrow>
          bindX (liftX (verification_evidence h c op safe_saved)) (\<lambda>(comparison, saved).
          thenX (checkX (jget comparison ''pass'' \<noteq> Some (JBool True))
            (run_error ''verified comparison must pass''))
          (thenX (modifyX (update_operation (ck_operation c) (\<lambda>op.
             op\<lparr>op_comparison := Some comparison, op_saved_readback := Some saved\<rparr>)))
          (record_last_verified op)))
      | Saved \<Rightarrow> modifyX (update_operation (ck_operation c) (\<lambda>op. op\<lparr>op_saved_readback := Some safe_saved\<rparr>))
      | _ \<Rightarrow> returnX ()))"

text \<open>The new state, the reset of earlier convergence proofs, and the journal entry.\<close>

definition journal_step :: "host \<Rightarrow> checkpoint \<Rightarrow> (document, unit) prog" where
  "journal_step h c =
     thenX (modifyX (\<lambda>d. (update_operation (ck_operation c) (\<lambda>op. op\<lparr>op_state := ck_state c\<rparr>) d)
       \<lparr>d_idempotency := no_idempotency\<rparr>))
     (bindX (askX (\<lambda>d. bindE (find_operation d (ck_operation c)) (\<lambda>op.
        redact_for_records h [op_json op] (ck_result c)))) (\<lambda>result.
     bindX (liftX (redact_for_persistence h [] (ck_error c))) (\<lambda>error.
     modifyX (update_operation (ck_operation c) (\<lambda>op. op\<lparr>op_journal := op_journal op @
       [\<lparr>je_at = ck_time c, je_state = ck_state c, je_note = ck_note c, je_result = Some result,
         je_error = Some error, je_reopened = False, je_convergence_repair = False\<rparr>]\<rparr>)))))"

definition finish_step :: "checkpoint \<Rightarrow> (document, unit) prog" where
  "finish_step c =
     thenX (modifyX (update_run (\<lambda>run. run\<lparr>run_updated_at := ck_time c,
        run_phase := (if ck_state c \<in> {Saved, Verified} then Readback else Mutation)\<rparr>)))
     derive_live_status"

text \<open>The part after the guards: everything that assigns.\<close>

definition change_step :: "host \<Rightarrow> checkpoint \<Rightarrow> operation \<Rightarrow> (document, unit) prog" where
  "change_step h c op =
     thenX (pre_write_step h c op)
     (bindX (askX (\<lambda>d. find_operation d (ck_operation c))) (\<lambda>op.
     thenX (liftX (evidence_checks c op))
     (thenX (evidence_step h c op)
     (thenX (journal_step h c) (finish_step c)))))"

definition checkpoint_validated_operation :: "host \<Rightarrow> checkpoint \<Rightarrow> (document, unit) prog" where
  "checkpoint_validated_operation h c =
     bindX (askX (\<lambda>d. find_operation d (ck_operation c))) (\<lambda>op.
     thenX (readiness_gate c)
     (thenX (checkX (\<not> transition_allowed (op_state op) (ck_state c))
       (run_error (''operation transition '' @ py_repr (state_name (op_state op)) @ '' -> '' @
         py_repr (state_name (ck_state c)) @ '' is not allowed'')))
     (change_step h c op)))"

definition checkpoint_operation :: "host \<Rightarrow> checkpoint \<Rightarrow> document \<Rightarrow> document res" where
  "checkpoint_operation h c d =
     bindE (validate_document h d) (\<lambda>_.
     bindE (copyX (checkpoint_validated_operation h c) d) (\<lambda>d'.
     bindE (validate_document h d') (\<lambda>_. Inr d')))"

section \<open>Keyed collections\<close>

text \<open>
  The document finds an operation by its identifier and a target's record by its target, and
  changes what it found in place. \<open>look\<close> and \<open>put\<close> are such a pair: what is
  found after a change is what the change made of it, and nothing else changed.
\<close>

locale keyed =
  fixes look :: "'k \<Rightarrow> 's \<Rightarrow> 'v option"
    and put :: "'k \<Rightarrow> ('v \<Rightarrow> 'v) \<Rightarrow> 's \<Rightarrow> 's"
    and key :: "'v \<Rightarrow> 'k"
  assumes look_key: "look k s = Some v \<Longrightarrow> key v = k"
    and look_put: "(\<And>v. key (f v) = key v) \<Longrightarrow>
      look j (put k f s) = (if j = k then map_option f (look k s) else look j s)"
begin

lemma look_put_same:
  "(\<And>v. key (f v) = key v) \<Longrightarrow> look k s = Some v \<Longrightarrow> look k (put k f s) = Some (f v)"
  by (simp add: look_put)

lemma look_put_other: "(\<And>v. key (f v) = key v) \<Longrightarrow> j \<noteq> k \<Longrightarrow> look j (put k f s) = look j s"
  by (simp add: look_put)

lemma put_put:
  assumes "\<And>v. key (f v) = key v" and "\<And>v. key (g v) = key v"
  shows "look j (put k g (put k f s)) = look j (put k (g \<circ> f) s)"
  using assms by (simp add: look_put option.map_comp)

lemma put_commute:
  assumes "\<And>v. key (f v) = key v" and "\<And>v. key (g v) = key v" and "k \<noteq> l"
  shows "look j (put l g (put k f s)) = look j (put k f (put l g s))"
  using assms by (simp add: look_put)

text \<open>A predicate of the found values is kept when the change keeps it.\<close>

lemma put_invariant:
  assumes "\<And>v. key (f v) = key v" and "\<And>j v. look j s = Some v \<Longrightarrow> P v"
    and "\<And>v. look k s = Some v \<Longrightarrow> P v \<Longrightarrow> P (f v)" and "look j (put k f s) = Some w"
  shows "P w"
  using assms by (auto simp: look_put split: if_splits)

end

lemma find_update_first:
  assumes "\<And>x. key (f x) = key x"
  shows "find (\<lambda>x. key x = j) (update_first (\<lambda>x. key x = k) f xs) =
    (if j = k then map_option f (find (\<lambda>x. key x = k) xs) else find (\<lambda>x. key x = j) xs)"
  by (induction xs) (auto simp: assms)

lemma map_update_first: "(\<And>x. g (f x) = g x) \<Longrightarrow> map g (update_first P f xs) = map g xs"
  by (induction xs) auto

lemma length_update_first [simp]: "length (update_first P f xs) = length xs"
  by (induction xs) auto

lemma update_first_id [simp]: "update_first P (\<lambda>x. x) xs = xs"
  by (induction xs) auto

lemma update_first_update_first:
  "(\<And>x. P (f x) = P x) \<Longrightarrow> update_first P g (update_first P f xs) = update_first P (\<lambda>x. g (f x)) xs"
  by (induction xs) auto

lemma update_first_cong:
  "(\<And>x. find P xs = Some x \<Longrightarrow> f x = g x) \<Longrightarrow> update_first P f xs = update_first P g xs"
  by (induction xs) auto

interpretation ops: keyed look_operation update_operation op_id
  by unfold_locales
    (auto simp: look_operation_def update_operation_def find_update_first find_Some_iff)

interpretation results: keyed look_result update_result tr_target
  by unfold_locales
    (auto simp: look_result_def update_result_def find_update_first find_Some_iff)

lemma find_operation_Inr: "find_operation d k = Inr op \<longleftrightarrow> look_operation k d = Some op"
  by (simp add: find_operation_def look_operation_def split: option.split)

lemma find_operation_other_fields [simp]:
  "look_operation k (d\<lparr>d_idempotency := i\<rparr>) = look_operation k d"
  "look_operation k (d\<lparr>d_results := r\<rparr>) = look_operation k d"
  "look_operation k (update_run f d) = look_operation k d"
  by (simp_all add: look_operation_def update_run_def)

section \<open>What a checkpoint changes\<close>

text \<open>The part of the document no checkpoint changes.\<close>

definition frame :: "document \<Rightarrow> document" where
  "frame d = d\<lparr>d_run := (d_run d)\<lparr>run_phase := Preflight, run_status := Partial, run_updated_at := []\<rparr>,
     d_operations := [], d_results := [], d_recovery := None, d_idempotency := no_idempotency\<rparr>"

lemma frame_simps [simp]:
  "frame (d\<lparr>d_operations := a\<rparr>) = frame d"
  "frame (d\<lparr>d_results := b\<rparr>) = frame d"
  "frame (d\<lparr>d_recovery := c\<rparr>) = frame d"
  "frame (d\<lparr>d_idempotency := i\<rparr>) = frame d"
  "frame (update_operation k f d) = frame d"
  "frame (update_result t g d) = frame d"
  "frame (update_run (\<lambda>run. run\<lparr>run_status := s\<rparr>) d) = frame d"
  "frame (update_run (\<lambda>run. run\<lparr>run_updated_at := t, run_phase := p\<rparr>) d) = frame d"
  "frame (derive_boundaries d) = frame d"
  by (simp_all add: frame_def update_operation_def update_run_def update_result_def
      derive_boundaries_def Let_def)

lemma frame_eqD:
  assumes "frame d = frame d'"
  shows "d_baselines d = d_baselines d'" and "run_targets (d_run d) = run_targets (d_run d')"
    and "run_contract (d_run d) = run_contract (d_run d')"
    and "run_materialization (d_run d) = run_materialization (d_run d')"
    and "d_requirements d = d_requirements d'" and "d_mappings d = d_mappings d'"
    and "d_pipelines d = d_pipelines d'" and "d_final_inventories d = d_final_inventories d'"
    and "run_execution_mode (d_run d) = run_execution_mode (d_run d')"
  using arg_cong [OF assms, of d_baselines] arg_cong [OF assms, of "\<lambda>d. run_targets (d_run d)"]
    arg_cong [OF assms, of "\<lambda>d. run_contract (d_run d)"]
    arg_cong [OF assms, of "\<lambda>d. run_materialization (d_run d)"] arg_cong [OF assms, of d_requirements]
    arg_cong [OF assms, of d_mappings] arg_cong [OF assms, of d_pipelines]
    arg_cong [OF assms, of d_final_inventories] arg_cong [OF assms, of "\<lambda>d. run_execution_mode (d_run d)"]
  by (simp_all add: frame_def)

lemma update_operation_fields [simp]:
  "d_idempotency (update_operation k f d) = d_idempotency d"
  "d_results (update_operation k f d) = d_results d"
  "d_run (update_operation k f d) = d_run d"
  by (simp_all add: update_operation_def)

text \<open>The live status changes neither operations nor what they rest on.\<close>

definition live_frame :: "document \<Rightarrow> document \<Rightarrow> bool" where
  "live_frame d d' \<longleftrightarrow> frame d' = frame d \<and> d_operations d' = d_operations d \<and>
     d_idempotency d' = d_idempotency d \<and> map tr_target (d_results d') = map tr_target (d_results d) \<and>
     map tr_baseline_error (d_results d') = map tr_baseline_error (d_results d) \<and>
     run_updated_at (d_run d') = run_updated_at (d_run d) \<and> run_phase (d_run d') = run_phase (d_run d)"

lemma live_frame_refl [simp]: "live_frame d d"
  by (simp add: live_frame_def)

lemma derive_result_key: "derive_result rows d r = Inr r' \<Longrightarrow>
    tr_target r' = tr_target r \<and> tr_baseline_error r' = tr_baseline_error r"
  by (auto simp: derive_result_def Let_def bindE_Inr_iff)

lemma map_list_update_same: "i < length xs \<Longrightarrow> f y = f (xs ! i) \<Longrightarrow> map f (xs[i := y]) = map f xs"
  by (metis list_update_id map_update)

lemma live_frame_length: "live_frame d t \<Longrightarrow> length (d_results t) = length (d_results d)"
  unfolding live_frame_def by (metis length_map)

lemma live_frame_result:
  assumes "live_frame d t" and "i < length (d_results d)"
    and "derive_result rows u (d_results t ! i) = Inr r"
  shows "live_frame d (t\<lparr>d_results := (d_results t)[i := r]\<rparr>)"
  using assms derive_result_key [OF assms(3)] live_frame_length [OF assms(1)]
  by (simp add: live_frame_def map_list_update_same)

lemma recovery_of_key [simp]:
  "tr_target (recovery_of d r) = tr_target r" "tr_baseline_error (recovery_of d r) = tr_baseline_error r"
  "tr_status (recovery_of d r) = tr_status r" "tr_last_verified (recovery_of d r) = tr_last_verified r"
  by (simp_all add: recovery_of_def Let_def)

lemma live_frame_boundaries:
  "live_frame d t \<Longrightarrow> live_frame d (derive_boundaries (update_run (\<lambda>run. run\<lparr>run_status := s\<rparr>) t))"
  by (simp add: live_frame_def derive_boundaries_def Let_def update_run_def comp_def)
    (simp add: frame_def)

lemma derive_live_status_wp:
  assumes "live_frame d s"
  shows "wpX derive_live_status (\<lambda>_. live_frame d) (\<lambda>_. live_frame d) s"
proof -
  have loop: "wpX (forX [0..<length (d_results s)] (\<lambda>i.
       bindX (askX (\<lambda>d. derive_result rows d (d_results d ! i))) (\<lambda>r.
         modifyX (\<lambda>d. d\<lparr>d_results := (d_results d)[i := r]\<rparr>))))
     (\<lambda>_. live_frame d) (\<lambda>_. live_frame d) s" for rows
  proof (rule wpX_forX [where I = "live_frame d"])
    fix i t assume "i \<in> set [0..<length (d_results s)]" and t: "live_frame d t"
    then have i: "i < length (d_results d)" using live_frame_length [OF assms] by simp
    show "wpX (bindX (askX (\<lambda>d. derive_result rows d (d_results d ! i))) (\<lambda>r.
         modifyX (\<lambda>d. d\<lparr>d_results := (d_results d)[i := r]\<rparr>))) (\<lambda>_. live_frame d) (\<lambda>_. live_frame d) t"
      using t live_frame_result [OF t i] by (simp split: sum.split)
  qed (rule assms)
  have body: "wpX (forX [0..<length (d_results s)] (\<lambda>i.
       bindX (askX (\<lambda>d. derive_result rows d (d_results d ! i))) (\<lambda>r.
         modifyX (\<lambda>d. d\<lparr>d_results := (d_results d)[i := r]\<rparr>))))
     (\<lambda>_ t. live_frame d (derive_boundaries (update_run (\<lambda>run. run\<lparr>run_status := run_live_status t\<rparr>) t)))
     (\<lambda>_. live_frame d) s" for rows
    by (rule wpX_mono [OF loop]) (auto intro: live_frame_boundaries)
  show ?thesis unfolding derive_live_status_def
    using body assms by (simp split: sum.split)
qed

section \<open>A checkpoint changes one operation\<close>

text \<open>
  The operation a successful checkpoint leaves, as a function of the one it found: the evidence
  recorded before a delta write, the evidence of the new state, and the journal entry.
\<close>

definition pre_write_outcome :: "host \<Rightarrow> checkpoint \<Rightarrow> operation \<Rightarrow> operation res" where
  "pre_write_outcome h c op =
     (if op_state op = Planned \<and> executing (ck_state c) \<and> delta_action (op_action op) then
        bindE (build_pre_write_comparison h op (ck_pre_write_saved c)) (\<lambda>w.
          if pw_pass w then Inr (op\<lparr>op_pre_write_readback := Some (pw_saved w),
            op_pre_write_comparison := Some (pw_json w)\<rparr>)
          else Inl (run_error ''fresh saved state does not match pre_change''))
      else Inr op)"

definition evidence_outcome :: "host \<Rightarrow> checkpoint \<Rightarrow> operation \<Rightarrow> operation res" where
  "evidence_outcome h c op =
     bindE (safe_readback h op (ck_saved c)) (\<lambda>safe.
     (case ck_state c of
        Verified \<Rightarrow> bindE (verification_evidence h c op safe) (\<lambda>(comparison, saved).
          if jget comparison ''pass'' = Some (JBool True)
          then Inr (op\<lparr>op_comparison := Some comparison, op_saved_readback := Some saved\<rparr>)
          else Inl (run_error ''verified comparison must pass''))
      | Saved \<Rightarrow> Inr (op\<lparr>op_saved_readback := Some safe\<rparr>)
      | _ \<Rightarrow> Inr op))"

definition journal_outcome :: "host \<Rightarrow> checkpoint \<Rightarrow> operation \<Rightarrow> operation res" where
  "journal_outcome h c op =
     bindE (redact_for_records h [op_json (op\<lparr>op_state := ck_state c\<rparr>)] (ck_result c)) (\<lambda>result.
     bindE (redact_for_persistence h [] (ck_error c)) (\<lambda>error.
       Inr (op\<lparr>op_state := ck_state c, op_journal := op_journal op @
         [\<lparr>je_at = ck_time c, je_state = ck_state c, je_note = ck_note c, je_result = Some result,
           je_error = Some error, je_reopened = False, je_convergence_repair = False\<rparr>]\<rparr>)))"

definition checkpoint_outcome :: "host \<Rightarrow> checkpoint \<Rightarrow> operation \<Rightarrow> operation res" where
  "checkpoint_outcome h c op =
     bindE (pre_write_outcome h c op) (\<lambda>op1.
     bindE (evidence_checks c op1) (\<lambda>_.
     bindE (evidence_outcome h c op1) (\<lambda>op2. journal_outcome h c op2)))"

text \<open>Document \<open>t\<close> is \<open>d\<close> with operation \<open>k\<close> replaced by \<open>op\<close>.\<close>

definition touched :: "string \<Rightarrow> document \<Rightarrow> document \<Rightarrow> operation \<Rightarrow> bool" where
  "touched k d t op \<longleftrightarrow> frame t = frame d \<and> look_operation k d \<noteq> None \<and> op_id op = k \<and>
     d_operations t = update_first (\<lambda>x. op_id x = k) (\<lambda>_. op) (d_operations d) \<and>
     map tr_target (d_results t) = map tr_target (d_results d) \<and>
     map tr_baseline_error (d_results t) = map tr_baseline_error (d_results d)"

lemma find_replaced:
  "find P xs \<noteq> None \<Longrightarrow> P y \<Longrightarrow> find P (update_first P (\<lambda>_. y) xs) = Some y"
  by (induction xs) auto

lemma touched_look: "touched k d t op \<Longrightarrow> look_operation k t = Some op"
  by (auto simp: touched_def look_operation_def find_replaced)

lemma touched_refl: "look_operation k d = Some op \<Longrightarrow> touched k d d op"
proof -
  assume op: "look_operation k d = Some op"
  have "update_first (\<lambda>x. op_id x = k) (\<lambda>_. op) (d_operations d) = d_operations d"
    using op update_first_cong [of "\<lambda>x. op_id x = k" "d_operations d" "\<lambda>_. op" "\<lambda>x. x"]
    by (simp add: look_operation_def)
  then show ?thesis using op ops.look_key [OF op] by (simp add: touched_def)
qed

lemma update_replaced:
  "P y \<Longrightarrow> update_first P f (update_first P (\<lambda>_. y) xs) = update_first P (\<lambda>_. f y) xs"
  by (induction xs) auto

lemma touched_update:
  "touched k d t op \<Longrightarrow> op_id (f op) = k \<Longrightarrow> touched k d (update_operation k f t) (f op)"
  by (auto simp: touched_def update_operation_def update_replaced)

lemma touched_other:
  assumes "touched k d t op" and "frame t' = frame t" and "d_operations t' = d_operations t"
    and "map tr_target (d_results t') = map tr_target (d_results t)"
    and "map tr_baseline_error (d_results t') = map tr_baseline_error (d_results t)"
  shows "touched k d t' op"
  using assms by (simp add: touched_def)

text \<open>What a checkpoint that raised may have left: the operation as it was, or already moved.\<close>

definition progress_entry :: "journal_entry \<Rightarrow> bool" where
  "progress_entry e \<longleftrightarrow> \<not> je_reopened e \<and> \<not> je_convergence_repair e"

definition attempted :: "checkpoint \<Rightarrow> operation \<Rightarrow> operation \<Rightarrow> bool" where
  "attempted c op op' \<longleftrightarrow> op_spec op' = op_spec op \<and>
     (op_state op' = op_state op \<and> op_journal op' = op_journal op \<or>
      transition_allowed (op_state op) (ck_state c) \<and> op_state op' = ck_state c \<and>
      (\<exists>es. op_journal op' = op_journal op @ es \<and> (\<forall>e \<in> set es. je_state e = ck_state c \<and> progress_entry e)))"

definition attempt :: "checkpoint \<Rightarrow> document \<Rightarrow> operation \<Rightarrow> document \<Rightarrow> bool" where
  "attempt c d op t \<longleftrightarrow> (\<exists>op'. touched (ck_operation c) d t op' \<and> attempted c op op')"

lemma attempted_refl [simp]: "attempted c op op"
  by (simp add: attempted_def)

lemma attempt_touched: "touched (ck_operation c) d t op' \<Longrightarrow> attempted c op op' \<Longrightarrow> attempt c d op t"
  by (auto simp: attempt_def)

lemma pre_write_step_wp:
  assumes t: "touched (ck_operation c) d t op"
  shows "wpX (pre_write_step h c op)
    (\<lambda>_ u. \<exists>op1. pre_write_outcome h c op = Inr op1 \<and> touched (ck_operation c) d u op1)
    (\<lambda>_. attempt c d op) t"
proof -
  have id: "op_id op = ck_operation c" using t by (simp add: touched_def)
  have same: "attempt c d op t" by (rule attempt_touched [OF t attempted_refl])
  have new: "touched (ck_operation c) d (update_operation (ck_operation c) (\<lambda>op.
      op\<lparr>op_pre_write_readback := Some (pw_saved w), op_pre_write_comparison := Some (pw_json w)\<rparr>) t)
      (op\<lparr>op_pre_write_readback := Some (pw_saved w), op_pre_write_comparison := Some (pw_json w)\<rparr>)" for w
    by (rule touched_update [OF t]) (simp add: id)
  show ?thesis
    using same new t by (auto simp: pre_write_step_def pre_write_outcome_def split: sum.split)
qed

lemma pre_write_outcome_keeps:
  "pre_write_outcome h c op = Inr op1 \<Longrightarrow> op_spec op1 = op_spec op \<and> op_state op1 = op_state op \<and>
     op_journal op1 = op_journal op \<and> op_id op1 = op_id op \<and> op_action op1 = op_action op \<and>
     op_target op1 = op_target op"
  by (auto simp: pre_write_outcome_def bindE_Inr_iff split: if_splits)

lemma evidence_outcome_keeps:
  "evidence_outcome h c op = Inr op1 \<Longrightarrow> op_spec op1 = op_spec op \<and> op_state op1 = op_state op \<and>
     op_journal op1 = op_journal op \<and> op_id op1 = op_id op \<and> op_action op1 = op_action op"
  by (cases "ck_state c") (auto simp: evidence_outcome_def bindE_Inr_iff case_prod_beta split: if_splits)

lemma touched_result:
  "touched k d t op \<Longrightarrow> (\<And>r. tr_target (f r) = tr_target r \<and> tr_baseline_error (f r) = tr_baseline_error r) \<Longrightarrow>
   touched k d (update_result x f t) op"
  by (rule touched_other) (simp_all add: update_result_def map_update_first)

lemma record_last_verified_wp:
  assumes "touched k d t op" and "E (OtherError ''StopIteration'') t"
  shows "wpX (record_last_verified op') (\<lambda>_ u. touched k d u op) E t"
  using assms by (auto simp: record_last_verified_def intro!: touched_result)

lemma evidence_step_wp:
  assumes t: "touched (ck_operation c) d t op" and o: "attempted c op0 op"
  shows "wpX (evidence_step h c op)
    (\<lambda>_ u. \<exists>op1. evidence_outcome h c op = Inr op1 \<and> touched (ck_operation c) d u op1)
    (\<lambda>_. attempt c d op0) t"
proof -
  have id: "op_id op = ck_operation c" using t by (simp add: touched_def)
  have same: "attempt c d op0 t" by (rule attempt_touched [OF t o])
  show ?thesis
  proof (cases "safe_readback h op (ck_saved c)")
    case (Inl e)
    then show ?thesis using same by (simp add: evidence_step_def wpX_def raiseX_def)
  next
    case (Inr safe)
    have saved: "touched (ck_operation c) d (update_operation (ck_operation c)
        (\<lambda>op. op\<lparr>op_saved_readback := Some safe\<rparr>) t) (op\<lparr>op_saved_readback := Some safe\<rparr>)"
      by (rule touched_update [OF t]) (simp add: id)
    have verified: "wpX (record_last_verified op) (\<lambda>_ u. touched (ck_operation c) d u
          (op\<lparr>op_comparison := Some x, op_saved_readback := Some y\<rparr>)) (\<lambda>_. attempt c d op0)
        (update_operation (ck_operation c) (\<lambda>op. op\<lparr>op_comparison := Some x, op_saved_readback := Some y\<rparr>) t)"
      for x y
    proof (rule record_last_verified_wp)
      show new: "touched (ck_operation c) d (update_operation (ck_operation c)
          (\<lambda>op. op\<lparr>op_comparison := Some x, op_saved_readback := Some y\<rparr>) t)
          (op\<lparr>op_comparison := Some x, op_saved_readback := Some y\<rparr>)"
        by (rule touched_update [OF t]) (simp add: id)
      show "attempt c d op0 (update_operation (ck_operation c)
          (\<lambda>op. op\<lparr>op_comparison := Some x, op_saved_readback := Some y\<rparr>) t)"
        by (rule attempt_touched [OF new]) (use o in \<open>simp add: attempted_def\<close>)
    qed
    show ?thesis
    proof (cases "ck_state c = Verified")
      case True
      show ?thesis
      proof (cases "verification_evidence h c op safe")
        case (Inr xy)
        then show ?thesis using same verified
          by (cases xy) (simp add: evidence_step_def evidence_outcome_def \<open>safe_readback h op (ck_saved c) = Inr safe\<close> True)
      qed (use same in \<open>simp add: evidence_step_def Inr True\<close>)
    next
      case False
      then show ?thesis using same saved t Inr
        by (cases "ck_state c") (simp_all add: evidence_step_def evidence_outcome_def)
    qed
  qed
qed

lemma find_operation_touched: "touched k d t op \<Longrightarrow> find_operation t k = Inr op"
  by (simp add: find_operation_Inr touched_look)

lemma journal_step_wp:
  assumes t: "touched (ck_operation c) d t op" and o: "attempted c op0 op"
    and allowed: "transition_allowed (op_state op0) (ck_state c)"
    and kept: "op_state op = op_state op0" "op_journal op = op_journal op0"
  shows "wpX (journal_step h c)
    (\<lambda>_ u. \<exists>op1. journal_outcome h c op = Inr op1 \<and> touched (ck_operation c) d u op1 \<and>
       d_idempotency u = no_idempotency \<and> attempted c op0 op1)
    (\<lambda>_. attempt c d op0) t"
proof -
  let ?t = "(update_operation (ck_operation c) (\<lambda>op. op\<lparr>op_state := ck_state c\<rparr>) t)\<lparr>d_idempotency := no_idempotency\<rparr>"
  let ?op = "op\<lparr>op_state := ck_state c\<rparr>"
  have id: "op_id op = ck_operation c" using t by (simp add: touched_def)
  have new: "touched (ck_operation c) d ?t ?op"
    by (rule touched_other [OF touched_update [OF t, of "\<lambda>op. op\<lparr>op_state := ck_state c\<rparr>"]])
      (simp_all add: id)
  have moved: "attempt c d op0 ?t"
    by (rule attempt_touched [OF new]) (use o allowed kept in \<open>auto simp: attempted_def\<close>)
  have found: "find_operation ?t (ck_operation c) = Inr ?op" by (rule find_operation_touched [OF new])
  have written: "touched (ck_operation c) d (update_operation (ck_operation c) (\<lambda>op. op\<lparr>op_journal := op_journal op @ [e]\<rparr>) ?t)
      (?op\<lparr>op_journal := op_journal ?op @ [e]\<rparr>)" for e
    by (rule touched_update [OF new, of "\<lambda>op. op\<lparr>op_journal := op_journal op @ [e]\<rparr>"]) (simp add: id)
  have kept_journal: "attempted c op0 (?op\<lparr>op_journal := op_journal ?op @ [e]\<rparr>)" if "je_state e = ck_state c" "progress_entry e" for e
    using o allowed kept that by (simp add: attempted_def)
  show ?thesis
    unfolding journal_step_def
    using moved written kept_journal
    by (simp add: found journal_outcome_def progress_entry_def split: sum.split)
qed

lemma touched_live: "touched k d t op \<Longrightarrow> live_frame t u \<Longrightarrow> touched k d u op"
  by (rule touched_other) (auto simp: live_frame_def)

lemma attempt_live: "attempt c d op t \<Longrightarrow> live_frame t u \<Longrightarrow> attempt c d op u"
  by (auto simp: attempt_def intro: touched_live)

text \<open>The document a successful checkpoint leaves.\<close>

definition settled :: "host \<Rightarrow> checkpoint \<Rightarrow> document \<Rightarrow> operation \<Rightarrow> document \<Rightarrow> bool" where
  "settled h c d op d' \<longleftrightarrow> (\<exists>op'. checkpoint_outcome h c op = Inr op' \<and>
     touched (ck_operation c) d d' op' \<and> attempted c op op' \<and> d_idempotency d' = no_idempotency \<and>
     run_updated_at (d_run d') = ck_time c \<and>
     run_phase (d_run d') = (if ck_state c \<in> {Saved, Verified} then Readback else Mutation))"

lemma finish_step_wp:
  assumes t: "touched (ck_operation c) d t op'" and a: "attempted c op op'"
    and idem: "d_idempotency t = no_idempotency" and out: "checkpoint_outcome h c op = Inr op'"
  shows "wpX (finish_step c) (\<lambda>_. settled h c d op) (\<lambda>_. attempt c d op) t"
proof -
  let ?p = "if ck_state c \<in> {Saved, Verified} then Readback else Mutation"
  let ?t = "update_run (\<lambda>run. run\<lparr>run_updated_at := ck_time c, run_phase := ?p\<rparr>) t"
  have new: "touched (ck_operation c) d ?t op'"
    by (rule touched_other [OF t]) (simp_all add: update_run_def, simp add: frame_def)
  have att: "attempt c d op ?t" by (rule attempt_touched [OF new a])
  have "wpX derive_live_status (\<lambda>_. live_frame ?t) (\<lambda>_. live_frame ?t) ?t"
    by (rule derive_live_status_wp) simp
  then have "wpX derive_live_status (\<lambda>_. settled h c d op) (\<lambda>_. attempt c d op) ?t"
  proof (rule wpX_mono)
    fix u assume u: "live_frame ?t u"
    have "d_idempotency u = d_idempotency ?t" "run_updated_at (d_run u) = run_updated_at (d_run ?t)"
      "run_phase (d_run u) = run_phase (d_run ?t)" using u by (simp_all add: live_frame_def)
    then show "settled h c d op u"
      using touched_live [OF new u] idem out a by (auto simp: settled_def update_run_def)
    show "attempt c d op u" by (rule attempt_live [OF att u])
  qed
  then show ?thesis by (simp add: finish_step_def)
qed

lemma journal_finish_wp:
  assumes op1: "pre_write_outcome h c op = Inr op1" "evidence_checks c op1 = Inr ()"
    and op2: "evidence_outcome h c op1 = Inr op2" "touched (ck_operation c) d v op2"
    and allowed: "transition_allowed (op_state op) (ck_state c)"
  shows "wpX (thenX (journal_step h c) (finish_step c)) (\<lambda>_. settled h c d op) (\<lambda>_. attempt c d op) v"
proof -
  note keeps = pre_write_outcome_keeps [OF op1(1)] evidence_outcome_keeps [OF op2(1)]
  then have a2: "attempted c op op2" by (simp add: attempted_def)
  have kept: "op_state op2 = op_state op" "op_journal op2 = op_journal op" using keeps by simp_all
  have "wpX (journal_step h c) (\<lambda>_. wpX (finish_step c) (\<lambda>_. settled h c d op) (\<lambda>_. attempt c d op))
      (\<lambda>_. attempt c d op) v"
  proof (rule wpX_mono [OF journal_step_wp [OF op2(2) a2 allowed kept]])
    fix w assume "\<exists>op3. journal_outcome h c op2 = Inr op3 \<and> touched (ck_operation c) d w op3 \<and>
      d_idempotency w = no_idempotency \<and> attempted c op op3"
    then obtain op3 where op3: "journal_outcome h c op2 = Inr op3" "touched (ck_operation c) d w op3"
      "d_idempotency w = no_idempotency" "attempted c op op3" by blast
    have "checkpoint_outcome h c op = Inr op3" by (simp add: checkpoint_outcome_def op1 op2 op3(1))
    then show "wpX (finish_step c) (\<lambda>_. settled h c d op) (\<lambda>_. attempt c d op) w"
      by (rule finish_step_wp [OF op3(2,4,3)])
  qed
  then show ?thesis by simp
qed

lemma change_step_wp:
  assumes op: "look_operation (ck_operation c) d = Some op"
    and allowed: "transition_allowed (op_state op) (ck_state c)"
  shows "wpX (change_step h c op) (\<lambda>_. settled h c d op) (\<lambda>_. attempt c d op) d"
proof -
  have rest: "wpX (bindX (askX (\<lambda>d. find_operation d (ck_operation c))) (\<lambda>op.
     thenX (liftX (evidence_checks c op)) (thenX (evidence_step h c op)
       (thenX (journal_step h c) (finish_step c))))) (\<lambda>_. settled h c d op) (\<lambda>_. attempt c d op) u"
    if op1: "pre_write_outcome h c op = Inr op1" and u: "touched (ck_operation c) d u op1" for op1 u
  proof (cases "evidence_checks c op1")
    case (Inl e)
    have "attempt c d op u"
      by (rule attempt_touched [OF u]) (use pre_write_outcome_keeps [OF op1] in \<open>simp add: attempted_def\<close>)
    then show ?thesis by (simp add: find_operation_touched [OF u] Inl)
  next
    case (Inr unit)
    have a1: "attempted c op op1" using pre_write_outcome_keeps [OF op1] by (simp add: attempted_def)
    have "wpX (evidence_step h c op1)
        (\<lambda>_. wpX (thenX (journal_step h c) (finish_step c)) (\<lambda>_. settled h c d op) (\<lambda>_. attempt c d op))
        (\<lambda>_. attempt c d op) u"
      by (rule wpX_mono [OF evidence_step_wp [OF u a1]])
        (use journal_finish_wp [OF op1 _ _ _ allowed] Inr in auto)
    then show ?thesis by (simp add: find_operation_touched [OF u] Inr)
  qed
  have "wpX (pre_write_step h c op) (\<lambda>_. wpX (bindX (askX (\<lambda>d. find_operation d (ck_operation c))) (\<lambda>op.
     thenX (liftX (evidence_checks c op)) (thenX (evidence_step h c op)
       (thenX (journal_step h c) (finish_step c))))) (\<lambda>_. settled h c d op) (\<lambda>_. attempt c d op))
     (\<lambda>_. attempt c d op) d"
    by (rule wpX_mono [OF pre_write_step_wp [OF touched_refl [OF op]]]) (use rest in blast)+
  then show ?thesis unfolding change_step_def wpX_thenX [of "pre_write_step h c op"] .
qed

definition gate_open :: "checkpoint \<Rightarrow> document \<Rightarrow> bool" where
  "gate_open c d \<longleftrightarrow> (executing (ck_state c) \<longrightarrow>
     (\<exists>row. readiness_of d (ck_operation c) = Inr row \<and> rd_blocked row = [] \<and> rd_waiting row = []))"

lemma readiness_gate_wp:
  "(gate_open c d \<Longrightarrow> Q () d) \<Longrightarrow> (\<And>e. E e d) \<Longrightarrow> wpX (readiness_gate c) Q E d"
  by (auto simp: readiness_gate_def gate_open_def split: sum.split)

text \<open>A checkpoint that succeeds has the effect \<open>checkpointed\<close>; one that raises changed
  at most its own operation.\<close>

definition checkpointed :: "host \<Rightarrow> checkpoint \<Rightarrow> document \<Rightarrow> document \<Rightarrow> bool" where
  "checkpointed h c d d' \<longleftrightarrow> (\<exists>op. look_operation (ck_operation c) d = Some op \<and>
     transition_allowed (op_state op) (ck_state c) \<and> gate_open c d \<and> settled h c d op d')"

definition refused :: "checkpoint \<Rightarrow> document \<Rightarrow> document \<Rightarrow> bool" where
  "refused c d d' \<longleftrightarrow> d' = d \<or> (\<exists>op. look_operation (ck_operation c) d = Some op \<and> attempt c d op d')"

lemma checkpoint_wp:
  "wpX (checkpoint_validated_operation h c) (\<lambda>_. checkpointed h c d) (\<lambda>_. refused c d) d"
proof (cases "find_operation d (ck_operation c)")
  case (Inl e)
  then show ?thesis by (simp add: checkpoint_validated_operation_def refused_def)
next
  case (Inr op)
  then have op: "look_operation (ck_operation c) d = Some op" by (simp add: find_operation_Inr)
  have main: "wpX (change_step h c op) (\<lambda>_. checkpointed h c d) (\<lambda>_. refused c d) d"
    if "transition_allowed (op_state op) (ck_state c)" "gate_open c d"
    by (rule wpX_mono [OF change_step_wp [OF op that(1)]]) (use that op in \<open>auto simp: checkpointed_def refused_def\<close>)
  have "wpX (readiness_gate c) (\<lambda>_. wpX (thenX (checkX (\<not> transition_allowed (op_state op) (ck_state c))
       (run_error (''operation transition '' @ py_repr (state_name (op_state op)) @ '' -> '' @
         py_repr (state_name (ck_state c)) @ '' is not allowed'')))
     (change_step h c op)) (\<lambda>_. checkpointed h c d) (\<lambda>_. refused c d)) (\<lambda>_. refused c d) d"
    by (rule readiness_gate_wp) (use main in \<open>auto simp: refused_def\<close>)
  then show ?thesis
    unfolding checkpoint_validated_operation_def wpX_bindX wpX_askX Inr sum.case wpX_thenX .
qed

end
