(* ===== verification/StateMachine.thy ===== *)
theory StateMachine
  imports State
begin

text \<open>
  The life of an operation as a state machine. Every change the runtime makes while it executes
  is a checkpoint; a step relates the document before to the one the checkpoint leaves, whether
  it returned or raised. Any number of steps moves every operation only forward: a terminal
  state is final, a journal only grows, and what the contract approved never changes.
\<close>

section \<open>Relations kept by steps\<close>

locale step_order =
  fixes step :: "'s \<Rightarrow> 's \<Rightarrow> bool" and rel :: "'s \<Rightarrow> 's \<Rightarrow> bool"
  assumes rel_refl: "rel s s"
    and rel_trans: "rel s t \<Longrightarrow> rel t u \<Longrightarrow> rel s u"
    and step_rel: "step s t \<Longrightarrow> rel s t"
begin

lemma steps_rel: "step\<^sup>*\<^sup>* s t \<Longrightarrow> rel s t"
  by (induction rule: rtranclp_induct) (auto intro: rel_refl rel_trans step_rel)

lemma steps_rel_chain: "step\<^sup>*\<^sup>* s t \<Longrightarrow> step\<^sup>*\<^sup>* t u \<Longrightarrow> rel s u"
  by (rule rel_trans [OF steps_rel steps_rel])

end

locale guarded_steps = step_order +
  fixes inv :: "'s \<Rightarrow> bool"
  assumes inv_rel: "inv s \<Longrightarrow> rel s t \<Longrightarrow> inv t"
begin

lemma steps_inv: "step\<^sup>*\<^sup>* s t \<Longrightarrow> inv s \<Longrightarrow> inv t"
  by (rule inv_rel [OF _ steps_rel])

end

section \<open>Steps of a document\<close>

inductive checkpoint_step :: "host \<Rightarrow> document \<Rightarrow> document \<Rightarrow> bool" for h where
  returned: "checkpoint_validated_operation h c d = (Inr u, d') \<Longrightarrow> checkpoint_step h d d'"
| raised: "checkpoint_validated_operation h c d = (Inl e, d') \<Longrightarrow> checkpoint_step h d d'"

inductive_cases checkpoint_stepE: "checkpoint_step h d d'"

text \<open>How one operation may have moved.\<close>

definition advanced :: "operation \<Rightarrow> operation \<Rightarrow> bool" where
  "advanced op op' \<longleftrightarrow> op_id op' = op_id op \<and> op_spec op' = op_spec op \<and>
     (\<exists>es. op_journal op' = op_journal op @ es \<and> list_all progress_entry es) \<and>
     (op_state op' = op_state op \<or> state_rank (op_state op) < state_rank (op_state op')) \<and>
     (terminal_state (op_state op) \<longrightarrow> op_state op' = op_state op \<and> op_journal op' = op_journal op)"

definition progressed :: "document \<Rightarrow> document \<Rightarrow> bool" where
  "progressed d d' \<longleftrightarrow> frame d' = frame d \<and> list_all2 advanced (d_operations d) (d_operations d')"

lemma state_rank_terminal: "terminal_state s \<longleftrightarrow> state_rank s = 4"
  by (cases s) (simp_all add: terminal_state_iff)

lemma state_rank_bound: "state_rank s \<le> 4"
  by (cases s) simp_all

lemma advanced_refl [simp]: "advanced op op"
  by (simp add: advanced_def)

lemma advanced_trans: "advanced a b \<Longrightarrow> advanced b c \<Longrightarrow> advanced a c"
  unfolding advanced_def by (elim conjE exE) (auto dest: less_trans)

lemma attempted_advanced:
  assumes "attempted c op op'" and "op_id op' = op_id op"
  shows "advanced op op'"
proof -
  from assms(1) consider "op_state op' = op_state op" "op_journal op' = op_journal op"
    | es where "transition_allowed (op_state op) (op_state op')" "op_journal op' = op_journal op @ es"
        "list_all progress_entry es"
    unfolding attempted_def by (auto simp: list_all_iff)
  then show ?thesis
  proof cases
    case 1
    then show ?thesis using assms by (simp add: advanced_def attempted_def)
  next
    case 2
    then have "\<not> terminal_state (op_state op)"
      by (cases "op_state op") (simp_all add: terminal_state_iff)
    then show ?thesis using 2 transition_rank [OF 2(1)] assms by (simp add: advanced_def attempted_def)
  qed
qed

lemma list_all2_update_first:
  assumes "\<And>x. R x x" and "\<And>x. find P xs = Some x \<Longrightarrow> R x y"
  shows "list_all2 R xs (update_first P (\<lambda>_. y) xs)"
  using assms(2)
proof (induction xs)
  case (Cons x xs)
  then show ?case using assms(1) by (auto intro: list_all2_refl)
qed simp

lemma touched_progressed:
  assumes "look_operation (ck_operation c) d = Some op" and "touched (ck_operation c) d d' op'"
    and "attempted c op op'"
  shows "progressed d d'"
proof -
  have "op_id op' = op_id op"
    using assms(1,2) ops.look_key by (auto simp: touched_def)
  from attempted_advanced [OF assms(3) this]
  have "list_all2 advanced (d_operations d) (update_first (\<lambda>x. op_id x = ck_operation c) (\<lambda>_. op') (d_operations d))"
    using assms(1) by (intro list_all2_update_first) (auto simp: look_operation_def)
  then show ?thesis using assms(2) by (simp add: progressed_def touched_def)
qed

lemma progressed_refl [simp]: "progressed d d"
  by (simp add: progressed_def list_all2_refl)

lemma progressed_trans: "progressed a b \<Longrightarrow> progressed b c \<Longrightarrow> progressed a c"
  unfolding progressed_def
  by (auto intro: list_all2_trans [OF advanced_trans])

lemma checkpointed_progressed: "checkpointed h c d d' \<Longrightarrow> progressed d d'"
  by (auto simp: checkpointed_def settled_def intro: touched_progressed)

lemma refused_progressed: "refused c d d' \<Longrightarrow> progressed d d'"
  by (auto simp: refused_def attempt_def intro: touched_progressed)

lemma checkpoint_step_progressed: "checkpoint_step h d d' \<Longrightarrow> progressed d d'"
proof (erule checkpoint_stepE)
  fix c u assume "checkpoint_validated_operation h c d = (Inr u, d')"
  then have "checkpointed h c d d'" by (rule wpX_result [OF checkpoint_wp])
  then show "progressed d d'" by (rule checkpointed_progressed)
next
  fix c e assume "checkpoint_validated_operation h c d = (Inl e, d')"
  then have "refused c d d'" by (rule wpX_exception [OF checkpoint_wp])
  then show "progressed d d'" by (rule refused_progressed)
qed

interpretation checkpoints: step_order "checkpoint_step h" progressed for h
  by unfold_locales (auto intro: progressed_trans checkpoint_step_progressed)

section \<open>What never changes\<close>

lemma advanced_json: "advanced op op' \<Longrightarrow> op_spec op' = op_spec op"
  by (simp add: advanced_def)

lemma progressed_specs: "progressed d d' \<Longrightarrow> map op_spec (d_operations d') = map op_spec (d_operations d)"
  by (auto simp: progressed_def advanced_def list_all2_conv_all_nth intro!: nth_equalityI)

lemma frame_projection:
  assumes "frame d' = frame d" and "map op_spec (d_operations d') = map op_spec (d_operations d)"
  shows "materialization_projection d' = materialization_projection d"
proof -
  have eq: "d_dispositions d' = d_dispositions d" "d_dedup d' = d_dedup d" "d_official_sources d' = d_official_sources d"
    "d_external d' = d_external d" "d_publication d' = d_publication d" "d_page_views d' = d_page_views d"
    "d_first_party d' = d_first_party d" "d_tag_policies d' = d_tag_policies d"
    "d_consent_policies d' = d_consent_policies d"
    using arg_cong [OF assms(1), of d_dispositions] arg_cong [OF assms(1), of d_dedup]
      arg_cong [OF assms(1), of d_official_sources] arg_cong [OF assms(1), of d_external]
      arg_cong [OF assms(1), of d_publication] arg_cong [OF assms(1), of d_page_views]
      arg_cong [OF assms(1), of d_first_party] arg_cong [OF assms(1), of d_tag_policies]
      arg_cong [OF assms(1), of d_consent_policies]
    by (simp_all add: frame_def)
  show ?thesis
    using frame_eqD [OF assms(1)] assms(2) by (simp add: materialization_projection_def eq)
qed

text \<open>The contract-owned sections as an invariant of the state machine.\<close>

definition materialized :: "dict \<Rightarrow> document \<Rightarrow> bool" where
  "materialized sections d \<longleftrightarrow> materialization_projection d = sections"

interpretation sections: guarded_steps "checkpoint_step h" progressed "materialized p" for h p
  by unfold_locales
    (auto simp: materialized_def progressed_def intro!: frame_projection progressed_specs)

lemma list_all2_find:
  "list_all2 R xs ys \<Longrightarrow> find P xs = Some x \<Longrightarrow> (\<And>x y. R x y \<Longrightarrow> P y = P x) \<Longrightarrow> \<exists>y. find P ys = Some y \<and> R x y"
  by (induction rule: list_all2_induct) (auto split: if_splits)

lemma progressed_look:
  assumes "progressed d d'" and "look_operation k d = Some op"
  shows "\<exists>op'. look_operation k d' = Some op' \<and> advanced op op'"
proof -
  have "list_all2 advanced (d_operations d) (d_operations d')" using assms(1) by (simp add: progressed_def)
  from list_all2_find [OF this assms(2) [unfolded look_operation_def]] show ?thesis
    unfolding look_operation_def by (simp add: advanced_def)
qed

end
