(* ===== verification/Convergence.thy ===== *)
theory Convergence
  imports StateMachine
begin

text \<open>
  The rest of \<^verbatim>\<open>runtime/state.py\<close>: the inspection that plans the next operations,
  the reopening of a failed one, the convergence observations of a second pass and the
  finalization. Each works on a deep copy that is validated before and after. Publication steps
  and the identifiers of operations close the theory.
\<close>

section \<open>Inspection\<close>

record inspection =
  in_pass :: bool
  in_fingerprint :: string
  in_mode :: run_mode
  in_status :: status
  in_ready :: "string list"
  in_waiting :: "(string \<times> string list) list"
  in_blocked :: "(string \<times> string list) list"
  in_unsafe :: "string list"
  in_results :: "target_result list"
  in_resumable :: bool

definition planned_row ::
  "(string \<times> readiness) list \<Rightarrow> operation \<Rightarrow> (string \<times> readiness) res" where
  "planned_row rows op = (case map_of rows (op_id op) of
     None \<Rightarrow> Inl (KeyError (op_id op)) | Some r \<Rightarrow> Inr (op_id op, r))"

definition unsafe_operations :: "document \<Rightarrow> string list" where
  "unsafe_operations d =
     map op_id (filter (\<lambda>op. op_state op \<in> {InProgress, Saved, Uncertain}) (d_operations d))"

definition inspect_validated_document :: "host \<Rightarrow> document \<Rightarrow> inspection res" where
  "inspect_validated_document h d =
     bindE (operation_readiness d) (\<lambda>rows.
     bindE (mapE (planned_row rows) (filter (\<lambda>op. op_state op = Planned) (d_operations d))) (\<lambda>planned.
       Inr \<lparr>in_pass = (run_status (d_run d) = Configured),
         in_fingerprint = canonical_sha256 (h_sha256 h) (document_json d),
         in_mode = run_header.run_mode (d_run d), in_status = run_status (d_run d),
         in_ready = sort (map fst (filter (\<lambda>(k, r). rd_blocked r = [] \<and> rd_waiting r = []) planned)),
         in_waiting = map (\<lambda>(k, r). (k, rd_waiting r))
           (filter (\<lambda>(k, r). rd_blocked r = [] \<and> rd_waiting r \<noteq> []) planned),
         in_blocked = map (\<lambda>(k, r). (k, rd_blocked r)) (filter (\<lambda>(k, r). rd_blocked r \<noteq> []) planned),
         in_unsafe = unsafe_operations d, in_results = d_results d,
         in_resumable = (unsafe_operations d = [])\<rparr>))"

definition inspect_document :: "host \<Rightarrow> document \<Rightarrow> inspection res" where
  "inspect_document h d = bindE (validate_document h d) (\<lambda>_. inspect_validated_document h d)"

section \<open>Reopening\<close>

definition without_evidence :: "operation \<Rightarrow> operation" where
  "without_evidence op = op\<lparr>op_comparison := None, op_saved_readback := None,
     op_pre_write_readback := None, op_pre_write_comparison := None\<rparr>"

definition planned_again :: "string \<Rightarrow> string \<Rightarrow> bool \<Rightarrow> operation \<Rightarrow> operation" where
  "planned_again time note repair op = (without_evidence op)\<lparr>op_state := Planned,
     op_journal := op_journal op @ [\<lparr>je_at = time, je_state = Planned, je_note = note,
       je_result = None, je_error = None, je_reopened = \<not> repair, je_convergence_repair = repair\<rparr>]\<rparr>"

definition reopen_failed_operation :: "host \<Rightarrow> string \<Rightarrow> string \<Rightarrow> string \<Rightarrow> document \<Rightarrow> document res" where
  "reopen_failed_operation h k note time d =
     bindE (validate_document h d) (\<lambda>_.
     bindE (find_operation d k) (\<lambda>op.
     bindE (failE (op_state op \<noteq> Failed)
       (run_error ''only a known failed operation can be reopened'')) (\<lambda>_.
     bindE (copyX (thenX
         (modifyX (\<lambda>d. update_run (\<lambda>run. run\<lparr>run_updated_at := time\<rparr>)
           ((update_operation k (planned_again time note False) d)\<lparr>d_idempotency := no_idempotency\<rparr>)))
         derive_live_status) d) (\<lambda>d'.
     bindE (validate_document h d') (\<lambda>_. Inr d')))))"

section \<open>Convergence observations\<close>

text \<open>One read of the second pass, as the engine hands it over.\<close>

record raw_observation =
  ro_operation :: string
  ro_target :: string
  ro_source :: string
  ro_identity :: identity
  ro_at :: string
  ro_saved :: json

definition parse_instant :: "host \<Rightarrow> string \<Rightarrow> string \<Rightarrow> int res" where
  "parse_instant h path s =
     (if blank s then Inl (run_error (path @ '' is required''))
      else (case h_instant h (zulu (strip s)) of
        None \<Rightarrow> Inl (run_error (path @ '' must be an ISO-8601 timestamp''))
      | Some None \<Rightarrow> Inl (run_error (path @ '' must include a timezone''))
      | Some (Some i) \<Rightarrow> Inr i))"

definition last_verification :: "host \<Rightarrow> operation \<Rightarrow> int res" where
  "last_verification h op =
     bindE (mapE (\<lambda>e. parse_instant h (''operation '' @ py_repr (op_id op) @ '' journal timestamp'') (je_at e))
       (filter (\<lambda>e. je_state e = Verified) (op_journal op))) latest"

text \<open>The identity of a target: the last with this identifier, as the comprehension builds it.\<close>

definition authorized_identity :: "document \<Rightarrow> string \<Rightarrow> identity option" where
  "authorized_identity d t =
     map_of (rev (map (\<lambda>x. (tg_id x, tg_identity x)) (run_targets (d_run d)))) t"

definition converge_step ::
  "host \<Rightarrow> document \<Rightarrow> observation list \<Rightarrow> nat \<times> raw_observation \<Rightarrow> observation list res" where
  "converge_step h d records io =
     (let ob = snd io; name = ''idempotency observation '' @ show_nat (fst io) in
      (case map_of (index_ops (d_operations d)) (ro_operation ob) of
         None \<Rightarrow> Inl (run_error (name @ '' is unknown or duplicated''))
       | Some op \<Rightarrow>
      bindE (seqE
        [failE (ro_operation ob \<in> set (map ob_operation records))
           (run_error (name @ '' is unknown or duplicated'')),
         failE (ro_target ob \<noteq> op_target op) (run_error (name @ '' target differs'')),
         failE (ro_source ob \<noteq> ''target-adapter-read'')
           (run_error (name @ '' must come from a target adapter read'')),
         bindE (parse_instant h (name @ '' observed_at'') (ro_at ob)) (\<lambda>observed.
         bindE (last_verification h op) (\<lambda>verified.
           failE (observed \<le> verified) (run_error (name @ '' must be newer than verification'')))),
         failE (authorized_identity d (op_target op) \<noteq> Some (ro_identity ob))
           (run_error (name @ '' source identity differs from its authorized target''))]) (\<lambda>_.
      bindE (build_verification_comparison h op (ro_saved ob)) (\<lambda>v.
        Inr (records @ [\<lparr>ob_operation = ro_operation ob, ob_target = op_target op,
          ob_source = ''target-adapter-read'', ob_identity = ro_identity ob, ob_at = ro_at ob,
          ob_decision = (if vr_pass v then ''no-op'' else ''mutation-required''),
          ob_saved = vr_saved v, ob_comparison = vr_json v\<rparr>])))))"

definition repair_note :: string where
  "repair_note = ''Fresh convergence readback requires the authorized operation again.''"

definition observed_time :: "observation list \<Rightarrow> string \<Rightarrow> string" where
  "observed_time records k = (case find (\<lambda>r. ob_operation r = k) records of None \<Rightarrow> [] | Some r \<Rightarrow> ob_at r)"

definition record_adapter_idempotency_observations ::
  "host \<Rightarrow> raw_observation list \<Rightarrow> document \<Rightarrow> document res" where
  "record_adapter_idempotency_observations h observations d =
     bindE (validate_document h d) (\<lambda>_.
     (let ops = index_ops (d_operations d) in
     bindE (seqE
       [failE (list_ex (\<lambda>ko. op_state (snd ko) \<noteq> Verified) ops)
          (run_error ''idempotency convergence requires every operation verified''),
        failE (length observations \<noteq> length ops)
          (run_error ''idempotency convergence requires one observation per operation'')]) (\<lambda>_.
     bindE (foldE (converge_step h d) [] (enumerate 0 observations)) (\<lambda>records.
     bindE (failE (set (map ob_operation records) \<noteq> set (keys ops))
       (run_error ''idempotency convergence did not cover every operation'')) (\<lambda>_.
     (let remaining = map ob_operation (filter (\<lambda>r. ob_decision r \<noteq> ''no-op'') records);
          d1 = d\<lparr>d_idempotency := \<lparr>id_checked = (remaining = []), id_remaining = sort remaining,
            id_observations = records\<rparr>\<rparr>;
          d2 = fold (\<lambda>k. update_operation k (planned_again (observed_time records k) repair_note True))
            remaining d1 in
     bindE (if remaining = [] then Inr d1 else copyX derive_live_status d2) (\<lambda>d'.
     bindE (validate_document h d') (\<lambda>_. Inr d'))))))))"

section \<open>Finalization\<close>

definition unresolved_mapping :: "json \<Rightarrow> string list res" where
  "unresolved_mapping row = (let r = dict_of row in
     bindE (field_text r ''status'') (\<lambda>status.
     if status \<in> {''pending'', ''blocked''} then
       bindE (field_text r ''requirement_id'') (\<lambda>req.
       bindE (field_text r ''destination_field'') (\<lambda>field. Inr [req @ ''::'' @ field]))
     else Inr []))"

definition unresolved_flow :: "string \<Rightarrow> json \<Rightarrow> string list res" where
  "unresolved_flow pipeline row = (let r = dict_of row in
     bindE (field_text r ''status'') (\<lambda>status.
     if status = ''proved'' then Inr []
     else (case dget r ''destination'' of
         Some (JObj destination) \<Rightarrow> bindE (field_text destination ''path'') (\<lambda>path.
           Inr [pipeline @ ''::'' @ path])
       | Some _ \<Rightarrow> Inl (OtherError ''destination'') | None \<Rightarrow> Inl (KeyError ''destination''))))"

definition unresolved_pipeline :: "json \<Rightarrow> string list res" where
  "unresolved_pipeline pipeline =
     bindE (field_list (dict_of pipeline) ''field_flows'') (\<lambda>rows.
     bindE (mapE (\<lambda>row. bindE (field_text (dict_of pipeline) ''pipeline_id'') (\<lambda>p. unresolved_flow p row)) rows)
       (\<lambda>xs. Inr (concat xs)))"

definition unresolved_fields :: "document \<Rightarrow> string list res" where
  "unresolved_fields d =
     bindE (mapE unresolved_mapping (d_mappings d)) (\<lambda>ms.
     bindE (mapE unresolved_pipeline (d_pipelines d)) (\<lambda>ps. Inr (concat ms @ concat ps)))"

definition configured :: "string \<Rightarrow> document \<Rightarrow> document" where
  "configured time d = d\<lparr>
     d_results := map (\<lambda>r. r\<lparr>tr_status := Configured, tr_recovery := None\<rparr>) (d_results d),
     d_requirements := map (\<lambda>r. r\<lparr>rq_status := Configured\<rparr>) (d_requirements d),
     d_run := (d_run d)\<lparr>run_phase := Complete, run_status := Configured, run_updated_at := time\<rparr>,
     d_recovery := None\<rparr>"

definition finalize_adapter_verified_document :: "host \<Rightarrow> string \<Rightarrow> document \<Rightarrow> document res" where
  "finalize_adapter_verified_document h time d =
     bindE (validate_document h d) (\<lambda>_.
     (let incomplete = map op_id (filter (\<lambda>op. op_state op \<noteq> Verified) (d_operations d));
          baselines = map bl_target (filter (\<lambda>b. \<not> bl_complete b) (d_baselines d)) in
     bindE (seqE
       [failE (incomplete \<noteq> []) (run_error
          (''cannot finalize with incomplete operations: '' @ join '', '' incomplete)),
        failE (baselines \<noteq> []) (run_error
          (''cannot finalize without complete target baselines: '' @ join '', '' baselines)),
        failE (\<not> id_checked (d_idempotency d) \<or> id_remaining (d_idempotency d) \<noteq> [])
          (run_error ''Configured requires adapter-backed identical-rerun no-op proof'')]) (\<lambda>_.
     bindE (unresolved_fields d) (\<lambda>unresolved.
     bindE (failE (unresolved \<noteq> []) (run_error
       (''cannot finalize unresolved field mappings: '' @ join '', '' unresolved))) (\<lambda>_.
     bindE (validate_document h (configured time d)) (\<lambda>_. Inr (configured time d)))))))"

section \<open>Publication steps and identifiers\<close>

fun contains :: "string \<Rightarrow> string \<Rightarrow> bool" where
  "contains [] p = (p = [])"
| "contains (c # s) p = (starts_with (c # s) p \<or> contains s p)"

definition publication_owner :: "string \<Rightarrow> string" where
  "publication_owner kind =
     (if contains kind ''recette'' \<or> contains kind ''smoke'' then ''external acceptance owner''
      else ''external deployment owner'')"

definition publication_dependencies :: "run_mode \<Rightarrow> publication_dependency list" where
  "publication_dependencies mode = map (\<lambda>(kind, previous).
     \<lparr>pd_kind = kind, pd_owner = publication_owner kind, pd_status = ''open'',
      pd_depends_on = previous, pd_blocks_saved = False\<rparr>) (predecessors (publication_order mode))"

definition upper_char :: "char \<Rightarrow> char" where
  "upper_char c = (let n = of_char c :: nat in if 97 \<le> n \<and> n \<le> 122 then char_of (n - 32) else c)"

definition operation_identifier :: "host \<Rightarrow> string \<Rightarrow> string" where
  "operation_identifier h key = ''OP-'' @ map upper_char (take 16 (h_sha256 h key))"

definition event_consumer :: "document \<Rightarrow> operation \<Rightarrow> bool" where
  "event_consumer d op = (op_family op = ''tag'' \<and> (op_container op = Server \<or>
     list_ex (\<lambda>row. jget row ''tag_object_key'' = Some (JStr (op_key op)) \<and>
       jget row ''lifecycle_role'' = Some (JStr ''event-driven'')) (d_tag_policies d)))"

section \<open>What these operations establish\<close>

lemma inspect_partition:
  assumes "inspect_validated_document h d = Inr i"
  shows "\<exists>rows. operation_readiness d = Inr rows \<and>
    (\<forall>k. k \<in> set (in_ready i) \<longleftrightarrow> (\<exists>op r. op \<in> set (d_operations d) \<and> op_id op = k \<and>
       op_state op = Planned \<and> map_of rows k = Some r \<and> rd_blocked r = [] \<and> rd_waiting r = []))"
proof -
  obtain rows planned where rows: "operation_readiness d = Inr rows"
    and planned: "mapE (planned_row rows) (filter (\<lambda>op. op_state op = Planned) (d_operations d)) = Inr planned"
    and i: "in_ready i = sort (map fst (filter (\<lambda>(k, r). rd_blocked r = [] \<and> rd_waiting r = []) planned))"
    using assms by (auto simp: inspect_validated_document_def bindE_Inr_iff)
  have row: "planned_row rows op = Inr (k, r) \<longleftrightarrow> op_id op = k \<and> map_of rows k = Some r" for op k r
    by (auto simp: planned_row_def split: option.splits)
  have mem: "(k, r) \<in> set planned \<longleftrightarrow> (\<exists>op. op \<in> set (d_operations d) \<and> op_state op = Planned \<and>
      op_id op = k \<and> map_of rows k = Some r)" for k r
  proof
    assume "(k, r) \<in> set planned"
    from mapE_member [OF planned this] show "\<exists>op. op \<in> set (d_operations d) \<and> op_state op = Planned \<and>
      op_id op = k \<and> map_of rows k = Some r" using row by auto
  next
    assume "\<exists>op. op \<in> set (d_operations d) \<and> op_state op = Planned \<and> op_id op = k \<and> map_of rows k = Some r"
    then obtain op where "op \<in> set (filter (\<lambda>op. op_state op = Planned) (d_operations d))"
      "planned_row rows op = Inr (k, r)" using row by auto
    then show "(k, r) \<in> set planned" using mapE_image [OF planned] by blast
  qed
  have ready: "k \<in> set (in_ready i) \<longleftrightarrow> (\<exists>r. (k, r) \<in> set planned \<and> rd_blocked r = [] \<and> rd_waiting r = [])" for k
    by (force simp: i)
  show ?thesis unfolding ready mem using rows by blast
qed

lemma planned_again_spec [simp]:
  "op_spec (planned_again time note repair op) = op_spec op"
  "op_id (planned_again time note repair op) = op_id op"
  "op_target (planned_again time note repair op) = op_target op"
  "op_state (planned_again time note repair op) = Planned"
  by (simp_all add: planned_again_def without_evidence_def)

lemma finalize_facts:
  assumes "finalize_adapter_verified_document h time d = Inr d'"
  shows "d' = configured time d" and "validate_document h d' = Inr ()"
    and "\<forall>op \<in> set (d_operations d'). op_state op = Verified" and "\<forall>b \<in> set (d_baselines d'). bl_complete b"
    and "id_checked (d_idempotency d')" and "unresolved_fields d' = Inr []"
proof -
  have d': "d' = configured time d" and "validate_document h (configured time d) = Inr ()"
    and "map op_id (filter (\<lambda>op. op_state op \<noteq> Verified) (d_operations d)) = []"
    and "map bl_target (filter (\<lambda>b. \<not> bl_complete b) (d_baselines d)) = []"
    and "id_checked (d_idempotency d)" and "unresolved_fields d = Inr []"
    using assms by (auto simp: finalize_adapter_verified_document_def Let_def bindE_Inr_iff checks_iff
        simp del: seqE.simps)
  then show "d' = configured time d" "validate_document h d' = Inr ()"
    "\<forall>op \<in> set (d_operations d'). op_state op = Verified" "\<forall>b \<in> set (d_baselines d'). bl_complete b"
    "id_checked (d_idempotency d')" "unresolved_fields d' = Inr []"
    by (auto simp: configured_def filter_empty_conv unresolved_fields_def)
qed

lemma publication_dependencies_valid:
  "validate_publication_dependencies (publication_dependencies mode) mode = Inr ()"
proof (cases mode)
  case WebMode
  then show ?thesis by (simp only:) code_simp
next
  case ServerMode
  then show ?thesis by (simp only:) code_simp
next
  case PipelineMode
  then show ?thesis by (simp only:) code_simp
qed

section \<open>Reopening one operation\<close>

lemma reopen_facts:
  assumes "reopen_failed_operation h k note time d = Inr d'"
  shows "\<exists>op. look_operation k d = Some op \<and> op_state op = Failed \<and>
      look_operation k d' = Some (planned_again time note False op)"
    and "d_operations d' = update_first (\<lambda>op. op_id op = k) (planned_again time note False) (d_operations d)"
    and "frame d' = frame d" and "d_idempotency d' = no_idempotency" and "validate_document h d' = Inr ()"
proof -
  define d1 where "d1 = update_run (\<lambda>run. run\<lparr>run_updated_at := time\<rparr>)
    ((update_operation k (planned_again time note False) d)\<lparr>d_idempotency := no_idempotency\<rparr>)"
  obtain op where op: "look_operation k d = Some op" "op_state op = Failed"
    and copy: "copyX (thenX (modifyX (\<lambda>_. d1)) derive_live_status) d = Inr d'"
    and valid: "validate_document h d' = Inr ()"
    using assms by (auto simp: reopen_failed_operation_def bindE_Inr_iff find_operation_Inr d1_def
        copyX_def thenX_def bindX_def modifyX_def)
  have "wpX (thenX (modifyX (\<lambda>_. d1)) derive_live_status) (\<lambda>_ t. live_frame d1 t) (\<lambda>_ _. True) d"
    unfolding wpX_thenX wpX_modifyX by (rule wpX_mono [OF derive_live_status_wp [OF live_frame_refl]]) simp_all
  then have live: "live_frame d1 d'" by (rule copyX_wp) (rule copy)
  have d1: "d_operations d1 = update_first (\<lambda>op. op_id op = k) (planned_again time note False) (d_operations d)"
    "d_idempotency d1 = no_idempotency" "frame d1 = frame d"
    by (simp_all add: d1_def update_run_def update_operation_def frame_def)
  have ops: "d_operations d' = d_operations d1" "frame d' = frame d" "d_idempotency d' = no_idempotency"
    using live d1 by (simp_all add: live_frame_def)
  have "look_operation k d' = look_operation k (update_operation k (planned_again time note False) d)"
    by (simp add: look_operation_def ops(1) d1(1) update_operation_def)
  then show "\<exists>op. look_operation k d = Some op \<and> op_state op = Failed \<and>
      look_operation k d' = Some (planned_again time note False op)"
    using op ops.look_put_same [OF _ op(1), of "planned_again time note False"] by auto
  show "d_operations d' = update_first (\<lambda>op. op_id op = k) (planned_again time note False) (d_operations d)"
    "frame d' = frame d" "d_idempotency d' = no_idempotency" "validate_document h d' = Inr ()"
    using ops d1(1) valid by simp_all
qed

section \<open>A second pass\<close>

lemma update_first_distinct:
  "distinct (map key xs) \<Longrightarrow>
   update_first (\<lambda>x. key x = k) f xs = map (\<lambda>x. if key x = k then f x else x) xs"
proof (induction xs)
  case (Cons x xs)
  have "map (\<lambda>x. if key x = k then f x else x) xs = xs" if "key x = k"
    using Cons.prems that by (intro map_idI) (auto simp: image_iff)
  then show ?case using Cons by auto
qed simp

lemma repair_fold:
  "distinct (map op_id (d_operations d)) \<Longrightarrow> distinct ks \<Longrightarrow> (\<And>k op. op_id (f k op) = op_id op) \<Longrightarrow>
   d_operations (fold (\<lambda>k. update_operation k (f k)) ks d) =
     map (\<lambda>op. if op_id op \<in> set ks then f (op_id op) op else op) (d_operations d) \<and>
   frame (fold (\<lambda>k. update_operation k (f k)) ks d) = frame d \<and>
   d_idempotency (fold (\<lambda>k. update_operation k (f k)) ks d) = d_idempotency d"
proof (induction ks arbitrary: d)
  case (Cons k ks)
  have ops: "d_operations (update_operation k (f k) d) =
      map (\<lambda>op. if op_id op = k then f k op else op) (d_operations d)"
    unfolding update_operation_def using update_first_distinct [OF Cons.prems(1)] by simp
  have ids: "map op_id (d_operations (update_operation k (f k) d)) = map op_id (d_operations d)"
    unfolding ops by (simp add: comp_def Cons.prems(3) cong: if_cong)
  have "d_operations (fold (\<lambda>k. update_operation k (f k)) ks (update_operation k (f k) d)) =
      map (\<lambda>op. if op_id op \<in> set ks then f (op_id op) op else op) (d_operations (update_operation k (f k) d)) \<and>
    frame (fold (\<lambda>k. update_operation k (f k)) ks (update_operation k (f k) d)) = frame (update_operation k (f k) d) \<and>
    d_idempotency (fold (\<lambda>k. update_operation k (f k)) ks (update_operation k (f k) d)) =
      d_idempotency (update_operation k (f k) d)"
    using Cons.prems ids by (intro Cons.IH) simp_all
  then show ?case unfolding ops using Cons.prems(2,3) by (auto simp: comp_def)
qed simp

text \<open>
  One supplied read and the observation that is kept of it: read by the adapter from the target
  of a known operation, with the authorized identity and after its verification, and judged by
  comparing the object that was just read.
\<close>

definition recorded :: "host \<Rightarrow> document \<Rightarrow> raw_observation \<Rightarrow> observation \<Rightarrow> bool" where
  "recorded h d read ob \<longleftrightarrow> (\<exists>op v observed verified.
     map_of (index_ops (d_operations d)) (ro_operation read) = Some op \<and>
     ro_target read = op_target op \<and> ro_source read = ''target-adapter-read'' \<and>
     authorized_identity d (op_target op) = Some (ro_identity read) \<and>
     parse_instant h ''observed_at'' (ro_at read) = Inr observed \<and>
     last_verification h op = Inr verified \<and> verified < observed \<and>
     build_verification_comparison h op (ro_saved read) = Inr v \<and>
     ob = \<lparr>ob_operation = ro_operation read, ob_target = op_target op, ob_source = ''target-adapter-read'',
       ob_identity = ro_identity read, ob_at = ro_at read,
       ob_decision = (if vr_pass v then ''no-op'' else ''mutation-required''),
       ob_saved = vr_saved v, ob_comparison = vr_json v\<rparr>)"

lemma parse_instant_path: "parse_instant h path s = Inr i \<Longrightarrow> parse_instant h path' s = Inr i"
  by (auto simp: parse_instant_def split: if_splits option.splits)

lemma converge_step_Inr:
  assumes "converge_step h d records io = Inr records'"
  shows "\<exists>ob. records' = records @ [ob] \<and> recorded h d (snd io) ob \<and> ob_operation ob \<notin> set (map ob_operation records)"
proof -
  obtain op where op: "map_of (index_ops (d_operations d)) (ro_operation (snd io)) = Some op"
    using assms by (cases "map_of (index_ops (d_operations d)) (ro_operation (snd io))")
      (auto simp: converge_step_def Let_def)
  obtain v observed verified where "build_verification_comparison h op (ro_saved (snd io)) = Inr v"
    "ro_operation (snd io) \<notin> set (map ob_operation records)" "ro_target (snd io) = op_target op"
    "ro_source (snd io) = ''target-adapter-read''"
    "authorized_identity d (op_target op) = Some (ro_identity (snd io))"
    and time: "parse_instant h (''idempotency observation '' @ show_nat (fst io) @ '' observed_at'') (ro_at (snd io)) =
      Inr observed" "last_verification h op = Inr verified" "verified < observed"
    and "records' = records @ [\<lparr>ob_operation = ro_operation (snd io), ob_target = op_target op,
          ob_source = ''target-adapter-read'', ob_identity = ro_identity (snd io), ob_at = ro_at (snd io),
          ob_decision = (if vr_pass v then ''no-op'' else ''mutation-required''),
          ob_saved = vr_saved v, ob_comparison = vr_json v\<rparr>]"
    using assms by (auto simp: converge_step_def Let_def op bindE_Inr_iff checks_iff simp del: seqE.simps)
  then show ?thesis using op time(2,3) parse_instant_path [OF time(1)] unfolding recorded_def by auto
qed

lemma converge_fold:
  "foldE (converge_step h d) records ios = Inr records' \<Longrightarrow>
   distinct (map ob_operation records) \<Longrightarrow> list_all2 (recorded h d) reads records \<Longrightarrow>
   distinct (map ob_operation records') \<and> list_all2 (recorded h d) (reads @ map snd ios) records'"
proof (induction ios arbitrary: records reads)
  case (Cons io ios)
  obtain r1 where step: "converge_step h d records io = Inr r1"
    and rest: "foldE (converge_step h d) r1 ios = Inr records'"
    using Cons.prems(1) by (auto simp: bindE_Inr_iff)
  obtain ob where ob: "r1 = records @ [ob]" "recorded h d (snd io) ob"
    "ob_operation ob \<notin> set (map ob_operation records)" using converge_step_Inr [OF step] by blast
  have "distinct (map ob_operation r1)" "list_all2 (recorded h d) (reads @ [snd io]) r1"
    using ob Cons.prems by (auto intro: list_all2_appendI)
  from Cons.IH [OF rest this] show ?case by simp
qed simp

lemma record_observations_facts:
  assumes "record_adapter_idempotency_observations h obs d = Inr d'"
  defines "rs \<equiv> id_observations (d_idempotency d')"
  defines "failing \<equiv> map ob_operation (filter (\<lambda>ob. ob_decision ob \<noteq> ''no-op'') rs)"
  shows "set (map ob_operation rs) = set (map op_id (d_operations d))" and "list_all2 (recorded h d) obs rs"
    and "id_checked (d_idempotency d') \<longleftrightarrow> failing = []" and "id_remaining (d_idempotency d') = sort failing"
    and "d_operations d' = map (\<lambda>op. if op_id op \<in> set failing
      then planned_again (observed_time rs (op_id op)) repair_note True op else op) (d_operations d)"
    and "frame d' = frame d" and "validate_document h d' = Inr ()" and "distinct (map ob_operation rs)"
proof -
  obtain records where valid: "validate_document h d = Inr ()"
    and fold: "foldE (converge_step h d) [] (enumerate 0 obs) = Inr records"
    and cover: "set (map ob_operation records) = set (keys (index_ops (d_operations d)))"
    and out: "(let remaining = map ob_operation (filter (\<lambda>r. ob_decision r \<noteq> ''no-op'') records);
          d1 = d\<lparr>d_idempotency := \<lparr>id_checked = (remaining = []), id_remaining = sort remaining,
            id_observations = records\<rparr>\<rparr>;
          d2 = fold (\<lambda>k. update_operation k (planned_again (observed_time records k) repair_note True))
            remaining d1 in
     bindE (if remaining = [] then Inr d1 else copyX derive_live_status d2) (\<lambda>d'.
     bindE (validate_document h d') (\<lambda>_. Inr d'))) = Inr d'"
    using assms(1) by (auto simp: record_adapter_idempotency_observations_def Let_def bindE_Inr_iff
        checks_iff simp del: seqE.simps)
  define bad where "bad = map ob_operation (filter (\<lambda>r. ob_decision r \<noteq> ''no-op'') records)"
  define i where "i = \<lparr>id_checked = (bad = []), id_remaining = sort bad, id_observations = records\<rparr>"
  define d2 where "d2 = fold (\<lambda>k. update_operation k (planned_again (observed_time records k) repair_note True))
    bad (d\<lparr>d_idempotency := i\<rparr>)"
  have facts: "distinct (map ob_operation records)" "list_all2 (recorded h d) obs records"
    using converge_fold [OF fold, of "[]"] by simp_all
  have dist: "distinct (map op_id (d_operations (d\<lparr>d_idempotency := i\<rparr>)))"
    using validate_document_operations(1) [OF valid] by simp
  have "distinct bad" unfolding bad_def using facts(1) by (rule distinct_map_filter)
  from repair_fold [OF dist this, of "\<lambda>k. planned_again (observed_time records k) repair_note True"]
  have d2: "d_operations d2 = map (\<lambda>op. if op_id op \<in> set bad
      then planned_again (observed_time records (op_id op)) repair_note True op else op) (d_operations d)"
    "frame d2 = frame d" "d_idempotency d2 = i" by (simp_all add: d2_def)
  have out': "bindE (if bad = [] then Inr (d\<lparr>d_idempotency := i\<rparr>) else copyX derive_live_status d2) (\<lambda>d'.
     bindE (validate_document h d') (\<lambda>_. Inr d')) = Inr d'"
    using out unfolding Let_def bad_def [symmetric] i_def [symmetric] d2_def [symmetric] .
  then show valid': "validate_document h d' = Inr ()" by (auto simp: bindE_Inr_iff)
  have d': "live_frame d2 d'"
  proof (cases "bad = []")
    case True
    then show ?thesis using out' by (simp add: bindE_Inr_iff d2_def)
  next
    case False
    then have "copyX derive_live_status d2 = Inr d'" using out' by (auto simp: bindE_Inr_iff)
    moreover have "wpX derive_live_status (\<lambda>_ t. live_frame d2 t) (\<lambda>_ _. True) d2"
      by (rule wpX_mono [OF derive_live_status_wp [OF live_frame_refl]]) simp_all
    ultimately show ?thesis by (rule copyX_wp [rotated])
  qed
  then have idem: "d_idempotency d' = i" using d2(3) by (simp add: live_frame_def)
  then have rs: "rs = records" by (simp add: rs_def i_def)
  have failing: "failing = bad" by (simp add: failing_def bad_def rs)
  show "set (map ob_operation rs) = set (map op_id (d_operations d))"
    using cover unfolding rs keys_index_ops .
  show "list_all2 (recorded h d) obs rs" "distinct (map ob_operation rs)" unfolding rs by (rule facts)+
  show "id_checked (d_idempotency d') \<longleftrightarrow> failing = []" unfolding failing idem by (simp add: i_def)
  show "id_remaining (d_idempotency d') = sort failing" unfolding failing idem by (simp add: i_def)
  show "d_operations d' = map (\<lambda>op. if op_id op \<in> set failing
      then planned_again (observed_time rs (op_id op)) repair_note True op else op) (d_operations d)"
    using d' d2(1) unfolding failing rs by (simp add: live_frame_def)
  show "frame d' = frame d" using d' d2(2) by (simp add: live_frame_def)
qed

end
