(* ===== verification/Baselines.thy ===== *)
theory Baselines
  imports State
begin

text \<open>
  The baselines of \<^verbatim>\<open>runtime/state.py\<close>: one redacted, fingerprinted record of what
  a target held before the first write, and its supplement when later revisions need further
  families. The resources are those an adapter listed, in one exhausted listing per family.
\<close>

section \<open>Building a baseline\<close>

definition empty_baseline :: "string \<Rightarrow> baseline" where
  "empty_baseline t = \<lparr>bl_target = t, bl_captured_at = None, bl_complete = False, bl_families = [],
     bl_counts = [], bl_identities = [], bl_resources = [], bl_changes = None, bl_evidence = None,
     bl_supplemental = [], bl_fingerprint = None\<rparr>"

definition capture_guards ::
  "host \<Rightarrow> target \<Rightarrow> (string \<times> json list) list \<Rightarrow> string \<Rightarrow> json list \<Rightarrow> capture_evidence \<Rightarrow> unit res" where
  "capture_guards h t resources captured_at changes evidence = seqE
     [failE (blank captured_at) (run_error ''baseline captured_at must be a non-empty timestamp''),
      failE (resources = []) (run_error ''baseline resources must contain at least one family''),
      failE (\<not> list_all is_dict changes)
        (run_error ''baseline workspace changes must be an array of objects''),
      (case h_schema_error h ''baselineCapture'' (evidence_json evidence) of
         None \<Rightarrow> Inr () | Some m \<Rightarrow> Inl (run_error (''baseline capture_evidence: '' @ m))),
      failE (ce_identity evidence \<noteq> tg_identity t) (run_error
        ''baseline capture_evidence.source_identity must match the authorized GTM target''),
      failE (set (keys (ce_pagination evidence)) \<noteq> set (keys resources))
        (run_error ''baseline pagination receipts must cover exactly the resources'')]"

text \<open>A list the redaction kept; anything else cannot be iterated as resources.\<close>

definition kept_list :: "json option \<Rightarrow> json list res" where
  "kept_list v = (case v of Some (JArr xs) \<Rightarrow> Inr xs | _ \<Rightarrow> Inl (OtherError ''not a list''))"

definition baseline_family ::
  "container \<Rightarrow> (string \<times> json list) list \<Rightarrow> json \<Rightarrow> string \<Rightarrow> (string \<times> json list) res" where
  "baseline_family c resources safe family =
     bindE (case validate_target_family c family of
         Inl (ResourceRegistryError m) \<Rightarrow>
           Inl (run_error (''baseline resource family is invalid: '' @ m))
       | r \<Rightarrow> r) (\<lambda>validated.
     bindE (failE (\<not> list_all is_dict (the (map_of resources family)))
       (run_error (''baseline resources.'' @ validated @ '' must be an array of objects''))) (\<lambda>_.
     bindE (kept_list (jget safe family)) (\<lambda>items. Inr (validated, items))))"

definition put_family :: "(string \<times> 'a) list \<Rightarrow> string \<times> 'a \<Rightarrow> (string \<times> 'a) list" where
  "put_family m kv = AList.update (fst kv) (snd kv) m"

definition raw_graph :: "(string \<times> json list) list \<Rightarrow> json list \<Rightarrow> json" where
  "raw_graph resources changes =
     JObj [(''resources'', resources_json resources), (''changes'', JArr changes)]"

definition assemble_baseline ::
  "host \<Rightarrow> target \<Rightarrow> string \<Rightarrow> capture_evidence \<Rightarrow> (string \<times> json list) list \<Rightarrow> json list \<Rightarrow> baseline" where
  "assemble_baseline h t captured_at evidence normalized changes =
     (let families = sort (keys normalized); items = (\<lambda>f. the (map_of normalized f)) in
      \<lparr>bl_target = tg_id t, bl_captured_at = Some (strip captured_at), bl_complete = True,
       bl_families = families, bl_counts = map (\<lambda>f. (f, length (items f))) families,
       bl_identities = map (\<lambda>f. (f, named_resources (tg_id t) f (items f))) families,
       bl_resources = normalized, bl_changes = Some changes, bl_evidence = Some evidence,
       bl_supplemental = [],
       bl_fingerprint = Some (baseline_body h normalized (Some changes) (Some evidence) [])\<rparr>)"

definition build_target_baseline ::
  "host \<Rightarrow> target \<Rightarrow> (string \<times> json list) list \<Rightarrow> string \<Rightarrow> json list \<Rightarrow> capture_evidence \<Rightarrow>
   operation list \<Rightarrow> baseline res" where
  "build_target_baseline h t resources captured_at changes evidence ops =
     bindE (capture_guards h t resources captured_at changes evidence) (\<lambda>_.
     bindE (redact_for_records h (map op_json ops) (raw_graph resources changes)) (\<lambda>safe.
     bindE (mapE (baseline_family (container_type (tg_identity t)) resources
         (get_or_null (dict_of safe) ''resources'')) (sort (keys resources))) (\<lambda>families.
     bindE (kept_list (jget safe ''changes'')) (\<lambda>safe_changes.
       Inr (assemble_baseline h t captured_at evidence (fold (\<lambda>kv m. put_family m kv) families []) safe_changes)))))"

section \<open>Recording a baseline\<close>

definition merge :: "(string \<times> 'a) list \<Rightarrow> (string \<times> 'a) list \<Rightarrow> (string \<times> 'a) list" where
  "merge m e = fold (\<lambda>kv m. put_family m kv) e m"

definition combine_baseline :: "host \<Rightarrow> baseline \<Rightarrow> baseline \<Rightarrow> string \<Rightarrow> capture_evidence \<Rightarrow> baseline" where
  "combine_baseline h current new captured_at evidence =
     (let resources = merge (bl_resources current) (bl_resources new);
          supplemental = bl_supplemental current @ [(captured_at, evidence)] in
      current\<lparr>bl_resources := resources, bl_counts := merge (bl_counts current) (bl_counts new),
        bl_identities := merge (bl_identities current) (bl_identities new),
        bl_families := sort (keys resources), bl_supplemental := supplemental, bl_complete := True,
        bl_fingerprint := Some (baseline_body h resources (bl_changes current) (bl_evidence current)
          supplemental)\<rparr>)"

definition look_baseline :: "string \<Rightarrow> document \<Rightarrow> baseline option" where
  "look_baseline t d = find (\<lambda>b. bl_target b = t) (d_baselines d)"

definition update_baseline :: "string \<Rightarrow> (baseline \<Rightarrow> baseline) \<Rightarrow> document \<Rightarrow> document" where
  "update_baseline t f d = d\<lparr>d_baselines := update_first (\<lambda>b. bl_target b = t) f (d_baselines d)\<rparr>"

definition target_operations :: "document \<Rightarrow> string \<Rightarrow> operation list" where
  "target_operations d t = filter (\<lambda>op. op_target op = t) (d_operations d)"

definition list_text :: "string list \<Rightarrow> string" where
  "list_text xs = ''['' @ join '', '' (map py_repr xs) @ '']''"

text \<open>The families a capture may and must cover, before anything is built.\<close>

definition scope_guards ::
  "document \<Rightarrow> target \<Rightarrow> baseline \<Rightarrow> (string \<times> json list) list \<Rightarrow> unit res" where
  "scope_guards d t current resources =
     (let c = container_type (tg_identity t);
          required = required_baseline_families (target_operations d (tg_id t)) c in seqE
      [(if bl_evidence current \<noteq> None then
          failE (set (keys resources) \<noteq> set required - set (bl_families current))
            (RunConflictError ''Supplemental capture proves exactly the newly required resource families'')
        else seqE
          [failE (\<not> list_all (\<lambda>f. f \<in> set (keys resources)) required)
             (run_error (''baseline misses planned resource families: '' @
               list_text (sort (filter (\<lambda>f. f \<notin> set (keys resources)) required)))),
           failE (list_ex (\<lambda>op. op_state op \<noteq> Planned \<or> op_journal op \<noteq> [])
               (target_operations d (tg_id t)))
             (RunConflictError ''Initial target baseline precedes the first dispatched operation'')]),
       failE (run_execution_mode (d_run d) = RefonteDurable \<and>
           set (keys resources) \<union> set (bl_families current) \<noteq> set (target_families c))
         (run_error ''refonte baseline exhausts the complete target resource surface'')])"

definition record_target_baseline ::
  "host \<Rightarrow> string \<Rightarrow> (string \<times> json list) list \<Rightarrow> string \<Rightarrow> json list \<Rightarrow> capture_evidence \<Rightarrow>
   document \<Rightarrow> document res" where
  "record_target_baseline h target_id resources captured_at changes evidence d =
     bindE (validate_document h d) (\<lambda>_.
     bindE (case find (\<lambda>t. tg_id t = target_id) (run_targets (d_run d)) of
         None \<Rightarrow> Inl (run_error (''unknown target_id '' @ py_repr target_id)) | Some t \<Rightarrow> Inr t) (\<lambda>t.
     bindE (case look_baseline target_id d of
         None \<Rightarrow> Inl (OtherError ''StopIteration'') | Some b \<Rightarrow> Inr b) (\<lambda>current.
     bindE (scope_guards d t current resources) (\<lambda>_.
     bindE (build_target_baseline h t resources captured_at changes evidence
         (target_operations d target_id)) (\<lambda>built.
     (let baseline = (if bl_evidence current \<noteq> None
            then combine_baseline h current built captured_at evidence else built);
          d' = update_run (\<lambda>run. run\<lparr>run_updated_at := strip captured_at\<rparr>)
            (update_baseline target_id (\<lambda>_. baseline) d) in
      bindE (validate_document h d') (\<lambda>_. Inr d')))))))"

section \<open>What is recorded\<close>

lemma merge_map_of: "map_of (merge m e) k = (case map_of (rev e) k of None \<Rightarrow> map_of m k | Some v \<Rightarrow> Some v)"
proof (induction e arbitrary: m)
  case (Cons kv e)
  have "map_of (merge m (kv # e)) k = map_of (merge (put_family m kv) e) k" by (simp add: merge_def)
  then show ?case
    by (auto simp: Cons.IH put_family_def update_conv' map_add_def split: option.split)
qed (simp add: merge_def)

lemma update_keys_set: "set (keys (AList.update k v m)) = insert k (set (keys m))"
  unfolding update_keys by (simp add: insert_absorb)

lemma merge_keys: "set (keys (merge m e)) = set (keys m) \<union> set (keys e)"
proof (induction e arbitrary: m)
  case (Cons kv e)
  have "merge m (kv # e) = merge (put_family m kv) e" by (simp add: merge_def)
  then show ?case by (simp only: Cons.IH put_family_def update_keys_set) auto
qed (simp add: merge_def)

lemma baseline_family_Inr:
  assumes "baseline_family c resources safe f = Inr (g, items)"
  shows "validate_target_family c f = Inr g" and "jget safe f = Some (JArr items)"
  using assms by (auto simp: baseline_family_def bindE_Inr_iff kept_list_def
      split: sum.splits exn.splits option.splits json.splits)

text \<open>A recorded baseline is complete and bound to the authorized target.\<close>

lemma build_target_baseline_facts:
  assumes "build_target_baseline h t resources captured_at changes evidence ops = Inr b"
  shows "bl_complete b" and "bl_target b = tg_id t" and "bl_evidence b = Some evidence"
    and "ce_identity evidence = tg_identity t"
    and "set (keys (bl_resources b)) = set (bl_families b)"
    and "bl_fingerprint b = Some (baseline_body h (bl_resources b) (bl_changes b) (Some evidence) [])"
    and "set (bl_families b) \<subseteq> set (target_families (container_type (tg_identity t)))"
proof -
  obtain safe families safe_changes where
      guards: "capture_guards h t resources captured_at changes evidence = Inr ()"
    and fam: "mapE (baseline_family (container_type (tg_identity t)) resources
         (get_or_null (dict_of safe) ''resources'')) (sort (keys resources)) = Inr families"
    and b: "b = assemble_baseline h t captured_at evidence (merge [] families) safe_changes"
    using assms by (auto simp: build_target_baseline_def bindE_Inr_iff merge_def)
  show "bl_complete b" "bl_target b = tg_id t" "bl_evidence b = Some evidence"
    "set (keys (bl_resources b)) = set (bl_families b)"
    "bl_fingerprint b = Some (baseline_body h (bl_resources b) (bl_changes b) (Some evidence) [])"
    by (simp_all add: b assemble_baseline_def Let_def)
  show "ce_identity evidence = tg_identity t"
    using guards by (simp add: capture_guards_def checks_iff del: seqE.simps)
  have "set (keys families) \<subseteq> set (target_families (container_type (tg_identity t)))"
  proof
    fix g assume "g \<in> set (keys families)"
    then obtain items where "(g, items) \<in> set families" by auto
    then obtain f where "baseline_family (container_type (tg_identity t)) resources
         (get_or_null (dict_of safe) ''resources'') f = Inr (g, items)"
      using mapE_member [OF fam] by blast
    from baseline_family_Inr(1) [OF this] show "g \<in> set (target_families (container_type (tg_identity t)))"
      by (auto simp: validate_target_family_def bindE_Inr_iff split: if_splits)
  qed
  then show "set (bl_families b) \<subseteq> set (target_families (container_type (tg_identity t)))"
    using merge_keys [of "[]" families] by (simp add: b assemble_baseline_def Let_def)
qed

lemma record_target_baseline_operations:
  "record_target_baseline h t resources captured_at changes evidence d = Inr d' \<Longrightarrow> d_operations d' = d_operations d"
  by (auto simp: record_target_baseline_def bindE_Inr_iff Let_def update_run_def update_baseline_def)

text \<open>What the first capture retained stays: a supplement adds families and a receipt.\<close>

lemma combine_baseline_keeps:
  assumes "set (keys (bl_resources new)) \<inter> set (keys (bl_resources current)) = {}"
    and "map_of (bl_resources current) f = Some items"
  shows "map_of (bl_resources (combine_baseline h current new time e)) f = Some items"
proof -
  have "f \<in> set (keys (bl_resources current))" using assms(2) map_of_in_keys by metis
  then have "f \<notin> set (keys (rev (bl_resources new)))" using assms(1) by auto
  then have "map_of (rev (bl_resources new)) f = None" by (simp add: map_of_eq_None_iff)
  then show ?thesis using assms(2) by (simp add: combine_baseline_def Let_def merge_map_of)
qed

end
