(* ===== verification/Lifecycle.thy ===== *)
theory Lifecycle
  imports Convergence Baselines
begin

text \<open>
  The life of an operation between two revisions of its contract. Besides checkpoints, the
  runtime changes the document of a run by recording a baseline, reopening a failed operation,
  recording the observations of a second pass, and finalizing. Only reopening and the second
  pass put an operation back, and each leaves a marked journal entry where it does so.
\<close>

section \<open>Steps of a run\<close>

inductive run_step :: "host \<Rightarrow> document \<Rightarrow> document \<Rightarrow> bool" for h where
  checkpoint: "checkpoint_step h d d' \<Longrightarrow> run_step h d d'"
| baseline: "record_target_baseline h target resources captured_at changes evidence d = Inr d' \<Longrightarrow> run_step h d d'"
| reopening: "reopen_failed_operation h k note time d = Inr d' \<Longrightarrow> run_step h d d'"
| second_pass: "record_adapter_idempotency_observations h obs d = Inr d' \<Longrightarrow> run_step h d d'"
| finalization: "finalize_adapter_verified_document h time d = Inr d' \<Longrightarrow> run_step h d d'"

inductive_cases run_stepE: "run_step h d d'"

section \<open>How one operation may move\<close>

text \<open>
  The new entries that leave an operation of this state: none, or first the marked one that
  reopens it; a skipped operation has none.
\<close>

definition reactivated :: "op_state \<Rightarrow> op_state \<Rightarrow> journal_entry list \<Rightarrow> bool" where
  "reactivated s s' es \<longleftrightarrow> (case s of
     Failed \<Rightarrow> es = [] \<and> s' = Failed \<or> es \<noteq> [] \<and> je_reopened (hd es)
   | Verified \<Rightarrow> es = [] \<and> s' = Verified \<or> es \<noteq> [] \<and> je_convergence_repair (hd es)
   | Skipped \<Rightarrow> es = [] \<and> s' = Skipped
   | _ \<Rightarrow> True)"

definition moved :: "operation \<Rightarrow> operation \<Rightarrow> bool" where
  "moved op op' \<longleftrightarrow> op_id op' = op_id op \<and> op_spec op' = op_spec op \<and>
     (\<exists>es. op_journal op' = op_journal op @ es \<and>
       reactivated (op_state op) (op_state op') es \<and>
       (\<forall>e \<in> set es. progress_entry e \<or> je_state e = Planned) \<and>
       (list_all progress_entry es \<longrightarrow> op_state op' = op_state op \<or> state_rank (op_state op) < state_rank (op_state op')))"

definition lived :: "document \<Rightarrow> document \<Rightarrow> bool" where
  "lived d d' \<longleftrightarrow> list_all2 moved (d_operations d) (d_operations d')"

lemma reactivated_refl [simp]: "reactivated s s []"
  by (cases s) (simp_all add: reactivated_def)

lemma reactivated_append:
  "reactivated s t es \<Longrightarrow> reactivated t u fs \<Longrightarrow> reactivated s u (es @ fs)"
  by (cases es; cases s) (auto simp: reactivated_def)

lemma moved_refl [simp]: "moved op op"
  by (simp add: moved_def)

lemma moved_trans:
  assumes "moved a b" and "moved b c"
  shows "moved a c"
proof -
  from assms obtain es fs where es: "op_journal b = op_journal a @ es" "reactivated (op_state a) (op_state b) es"
      "\<forall>e \<in> set es. progress_entry e \<or> je_state e = Planned"
      "list_all progress_entry es \<longrightarrow> op_state b = op_state a \<or> state_rank (op_state a) < state_rank (op_state b)"
    and fs: "op_journal c = op_journal b @ fs" "reactivated (op_state b) (op_state c) fs"
      "\<forall>e \<in> set fs. progress_entry e \<or> je_state e = Planned"
      "list_all progress_entry fs \<longrightarrow> op_state c = op_state b \<or> state_rank (op_state b) < state_rank (op_state c)"
    unfolding moved_def by blast
  have "op_journal c = op_journal a @ (es @ fs)" using es(1) fs(1) by simp
  moreover have "reactivated (op_state a) (op_state c) (es @ fs)" by (rule reactivated_append [OF es(2) fs(2)])
  moreover have "\<forall>e \<in> set (es @ fs). progress_entry e \<or> je_state e = Planned" using es(3) fs(3) by auto
  moreover have "list_all progress_entry (es @ fs) \<longrightarrow>
      op_state c = op_state a \<or> state_rank (op_state a) < state_rank (op_state c)"
    using es(4) fs(4) by auto
  moreover have "op_id c = op_id a" "op_spec c = op_spec a" using assms by (simp_all add: moved_def)
  ultimately show ?thesis unfolding moved_def by blast
qed

lemma advanced_moved: "advanced op op' \<Longrightarrow> moved op op'"
proof -
  assume a: "advanced op op'"
  then obtain es where es: "op_journal op' = op_journal op @ es" "list_all progress_entry es"
    unfolding advanced_def by blast
  have "reactivated (op_state op) (op_state op') es"
    using a es(1) by (cases "op_state op") (auto simp: reactivated_def advanced_def terminal_state_iff)
  then show ?thesis using a es by (auto simp: moved_def advanced_def list_all_iff)
qed

lemma planned_again_moved:
  assumes "op_state op = (if repair then Verified else Failed)"
  shows "moved op (planned_again time note repair op)"
proof -
  obtain e where e: "op_journal (planned_again time note repair op) = op_journal op @ [e]"
    "je_state e = Planned" "je_reopened e = (\<not> repair)" "je_convergence_repair e = repair"
    by (simp add: planned_again_def without_evidence_def)
  have "reactivated (op_state op) Planned [e]" using assms e by (cases repair) (simp_all add: reactivated_def)
  then show ?thesis using e by (simp add: moved_def progress_entry_def)
qed

section \<open>Every step\<close>

lemma lived_refl: "d_operations d' = d_operations d \<Longrightarrow> lived d d'"
  by (simp add: lived_def list_all2_refl)

lemma reopen_lived:
  assumes "reopen_failed_operation h k note time d = Inr d'"
  shows "lived d d'"
proof -
  obtain op where op: "look_operation k d = Some op" "op_state op = Failed"
    using reopen_facts(1) [OF assms] by blast
  have "moved op (planned_again time note False op)" by (rule planned_again_moved) (simp add: op(2))
  then have "list_all2 moved xs (update_first (\<lambda>op. op_id op = k) (planned_again time note False) xs)"
    if "find (\<lambda>op. op_id op = k) xs = Some op" for xs
    using that by (induction xs) (auto intro: list_all2_refl split: if_splits)
  from this [OF op(1) [unfolded look_operation_def]] show ?thesis by (simp add: lived_def reopen_facts(2) [OF assms])
qed

lemma second_pass_verified:
  assumes "record_adapter_idempotency_observations h obs d = Inr d'" and "op \<in> set (d_operations d)"
  shows "op_state op = Verified"
proof -
  have "validate_document h d = Inr ()"
    and all: "\<not> list_ex (\<lambda>ko. op_state (snd ko) \<noteq> Verified) (index_ops (d_operations d))"
    using assms(1) by (auto simp: record_adapter_idempotency_observations_def Let_def bindE_Inr_iff
        checks_iff simp del: seqE.simps)
  then have "map_of (index_ops (d_operations d)) (op_id op) = Some op"
    using index_ops_member [OF _ assms(2)] validate_document_operations(1) by blast
  then have "(op_id op, op) \<in> set (index_ops (d_operations d))" by (rule map_of_SomeD)
  then show ?thesis using all by (auto simp: list_ex_iff)
qed

lemma second_pass_lived:
  assumes "record_adapter_idempotency_observations h obs d = Inr d'"
  shows "lived d d'"
proof -
  have "moved op (planned_again time repair_note True op)" if "op \<in> set (d_operations d)" for op time
    by (rule planned_again_moved) (simp add: second_pass_verified [OF assms that])
  then show ?thesis
    unfolding lived_def record_observations_facts(5) [OF assms] list_all2_map2
    by (auto simp: list_all2_conv_all_nth)
qed

lemma run_step_lived: "run_step h d d' \<Longrightarrow> lived d d'"
proof (erule run_stepE)
  assume "checkpoint_step h d d'"
  then have "list_all2 advanced (d_operations d) (d_operations d')"
    using checkpoint_step_progressed by (simp add: progressed_def)
  then show "lived d d'" unfolding lived_def by (rule list_all2_mono) (rule advanced_moved)
next
  fix target resources captured_at changes evidence
  assume "record_target_baseline h target resources captured_at changes evidence d = Inr d'"
  then show "lived d d'" by (intro lived_refl record_target_baseline_operations)
next
  fix time assume "finalize_adapter_verified_document h time d = Inr d'"
  from finalize_facts(1) [OF this] show "lived d d'" by (intro lived_refl) (simp add: configured_def)
qed (blast intro: reopen_lived second_pass_lived)+

lemma lived_trans: "lived a b \<Longrightarrow> lived b c \<Longrightarrow> lived a c"
  unfolding lived_def by (rule list_all2_trans [OF moved_trans])

interpretation life: step_order "run_step h" lived for h
  by unfold_locales (auto intro: lived_refl lived_trans run_step_lived)

lemma lived_look:
  assumes "lived d d'" and "look_operation k d = Some op"
  shows "\<exists>op'. look_operation k d' = Some op' \<and> moved op op'"
  using list_all2_find [OF assms(1) [unfolded lived_def] assms(2) [unfolded look_operation_def]]
  unfolding look_operation_def by (simp add: moved_def)

end
