(* ===== verification/AdapterProtocol.thy ===== *)
theory AdapterProtocol
  imports StateExn JsonValues Model
begin

text \<open>
  \<^verbatim>\<open>runtime/adapter_protocol.py\<close>: the bounded retry of a rate-limited call, and the
  exhaustion of a paginated listing with the receipt that proves it. The adapter is external:
  \<open>fetch\<close> and \<open>sleep\<close> are arguments, programs over the adapter's own state, of
  which nothing is assumed. Delays are exact rationals. The file lock and the atomic write are
  input and output and are not modelled.
\<close>

section \<open>Retries\<close>

definition retry_delay :: "rat option \<Rightarrow> rat \<Rightarrow> rat option" where
  "retry_delay retry_after max_delay =
     (case retry_after of
        Some d \<Rightarrow> if d \<le> max_delay then Some d else None
      | None \<Rightarrow> if 100 \<le> max_delay then Some 100 else None)"

text \<open>
  The loop of \<open>collect_paginated_with_receipt\<close> around one page, and
  \<open>_call_with_rate_limit\<close>: a call that is retried at most \<open>n\<close> times, only after a
  rate-limit response and only when its delay is permitted.
\<close>

fun with_retries ::
  "nat \<Rightarrow> rat \<Rightarrow> (rat \<Rightarrow> ('w, unit) prog) \<Rightarrow> ('w, 'a) prog \<Rightarrow> ('w, 'a) prog" where
  "with_retries 0 max_delay sleep call = call"
| "with_retries (Suc n) max_delay sleep call = catchX call (\<lambda>e.
     (case e of
        RateLimitError m retry_after \<Rightarrow>
          (case retry_delay retry_after max_delay of
             None \<Rightarrow> raiseX e
           | Some d \<Rightarrow> thenX (sleep d) (with_retries n max_delay sleep call))
      | _ \<Rightarrow> raiseX e))"

text \<open>\<open>min(max_rate_limit_retries, 2)\<close>.\<close>

definition retry_limit :: "int \<Rightarrow> nat" where
  "retry_limit max_retries = nat (min max_retries 2)"

section \<open>Paginated listings\<close>

definition adapter_error :: "string \<Rightarrow> exn" where
  "adapter_error m = AdapterExecutionError m ''adapter_error''"

definition page_items :: "json \<Rightarrow> json list res" where
  "page_items page =
     (case jget page ''items'' of
        Some (JArr xs) \<Rightarrow>
          (case find (\<lambda>ix. \<not> is_dict (snd ix)) (enumerate 0 xs) of
             None \<Rightarrow> Inr xs
           | Some (i, _) \<Rightarrow> Inl (adapter_error
               (''adapter page item '' @ show_nat i @ '' must be an object'')))
      | _ \<Rightarrow> Inl (adapter_error ''adapter page must contain an items array''))"

definition page_cursor :: "json \<Rightarrow> string option res" where
  "page_cursor page =
     (case get_or_null (dict_of page) ''next_cursor'' of
        JNull \<Rightarrow> Inr None
      | JStr c \<Rightarrow> if c = [] then Inl (adapter_error ''next_cursor must be a non-empty string or null'')
          else Inr (Some c)
      | _ \<Rightarrow> Inl (adapter_error ''next_cursor must be a non-empty string or null''))"

text \<open>One page: its items, and the next cursor, which must be a new one.\<close>

definition read_page :: "string list \<Rightarrow> json \<Rightarrow> (json list \<times> string option) res" where
  "read_page seen page =
     bindE (page_items page) (\<lambda>xs.
     bindE (page_cursor page) (\<lambda>next.
       (case next of
          Some c \<Rightarrow> if c \<in> set seen
            then Inl (adapter_error (''pagination cursor loop at '' @ py_repr c))
            else Inr (xs, Some c)
        | None \<Rightarrow> Inr (xs, None))))"

record page_options =
  po_max_pages :: int
  po_retries :: int
  po_max_delay :: rat

text \<open>The defaults of the keyword arguments.\<close>

definition default_pages :: page_options where
  "default_pages = \<lparr>po_max_pages = 1000, po_retries = 2, po_max_delay = 100\<rparr>"

text \<open>The pages still permitted, the cursors seen, the items and the pages read so far.\<close>

fun collect_pages ::
  "page_options \<Rightarrow> (rat \<Rightarrow> ('w, unit) prog) \<Rightarrow> (string option \<Rightarrow> ('w, json) prog) \<Rightarrow>
   nat \<Rightarrow> string option \<Rightarrow> string list \<Rightarrow> json list \<Rightarrow> nat \<Rightarrow> ('w, json list \<times> receipt) prog" where
  "collect_pages opts sleep fetch 0 cursor seen items read =
     raiseX (adapter_error (''pagination exceeded the '' @ show_int (po_max_pages opts) @
       ''-page safety limit''))"
| "collect_pages opts sleep fetch (Suc n) cursor seen items read =
     bindX (with_retries (retry_limit (po_retries opts)) (po_max_delay opts) sleep (fetch cursor)) (\<lambda>page.
     bindX (liftX (read_page seen page)) (\<lambda>(xs, next).
       (case next of
          None \<Rightarrow> returnX (items @ xs, \<lparr>pages_read = Suc read, exhausted = True\<rparr>)
        | Some c \<Rightarrow> collect_pages opts sleep fetch n (Some c) (c # seen) (items @ xs) (Suc read))))"

definition collect_paginated_with_receipt ::
  "page_options \<Rightarrow> (rat \<Rightarrow> ('w, unit) prog) \<Rightarrow> (string option \<Rightarrow> ('w, json) prog) \<Rightarrow>
   ('w, json list \<times> receipt) prog" where
  "collect_paginated_with_receipt opts sleep fetch =
     thenX (checkX (po_max_pages opts < 1 \<or> po_retries opts < 0 \<or> po_max_delay opts < 0)
       (ValueError ''page/retry limits and retry delays must be non-negative''))
     (collect_pages opts sleep fetch (nat (po_max_pages opts)) None [] [] 0)"

definition collect_paginated ::
  "page_options \<Rightarrow> (rat \<Rightarrow> ('w, unit) prog) \<Rightarrow> (string option \<Rightarrow> ('w, json) prog) \<Rightarrow>
   ('w, json list) prog" where
  "collect_paginated opts sleep fetch =
     bindX (collect_paginated_with_receipt opts sleep fetch) (\<lambda>(items, _). returnX items)"

definition collect_resource_baseline ::
  "page_options \<Rightarrow> (rat \<Rightarrow> ('w, unit) prog) \<Rightarrow> (string \<Rightarrow> string option \<Rightarrow> ('w, json) prog) \<Rightarrow>
   string list \<Rightarrow> ('w, (string \<times> json list) list) prog" where
  "collect_resource_baseline opts sleep fetch families =
     thenX (case find (\<lambda>ix. blank (snd ix)) (enumerate 0 families) of
         None \<Rightarrow> returnX ()
       | Some (i, _) \<Rightarrow> raiseX (ValueError
           (''resource_families['' @ show_nat i @ ''] must be a non-empty string'')))
     (let normalized = map strip families in
      thenX (checkX (normalized = [] \<or> \<not> distinct normalized)
         (ValueError ''resource_families must be non-empty and unique''))
      (mapX (\<lambda>family. bindX (collect_paginated opts sleep (fetch family))
         (\<lambda>items. returnX (family, items))) normalized))"

section \<open>Bounds\<close>

lemma retry_delay_bound: "retry_delay r m = Some d \<Longrightarrow> d \<le> m"
  by (auto simp: retry_delay_def split: option.splits if_splits)

text \<open>Calls counted in a second component of the state.\<close>

definition counted :: "('w, 'a) prog \<Rightarrow> ('w \<times> nat, 'a) prog" where
  "counted m = (\<lambda>(w, n). case m w of (r, w') \<Rightarrow> (r, (w', Suc n)))"

definition uncounted :: "('w, 'a) prog \<Rightarrow> ('w \<times> nat, 'a) prog" where
  "uncounted m = (\<lambda>(w, n). case m w of (r, w') \<Rightarrow> (r, (w', n)))"

lemma wpX_counted: "wpX (counted m) Q E (w, n) =
    wpX m (\<lambda>a w'. Q a (w', Suc n)) (\<lambda>e w'. E e (w', Suc n)) w"
  by (simp add: wpX_def counted_def split: prod.split sum.split)

lemma wpX_uncounted: "wpX (uncounted m) Q E (w, n) =
    wpX m (\<lambda>a w'. Q a (w', n)) (\<lambda>e w'. E e (w', n)) w"
  by (simp add: wpX_def uncounted_def split: prod.split sum.split)

definition rate_limit_of :: "exn \<Rightarrow> rat option option" where
  "rate_limit_of e = (case e of RateLimitError _ r \<Rightarrow> Some r | _ \<Rightarrow> None)"

lemma wpX_with_retries_Suc: "wpX (with_retries (Suc n) d sleep call) Q E =
    wpX call Q (\<lambda>e. case rate_limit_of e of None \<Rightarrow> E e
      | Some r \<Rightarrow> (case retry_delay r d of None \<Rightarrow> E e
          | Some x \<Rightarrow> wpX (sleep x) (\<lambda>_. wpX (with_retries n d sleep call) Q E) E))"
proof -
  have "wpX (case e of
        RateLimitError m retry_after \<Rightarrow>
          (case retry_delay retry_after d of
             None \<Rightarrow> raiseX e
           | Some x \<Rightarrow> thenX (sleep x) (with_retries n d sleep call))
      | _ \<Rightarrow> raiseX e) Q E = (case rate_limit_of e of None \<Rightarrow> E e
      | Some r \<Rightarrow> (case retry_delay r d of None \<Rightarrow> E e
          | Some x \<Rightarrow> wpX (sleep x) (\<lambda>_. wpX (with_retries n d sleep call) Q E) E))" for e
    by (cases e) (simp_all add: rate_limit_of_def split: option.split)
  then show ?thesis by simp
qed

declare with_retries.simps(2) [simp del]

text \<open>\<open>I k\<close> is the invariant when \<open>k\<close> calls were made.\<close>

lemma wpX_with_retries:
  assumes call: "\<And>k s. I k s \<Longrightarrow> k \<le> N \<Longrightarrow>
      wpX call Q (\<lambda>e t. E e t \<and> (rate_limit_of e \<noteq> None \<longrightarrow> I (Suc k) t)) s"
    and sleep: "\<And>k d s. I k s \<Longrightarrow> k \<le> N \<Longrightarrow> wpX (sleep d) (\<lambda>_. I k) E s"
  shows "I k s \<Longrightarrow> k + n \<le> N \<Longrightarrow> wpX (with_retries n m sleep call) Q E s"
proof (induction n arbitrary: k s)
  case 0
  show ?case unfolding with_retries.simps(1) by (rule wpX_mono [OF call [OF 0(1)]]) (use 0(2) in auto)
next
  case (Suc n)
  have again: "wpX (sleep x) (\<lambda>_. wpX (with_retries n m sleep call) Q E) E t" if "I (Suc k) t" for x t
  proof (rule wpX_mono [OF sleep [OF that]])
    show "wpX (with_retries n m sleep call) Q E u" if "I (Suc k) u" for u
      by (rule Suc.IH [OF that]) (use Suc.prems(2) in simp)
  qed (use Suc.prems(2) in simp_all)
  have kN: "k \<le> N" using Suc.prems(2) by simp
  show ?case
    unfolding wpX_with_retries_Suc
    by (rule wpX_mono [OF call [OF Suc.prems(1) kN]]) (auto simp: again split: option.split)
qed

lemma wpX_with_retries_inv:
  assumes "\<And>s. I s \<Longrightarrow> wpX call Q (\<lambda>e t. E e t \<and> I t) s"
    and "\<And>d s. I s \<Longrightarrow> wpX (sleep d) (\<lambda>_. I) E s" and "I s"
  shows "wpX (with_retries n m sleep call) Q E s"
proof (rule wpX_with_retries [of "\<lambda>_. I" n])
  show "wpX call Q (\<lambda>e t. E e t \<and> (rate_limit_of e \<noteq> None \<longrightarrow> I t)) s" if "I s" for s
    by (rule wpX_mono [OF assms(1) [OF that]]) auto
qed (use assms in auto)

lemma wpX_any: "(\<And>a t. Q a t) \<Longrightarrow> (\<And>e t. E e t) \<Longrightarrow> wpX m Q E s"
  by (simp add: wpX_def split: prod.split sum.split)

text \<open>A call with \<open>n\<close> retries is made at most \<open>n + 1\<close> times.\<close>

lemma wpX_counted_any:
  "(\<And>a w'. Q a (w', Suc (snd u))) \<Longrightarrow> (\<And>e w'. E e (w', Suc (snd u))) \<Longrightarrow> wpX (counted m) Q E u"
  by (cases u) (simp add: wpX_counted wpX_any)

lemma wpX_uncounted_any:
  "(\<And>a w'. Q a (w', snd u)) \<Longrightarrow> (\<And>e w'. E e (w', snd u)) \<Longrightarrow> wpX (uncounted m) Q E u"
  by (cases u) (simp add: wpX_uncounted wpX_any)

lemma retries_bound:
  assumes "snd s + n < b"
  shows "wpX (with_retries n d (\<lambda>x. uncounted (sleep x)) (counted call))
     (\<lambda>_ t. snd t \<le> b) (\<lambda>_ t. snd t \<le> b) s"
proof (rule wpX_with_retries [where I = "\<lambda>k t. snd t = snd s + k" and N = n and k = 0])
  show "wpX (counted call) (\<lambda>_ t. snd t \<le> b)
      (\<lambda>e t. snd t \<le> b \<and> (rate_limit_of e \<noteq> None \<longrightarrow> snd t = snd s + Suc k)) u"
    if "snd u = snd s + k" "k \<le> n" for k u
    by (rule wpX_counted_any) (use that assms in auto)
  show "wpX (uncounted (sleep x)) (\<lambda>_ t. snd t = snd s + k) (\<lambda>_ t. snd t \<le> b) u"
    if "snd u = snd s + k" "k \<le> n" for k x u
    by (rule wpX_uncounted_any) (use that assms in auto)
qed simp_all

lemma collect_bound:
  fixes s :: "'w \<times> nat"
  assumes "snd s + n * Suc (retry_limit (po_retries opts)) \<le> b"
  shows "wpX (collect_pages opts (\<lambda>x. uncounted (sleep x)) (\<lambda>c. counted (fetch c)) n c seen items read)
     (\<lambda>_ t. snd t \<le> b) (\<lambda>_ t. snd t \<le> b) s"
  using assms
proof (induction n arbitrary: s c seen items read)
  case (Suc n)
  let ?r = "retry_limit (po_retries opts)"
  have call: "wpX (with_retries ?r (po_max_delay opts) (\<lambda>x. uncounted (sleep x)) (counted (fetch c)))
      (\<lambda>_ t. snd t \<le> snd s + Suc ?r) (\<lambda>_ t. snd t \<le> snd s + Suc ?r) s"
    by (rule retries_bound) simp
  show ?case
    by (simp, rule wpX_mono [OF call])
      (use Suc in \<open>auto split: sum.split option.split intro!: Suc.IH\<close>)
qed simp

section \<open>A receipt proves exhaustion\<close>

text \<open>
  The log of the pages an adapter served, each with the cursor of its request, is a complete
  listing: every request carries the cursor the page before named, and the last page names none.
\<close>

inductive listing :: "string option \<Rightarrow> (string option \<times> json) list \<Rightarrow> json list \<Rightarrow> bool" where
  last_page: "page_items p = Inr xs \<Longrightarrow> page_cursor p = Inr None \<Longrightarrow> listing c [(c, p)] xs"
| next_page: "page_items p = Inr xs \<Longrightarrow> page_cursor p = Inr (Some c') \<Longrightarrow> listing (Some c') served ys \<Longrightarrow>
    listing c ((c, p) # served) (xs @ ys)"

inductive_cases listing_NilE: "listing c [] items"
inductive_simps listing_Cons: "listing c (e # served) items"

definition logged ::
  "(string option \<Rightarrow> ('w, json) prog) \<Rightarrow> string option \<Rightarrow>
   ('w \<times> (string option \<times> json) list, json) prog" where
  "logged fetch c = (\<lambda>(w, l). case fetch c w of
     (Inl e, w') \<Rightarrow> (Inl e, (w', l)) | (Inr p, w') \<Rightarrow> (Inr p, (w', l @ [(c, p)])))"

definition unlogged :: "('w, 'a) prog \<Rightarrow> ('w \<times> (string option \<times> json) list, 'a) prog" where
  "unlogged m = (\<lambda>(w, l). case m w of (r, w') \<Rightarrow> (r, (w', l)))"

lemma wpX_logged: "(\<And>p w'. Q p (w', snd u @ [(c, p)])) \<Longrightarrow> (\<And>e w'. E e (w', snd u)) \<Longrightarrow>
    wpX (logged fetch c) Q E u"
  by (cases u) (simp add: wpX_def logged_def split: prod.split sum.split)

lemma wpX_unlogged: "(\<And>p w'. Q p (w', snd u)) \<Longrightarrow> (\<And>e w'. E e (w', snd u)) \<Longrightarrow> wpX (unlogged m) Q E u"
  by (cases u) (simp add: wpX_def unlogged_def split: prod.split sum.split)

lemma read_page_Inr: "read_page seen page = Inr (xs, nxt) \<longleftrightarrow>
    page_items page = Inr xs \<and> page_cursor page = Inr nxt \<and> (\<forall>c. nxt = Some c \<longrightarrow> c \<notin> set seen)"
  by (cases nxt) (auto simp: read_page_def bindE_Inr_iff split: option.splits if_splits)

lemma listing_head: "listing c served items \<Longrightarrow> \<exists>p rest. served = (c, p) # rest"
  by (cases rule: listing.cases) auto

lemma listing_cursors: "listing c served items \<Longrightarrow> None \<notin> set (map fst (tl served))"
proof (induction rule: listing.induct)
  case (next_page p xs c' served ys c)
  then show ?case using listing_head [OF next_page.hyps(3)] by auto
qed simp

text \<open>What a successful collection adds to the log.\<close>

definition exhausted_by ::
  "string option \<Rightarrow> string list \<Rightarrow> json list \<Rightarrow> nat \<Rightarrow> nat \<Rightarrow> (string option \<times> json) list \<Rightarrow>
   json list \<times> receipt \<Rightarrow> (string option \<times> json) list \<Rightarrow> bool" where
  "exhausted_by c seen items read n old r new \<longleftrightarrow> (\<exists>served ys. new = old @ served \<and> listing c served ys \<and>
     r = (items @ ys, \<lparr>pages_read = read + length served, exhausted = True\<rparr>) \<and> length served \<le> n \<and>
     distinct (map fst served) \<and> Some ` set seen \<inter> set (map fst (tl served)) = {})"

lemma collect_listing:
  "c = None \<and> seen = [] \<or> (\<exists>k. c = Some k \<and> k \<in> set seen) \<Longrightarrow>
   wpX (collect_pages opts (\<lambda>x. unlogged (sleep x)) (logged fetch) n c seen items read)
     (\<lambda>r t. exhausted_by c seen items read n (snd s) r (snd t)) (\<lambda>_ _. True) s"
proof (induction n arbitrary: s c seen items read)
  case (Suc n)
  have call: "wpX (with_retries (retry_limit (po_retries opts)) (po_max_delay opts)
      (\<lambda>x. unlogged (sleep x)) (logged fetch c))
      (\<lambda>p t. snd t = snd s @ [(c, p)]) (\<lambda>_ _. True) s"
    by (rule wpX_with_retries_inv [where I = "\<lambda>t. snd t = snd s", OF wpX_logged wpX_unlogged]) auto
  have more: "wpX (collect_pages opts (\<lambda>x. unlogged (sleep x)) (logged fetch) n (Some k) (k # seen)
        (items @ xs) (Suc read))
      (\<lambda>r u. exhausted_by c seen items read (Suc n) (snd s) r (snd u)) (\<lambda>_ _. True) t"
    if t: "snd t = snd s @ [(c, p)]" and page: "read_page seen p = Inr (xs, Some k)" for t p xs k
  proof (rule wpX_mono [OF Suc.IH])
    fix r u assume "exhausted_by (Some k) (k # seen) (items @ xs) (Suc read) n (snd t) r (snd u)"
    then obtain served ys where l: "snd u = snd t @ served" "listing (Some k) served ys"
        "r = ((items @ xs) @ ys, \<lparr>pages_read = Suc read + length served, exhausted = True\<rparr>)" "length served \<le> n"
        "distinct (map fst served)" "Some ` set (k # seen) \<inter> set (map fst (tl served)) = {}"
      unfolding exhausted_by_def by blast
    obtain q rest where served: "served = (Some k, q) # rest" using listing_head [OF l(2)] by blast
    have k: "k \<notin> set seen" using page by (simp add: read_page_Inr)
    have disj: "Some ` set seen \<inter> set (map fst served) = {}" using l(6) k by (auto simp: served)
    have c: "c \<notin> set (map fst served)"
    proof (cases c)
      case None
      show ?thesis using None listing_cursors [OF l(2)] by (auto simp: served)
    next
      case (Some j)
      then show ?thesis using disj Suc.prems by auto
    qed
    show "exhausted_by c seen items read (Suc n) (snd s) r (snd u)"
      unfolding exhausted_by_def
      by (rule exI [of _ "(c, p) # served"], rule exI [of _ "xs @ ys"])
        (use l t page c disj in \<open>auto simp: read_page_Inr intro: listing.next_page\<close>)
  qed auto
  show ?case
    by (simp, rule wpX_mono [OF call])
      (use more in \<open>auto simp: read_page_Inr exhausted_by_def intro: listing.last_page split: sum.split option.split\<close>)
qed simp

text \<open>Conversely, a listing an adapter serves is collected whole, whatever its page sizes.\<close>

lemma retries_return: "with_retries n d sleep (returnX a) s = (Inr a, s)"
  by (cases n) (simp_all add: with_retries.simps(2) catchX_def returnX_def)

lemma collect_complete:
  assumes "listing c served ys" and "\<And>d p. (d, p) \<in> set served \<Longrightarrow> pages d = p"
    and "distinct (map fst served)" and "length served \<le> n"
    and "Some ` set seen \<inter> set (map fst (tl served)) = {}"
  shows "collect_pages opts sleep (\<lambda>d. returnX (pages d)) n c seen items read s =
    (Inr (items @ ys, \<lparr>pages_read = read + length served, exhausted = True\<rparr>), s)"
  using assms
proof (induction arbitrary: n seen items read rule: listing.induct)
  case (last_page p xs c)
  then obtain m where n: "n = Suc m" by (cases n) auto
  have "read_page seen (pages c) = Inr (xs, None)" using last_page by (simp add: read_page_Inr)
  then show ?case by (simp add: n bindX_run [OF retries_return]) (rule returnX_run)
next
  case (next_page p xs c' served ys c)
  then obtain m where n: "n = Suc m" by (cases n) auto
  obtain q rest where served: "served = (Some c', q) # rest" using listing_head [OF next_page.hyps(3)] by blast
  have "read_page seen (pages c) = Inr (xs, Some c')"
    using next_page.hyps(1,2) next_page.prems(1,4) by (auto simp: read_page_Inr served)
  moreover have "collect_pages opts sleep (\<lambda>d. returnX (pages d)) m (Some c') (c' # seen) (items @ xs) (Suc read) s =
    (Inr ((items @ xs) @ ys, \<lparr>pages_read = Suc read + length served, exhausted = True\<rparr>), s)"
    using next_page.prems by (intro next_page.IH) (auto simp: n served)
  ultimately show ?case by (simp add: n bindX_run [OF retries_return])
qed

end
