(* ===== verification/Adapters.thy ===== *)
theory Adapters
  imports AdapterProtocol Baselines Convergence
begin

text \<open>
  The first part of \<^verbatim>\<open>runtime/engine.py\<close>: target adapters and their verified
  identity, the registry that binds them to run targets, and what a returned object proves.
  An adapter is external code: a record of programs over the adapters' own state \<open>'w\<close>,
  each of which may return any JSON value or raise any exception.
\<close>

section \<open>Adapters\<close>

record 'w adapter =
  ad_identity :: "('w, json) prog"
  ad_read :: "operation \<Rightarrow> ('w, json) prog"
  ad_mutate :: "json \<Rightarrow> ('w, json) prog"
  ad_list :: "string \<Rightarrow> string option \<Rightarrow> ('w, json) prog"
  ad_changes :: "string option \<Rightarrow> ('w, json) prog"
  ad_observation :: "(operation \<Rightarrow> json \<Rightarrow> ('w, json) prog) option"

record 'w binding =
  bd_adapter :: "'w adapter"
  bd_identity :: identity
  bd_capabilities :: capability_map
  bd_secrets :: "secret_provider option"

definition coded_error :: "string \<Rightarrow> string \<Rightarrow> exn" where
  "coded_error code m = AdapterExecutionError m code"

definition identity_fields :: "string list" where
  "identity_fields = [''account_id'', ''container_id'', ''workspace_id'', ''container_type'']"

fun identity_text :: "identity \<Rightarrow> string \<Rightarrow> string" where
  "identity_text i field =
     (if field = ''account_id'' then account_id i else if field = ''container_id'' then container_id i
      else if field = ''workspace_id'' then workspace_id i else container_name (container_type i))"

definition identity_field :: "json \<Rightarrow> string \<Rightarrow> string res" where
  "identity_field observed field =
     (if nonblank_text (get_or_null (dict_of observed) field)
      then Inr (strip (text_of (get_or_null (dict_of observed) field)))
      else Inl (coded_error ''target_identity_invalid''
        (''target adapter identity '' @ py_repr field @ '' is missing'')))"

text \<open>What the adapter reports must be the authorized identity, field by field.\<close>

definition check_identity :: "identity \<Rightarrow> json \<Rightarrow> identity res" where
  "check_identity authorized observed =
     bindE (failE (\<not> is_dict observed \<or> \<not> same_keys (dict_of observed) identity_fields)
       (coded_error ''target_identity_invalid'' (''target adapter identity must contain only '' @
         ''account_id, container_id, workspace_id, and container_type''))) (\<lambda>_.
     bindE (mapE (identity_field observed) identity_fields) (\<lambda>values.
     bindE (failE (values \<noteq> map (\<lambda>f. strip (identity_text authorized f)) identity_fields)
       (coded_error ''target_identity_mismatch''
         ''authenticated adapter identity differs from the authorized GTM target'')) (\<lambda>_.
       Inr \<lparr>account_id = strip (account_id authorized), container_id = strip (container_id authorized),
         workspace_id = strip (workspace_id authorized), container_type = container_type authorized\<rparr>)))"

definition verified_adapter_identity :: "identity \<Rightarrow> 'w adapter \<Rightarrow> ('w, identity) prog" where
  "verified_adapter_identity authorized adapter =
     bindX (catchX (ad_identity adapter) (\<lambda>_. raiseX (coded_error ''target_identity_unavailable''
       ''target adapter identity could not be read''))) (\<lambda>observed.
       liftX (check_identity authorized observed))"

section \<open>Registry\<close>

record 'w registry =
  rg_bindings :: "(string \<times> 'w binding) list"
  rg_unavailable :: "(string \<times> exn) list"

definition empty_registry :: "'w registry" where
  "empty_registry = \<lparr>rg_bindings = [], rg_unavailable = []\<rparr>"

text \<open>\<open>register\<close>: the adapter's identity is read first, then its capabilities normalized.\<close>

definition register ::
  "target \<Rightarrow> 'w adapter \<Rightarrow> dict \<Rightarrow> secret_provider option \<Rightarrow> 'w registry \<Rightarrow> ('w, 'w registry) prog" where
  "register t adapter capabilities provider r =
     thenX (checkX (tg_id t \<in> set (keys (rg_bindings r)))
       (adapter_error (''duplicate target adapter '' @ py_repr (tg_id t))))
     (bindX (verified_adapter_identity (tg_identity t) adapter) (\<lambda>i.
     bindX (liftX (capability_matrix (container_type (tg_identity t)) capabilities)) (\<lambda>matrix.
       returnX (r\<lparr>rg_bindings := rg_bindings r @ [(tg_id t, \<lparr>bd_adapter = adapter, bd_identity = i,
           bd_capabilities = matrix, bd_secrets = provider\<rparr>)],
         rg_unavailable := filter (\<lambda>ke. fst ke \<noteq> tg_id t) (rg_unavailable r)\<rparr>))))"

definition record_unavailable :: "string \<Rightarrow> exn \<Rightarrow> 'w registry \<Rightarrow> 'w registry" where
  "record_unavailable t e r = r\<lparr>rg_unavailable := AList.update t e (rg_unavailable r)\<rparr>"

definition binding_of :: "'w registry \<Rightarrow> string \<Rightarrow> 'w binding res" where
  "binding_of r t = (case map_of (rg_unavailable r) t of
     Some e \<Rightarrow> Inl e
   | None \<Rightarrow> (case map_of (rg_bindings r) t of
       None \<Rightarrow> Inl (coded_error ''target_unavailable''
         (''no adapter is registered for target '' @ py_repr t))
     | Some b \<Rightarrow> Inr b))"

definition discovered_capabilities :: "'w registry \<Rightarrow> string \<Rightarrow> capability_map option" where
  "discovered_capabilities r t = map_option bd_capabilities (map_of (rg_bindings r) t)"

section \<open>Observations\<close>

definition checked_read :: "'w adapter \<Rightarrow> operation \<Rightarrow> ('w, json) prog" where
  "checked_read adapter op = bindX (ad_read adapter op) (\<lambda>saved.
     thenX (checkX (saved \<noteq> JNull \<and> \<not> is_dict saved)
       (coded_error ''adapter_schema_error'' ''target adapter read must return an object or null''))
     (returnX saved))"

text \<open>Each value finds its match further along, as the shared iterator of the code does.\<close>

fun embeds :: "('a \<Rightarrow> 'b \<Rightarrow> bool) \<Rightarrow> 'a list \<Rightarrow> 'b list \<Rightarrow> bool" where
  "embeds f xs [] = True"
| "embeds f [] (y # ys) = False"
| "embeds f (x # xs) (y # ys) = (if f x y then embeds f xs ys else embeds f xs (y # ys))"

lemma embeds_cong [fundef_cong]:
  "xs = xs' \<Longrightarrow> ys = ys' \<Longrightarrow> (\<And>x y. x \<in> set xs' \<Longrightarrow> f x y = g x y) \<Longrightarrow> embeds f xs ys = embeds g xs' ys'"
  by (induction f xs ys arbitrary: xs' ys' rule: embeds.induct) auto

function contains_only_observed_fields :: "json \<Rightarrow> json \<Rightarrow> bool" where
  "contains_only_observed_fields expected actual =
     (if \<not> same_type expected actual then False
      else (case (expected, actual) of
        (JObj d, JObj e) \<Rightarrow> list_all (\<lambda>kv. (case map_of d (fst kv) of
            None \<Rightarrow> False | Some v \<Rightarrow> contains_only_observed_fields v (snd kv))) e
      | (JArr xs, JArr ys) \<Rightarrow> embeds contains_only_observed_fields xs ys
      | _ \<Rightarrow> py_eq expected actual))"
  by pat_completeness auto
termination
  by (relation "measure (\<lambda>(e, a). size e)") (auto dest!: size_obj_value intro: size_arr_item)

declare contains_only_observed_fields.simps [simp del]

definition conflicting :: "difference \<Rightarrow> bool" where
  "conflicting d = (case d of
     Missing _ _ \<Rightarrow> False
   | ArrayMismatch _ e a \<Rightarrow> \<not> contains_only_observed_fields e a
   | _ \<Rightarrow> True)"

text \<open>
  Whether a returned object is evidence enough to decide: it matches, or it conflicts. The
  report of a removal has no object lists, and reading them raises.
\<close>

definition decisive :: "graph_report \<Rightarrow> bool" where
  "decisive r = (if gr_extra r \<noteq> [] then True else if gr_missing r \<noteq> [] then False
     else (let ds = concat (map snd (gr_differences r)) in list_ex conflicting ds \<or> ds = []))"

definition complete_observation :: "host \<Rightarrow> operation \<Rightarrow> json \<Rightarrow> bool res" where
  "complete_observation h op saved =
     (if \<not> is_dict saved then Inr False
      else (case build_verification_comparison h op saved of
        Inl e \<Rightarrow> if is_value_error e then Inr False else Inl e
      | Inr v \<Rightarrow> if vr_pass v then Inr True
          else (case vr_report v of
              None \<Rightarrow> Inl (KeyError ''extra_objects'')
            | Some r \<Rightarrow> Inr (decisive r))))"

section \<open>Facts\<close>

lemma mapE_map_Inr: "mapE f xs = Inr (map g xs) \<longleftrightarrow> (\<forall>x \<in> set xs. f x = Inr (g x))"
  by (induction xs) (auto simp: bindE_Inr_iff)

lemma check_identity_Inr:
  assumes "check_identity i observed = Inr j"
  shows "container_type j = container_type i" and "account_id j = strip (account_id i)"
    and "\<forall>f \<in> set identity_fields. strip (text_of (get_or_null (dict_of observed) f)) = strip (identity_text i f)"
proof -
  obtain vs where vs: "mapE (identity_field observed) identity_fields = Inr vs"
    and eq: "vs = map (\<lambda>f. strip (identity_text i f)) identity_fields"
    and j: "j = \<lparr>account_id = strip (account_id i), container_id = strip (container_id i),
         workspace_id = strip (workspace_id i), container_type = container_type i\<rparr>"
    using assms by (auto simp: check_identity_def bindE_Inr_iff)
  show "container_type j = container_type i" "account_id j = strip (account_id i)" by (simp_all add: j)
  have "identity_field observed f = Inr (strip (identity_text i f))" if "f \<in> set identity_fields" for f
    using vs that unfolding eq mapE_map_Inr by blast
  then show "\<forall>f \<in> set identity_fields. strip (text_of (get_or_null (dict_of observed) f)) = strip (identity_text i f)"
    unfolding identity_field_def by (metis Inl_Inr_False sum.inject(2))
qed

text \<open>The observed part of an object is in it: the object itself is always such a part.\<close>

lemma embeds_refl: "(\<And>x. x \<in> set xs \<Longrightarrow> f x x) \<Longrightarrow> embeds f xs xs"
  by (induction xs) auto

lemma py_eq_refl: "wf_json v \<Longrightarrow> py_eq v v"
proof (induction v rule: json_induct)
  case (Arr xs)
  have "(\<forall>x \<in> set xs. py_eq x x) \<Longrightarrow> list_all (\<lambda>(x, y). py_eq x y) (zip xs xs)"
    by (induction xs) simp_all
  then show ?case using Arr by (simp add: list_all_iff)
next
  case (Obj d)
  then show ?case by (auto simp: list_all_iff)
qed simp_all

lemma contains_observed_refl: "wf_json v \<Longrightarrow> contains_only_observed_fields v v"
proof (induction v rule: json_induct)
  case (Arr xs)
  then have "embeds contains_only_observed_fields xs xs" by (intro embeds_refl) (auto simp: list_all_iff)
  then show ?case by (simp add: contains_only_observed_fields.simps [of "JArr xs"])
next
  case (Obj d)
  then show ?case
    by (subst contains_only_observed_fields.simps) (auto simp: list_all_iff)
qed (simp_all add: contains_only_observed_fields.simps)

lemma removal_observation_raises:
  assumes "op_action op = Remove" and "build_verification_comparison h op (JObj d) = Inr v"
  shows "complete_observation h op (JObj d) = Inl (KeyError ''extra_objects'')"
  using assms by (auto simp: complete_observation_def build_verification_comparison_def
      bindE_Inr_iff absence_verdict_def Let_def is_dict_def)

end
