(* ===== verification/Engine.thy ===== *)
theory Engine
  imports Adapters StateMachine
begin

text \<open>
  The execution of \<^verbatim>\<open>runtime/engine.py\<close>. A run has its environment (adapters,
  clock, sleep, the writer of the run artifact), and a state: the environment's own state, the
  document in memory, the document last saved, and the local variables of the operation being
  processed. The trace is a history variable: it records every write sent to an adapter with
  the artifact on disk at that moment and its outcome, and nothing reads it.
\<close>

section \<open>State\<close>

record 'w runtime =
  rt_host :: host
  rt_registry :: "'w registry"
  rt_clock :: "('w, string) prog"
  rt_sleep :: "rat \<Rightarrow> ('w, unit) prog"
  rt_write :: "document \<Rightarrow> ('w, unit) prog"
  rt_retries :: int
  rt_max_delay :: rat

record write_event =
  we_operation :: string
  we_file :: document
  we_outcome :: "exn option"

record 'w engine =
  en_world :: 'w
  en_doc :: document
  en_file :: document
  en_trace :: "write_event list"
  en_secrets :: "string list"
  en_accepted :: bool
  en_attempted :: bool

definition worldX :: "('w, 'a) prog \<Rightarrow> ('w engine, 'a) prog" where
  "worldX = zoomX en_world (\<lambda>w s. s\<lparr>en_world := w\<rparr>)"

definition docX :: "(document, 'a) prog \<Rightarrow> ('w engine, 'a) prog" where
  "docX = zoomX en_doc (\<lambda>d s. s\<lparr>en_doc := d\<rparr>)"

text \<open>\<open>_save\<close>: the write is atomic, so a failed one leaves the artifact as it was.\<close>

definition save :: "'w runtime \<Rightarrow> ('w engine, unit) prog" where
  "save rt = bindX (getX en_doc) (\<lambda>d. thenX (worldX (rt_write rt d)) (modifyX (\<lambda>s. s\<lparr>en_file := d\<rparr>)))"

text \<open>\<open>str(exc)\<close>: a \<^verbatim>\<open>KeyError\<close> shows its key quoted.\<close>

definition exn_text :: "exn \<Rightarrow> string" where
  "exn_text e = (case e of KeyError k \<Rightarrow> py_repr k | _ \<Rightarrow> exn_message e)"

definition is_authentication_error :: "exn \<Rightarrow> bool" where
  "is_authentication_error e = (case e of AuthenticationError _ \<Rightarrow> True | _ \<Rightarrow> False)"

definition is_ambiguous :: "exn \<Rightarrow> bool" where
  "is_ambiguous e = (case e of AmbiguousWriteError _ \<Rightarrow> True | _ \<Rightarrow> False)"

definition is_rate_limit :: "exn \<Rightarrow> bool" where
  "is_rate_limit e = (case e of RateLimitError _ _ \<Rightarrow> True | _ \<Rightarrow> False)"

text \<open>\<open>scrub_sensitive_text(...) or otherwise\<close>.\<close>

definition or_text :: "string \<Rightarrow> string \<Rightarrow> string" where
  "or_text s otherwise = (if s = [] then otherwise else s)"

definition limited :: "'w runtime \<Rightarrow> ('w engine, 'a) prog \<Rightarrow> ('w engine, 'a) prog" where
  "limited rt = with_retries (retry_limit (rt_retries rt)) (rt_max_delay rt) (\<lambda>d. worldX (rt_sleep rt d))"

definition run_pages :: "'w runtime \<Rightarrow> page_options" where
  "run_pages rt = default_pages\<lparr>po_retries := rt_retries rt, po_max_delay := rt_max_delay rt\<rparr>"

section \<open>Checkpoints of the engine\<close>

text \<open>A checkpoint with the current time and no evidence.\<close>

definition plain_checkpoint :: "string \<Rightarrow> op_state \<Rightarrow> string \<Rightarrow> checkpoint" where
  "plain_checkpoint k s note = \<lparr>ck_operation = k, ck_state = s, ck_note = note, ck_time = [],
     ck_result = JNull, ck_comparison = JNull, ck_pre_write_comparison = JNull,
     ck_pre_write_saved = JNull, ck_saved = JNull, ck_error = JNull\<rparr>"

definition mark :: "'w runtime \<Rightarrow> checkpoint \<Rightarrow> ('w engine, unit) prog" where
  "mark rt c = bindX (worldX (rt_clock rt)) (\<lambda>time.
     docX (checkpoint_validated_operation (rt_host rt) (c\<lparr>ck_time := time\<rparr>)))"

definition mark_error :: "'w runtime \<Rightarrow> string \<Rightarrow> op_state \<Rightarrow> string \<Rightarrow> string \<Rightarrow> ('w engine, unit) prog" where
  "mark_error rt k s note error = mark rt ((plain_checkpoint k s note)\<lparr>ck_error := JStr error\<rparr>)"

text \<open>A verdict that passes verifies the operation; another is recorded with its evidence.\<close>

definition verdict_result :: "json \<Rightarrow> json \<Rightarrow> json" where
  "verdict_result comparison saved = JObj [(''comparison'', comparison), (''saved'', saved)]"

definition mark_verdict ::
  "'w runtime \<Rightarrow> string \<Rightarrow> verdict \<Rightarrow> string \<Rightarrow> op_state \<Rightarrow> string \<Rightarrow> string \<Rightarrow> ('w engine, unit) prog" where
  "mark_verdict rt k v passed otherwise note error =
     (if vr_pass v
      then mark rt ((plain_checkpoint k Verified passed)\<lparr>ck_comparison := vr_json v, ck_saved := vr_saved v\<rparr>)
      else mark rt ((plain_checkpoint k otherwise note)\<lparr>ck_error := JStr error,
        ck_result := verdict_result (vr_json v) (vr_saved v)\<rparr>))"

section \<open>Baselines of a run\<close>

definition find_run_target :: "document \<Rightarrow> string \<Rightarrow> target res" where
  "find_run_target d t = (case find (\<lambda>x. tg_id x = t) (run_targets (d_run d)) of
     None \<Rightarrow> Inl (adapter_error (''unknown target '' @ py_repr t)) | Some x \<Rightarrow> Inr x)"

definition required_baseline :: "document \<Rightarrow> string \<Rightarrow> baseline res" where
  "required_baseline d t = (case look_baseline t d of
     None \<Rightarrow> Inl (OtherError ''StopIteration'') | Some b \<Rightarrow> Inr b)"

definition required_result :: "document \<Rightarrow> string \<Rightarrow> target_result res" where
  "required_result d t = (case look_result t d of
     None \<Rightarrow> Inl (OtherError ''StopIteration'') | Some r \<Rightarrow> Inr r)"

definition baseline_execution_history :: "document \<Rightarrow> string \<Rightarrow> bool res" where
  "baseline_execution_history d t = bindE (required_baseline d t) (\<lambda>b.
     Inr (bl_evidence b \<noteq> None \<and> list_ex (\<lambda>op. list_ex (\<lambda>e.
       je_state e \<in> {InProgress, Saved, Verified, Uncertain}) (op_journal op)) (target_operations d t)))"

text \<open>The families to list: those required, or all available for a durable rebuild.\<close>

definition capture_families :: "document \<Rightarrow> target \<Rightarrow> capability_map \<Rightarrow> string list res" where
  "capture_families d t capabilities =
     (let available = sorted_set (keys (filter (\<lambda>fc. cap_list (snd fc)) capabilities));
          required = required_baseline_families (target_operations d (tg_id t))
            (container_type (tg_identity t)) in
      bindE (failE (\<not> list_all (\<lambda>f. f \<in> set available) required)
        (coded_error ''baseline_capability_missing''
          (''authenticated baseline cannot list required resource families: '' @
            list_text (filter (\<lambda>f. f \<notin> set available) required)))) (\<lambda>_.
      bindE (required_baseline d (tg_id t)) (\<lambda>previous.
      bindE (baseline_execution_history d (tg_id t)) (\<lambda>supplemental.
      (let families = (if run_execution_mode (d_run d) = RefonteDurable then available else required) in
        Inr (if supplemental then filter (\<lambda>f. f \<notin> set (bl_families previous)) families else families))))))"

definition forget_baseline_error :: "string \<Rightarrow> document \<Rightarrow> document" where
  "forget_baseline_error t = update_result t (\<lambda>r. r\<lparr>tr_baseline_error := None\<rparr>)"

definition capture_one_authenticated_baseline ::
  "'w runtime \<Rightarrow> document \<Rightarrow> target \<Rightarrow> 'w binding \<Rightarrow> ('w, document) prog" where
  "capture_one_authenticated_baseline rt d t b =
     bindX (liftX (capture_families d t (bd_capabilities b))) (\<lambda>families.
     bindX (mapX (\<lambda>family. bindX (collect_paginated_with_receipt (run_pages rt) (rt_sleep rt)
         (ad_list (bd_adapter b) family)) (\<lambda>listed. returnX (family, listed))) families) (\<lambda>listings.
     bindX (collect_paginated_with_receipt (run_pages rt) (rt_sleep rt) (ad_changes (bd_adapter b)))
       (\<lambda>(changes, changes_receipt).
     bindX (liftX (required_result d (tg_id t))) (\<lambda>_.
     bindX (liftX (baseline_execution_history d (tg_id t))) (\<lambda>supplemental.
     bindX (rt_clock rt) (\<lambda>time.
     (let cleared = forget_baseline_error (tg_id t) d;
          value = (if supplemental then cleared
            else update_baseline (tg_id t) (\<lambda>_. empty_baseline (tg_id t)) cleared) in
      liftX (record_target_baseline (rt_host rt) (tg_id t) (map (\<lambda>(f, xs, _). (f, xs)) listings) time changes
        \<lparr>ce_captured_by = ''authenticated-adapter-runtime'', ce_identity = bd_identity b,
         ce_pagination = map (\<lambda>(f, _, r). (f, r)) listings, ce_changes_pagination = changes_receipt\<rparr>
        value))))))))"

text \<open>One target: a failed capture empties the baseline unless it was a supplement.\<close>

definition capture_body :: "'w runtime \<Rightarrow> target \<Rightarrow> ('w engine, unit) prog" where
  "capture_body rt t =
     bindX (liftX (binding_of (rt_registry rt) (tg_id t))) (\<lambda>b.
     bindX (worldX (verified_adapter_identity (bd_identity b) (bd_adapter b))) (\<lambda>_.
     bindX (getX en_doc) (\<lambda>d.
     bindX (worldX (capture_one_authenticated_baseline rt d t b)) (\<lambda>d'.
     thenX (modifyX (\<lambda>s. s\<lparr>en_doc := d'\<rparr>))
     (docX (thenX (askX (\<lambda>d. bindE (required_result d (tg_id t)) (\<lambda>_. Inr ())))
       (thenX (modifyX (forget_baseline_error (tg_id t))) derive_live_status)))))))"

definition capture_failed :: "'w runtime \<Rightarrow> target \<Rightarrow> bool \<Rightarrow> exn \<Rightarrow> ('w engine, unit) prog" where
  "capture_failed rt t supplemental e =
     (let error = ''baseline_capture_failed: '' @
        or_text (h_scrub (rt_host rt) (exn_text e) []) ''authenticated baseline unavailable'' in
      thenX (docX (thenX (askX (\<lambda>d. bindE (required_baseline d (tg_id t)) (\<lambda>_. Inr ())))
        (whenX (\<not> supplemental) (modifyX (update_baseline (tg_id t) (\<lambda>_. empty_baseline (tg_id t)))))))
      (thenX (docX (askX (\<lambda>d. bindE (required_result d (tg_id t)) (\<lambda>_. Inr ()))))
      (bindX (worldX (rt_clock rt)) (\<lambda>time.
        docX (thenX (modifyX (update_result (tg_id t) (\<lambda>r. r\<lparr>tr_baseline_error := Some (time, error)\<rparr>)))
          derive_live_status)))))"

definition capture_target :: "'w runtime \<Rightarrow> target \<Rightarrow> ('w engine, unit) prog" where
  "capture_target rt t =
     bindX (getX en_doc) (\<lambda>d.
     (let ops = target_operations d (tg_id t) in
      if ops = [] then returnX ()
      else
        bindX (liftX (required_baseline d (tg_id t))) (\<lambda>b.
        bindX (liftX (baseline_execution_history d (tg_id t))) (\<lambda>supplemental.
        if supplemental \<and> bl_complete b \<and>
           set (required_baseline_families ops (container_type (tg_identity t))) \<subseteq> set (bl_families b)
        then returnX ()
        else catchX (capture_body rt t) (capture_failed rt t supplemental)))))"

definition capture_authenticated_baselines :: "'w runtime \<Rightarrow> ('w engine, unit) prog" where
  "capture_authenticated_baselines rt =
     bindX (getX (\<lambda>s. run_targets (d_run (en_doc s)))) (\<lambda>targets. forX targets (capture_target rt))"

section \<open>Before the write\<close>

text \<open>A shared variable is changed only if every current consumer is in the approved scope.\<close>

definition in_scope_tags :: "document \<Rightarrow> string \<Rightarrow> string list" where
  "in_scope_tags d t = map op_name (filter (\<lambda>op. op_family op = ''tag'') (target_operations d t))"

definition validate_current_variable_consumers ::
  "'w runtime \<Rightarrow> document \<Rightarrow> 'w binding \<Rightarrow> operation \<Rightarrow> ('w, unit) prog" where
  "validate_current_variable_consumers rt d b op =
     whenX (op_container op = Web \<and> requires_variable_consumer_check op)
      (thenX (checkX (\<not> list_all (\<lambda>f. matrix_has (bd_capabilities b) f ListCap) [''tag'', ''variable''])
         (adapter_error ''shared variable review requires tag/variable-list capabilities''))
      (bindX (collect_paginated (run_pages rt) (rt_sleep rt) (ad_list (bd_adapter b) ''tag'')) (\<lambda>tags.
       bindX (collect_paginated (run_pages rt) (rt_sleep rt) (ad_list (bd_adapter b) ''variable'')) (\<lambda>variables.
       bindX (liftX (variable_consumers op tags variables)) (\<lambda>consumers.
       (let missing = filter (\<lambda>n. n \<notin> set (in_scope_tags d (op_target op))) consumers in
        checkX (missing \<noteq> []) (adapter_error (''shared variable has unreviewed current consumers: '' @
          join '', '' missing))))))))"

text \<open>
  \<open>_prepare_write\<close>: the evidence for the write (comparison and readback of a delta), or
  \<open>None\<close> when the operation was finished without a write.
\<close>

definition prepare_create :: "'w runtime \<Rightarrow> operation \<Rightarrow> json \<Rightarrow> ('w engine, unit) prog" where
  "prepare_create rt op current =
     bindX (liftX (build_verification_comparison (rt_host rt) op current)) (\<lambda>v.
       mark_verdict rt (op_id op) v ''Existing semantic object already matches; no write performed.''
         Failed ''Create conflict; existing semantic object was not overwritten.'' ''create_conflict'')"

definition prepare_reuse :: "'w runtime \<Rightarrow> operation \<Rightarrow> json \<Rightarrow> ('w engine, unit) prog" where
  "prepare_reuse rt op current =
     (if current = JNull
      then mark_error rt (op_id op) Failed ''Required existing object was not found; no write performed.''
        ''existing_object_missing''
      else bindX (liftX (build_verification_comparison (rt_host rt) op current)) (\<lambda>v.
        mark_verdict rt (op_id op) v ''Existing object compatibility verified; no write performed.''
          Failed ''Existing object does not match the approved reuse contract.'' ''reuse_mismatch''))"

definition prepare_write ::
  "'w runtime \<Rightarrow> operation \<Rightarrow> json \<Rightarrow> ('w engine, (json \<times> json) option) prog" where
  "prepare_write rt op current =
     (if op_action op = Create \<and> current \<noteq> JNull
      then thenX (prepare_create rt op current) (returnX None)
      else if op_action op \<in> {Reuse, Untouched}
      then thenX (prepare_reuse rt op current) (returnX None)
      else if delta_action (op_action op)
      then bindX (liftX (build_pre_write_comparison (rt_host rt) op current)) (\<lambda>w.
        if pw_pass w then returnX (Some (pw_json w, pw_saved w))
        else thenX (mark rt ((plain_checkpoint (op_id op) Failed (''Fresh target state differs from '' @
            ''the approved pre-change snapshot; no write performed.''))
            \<lparr>ck_error := JStr ''container_drift'', ck_result := verdict_result (pw_json w) (pw_saved w)\<rparr>))
          (returnX None))
      else returnX (Some (JNull, JNull)))"

section \<open>The write\<close>

definition check_current_identity :: "'w binding \<Rightarrow> ('w engine, unit) prog" where
  "check_current_identity b =
     bindX (worldX (verified_adapter_identity (bd_identity b) (bd_adapter b))) (\<lambda>_. returnX ())"

text \<open>One write, recorded in the history with the artifact of that moment and its outcome.\<close>

definition outcome_of :: "'a res \<Rightarrow> exn option" where
  "outcome_of r = (case r of Inl e \<Rightarrow> Some e | Inr _ \<Rightarrow> None)"

definition logged_write :: "'w binding \<Rightarrow> string \<Rightarrow> json \<Rightarrow> ('w engine, json) prog" where
  "logged_write b k mutation = (\<lambda>s. case ad_mutate (bd_adapter b) mutation (en_world s) of
     (r, w) \<Rightarrow> (r, s\<lparr>en_world := w, en_trace := en_trace s @
       [\<lparr>we_operation = k, we_file = en_file s, we_outcome = outcome_of r\<rparr>]\<rparr>))"

text \<open>
  The write and its retries: a retry reads again and compares, since the back-off consumed the
  proof read before the first write.
\<close>

definition fresh_retry_proof :: "'w runtime \<Rightarrow> 'w binding \<Rightarrow> operation \<Rightarrow> ('w engine, unit) prog" where
  "fresh_retry_proof rt b op =
     thenX (check_current_identity b)
     (whenX (op_action op \<noteq> Create)
       (bindX (worldX (checked_read (bd_adapter b) op)) (\<lambda>saved.
        bindX (liftX (build_pre_write_comparison (rt_host rt) op saved)) (\<lambda>w.
          checkX (\<not> pw_pass w) (coded_error ''container_drift''
            ''Target changed during quota backoff; no retry write performed'')))))"

definition mutate_attempt ::
  "'w runtime \<Rightarrow> 'w binding \<Rightarrow> operation \<Rightarrow> json \<Rightarrow> ('w engine, json) prog" where
  "mutate_attempt rt b op mutation =
     bindX (getX en_attempted) (\<lambda>again.
     thenX (whenX again (fresh_retry_proof rt b op))
     (thenX (modifyX (\<lambda>s. s\<lparr>en_attempted := True\<rparr>)) (logged_write b (op_id op) mutation)))"

definition mutate_with_quota_proof ::
  "'w runtime \<Rightarrow> 'w binding \<Rightarrow> operation \<Rightarrow> json \<Rightarrow> ('w engine, json) prog" where
  "mutate_with_quota_proof rt b op mutation =
     thenX (check_current_identity b)
     (thenX (modifyX (\<lambda>s. s\<lparr>en_attempted := False\<rparr>))
     (limited rt (mutate_attempt rt b op mutation)))"

section \<open>After the write\<close>

text \<open>The saved object decides: verified when it matches, uncertain otherwise.\<close>

definition settle ::
  "'w runtime \<Rightarrow> operation \<Rightarrow> json \<Rightarrow> string \<Rightarrow> string \<Rightarrow> string \<Rightarrow> ('w engine, unit) prog \<Rightarrow> ('w engine, unit) prog" where
  "settle rt op saved passed note error unreadable =
     (if saved = JNull \<and> op_action op \<noteq> Remove then unreadable
      else bindX (liftX (build_verification_comparison (rt_host rt) op saved)) (\<lambda>v.
        mark_verdict rt (op_id op) v passed Uncertain note error))"

definition read_saved :: "'w runtime \<Rightarrow> 'w binding \<Rightarrow> operation \<Rightarrow> ('w engine, json) prog" where
  "read_saved rt b op = limited rt (worldX (checked_read (bd_adapter b) op))"

definition settle_ambiguous :: "'w runtime \<Rightarrow> 'w binding \<Rightarrow> operation \<Rightarrow> exn \<Rightarrow> ('w engine, unit) prog" where
  "settle_ambiguous rt b op e =
     thenX (modifyX (\<lambda>s. s\<lparr>en_accepted := True\<rparr>))
     (bindX (read_saved rt b op) (\<lambda>saved.
     bindX (getX en_secrets) (\<lambda>secrets.
       settle rt op saved ''Ambiguous response resolved by authoritative readback.''
         ''Ambiguous response did not match saved target; no retry.'' ''ambiguous_write_mismatch''
         (mark_error rt (op_id op) Uncertain ''Mutation outcome is ambiguous; no retry was attempted.''
           (or_text (h_scrub (rt_host rt) (exn_text e) secrets) ''ambiguous_write'')))))"

definition settle_written :: "'w runtime \<Rightarrow> 'w binding \<Rightarrow> operation \<Rightarrow> json \<Rightarrow> ('w engine, unit) prog" where
  "settle_written rt b op mutation_saved =
     thenX (modifyX (\<lambda>s. s\<lparr>en_accepted := True\<rparr>))
     (bindX (if op_action op = Remove then returnX False
         else liftX (complete_observation (rt_host rt) op mutation_saved)) (\<lambda>complete.
     bindX (if complete then returnX mutation_saved else read_saved rt b op) (\<lambda>saved.
       settle rt op saved ''Saved object verified by target readback.''
         ''Saved readback differs from the intended object; no retry.'' ''saved_readback_mismatch''
         (mark_error rt (op_id op) Uncertain ''Write returned without authoritative readback; no retry.''
           ''missing_readback''))))"

text \<open>
  The write with its two continuations. Only an exception of the write itself is ambiguous;
  one raised while settling belongs to the failure handler.
\<close>

definition write_and_settle ::
  "'w runtime \<Rightarrow> 'w binding \<Rightarrow> operation \<Rightarrow> json \<Rightarrow> ('w engine, unit) prog" where
  "write_and_settle rt b op mutation =
     bindX (catchX (bindX (mutate_with_quota_proof rt b op mutation) (\<lambda>saved. returnX (Inr saved)))
         (\<lambda>e. if is_ambiguous e then returnX (Inl e) else raiseX e)) (\<lambda>outcome.
       (case outcome of
          Inl e \<Rightarrow> settle_ambiguous rt b op e
        | Inr saved \<Rightarrow> settle_written rt b op saved))"

definition checkpoint_failure :: "'w runtime \<Rightarrow> string \<Rightarrow> exn \<Rightarrow> ('w engine, unit) prog" where
  "checkpoint_failure rt k e =
     bindX (getX en_secrets) (\<lambda>secrets.
     bindX (getX en_accepted) (\<lambda>accepted.
     (let text = h_scrub (rt_host rt) (exn_text e) secrets;
          by_boundary = (\<lambda>note error. bindX (askX (\<lambda>s. find_operation (en_doc s) k)) (\<lambda>op.
            mark_error rt k (if op_state op = Planned then Failed else Uncertain) note error));
          by_write = (\<lambda>note. mark_error rt k (if accepted then Uncertain else Failed) note text) in
      if is_authentication_error e then by_boundary
        ''Authentication failed for this target; independent targets may continue.''
        (''authentication_required: '' @ or_text text ''target authorization unavailable'')
      else if is_value_error e then by_boundary
        ''Adapter readback could not be normalized or compared safely.''
        (''invalid_adapter_readback: '' @ text)
      else if is_rate_limit e then by_write
        ''Rate limit stopped this operation; preserve uncertainty if a write may have succeeded.''
      else if is_adapter_error e then by_write
        ''Adapter failure stopped this operation; preserve uncertainty if a write may have succeeded.''
      else by_boundary
        ''Unexpected adapter failure stopped this operation; dependents remain stopped.''
        (''unexpected_adapter_failure: '' @ text))))"

section \<open>One operation\<close>

text \<open>The write boundary: the operation is in progress on disk before anything is written.\<close>

definition enter_write ::
  "'w runtime \<Rightarrow> string \<Rightarrow> json \<times> json \<Rightarrow> ('w engine, operation) prog" where
  "enter_write rt k proof =
     thenX (mark rt ((plain_checkpoint k InProgress ''Write boundary entered after fresh target readback.'')
       \<lparr>ck_pre_write_comparison := fst proof, ck_pre_write_saved := snd proof\<rparr>))
     (thenX (save rt) (askX (\<lambda>s. find_operation (en_doc s) k)))"

text \<open>The input of the write: secrets resolved, or the failure recorded.\<close>

definition mutation_input ::
  "'w runtime \<Rightarrow> 'w binding \<Rightarrow> operation \<Rightarrow> ('w engine, json option) prog" where
  "mutation_input rt b op = (case resolve_for_mutation (bd_secrets b) (op_json op) of
     Inr (mutation, secrets) \<Rightarrow>
       thenX (modifyX (\<lambda>s. s\<lparr>en_secrets := secrets\<rparr>)) (returnX (Some mutation))
   | Inl (SecretResolutionError m) \<Rightarrow>
       thenX (mark_error rt (op_id op) Failed ''Secure mutation input could not be resolved.'' m)
         (returnX None)
   | Inl e \<Rightarrow> raiseX e)"

definition operation_body :: "'w runtime \<Rightarrow> 'w binding \<Rightarrow> operation \<Rightarrow> ('w engine, unit) prog" where
  "operation_body rt b op =
     bindX (getX en_doc) (\<lambda>d.
     thenX (worldX (validate_current_variable_consumers rt d b op))
     (bindX (read_saved rt b op) (\<lambda>current.
     bindX (prepare_write rt op current) (\<lambda>prepared.
     (case prepared of
        None \<Rightarrow> save rt
      | Some proof \<Rightarrow> bindX (mutation_input rt b op) (\<lambda>input.
          (case input of
             None \<Rightarrow> save rt
           | Some mutation \<Rightarrow>
               bindX (enter_write rt (op_id op) proof) (\<lambda>op.
               thenX (write_and_settle rt b op mutation) (save rt)))))))))"

definition run_operation :: "'w runtime \<Rightarrow> 'w binding \<Rightarrow> operation \<Rightarrow> ('w engine, unit) prog" where
  "run_operation rt b op =
     thenX (modifyX (\<lambda>s. s\<lparr>en_secrets := [], en_accepted := False\<rparr>))
     (catchX (operation_body rt b op) (\<lambda>e. thenX (checkpoint_failure rt (op_id op) e) (save rt)))"

definition process_operation :: "'w runtime \<Rightarrow> string \<Rightarrow> ('w engine, unit) prog" where
  "process_operation rt k =
     bindX (askX (\<lambda>s. find_operation (en_doc s) k)) (\<lambda>op.
     thenX (askX (\<lambda>s. find_run_target (en_doc s) (op_target op)))
     (case binding_of (rt_registry rt) (op_target op) of
        Inl e \<Rightarrow> if is_adapter_error e
          then thenX (mark_error rt k Failed
              ''Target adapter is unavailable; dependents remain stopped.'' (exn_text e)) (save rt)
          else raiseX e
      | Inr b \<Rightarrow> bindX (liftX (unsupported_operation_reason op (bd_capabilities b))) (\<lambda>reason.
          (case reason of
             Some r \<Rightarrow> thenX (mark_error rt k Failed
               ''Required adapter family capability is unavailable.'' r) (save rt)
           | None \<Rightarrow> run_operation rt b op))))"

section \<open>The run\<close>

text \<open>One pass over the operations that were ready; whether any was processed.\<close>

fun execute_pass :: "'w runtime \<Rightarrow> string list \<Rightarrow> bool \<Rightarrow> ('w engine, bool) prog" where
  "execute_pass rt [] progress = returnX progress"
| "execute_pass rt (k # ks) progress =
     bindX (askX (\<lambda>s. inspect_validated_document (rt_host rt) (en_doc s))) (\<lambda>i.
       if k \<in> set (in_ready i)
       then thenX (process_operation rt k) (execute_pass rt ks True)
       else execute_pass rt ks progress)"

text \<open>The passes until none is ready, with fuel for them; \<open>None\<close> if it runs out.\<close>

fun execute_passes :: "nat \<Rightarrow> 'w runtime \<Rightarrow> ('w engine, inspection option) prog" where
  "execute_passes 0 rt = returnX None"
| "execute_passes (Suc n) rt =
     bindX (askX (\<lambda>s. inspect_validated_document (rt_host rt) (en_doc s))) (\<lambda>i.
       if in_ready i = []
       then thenX (askX (\<lambda>s. validate_document (rt_host rt) (en_doc s))) (returnX (Some i))
       else bindX (execute_pass rt (in_ready i) False) (\<lambda>progress.
         if progress then execute_passes n rt
         else bindX (askX (\<lambda>s. inspect_document (rt_host rt) (en_doc s))) (\<lambda>j. returnX (Some j))))"

definition discover_capabilities :: "'w runtime \<Rightarrow> target \<Rightarrow> target" where
  "discover_capabilities rt t = (case discovered_capabilities (rt_registry rt) (tg_id t) of
     None \<Rightarrow> t
   | Some found \<Rightarrow> if dict_eq (tg_capabilities t) found then t else t\<lparr>tg_capabilities := found\<rparr>)"

definition record_capabilities :: "'w runtime \<Rightarrow> ('w engine, unit) prog" where
  "record_capabilities rt =
     bindX (getX (\<lambda>s. run_targets (d_run (en_doc s)))) (\<lambda>targets.
     (let found = map (discover_capabilities rt) targets in
      whenX (found \<noteq> targets)
        (thenX (docX (modifyX (update_run (\<lambda>run. run\<lparr>run_targets := found\<rparr>)))) (save rt))))"

definition load :: "'w runtime \<Rightarrow> ('w engine, unit) prog" where
  "load rt = bindX (getX en_file) (\<lambda>d.
     thenX (liftX (validate_document (rt_host rt) d)) (modifyX (\<lambda>s. s\<lparr>en_doc := d\<rparr>)))"

definition execute_current_locked :: "nat \<Rightarrow> 'w runtime \<Rightarrow> ('w engine, inspection option) prog" where
  "execute_current_locked fuel rt =
     thenX (load rt) (thenX (record_capabilities rt)
     (thenX (capture_authenticated_baselines rt) (thenX (save rt) (execute_passes fuel rt))))"

text \<open>The run lock is the environment's: held, it raises a conflict. The fuel is one pass for
  each operation and a last one.\<close>

definition execute_ready_operations ::
  "('w, unit) prog \<Rightarrow> 'w runtime \<Rightarrow> ('w engine, inspection option) prog" where
  "execute_ready_operations lock rt =
     thenX (checkX (rt_retries rt < 0) (adapter_error ''max_rate_limit_retries must be non-negative''))
     (thenX (checkX (rt_max_delay rt < 0) (adapter_error ''rate-limit delays must be non-negative''))
     (catchX (thenX (worldX lock)
        (bindX (getX (\<lambda>s. length (d_operations (en_file s)))) (\<lambda>n. execute_current_locked (Suc n) rt)))
       (\<lambda>e. (case e of
          RunConflictError m \<Rightarrow> raiseX (coded_error ''run_conflict'' m)
        | _ \<Rightarrow> raiseX e))))"

end
