(* ===== verification/Execution.thy ===== *)
theory Execution
  imports Engine
begin

text \<open>
  What an execution does, whatever the adapters answer: every write goes out with its operation
  in progress on disk, at most three times, and never after an answer that may mean it was
  applied; an operation whose write may have been applied is never recorded as failed; and the
  run ends.
\<close>

section \<open>Readiness for a write\<close>

lemma look_index:
  assumes "distinct (map op_id ops)"
  shows "map_of (index_ops ops) k = find (\<lambda>op. op_id op = k) ops"
proof (cases "find (\<lambda>op. op_id op = k) ops")
  case None
  have "map_of (index_ops ops) k \<noteq> Some op" for op
    using index_ops_id [of ops k op] None unfolding find_None_iff by blast
  then have "map_of (index_ops ops) k = None" by (meson not_None_eq)
  then show ?thesis by (simp only: None)
next
  case (Some op)
  then have "op \<in> set ops" "op_id op = k" by (auto dest: find_SomeD)
  then show ?thesis using index_ops_member [OF assms] Some by auto
qed

text \<open>The artifact on disk when a write of operation \<open>k\<close> goes out.\<close>

definition write_ready :: "document \<Rightarrow> string \<Rightarrow> bool" where
  "write_ready d k \<longleftrightarrow> (\<exists>op. look_operation k d = Some op \<and> op_state op = InProgress \<and>
     mutating_action (op_action op) \<and>
     (delta_action (op_action op) \<longrightarrow> (\<exists>c. op_pre_write_comparison op = Some c \<and>
        jget c ''pass'' = Some (JBool True))) \<and>
     (\<forall>dep \<in> set (op_dependencies op). \<exists>dop. look_operation dep d = Some dop \<and> op_state dop = Verified))"

lemma pre_write_json_pass:
  assumes "build_pre_write_comparison h op saved = Inr w"
  shows "jget (pw_json w) ''pass'' = Some (JBool (pw_pass w))"
proof -
  have "jget (pw_json (pre_write_verdict h op e s r)) ''pass'' = Some (JBool (pw_pass (pre_write_verdict h op e s r)))"
    for e s r
    by (simp add: pre_write_verdict_def Let_def jget_def dget_def dict_of_def split: prod.split)
  then show ?thesis using assms by (auto simp: build_pre_write_comparison_def bindE_Inr_iff)
qed

lemma pre_write_outcome_delta:
  assumes "pre_write_outcome h c op = Inr op1" and "op_state op = Planned" and "executing (ck_state c)"
    and "delta_action (op_action op)"
  shows "\<exists>w. build_pre_write_comparison h op (ck_pre_write_saved c) = Inr w \<and> pw_pass w \<and>
    op_pre_write_comparison op1 = Some (pw_json w)"
  using assms by (auto simp: pre_write_outcome_def bindE_Inr_iff split: if_splits)

lemma later_outcomes_pre_write:
  "evidence_outcome h c op1 = Inr op2 \<Longrightarrow> op_pre_write_comparison op2 = op_pre_write_comparison op1"
  "journal_outcome h c op2 = Inr op3 \<Longrightarrow> op_pre_write_comparison op3 = op_pre_write_comparison op2 \<and>
     op_state op3 = ck_state c"
  by (cases "ck_state c")
    (auto simp: evidence_outcome_def journal_outcome_def bindE_Inr_iff case_prod_beta split: if_splits)

lemma checkpoint_outcome_state: "checkpoint_outcome h c op = Inr op' \<Longrightarrow> op_state op' = ck_state c"
  by (auto simp: checkpoint_outcome_def bindE_Inr_iff dest: later_outcomes_pre_write(2))

lemma checkpointed_look:
  assumes "checkpointed h c d d'"
  shows "\<exists>op op'. look_operation (ck_operation c) d = Some op \<and> look_operation (ck_operation c) d' = Some op' \<and>
    checkpoint_outcome h c op = Inr op' \<and> op_state op' = ck_state c \<and> op_spec op' = op_spec op"
  using assms
  by (auto simp: checkpointed_def settled_def attempted_def intro: touched_look checkpoint_outcome_state)

lemma touched_others:
  assumes "touched k d d' op'" and "j \<noteq> k"
  shows "look_operation j d' = look_operation j d"
proof -
  have "op_id op' = k" "d_operations d' = update_first (\<lambda>x. op_id x = k) (\<lambda>_. op') (d_operations d)"
    using assms(1) by (simp_all add: touched_def)
  moreover have "find (\<lambda>x. op_id x = j) (update_first (\<lambda>x. op_id x = k) (\<lambda>_. op') xs) = find (\<lambda>x. op_id x = j) xs"
    if "op_id op' = k" "j \<noteq> k" for xs
    using that by (induction xs) auto
  ultimately show ?thesis using assms(2) by (simp add: look_operation_def)
qed

lemma checkpointed_other:
  "checkpointed h c d d' \<Longrightarrow> j \<noteq> ck_operation c \<Longrightarrow> look_operation j d' = look_operation j d"
  by (auto simp: checkpointed_def settled_def intro: touched_others)

lemma refused_other:
  "refused c d d' \<Longrightarrow> j \<noteq> ck_operation c \<Longrightarrow> look_operation j d' = look_operation j d"
  by (auto simp: refused_def attempt_def intro: touched_others)

text \<open>What the contract approved of an operation is in every document it appears in.\<close>

lemma outcomes_keep:
  "pre_write_outcome h c op = Inr op' \<Longrightarrow> op_action op' = op_action op \<and> op_dependencies op' = op_dependencies op"
  "evidence_outcome h c op = Inr op' \<Longrightarrow> op_action op' = op_action op \<and> op_dependencies op' = op_dependencies op"
  "journal_outcome h c op = Inr op' \<Longrightarrow> op_action op' = op_action op \<and> op_dependencies op' = op_dependencies op"
  by (cases "ck_state c"; auto simp: pre_write_outcome_def evidence_outcome_def journal_outcome_def
      bindE_Inr_iff case_prod_beta split: if_splits)+

lemma checkpoint_outcome_keeps:
  assumes "checkpoint_outcome h c op = Inr op'"
  shows "op_action op' = op_action op" and "op_dependencies op' = op_dependencies op"
  using assms by (auto simp: checkpoint_outcome_def bindE_Inr_iff dest!: outcomes_keep)

lemma in_progress_outcome:
  assumes "checkpoint_outcome h c op = Inr op'" and "ck_state c = InProgress" and "op_state op = Planned"
    and "delta_action (op_action op)"
  shows "\<exists>comparison. op_pre_write_comparison op' = Some comparison \<and>
    jget comparison ''pass'' = Some (JBool True)"
proof -
  obtain op1 op2 where o: "pre_write_outcome h c op = Inr op1" "evidence_outcome h c op1 = Inr op2"
    "journal_outcome h c op2 = Inr op'"
    using assms(1) by (auto simp: checkpoint_outcome_def bindE_Inr_iff)
  have "executing (ck_state c)" by (simp add: assms(2) executing_def)
  from pre_write_outcome_delta [OF o(1) assms(3) this assms(4)] obtain w where
    w: "build_pre_write_comparison h op (ck_pre_write_saved c) = Inr w" "pw_pass w"
      "op_pre_write_comparison op1 = Some (pw_json w)" by blast
  have "op_pre_write_comparison op' = Some (pw_json w)"
    using later_outcomes_pre_write(1) [OF o(2)] later_outcomes_pre_write(2) [OF o(3)] w(3) by simp
  then show ?thesis using pre_write_json_pass [OF w(1)] w(2) by simp
qed

lemma entered_write_ready:
  assumes c: "checkpointed h c d d'" "ck_state c = InProgress" "ck_operation c = k"
    and planned: "look_operation k d = Some op" "op_state op = Planned"
    and ids: "distinct (map op_id (d_operations d))" and written: "mutating_action (op_action op)"
  shows "write_ready d' k"
proof -
  obtain op' where op': "look_operation k d' = Some op'" "checkpoint_outcome h c op = Inr op'"
    "op_state op' = InProgress"
    using checkpointed_look [OF c(1)] planned(1) c(2,3) by auto
  have "gate_open c d" using c(1) by (auto simp: checkpointed_def)
  then obtain row where row: "readiness_of d k = Inr row" "rd_blocked row = []" "rd_waiting row = []"
    using c(2,3) by (auto simp: gate_open_def executing_def)
  have look: "map_of (index_ops (d_operations d)) j = look_operation j d" for j
    unfolding look_operation_def by (rule look_index [OF ids])
  have deps: "\<exists>dop. look_operation dep d = Some dop \<and> op_state dop = Verified"
    if "dep \<in> set (op_dependencies op)" for dep
    using readiness_clear [OF row] that planned(1) unfolding look by fastforce
  have deps': "\<exists>dop. look_operation dep d' = Some dop \<and> op_state dop = Verified"
    if dep: "dep \<in> set (op_dependencies op)" for dep
  proof -
    obtain dop where dop: "look_operation dep d = Some dop" "op_state dop = Verified"
      using deps [OF dep] by blast
    then have "dep \<noteq> k" using planned by auto
    then show ?thesis using checkpointed_other [OF c(1)] c(3) dop by simp
  qed
  note same = checkpoint_outcome_keeps [OF op'(2)]
  show ?thesis
    unfolding write_ready_def
    by (rule exI [of _ op']) (simp add: op' same written in_progress_outcome [OF op'(2) c(2) planned(2)] deps')
qed

section \<open>Stages that do not write\<close>

text \<open>
  The state \<open>t\<close> reached from \<open>s\<close> when the writes \<open>es\<close> went out in between:
  operations only moved forward, and an accepted write is not forgotten.
\<close>

definition kept :: "string \<Rightarrow> 'w engine \<Rightarrow> 'w engine \<Rightarrow> write_event list \<Rightarrow> bool" where
  "kept k s t es \<longleftrightarrow> progressed (en_doc s) (en_doc t) \<and>
     (\<forall>j. j \<noteq> k \<longrightarrow> look_operation j (en_doc t) = look_operation j (en_doc s)) \<and>
     en_trace t = en_trace s @ es \<and> (en_accepted s \<longrightarrow> en_accepted t)"

definition state_of :: "string \<Rightarrow> 'w engine \<Rightarrow> op_state option" where
  "state_of k s = map_option op_state (look_operation k (en_doc s))"

lemma kept_refl [simp]: "kept k s s []"
  by (simp add: kept_def)

lemma kept_trans: "kept k s t es \<Longrightarrow> kept k t u fs \<Longrightarrow> kept k s u (es @ fs)"
  by (auto simp: kept_def intro: progressed_trans)

lemma kept_trans_still: "kept k s t es \<Longrightarrow> kept k t u [] \<Longrightarrow> kept k s u es"
  using kept_trans [where fs = "[]"] by simp

lemma kept_simps [simp]:
  "kept k s (t\<lparr>en_world := w\<rparr>) es = kept k s t es"
  "kept k s (t\<lparr>en_file := f\<rparr>) es = kept k s t es"
  "kept k s (t\<lparr>en_secrets := x\<rparr>) es = kept k s t es"
  "kept k s (t\<lparr>en_attempted := b\<rparr>) es = kept k s t es"
  "state_of k (s\<lparr>en_world := w\<rparr>) = state_of k s"
  "state_of k (s\<lparr>en_file := f\<rparr>) = state_of k s"
  "state_of k (s\<lparr>en_secrets := x\<rparr>) = state_of k s"
  "state_of k (s\<lparr>en_attempted := b\<rparr>) = state_of k s"
  "state_of k (s\<lparr>en_accepted := b\<rparr>) = state_of k s"
  by (simp_all add: kept_def state_of_def)

lemma kept_accepted [simp]: "kept k s t es \<Longrightarrow> kept k s (t\<lparr>en_accepted := True\<rparr>) es"
  by (simp add: kept_def)

text \<open>An operation that left \<open>Planned\<close> does not come back to it.\<close>

lemma kept_state:
  assumes "kept k s t es" and "state_of k s = Some a"
  shows "\<exists>b. state_of k t = Some b \<and> (a = b \<or> state_rank a < state_rank b)"
proof -
  obtain op where op: "look_operation k (en_doc s) = Some op" "op_state op = a"
    using assms(2) by (auto simp: state_of_def)
  have "progressed (en_doc s) (en_doc t)" using assms(1) by (simp add: kept_def)
  from progressed_look [OF this op(1)] obtain op' where
    "look_operation k (en_doc t) = Some op'" "advanced op op'" by blast
  then show ?thesis using op(2) by (auto simp: state_of_def advanced_def)
qed

lemma kept_moved: "kept k s t es \<Longrightarrow> state_of k s = Some a \<Longrightarrow> a \<noteq> Planned \<Longrightarrow> state_of k t \<noteq> Some Planned"
  using kept_state [where k = k and a = a and s = s and t = t] by (cases a) auto

lemma wpX_worldX:
  assumes "\<And>a w. Q a (s\<lparr>en_world := w\<rparr>)" and "\<And>e w. E e (s\<lparr>en_world := w\<rparr>)"
  shows "wpX (worldX m) Q E s"
  using assms by (simp add: worldX_def wpX_any)

lemma wpX_docX: "wpX (docX m) Q E s =
    wpX m (\<lambda>a d. Q a (s\<lparr>en_doc := d\<rparr>)) (\<lambda>e d. E e (s\<lparr>en_doc := d\<rparr>)) (en_doc s)"
  by (simp add: docX_def)

lemma wpX_save:
  assumes "\<And>w. Q () (s\<lparr>en_world := w, en_file := en_doc s\<rparr>)" and "\<And>e w. E e (s\<lparr>en_world := w\<rparr>)"
  shows "wpX (save rt) Q E s"
  using assms by (simp add: save_def wpX_worldX)

lemma wpX_read_saved:
  assumes "\<And>a w. Q a (s\<lparr>en_world := w\<rparr>)" and "\<And>e w. E e (s\<lparr>en_world := w\<rparr>)"
  shows "wpX (read_saved rt b op) Q E s"
  unfolding read_saved_def limited_def
proof (rule wpX_with_retries_inv [where I = "\<lambda>t. \<exists>w. t = s\<lparr>en_world := w\<rparr>"])
  show "\<exists>w. s = s\<lparr>en_world := w\<rparr>" by (rule exI [of _ "en_world s"]) simp
qed (auto intro!: wpX_worldX assms)

text \<open>A checkpoint of operation \<open>k\<close>.\<close>

lemma wpX_mark:
  assumes "kept k r s es" and "ck_operation c = k"
  shows "wpX (mark rt c) (\<lambda>_ t. kept k r t es \<and> state_of (ck_operation c) t = Some (ck_state c))
    (\<lambda>_ t. kept k r t es) s"
proof -
  have "wpX (docX (checkpoint_validated_operation (rt_host rt) (c\<lparr>ck_time := time\<rparr>)))
      (\<lambda>_ t. kept k r t es \<and> state_of (ck_operation c) t = Some (ck_state c)) (\<lambda>_ t. kept k r t es)
      (s\<lparr>en_world := w\<rparr>)" for time w
    unfolding wpX_docX
    by (rule wpX_mono [OF checkpoint_wp])
      (use assms in \<open>auto simp: kept_def state_of_def dest: checkpointed_progressed refused_progressed
        checkpointed_look checkpointed_other refused_other intro: progressed_trans\<close>)
  then show ?thesis using assms by (simp add: mark_def wpX_worldX)
qed

text \<open>Stages that end with operation \<open>k\<close> in one of the states \<open>A\<close>.\<close>

definition ended :: "'w engine \<Rightarrow> string \<Rightarrow> write_event list \<Rightarrow> op_state set \<Rightarrow> 'w engine \<Rightarrow> bool" where
  "ended r k es A t \<longleftrightarrow> kept k r t es \<and> (\<exists>a \<in> A. state_of k t = Some a)"

lemma ended_simps [simp]:
  "ended r k es A (t\<lparr>en_world := w\<rparr>) = ended r k es A t"
  "ended r k es A (t\<lparr>en_file := f\<rparr>) = ended r k es A t"
  by (simp_all add: ended_def)

lemma ended_kept: "ended r k es A t \<Longrightarrow> kept k r t es"
  by (simp add: ended_def)

lemma plain_checkpoint_simps [simp]:
  "ck_operation (plain_checkpoint k a note) = k" "ck_state (plain_checkpoint k a note) = a"
  by (simp_all add: plain_checkpoint_def)

lemma wpX_mark_ended:
  assumes "kept k r s es" and "ck_operation c = k" and "ck_state c \<in> A"
  shows "wpX (mark rt c) (\<lambda>_. ended r k es A) (\<lambda>_ t. kept k r t es) s"
  by (rule wpX_mono [OF wpX_mark [OF assms(1,2)]]) (use assms(2,3) in \<open>auto simp: ended_def\<close>)

lemma wpX_mark_error:
  "kept k r s es \<Longrightarrow> a \<in> A \<Longrightarrow> wpX (mark_error rt k a note error) (\<lambda>_. ended r k es A) (\<lambda>_ t. kept k r t es) s"
  unfolding mark_error_def by (rule wpX_mark_ended) simp_all

lemma wpX_mark_verdict:
  assumes "kept k r s es" and "Verified \<in> A" and "a \<in> A"
  shows "wpX (mark_verdict rt k v passed a note error) (\<lambda>_. ended r k es A) (\<lambda>_ t. kept k r t es) s"
  unfolding mark_verdict_def
  by (cases "vr_pass v") (simp_all add: wpX_mark_ended assms)

lemma wpX_judge:
  assumes "kept k r s es" and "Verified \<in> A" and "a \<in> A"
  shows "wpX (bindX (liftX v) (\<lambda>v. mark_verdict rt k v passed a note error))
    (\<lambda>_. ended r k es A) (\<lambda>_ t. kept k r t es) s"
  by (cases v) (simp_all add: assms wpX_mark_verdict)

text \<open>\<open>_prepare_write\<close> ends the operation, or leaves everything for a permitted write.\<close>

lemma wpX_prepare_write:
  assumes k: "kept (op_id op) r s es"
  shows "wpX (prepare_write rt op current)
    (\<lambda>p t. case p of None \<Rightarrow> ended r (op_id op) es {Verified, Failed} t
       | Some q \<Rightarrow> t = s \<and> mutating_action (op_action op)) (\<lambda>_ t. kept (op_id op) r t es) s"
proof -
  have create: "wpX (prepare_create rt op current) (\<lambda>_. ended r (op_id op) es {Verified, Failed}) (\<lambda>_ t. kept (op_id op) r t es) s"
    unfolding prepare_create_def by (rule wpX_judge [OF k]) simp_all
  have reuse: "wpX (prepare_reuse rt op current) (\<lambda>_. ended r (op_id op) es {Verified, Failed}) (\<lambda>_ t. kept (op_id op) r t es) s"
    unfolding prepare_reuse_def
    by (cases "current = JNull") (simp_all add: wpX_mark_error k del: wpX_bindX, rule wpX_judge [OF k], simp_all)
  have drift: "wpX (mark rt (c\<lparr>ck_error := e, ck_result := x\<rparr>))
      (\<lambda>_. ended r (op_id op) es {Verified, Failed}) (\<lambda>_ t. kept (op_id op) r t es) s"
    if "ck_operation c = op_id op" "ck_state c = Failed" for c e x
    by (rule wpX_mark_ended [OF k]) (simp_all add: that)
  have final: "op_action op \<in> {Reuse, Untouched} \<or> mutating_action (op_action op)"
    by (cases "op_action op") (simp_all add: mutating_action_def delta_action_def)
  show ?thesis
    unfolding prepare_write_def
    using final
    by (auto simp: create reuse drift mutating_action_def k split: sum.split)
qed

section \<open>The write\<close>

text \<open>
  The writes of one operation: at most three, each but the last answered by a rate limit, which
  says that nothing was applied.
\<close>

definition limited_event :: "write_event \<Rightarrow> bool" where
  "limited_event e \<longleftrightarrow> (\<exists>x. we_outcome e = Some x \<and> is_rate_limit x)"

definition applied :: "write_event \<Rightarrow> bool" where
  "applied e = (case we_outcome e of None \<Rightarrow> True | Some x \<Rightarrow> is_ambiguous x)"

definition bounded_writes :: "write_event list \<Rightarrow> bool" where
  "bounded_writes es \<longleftrightarrow> length es \<le> 3 \<and> list_all limited_event (butlast es)"

lemma limited_not_applied: "limited_event e \<Longrightarrow> \<not> applied e"
proof -
  assume "limited_event e"
  then obtain x where x: "we_outcome e = Some x" "is_rate_limit x" by (auto simp: limited_event_def)
  then have "\<not> is_ambiguous x" by (cases x) (simp_all add: is_rate_limit_def is_ambiguous_def)
  then show ?thesis using x(1) by (simp add: applied_def)
qed

text \<open>The state before a write and the one after the writes \<open>es\<close>, all of them with
  the same artifact on disk.\<close>

definition sent :: "string \<Rightarrow> 'w engine \<Rightarrow> 'w engine \<Rightarrow> write_event list \<Rightarrow> bool" where
  "sent k s t es \<longleftrightarrow> en_doc t = en_doc s \<and> en_file t = en_file s \<and> en_accepted t = en_accepted s \<and>
     en_trace t = en_trace s @ es \<and> (\<forall>e \<in> set es. we_operation e = k \<and> we_file e = en_file s)"

lemma sent_simps [simp]:
  "sent k s (t\<lparr>en_world := w\<rparr>) es = sent k s t es"
  "sent k s (t\<lparr>en_attempted := b\<rparr>) es = sent k s t es"
  "sent k s s []"
  by (simp_all add: sent_def)

lemma sent_kept: "sent k s t es \<Longrightarrow> kept k s t es"
  by (simp add: sent_def kept_def)

lemma wpX_logged_write:
  assumes "sent k s t es"
    and "\<And>a u e. sent k s u (es @ [e]) \<Longrightarrow> we_outcome e = None \<Longrightarrow> Q a u"
    and "\<And>x u e. sent k s u (es @ [e]) \<Longrightarrow> we_outcome e = Some x \<Longrightarrow> E x u"
  shows "wpX (logged_write b k m) Q E t"
proof -
  obtain r w where r: "ad_mutate (bd_adapter b) m (en_world t) = (r, w)" by force
  let ?e = "\<lparr>we_operation = k, we_file = en_file t, we_outcome = outcome_of r\<rparr>"
  let ?u = "t\<lparr>en_world := w, en_trace := en_trace t @ [?e]\<rparr>"
  have u: "sent k s ?u (es @ [?e])" using assms(1) by (auto simp: sent_def)
  show ?thesis
    using assms(2,3) [OF u] by (cases r) (simp_all add: wpX_def logged_write_def r outcome_of_def)
qed

lemma wpX_check_identity:
  "(\<And>w. Q () (s\<lparr>en_world := w\<rparr>)) \<Longrightarrow> (\<And>e w. E e (s\<lparr>en_world := w\<rparr>)) \<Longrightarrow> wpX (check_current_identity b) Q E s"
  by (simp add: check_current_identity_def wpX_worldX)

lemma wpX_fresh_retry_proof:
  assumes "\<And>w. Q () (s\<lparr>en_world := w\<rparr>)" and "\<And>e w. E e (s\<lparr>en_world := w\<rparr>)"
  shows "wpX (fresh_retry_proof rt b op) Q E s"
proof -
  have "wpX (worldX (checked_read (bd_adapter b) op)) (\<lambda>saved. wpX (bindX (liftX
      (build_pre_write_comparison (rt_host rt) op saved)) (\<lambda>w. checkX (\<not> pw_pass w) (coded_error
        ''container_drift'' ''Target changed during quota backoff; no retry write performed''))) Q E) E
      (s\<lparr>en_world := w\<rparr>)" for w
    by (rule wpX_worldX) (use assms in \<open>auto split: sum.split\<close>)
  then show ?thesis
    unfolding fresh_retry_proof_def using assms by (simp add: wpX_check_identity)
qed

lemma wpX_mutate_attempt:
  assumes t: "sent (op_id op) s t es" and limited: "list_all limited_event es"
    and Q: "\<And>a u e. sent (op_id op) s u (es @ [e]) \<Longrightarrow> Q a u"
    and E: "\<And>x u fs. sent (op_id op) s u (es @ fs) \<Longrightarrow> length fs \<le> 1 \<Longrightarrow>
      (\<forall>e \<in> set fs. we_outcome e = Some x) \<Longrightarrow> E x u"
  shows "wpX (mutate_attempt rt b op m) Q E t"
proof -
  have send: "wpX (logged_write b (op_id op) m) Q E (t\<lparr>en_world := w, en_attempted := True\<rparr>)" for w
    by (rule wpX_logged_write [of _ s _ es]) (use t E [of _ "[_]"] Q in auto)
  have fail: "E x (t\<lparr>en_world := w\<rparr>)" for x w
    using E [of "t\<lparr>en_world := w\<rparr>" "[]" x] t by simp
  have again: "wpX (fresh_retry_proof rt b op) (\<lambda>_. wpX (thenX (modifyX (\<lambda>s. s\<lparr>en_attempted := True\<rparr>))
      (logged_write b (op_id op) m)) Q E) E t"
    by (rule wpX_fresh_retry_proof) (use send fail in auto)
  have first: "wpX (thenX (modifyX (\<lambda>s. s\<lparr>en_attempted := True\<rparr>)) (logged_write b (op_id op) m)) Q E t"
    using send [of "en_world t"] by simp
  show ?thesis unfolding mutate_attempt_def using again first by simp
qed

text \<open>The retries: an applied write that raised is ambiguous, and so is what the call raises.\<close>

lemma rate_limit_of_iff: "rate_limit_of e \<noteq> None \<longleftrightarrow> is_rate_limit e"
  by (cases e) (simp_all add: rate_limit_of_def is_rate_limit_def)

lemma bounded_extend:
  assumes "list_all limited_event es" and "length es \<le> 2" and "length fs \<le> 1"
  shows "bounded_writes (es @ fs)"
  using assms by (cases fs) (auto simp: bounded_writes_def butlast_append list_all_iff dest: in_set_butlastD)

lemma wpX_mutate:
  shows "wpX (mutate_with_quota_proof rt b op m)
    (\<lambda>_ t. \<exists>es. sent (op_id op) s t es \<and> bounded_writes es)
    (\<lambda>x t. \<exists>es. sent (op_id op) s t es \<and> bounded_writes es \<and> ((\<exists>e \<in> set es. applied e) \<longrightarrow> is_ambiguous x)) s"
    (is "wpX _ ?Q ?E s")
proof -
  define I where "I k t \<longleftrightarrow> (\<exists>es. sent (op_id op) s t es \<and> list_all limited_event es \<and> length es \<le> k)"
    for k :: nat and t
  have stop: "?E e u" if u: "I k u" "k \<le> 2" for k u e
  proof -
    obtain es where es: "sent (op_id op) s u es" "list_all limited_event es" "length es \<le> k"
      using u(1) by (auto simp: I_def)
    have "bounded_writes (es @ [])" by (rule bounded_extend) (use es u in auto)
    moreover have "\<not> (\<exists>e \<in> set es. applied e)" using es(2) limited_not_applied by (auto simp: list_all_iff)
    ultimately show ?thesis using es(1) by auto
  qed
  have call: "wpX (mutate_attempt rt b op m) ?Q
      (\<lambda>e t. ?E e t \<and> (rate_limit_of e \<noteq> None \<longrightarrow> I (Suc k) t)) t" if t: "I k t" "k \<le> 2" for k t
  proof -
    obtain es where es: "sent (op_id op) s t es" "list_all limited_event es" "length es \<le> k"
      using t(1) by (auto simp: I_def)
    show ?thesis
    proof (rule wpX_mutate_attempt [OF es(1,2)])
      show "?Q a u" if "sent (op_id op) s u (es @ [e])" for a u e
        using that bounded_extend [OF es(2), of "[e]"] es(3) \<open>k \<le> 2\<close> by auto
    next
      fix x u fs
      assume u: "sent (op_id op) s u (es @ fs)" "length fs \<le> 1" "\<forall>e \<in> set fs. we_outcome e = Some x"
      have b: "bounded_writes (es @ fs)" by (rule bounded_extend) (use es u \<open>k \<le> 2\<close> in auto)
      have "is_ambiguous x" if "\<exists>e \<in> set (es @ fs). applied e"
        using that es(2) u(3) limited_not_applied by (auto simp: list_all_iff applied_def)
      moreover have "I (Suc k) u" if "is_rate_limit x"
        using that u es by (auto simp: I_def list_all_iff limited_event_def intro!: exI [of _ "es @ fs"])
      ultimately show "?E x u \<and> (rate_limit_of x \<noteq> None \<longrightarrow> I (Suc k) u)"
        unfolding rate_limit_of_iff using u(1) b by blast
    qed
  qed
  have sleep: "wpX (worldX (rt_sleep rt d)) (\<lambda>_. I k) ?E t" if "I k t" "k \<le> 2" for k d t
    by (rule wpX_worldX) (use that stop [OF that] in \<open>auto simp: I_def\<close>)
  have zero: "I 0 (s\<lparr>en_world := w, en_attempted := False\<rparr>)" for w
    by (auto simp: I_def intro!: exI [of _ "[]"])
  have retries: "wpX (limited rt (mutate_attempt rt b op m)) ?Q ?E (s\<lparr>en_world := w, en_attempted := False\<rparr>)" for w
    unfolding limited_def
    by (rule wpX_with_retries [where I = I and N = 2 and k = 0, OF call sleep zero])
      (simp_all add: retry_limit_def)
  have fail: "?E e (s\<lparr>en_world := w\<rparr>)" for e w
    by (auto intro!: exI [of _ "[]"] simp: bounded_writes_def)
  show ?thesis
    unfolding mutate_with_quota_proof_def wpX_thenX
    by (rule wpX_check_identity) (use retries fail in simp_all)
qed

section \<open>After the write\<close>

lemma wpX_settle:
  assumes s: "kept (op_id op) r s es"
    and unreadable: "wpX unreadable (\<lambda>_. ended r (op_id op) es {Verified, Uncertain}) (\<lambda>_ t. kept (op_id op) r t es) s"
  shows "wpX (settle rt op saved passed note error unreadable)
    (\<lambda>_. ended r (op_id op) es {Verified, Uncertain}) (\<lambda>_ t. kept (op_id op) r t es) s"
proof (cases "saved = JNull \<and> op_action op \<noteq> Remove")
  case True
  then show ?thesis using unreadable by (simp add: settle_def)
next
  case False
  then show ?thesis
    unfolding settle_def if_not_P [OF False] by (intro wpX_judge [OF s]) simp_all
qed

text \<open>Both continuations accept the write first, and end verified or uncertain.\<close>

lemma wpX_accept:
  assumes s: "kept k r s es"
    and m: "wpX m (\<lambda>_. ended (s\<lparr>en_accepted := True\<rparr>) k [] A) (\<lambda>_ t. kept k (s\<lparr>en_accepted := True\<rparr>) t [])
      (s\<lparr>en_accepted := True\<rparr>)"
  shows "wpX (thenX (modifyX (\<lambda>s. s\<lparr>en_accepted := True\<rparr>)) m)
    (\<lambda>_ t. ended r k es A t \<and> en_accepted t) (\<lambda>_ t. kept k r t es \<and> en_accepted t) s"
proof -
  have "kept k r t es \<and> en_accepted t" if "kept k (s\<lparr>en_accepted := True\<rparr>) t []" for t
    using kept_trans_still [OF kept_accepted [OF s] that] that by (simp add: kept_def)
  then have "wpX m (\<lambda>_ t. ended r k es A t \<and> en_accepted t) (\<lambda>_ t. kept k r t es \<and> en_accepted t) (s\<lparr>en_accepted := True\<rparr>)"
    by (intro wpX_mono [OF m]) (auto simp: ended_def)
  then show ?thesis by simp
qed

lemma wpX_settle_marked:
  "wpX (settle rt op saved passed n error (mark_error rt (op_id op) Uncertain n' text))
    (\<lambda>_. ended s (op_id op) [] {Verified, Uncertain}) (\<lambda>_ t. kept (op_id op) s t []) (s\<lparr>en_world := w\<rparr>)"
  by (intro wpX_settle wpX_mark_error) simp_all

lemma wpX_settle_ambiguous:
  "kept (op_id op) r s es \<Longrightarrow> wpX (settle_ambiguous rt b op e)
    (\<lambda>_ t. ended r (op_id op) es {Verified, Uncertain} t \<and> en_accepted t)
    (\<lambda>_ t. kept (op_id op) r t es \<and> en_accepted t) s"
  unfolding settle_ambiguous_def
  by (erule wpX_accept, unfold wpX_bindX [of "read_saved rt b op"], rule wpX_read_saved)
    (simp_all add: wpX_settle_marked)

lemma wpX_settle_written:
  assumes "kept (op_id op) r s es"
  shows "wpX (settle_written rt b op saved)
    (\<lambda>_ t. ended r (op_id op) es {Verified, Uncertain} t \<and> en_accepted t)
    (\<lambda>_ t. kept (op_id op) r t es \<and> en_accepted t) s"
proof -
  let ?s = "s\<lparr>en_accepted := True\<rparr>"
  let ?settle = "\<lambda>saved. settle rt op saved ''Saved object verified by target readback.''
         ''Saved readback differs from the intended object; no retry.'' ''saved_readback_mismatch''
         (mark_error rt (op_id op) Uncertain ''Write returned without authoritative readback; no retry.''
           ''missing_readback'')"
  let ?Q = "\<lambda>_ :: unit. ended ?s (op_id op) [] {Verified, Uncertain}" and ?E = "\<lambda>_ t. kept (op_id op) ?s t []"
  have own: "wpX (?settle saved) ?Q ?E ?s" for saved
    using wpX_settle_marked [where s = ?s and w = "en_world s"] by simp
  have read: "wpX (read_saved rt b op) (\<lambda>saved. wpX (?settle saved) ?Q ?E) ?E ?s"
    by (rule wpX_read_saved) (simp_all add: wpX_settle_marked del: kept_simps(1), simp)
  have again: "wpX (if complete then returnX saved else read_saved rt b op)
      (\<lambda>saved. wpX (?settle saved) ?Q ?E) ?E ?s" for complete
    by (cases complete) (simp_all add: own read)
  have "wpX (if op_action op = Remove then returnX False
      else liftX (complete_observation (rt_host rt) op saved))
    (\<lambda>complete. wpX (if complete then returnX saved else read_saved rt b op)
      (\<lambda>saved. wpX (?settle saved) ?Q ?E) ?E) ?E ?s"
    by (cases "op_action op = Remove") (simp_all add: own read again split: sum.split)
  then show ?thesis
    unfolding settle_written_def by (intro wpX_accept [OF assms]) (simp only: wpX_bindX)
qed

text \<open>The write with its continuation: an applied write ends verified or uncertain.\<close>

text \<open>The outcome of a write of operation \<open>k\<close> from \<open>s\<close> on: finished, or interrupted.\<close>

definition written_off :: "'w engine \<Rightarrow> string \<Rightarrow> 'w engine \<Rightarrow> bool" where
  "written_off s k t \<longleftrightarrow> (\<exists>es. ended s k es {Verified, Uncertain} t \<and> en_accepted t \<and> bounded_writes es \<and>
     (\<forall>e \<in> set es. we_operation e = k \<and> we_file e = en_file s))"

definition interrupted :: "'w engine \<Rightarrow> string \<Rightarrow> 'w engine \<Rightarrow> bool" where
  "interrupted s k t \<longleftrightarrow> (\<exists>es. kept k s t es \<and> bounded_writes es \<and>
     (\<forall>e \<in> set es. we_operation e = k \<and> we_file e = en_file s) \<and>
     ((\<exists>e \<in> set es. applied e) \<longrightarrow> en_accepted t))"

lemma wpX_settled_write:
  assumes t: "sent k s t es" "bounded_writes es"
    and m: "wpX m (\<lambda>_ t. ended s k es {Verified, Uncertain} t \<and> en_accepted t)
      (\<lambda>_ t. kept k s t es \<and> en_accepted t) t"
  shows "wpX m (\<lambda>_. written_off s k) (\<lambda>_. interrupted s k) t"
proof -
  have "\<forall>e \<in> set es. we_operation e = k \<and> we_file e = en_file s" using t(1) by (simp add: sent_def)
  then show ?thesis
    by (intro wpX_mono [OF m]) (use t(2) in \<open>auto simp: written_off_def interrupted_def\<close>)
qed

lemma wpX_write_and_settle:
  "wpX (write_and_settle rt b op m) (\<lambda>_. written_off s (op_id op)) (\<lambda>_. interrupted s (op_id op)) s"
proof -
  let ?Q = "\<lambda>_ :: unit. written_off s (op_id op)" and ?E = "\<lambda>_. interrupted s (op_id op)"
  have returned: "wpX (settle_written rt b op saved) ?Q ?E t"
    if "sent (op_id op) s t es" "bounded_writes es" for saved t es
    by (rule wpX_settled_write [OF that wpX_settle_written [OF sent_kept [OF that(1)]]])
  have unclear: "wpX (settle_ambiguous rt b op x) ?Q ?E t"
    if "sent (op_id op) s t es" "bounded_writes es" for x t es
    by (rule wpX_settled_write [OF that wpX_settle_ambiguous [OF sent_kept [OF that(1)]]])
  have raised: "interrupted s (op_id op) t"
    if "sent (op_id op) s t es" "bounded_writes es" "\<not> (\<exists>e \<in> set es. applied e)" for t es
    using that sent_kept [OF that(1)] by (auto simp: interrupted_def sent_def)
  have "wpX (mutate_with_quota_proof rt b op m) (\<lambda>saved. wpX (settle_written rt b op saved) ?Q ?E)
      (\<lambda>x t. if is_ambiguous x then wpX (settle_ambiguous rt b op x) ?Q ?E t else interrupted s (op_id op) t) s"
    by (rule wpX_mono [OF wpX_mutate]) (auto simp: returned unclear raised)
  then show ?thesis
    unfolding write_and_settle_def wpX_bindX wpX_catchX wpX_returnX sum.case
    by (rule wpX_mono) (auto split: if_splits)
qed

section \<open>One operation\<close>

lemma wpX_checkpoint_failure:
  assumes s: "kept k r s es"
  shows "wpX (checkpoint_failure rt k e)
    (\<lambda>_. ended r k es (if en_accepted s \<and> state_of k s \<noteq> Some Planned then {Uncertain} else {Failed, Uncertain}))
    (\<lambda>_ t. kept k r t es) s" (is "wpX _ (\<lambda>_. ended r k es ?A) ?E s")
proof -
  have boundary: "wpX (bindX (askX (\<lambda>s. find_operation (en_doc s) k)) (\<lambda>op.
      mark_error rt k (if op_state op = Planned then Failed else Uncertain) n error)) (\<lambda>_. ended r k es ?A) ?E s"
    for n error
    by (cases "look_operation k (en_doc s)")
      (auto simp: find_operation_def look_operation_def [symmetric] state_of_def s
        intro!: wpX_mark_error [OF s])
  have write': "wpX (mark_error rt k (if en_accepted s then Uncertain else Failed) n error) (\<lambda>_. ended r k es ?A) ?E s"
    for n error
    by (rule wpX_mark_error [OF s]) simp
  show ?thesis
    unfolding checkpoint_failure_def Let_def wpX_bindX [of "getX _"] wpX_getX
    by (simp only: boundary write' simp_thms split: if_split)
qed

lemma wpX_mark_entered:
  assumes "ck_operation c = k"
  shows "wpX (mark rt c)
    (\<lambda>_ t. \<exists>time w. checkpointed (rt_host rt) (c\<lparr>ck_time := time\<rparr>) (en_doc s) (en_doc t) \<and>
       t = s\<lparr>en_world := w, en_doc := en_doc t\<rparr>) (\<lambda>_ t. kept k s t []) s"
proof -
  have "wpX (docX (checkpoint_validated_operation (rt_host rt) (c\<lparr>ck_time := time\<rparr>)))
    (\<lambda>_ t. \<exists>time w. checkpointed (rt_host rt) (c\<lparr>ck_time := time\<rparr>) (en_doc s) (en_doc t) \<and>
       t = s\<lparr>en_world := w, en_doc := en_doc t\<rparr>) (\<lambda>_ t. kept k s t []) (s\<lparr>en_world := w\<rparr>)" for time w
    unfolding wpX_docX
    by (rule wpX_mono [OF checkpoint_wp]) (use assms in \<open>auto simp: kept_def dest: refused_progressed refused_other\<close>)
  then show ?thesis by (simp add: mark_def wpX_worldX)
qed

text \<open>After the boundary the artifact on disk is the document, ready for the write.\<close>

lemma wpX_enter_write:
  assumes op: "look_operation k (en_doc s) = Some op" "op_state op = Planned" "mutating_action (op_action op)"
    and ids: "distinct (map op_id (d_operations (en_doc s)))"
  shows "wpX (enter_write rt k proof)
    (\<lambda>op' t. kept k s t [] \<and> op_id op' = k \<and> write_ready (en_file t) k \<and> en_file t = en_doc t)
    (\<lambda>_ t. kept k s t []) s"
proof -
  let ?c = "(plain_checkpoint k InProgress ''Write boundary entered after fresh target readback.'')
       \<lparr>ck_pre_write_comparison := fst proof, ck_pre_write_saved := snd proof\<rparr>"
  let ?Q = "\<lambda>op' t. kept k s t [] \<and> op_id op' = k \<and> write_ready (en_file t) k \<and> en_file t = en_doc t"
    and ?E = "\<lambda>_ t. kept k s t []"
  have saved: "wpX (thenX (save rt) (askX (\<lambda>s. find_operation (en_doc s) k))) ?Q ?E t"
    if t: "checkpointed (rt_host rt) (?c\<lparr>ck_time := time\<rparr>) (en_doc s) (en_doc t)"
      "t = s\<lparr>en_world := w, en_doc := en_doc t\<rparr>" for time w t
  proof -
    have ready: "write_ready (en_doc t) k"
      by (rule entered_write_ready [OF t(1) _ _ op(1,2) ids op(3)]) simp_all
    then obtain op' where op': "look_operation k (en_doc t) = Some op'" by (auto simp: write_ready_def)
    have k: "kept k s (t\<lparr>en_world := x, en_file := f\<rparr>) []" for x f
      using checkpointed_progressed [OF t(1)] checkpointed_other [OF t(1)] by (subst t(2)) (simp add: kept_def)
    show ?thesis
      unfolding wpX_thenX
      by (rule wpX_save)
        (use ready op' k ops.look_key [OF op'] in \<open>auto simp: find_operation_def look_operation_def [symmetric]\<close>)
  qed
  show ?thesis
    unfolding enter_write_def wpX_thenX [of "mark _ _"]
    by (rule wpX_mono [OF wpX_mark_entered [where k = k]]) (use saved in auto)
qed

text \<open>The writes of operation \<open>k\<close>, each with a ready artifact on disk.\<close>

definition valid_writes :: "string \<Rightarrow> write_event list \<Rightarrow> bool" where
  "valid_writes k es \<longleftrightarrow> bounded_writes es \<and> (\<forall>e \<in> set es. we_operation e = k \<and> write_ready (we_file e) k)"

definition processed :: "'w engine \<Rightarrow> string \<Rightarrow> 'w engine \<Rightarrow> bool" where
  "processed r k t \<longleftrightarrow> en_file t = en_doc t \<and> (\<exists>es. valid_writes k es \<and>
     ended r k es {Verified, Failed, Uncertain} t \<and>
     ((\<exists>e \<in> set es. applied e) \<longrightarrow> ended r k es {Verified, Uncertain} t))"

definition halted :: "'w engine \<Rightarrow> string \<Rightarrow> 'w engine \<Rightarrow> bool" where
  "halted r k t \<longleftrightarrow> (\<exists>es. valid_writes k es \<and> kept k r t es \<and>
     ((\<exists>e \<in> set es. applied e) \<longrightarrow> en_accepted t \<and> state_of k t \<noteq> Some Planned))"

lemma valid_writes_Nil [simp]: "valid_writes k []"
  by (simp add: valid_writes_def bounded_writes_def)

lemma halted_kept: "kept k r t [] \<Longrightarrow> halted r k t"
  unfolding halted_def by (rule exI [of _ "[]"]) simp

lemma halted_world [simp]: "halted r k (t\<lparr>en_world := w\<rparr>) = halted r k t"
  by (simp add: halted_def)

text \<open>Saving ends the processing of an operation.\<close>

lemma wpX_save_ended:
  assumes "ended r k es A t" and "A \<subseteq> {Verified, Failed, Uncertain}" and "valid_writes k es"
    and "(\<exists>e \<in> set es. applied e) \<Longrightarrow> A \<subseteq> {Verified, Uncertain}"
    and "(\<exists>e \<in> set es. applied e) \<Longrightarrow> en_accepted t"
  shows "wpX (save rt) (\<lambda>_. processed r k) (\<lambda>_. halted r k) t"
proof (rule wpX_save)
  have sub: "ended r k es B t" if "A \<subseteq> B" for B using assms(1) that by (auto simp: ended_def)
  show "processed r k (t\<lparr>en_world := w, en_file := en_doc t\<rparr>)" for w
    using sub assms(2-4) by (auto simp: processed_def intro!: exI [of _ es])
  show "halted r k (t\<lparr>en_world := w\<rparr>)" for w
    using assms by (auto simp: halted_def ended_def intro!: exI [of _ es])
qed

lemma written_off_ended:
  assumes "written_off s k t" and "kept k r s []" and "write_ready (en_file s) k"
  shows "\<exists>es. valid_writes k es \<and> ended r k es {Verified, Uncertain} t \<and> en_accepted t"
proof -
  obtain es where es: "ended s k es {Verified, Uncertain} t" "en_accepted t" "bounded_writes es"
     "\<forall>e \<in> set es. we_operation e = k \<and> we_file e = en_file s" using assms(1) by (auto simp: written_off_def)
  have "kept k r t es" using kept_trans [OF assms(2) ended_kept [OF es(1)]] by simp
  then show ?thesis using es assms(3) by (auto simp: ended_def valid_writes_def)
qed

lemma interrupted_halted:
  assumes "interrupted s k t" and "kept k r s []" and "write_ready (en_file s) k" and "en_file s = en_doc s"
  shows "halted r k t"
proof -
  obtain es where es: "kept k s t es" "bounded_writes es"
     "\<forall>e \<in> set es. we_operation e = k \<and> we_file e = en_file s"
     "(\<exists>e \<in> set es. applied e) \<longrightarrow> en_accepted t" using assms(1) by (auto simp: interrupted_def)
  have "state_of k s = Some InProgress"
    using assms(3,4) by (auto simp: write_ready_def state_of_def)
  then have "state_of k t \<noteq> Some Planned" by (rule kept_moved [OF es(1)]) simp
  then show ?thesis
    using es assms(3) kept_trans [OF assms(2) es(1)] by (auto simp: halted_def valid_writes_def)
qed

text \<open>The body of an operation that was planned.\<close>

lemma kept_doc: "en_doc t = en_doc s \<Longrightarrow> en_trace t = en_trace s \<Longrightarrow> en_accepted t = en_accepted s \<Longrightarrow> kept k s t []"
  by (simp add: kept_def)

lemma wpX_written_saved:
  assumes s: "kept k r s []" "write_ready (en_file s) k" "en_file s = en_doc s" and id: "op_id op = k"
  shows "wpX (thenX (write_and_settle rt b op m) (save rt))
    (\<lambda>_. processed r k) (\<lambda>_. halted r k) s"
proof -
  have final: "wpX (save rt) (\<lambda>_. processed r k) (\<lambda>_. halted r k) t"
    if off: "written_off s k t" for t
  proof -
    obtain es where "valid_writes k es" "ended r k es {Verified, Uncertain} t" "en_accepted t"
      using written_off_ended [OF off s(1,2)] by blast
    then show ?thesis by (intro wpX_save_ended [where es = es and A = "{Verified, Uncertain}"]) auto
  qed
  show ?thesis
    unfolding wpX_thenX
    by (rule wpX_mono [OF wpX_write_and_settle]) (use final interrupted_halted [OF _ s] id in auto)
qed

lemma wpX_mutation_input:
  assumes s: "kept (op_id op) r s []"
  shows "wpX (mutation_input rt b op)
    (\<lambda>i t. case i of None \<Rightarrow> ended r (op_id op) [] {Failed} t | Some m \<Rightarrow> \<exists>x. t = s\<lparr>en_secrets := x\<rparr>)
    (\<lambda>_ t. kept (op_id op) r t []) s"
proof (cases "resolve_for_mutation (bd_secrets b) (op_json op)")
  case (Inl e)
  have "wpX (mark_error rt (op_id op) Failed n m) (\<lambda>_. ended r (op_id op) [] {Failed}) (\<lambda>_ t. kept (op_id op) r t []) s" for n m
    by (rule wpX_mark_error [OF s]) simp
  then show ?thesis by (cases e) (simp_all add: mutation_input_def Inl s)
next
  case (Inr p)
  then show ?thesis by (cases p) (auto simp: mutation_input_def)
qed

lemma wpX_prepared_write:
  assumes s: "kept (op_id op) r s []" and op: "look_operation (op_id op) (en_doc s) = Some op" "op_state op = Planned"
      "mutating_action (op_action op)"
    and ids: "distinct (map op_id (d_operations (en_doc s)))"
  shows "wpX (bindX (mutation_input rt b op) (\<lambda>input.
      (case input of
         None \<Rightarrow> save rt
       | Some mutation \<Rightarrow> bindX (enter_write rt (op_id op) proof) (\<lambda>op.
           thenX (write_and_settle rt b op mutation) (save rt)))))
    (\<lambda>_. processed r (op_id op)) (\<lambda>_. halted r (op_id op)) s"
proof -
  let ?Q = "\<lambda>_ :: unit. processed r (op_id op)" and ?E = "\<lambda>_. halted r (op_id op)"
  have failed: "wpX (save rt) ?Q ?E t" if "ended r (op_id op) [] {Failed} t" for t
    by (rule wpX_save_ended [OF that]) simp_all
  have go: "wpX (bindX (enter_write rt (op_id op) proof) (\<lambda>op.
           thenX (write_and_settle rt b op m) (save rt))) ?Q ?E (s\<lparr>en_secrets := x\<rparr>)" for m x
  proof -
    have k: "kept (op_id op) r t []" if "kept (op_id op) (s\<lparr>en_secrets := x\<rparr>) t []" for t
      by (rule kept_trans_still [OF _ that]) (simp add: s)
    show ?thesis
      unfolding wpX_bindX
    proof (rule wpX_mono [OF wpX_enter_write])
      show "wpX (thenX (write_and_settle rt b op' m) (save rt)) ?Q ?E t"
        if "kept (op_id op) (s\<lparr>en_secrets := x\<rparr>) t [] \<and> op_id op' = op_id op \<and>
          write_ready (en_file t) (op_id op) \<and> en_file t = en_doc t" for op' t
        by (rule wpX_written_saved) (use that k in auto)
    qed (use op ids k in \<open>auto intro: halted_kept\<close>)
  qed
  show ?thesis
    unfolding wpX_bindX [of "mutation_input _ _ _"]
    by (rule wpX_mono [OF wpX_mutation_input [OF s]]) (use failed go halted_kept in \<open>auto split: option.splits\<close>)
qed

lemma wpX_operation_body:
  assumes op: "look_operation (op_id op) (en_doc s) = Some op" "op_state op = Planned"
    and ids: "distinct (map op_id (d_operations (en_doc s)))"
  shows "wpX (operation_body rt b op) (\<lambda>_. processed s (op_id op)) (\<lambda>_. halted s (op_id op)) s"
proof -
  let ?Q = "\<lambda>_ :: unit. processed s (op_id op)" and ?E = "\<lambda>_. halted s (op_id op)"
  let ?rest = "\<lambda>prepared. (case prepared of
        None \<Rightarrow> save rt
      | Some proof \<Rightarrow> bindX (mutation_input rt b op) (\<lambda>input.
          (case input of
             None \<Rightarrow> save rt
           | Some mutation \<Rightarrow>
               bindX (enter_write rt (op_id op) proof) (\<lambda>op.
               thenX (write_and_settle rt b op mutation) (save rt)))))"
  have prepared: "wpX (?rest p) ?Q ?E t"
    if "case p of None \<Rightarrow> ended s (op_id op) [] {Verified, Failed} t
       | Some q \<Rightarrow> t = s\<lparr>en_world := w\<rparr> \<and> mutating_action (op_action op)" for p t w
  proof (cases p)
    case None
    then have t: "ended s (op_id op) [] {Verified, Failed} t" using that by simp
    have "wpX (save rt) ?Q ?E t" by (rule wpX_save_ended [OF t]) simp_all
    then show ?thesis by (simp add: None)
  next
    case (Some q)
    have "wpX (bindX (mutation_input rt b op) (\<lambda>input.
        (case input of
           None \<Rightarrow> save rt
         | Some mutation \<Rightarrow> bindX (enter_write rt (op_id op) q) (\<lambda>op.
             thenX (write_and_settle rt b op mutation) (save rt))))) ?Q ?E t"
      by (rule wpX_prepared_write) (use that Some op ids in auto)
    then show ?thesis by (simp add: Some)
  qed
  have prepare: "wpX (prepare_write rt op current) (\<lambda>p. wpX (?rest p) ?Q ?E) ?E (s\<lparr>en_world := w\<rparr>)" for current w
    by (rule wpX_mono [OF wpX_prepare_write [where r = s and es = "[]"]])
      (use prepared halted_kept in \<open>auto split: option.splits\<close>)
  have read: "wpX (read_saved rt b op) (\<lambda>current. wpX (prepare_write rt op current) (\<lambda>p. wpX (?rest p) ?Q ?E) ?E) ?E
      (s\<lparr>en_world := w\<rparr>)" for w
    by (rule wpX_read_saved) (simp_all add: prepare halted_kept)
  show ?thesis
    unfolding operation_body_def wpX_bindX [of "getX _"] wpX_getX wpX_thenX [of "worldX _"]
      wpX_bindX [of "read_saved _ _ _"] wpX_bindX [of "prepare_write _ _ _"]
    by (rule wpX_worldX) (simp_all add: read halted_kept)
qed

lemma wpX_failure_saved:
  assumes t: "halted r k t"
  shows "wpX (thenX (checkpoint_failure rt k e) (save rt)) (\<lambda>_. processed r k) (\<lambda>_ u. \<exists>es. valid_writes k es \<and> kept k r u es) t"
proof -
  obtain es where es: "valid_writes k es" "kept k r t es"
     "(\<exists>e \<in> set es. applied e) \<Longrightarrow> en_accepted t \<and> state_of k t \<noteq> Some Planned" using t by (auto simp: halted_def)
  let ?A = "if en_accepted t \<and> state_of k t \<noteq> Some Planned then {Uncertain} else {Failed, Uncertain}"
  have saved: "wpX (save rt) (\<lambda>_. processed r k) (\<lambda>_ u. \<exists>es. valid_writes k es \<and> kept k r u es) u"
    if u: "ended r k es ?A u" for u
  proof (rule wpX_save)
    show "processed r k (u\<lparr>en_world := w, en_file := en_doc u\<rparr>)" for w
      using u es by (auto simp: processed_def ended_def split: if_splits intro!: exI [of _ es])
    show "\<exists>es. valid_writes k es \<and> kept k r (u\<lparr>en_world := w\<rparr>) es" for w
      using u es(1) by (auto simp: ended_def intro!: exI [of _ es])
  qed
  show ?thesis
    unfolding wpX_thenX
    by (rule wpX_mono [OF wpX_checkpoint_failure [OF es(2)]]) (use saved es(1) in blast)+
qed

definition stopped :: "'w engine \<Rightarrow> string \<Rightarrow> 'w engine \<Rightarrow> bool" where
  "stopped r k t \<longleftrightarrow> (\<exists>es. valid_writes k es \<and> progressed (en_doc r) (en_doc t) \<and> en_trace t = en_trace r @ es)"

definition finished :: "'w engine \<Rightarrow> string \<Rightarrow> 'w engine \<Rightarrow> bool" where
  "finished r k t \<longleftrightarrow> en_file t = en_doc t \<and> progressed (en_doc r) (en_doc t) \<and>
     (\<forall>j. j \<noteq> k \<longrightarrow> look_operation j (en_doc t) = look_operation j (en_doc r)) \<and>
     (\<exists>es a. valid_writes k es \<and> en_trace t = en_trace r @ es \<and> state_of k t = Some a \<and>
       a \<in> {Verified, Failed, Uncertain} \<and> ((\<exists>e \<in> set es. applied e) \<longrightarrow> a \<in> {Verified, Uncertain}))"

lemma processed_finished: "processed (r\<lparr>en_secrets := x, en_accepted := False\<rparr>) k t \<Longrightarrow> finished r k t"
  by (auto simp: processed_def finished_def ended_def kept_def)

lemma wpX_run_operation:
  assumes "look_operation (op_id op) (en_doc s) = Some op" "op_state op = Planned"
    and "distinct (map op_id (d_operations (en_doc s)))"
  shows "wpX (run_operation rt b op) (\<lambda>_. finished s (op_id op)) (\<lambda>_. stopped s (op_id op)) s"
proof -
  let ?s = "s\<lparr>en_secrets := [], en_accepted := False\<rparr>"
  have body: "wpX (operation_body rt b op) (\<lambda>_. processed ?s (op_id op)) (\<lambda>_. halted ?s (op_id op)) ?s"
    by (rule wpX_operation_body) (use assms in simp_all)
  have failure: "wpX (thenX (checkpoint_failure rt (op_id op) e) (save rt))
      (\<lambda>_. finished s (op_id op)) (\<lambda>_. stopped s (op_id op)) t" if "halted ?s (op_id op) t" for e t
    by (rule wpX_mono [OF wpX_failure_saved [OF that]])
      (auto simp: stopped_def kept_def intro: processed_finished)
  show ?thesis
    unfolding run_operation_def wpX_thenX [of "modifyX _"] wpX_modifyX wpX_catchX
    by (rule wpX_mono [OF body]) (use failure in \<open>auto intro: processed_finished\<close>)
qed

lemma halted_stopped: "halted r k t \<Longrightarrow> stopped r k t"
  by (auto simp: halted_def stopped_def kept_def)

lemma processed_finished_same: "processed r k t \<Longrightarrow> finished r k t"
  by (auto simp: processed_def finished_def ended_def kept_def)

lemma stopped_refl [simp]: "stopped s k s"
  by (rule halted_stopped [OF halted_kept]) simp

lemma wpX_fail_saved:
  "wpX (thenX (mark_error rt k Failed n error) (save rt)) (\<lambda>_. finished s k) (\<lambda>_. stopped s k) s"
proof -
  have saved: "wpX (save rt) (\<lambda>_. processed s k) (\<lambda>_. halted s k) t" if "ended s k [] {Failed} t" for t
    by (rule wpX_save_ended [OF that]) simp_all
  have "wpX (mark_error rt k Failed n error) (\<lambda>_. wpX (save rt) (\<lambda>_. processed s k) (\<lambda>_. halted s k))
      (\<lambda>_. halted s k) s"
    by (rule wpX_mono [OF wpX_mark_error [where A = "{Failed}" and r = s and es = "[]"]])
      (use saved halted_kept in auto)
  then have "wpX (thenX (mark_error rt k Failed n error) (save rt)) (\<lambda>_. processed s k) (\<lambda>_. halted s k) s"
    by simp
  then show ?thesis by (rule wpX_mono) (auto intro: processed_finished_same halted_stopped)
qed

lemma wpX_process_operation:
  assumes op: "look_operation k (en_doc s) = Some op" "op_state op = Planned"
    and ids: "distinct (map op_id (d_operations (en_doc s)))"
  shows "wpX (process_operation rt k) (\<lambda>_. finished s k) (\<lambda>_. stopped s k) s"
proof -
  have id: "op_id op = k" by (rule ops.look_key [OF op(1)])
  have found: "find_operation (en_doc s) k = Inr op" using op(1) by (simp add: find_operation_Inr)
  have run: "wpX (run_operation rt b op) (\<lambda>_. finished s k) (\<lambda>_. stopped s k) s" for b
    using wpX_run_operation [of op s rt b] op ids id by simp
  have bound: "wpX (bindX (liftX (unsupported_operation_reason op (bd_capabilities b))) (\<lambda>reason.
          (case reason of
             Some r \<Rightarrow> thenX (mark_error rt k Failed
               ''Required adapter family capability is unavailable.'' r) (save rt)
           | None \<Rightarrow> run_operation rt b op))) (\<lambda>_. finished s k) (\<lambda>_. stopped s k) s" for b
    using run wpX_fail_saved
    by (cases "unsupported_operation_reason op (bd_capabilities b)")
      (auto simp del: wpX_thenX split: option.split)
  have unbound: "wpX (if is_adapter_error e
          then thenX (mark_error rt k Failed
              ''Target adapter is unavailable; dependents remain stopped.'' (exn_text e)) (save rt)
          else raiseX e) (\<lambda>_. finished s k) (\<lambda>_. stopped s k) s" for e
    using wpX_fail_saved by (cases "is_adapter_error e") (simp_all del: wpX_thenX)
  show ?thesis
    unfolding process_operation_def wpX_bindX [of "askX (\<lambda>s. find_operation (en_doc s) k)"] wpX_askX found sum.case
      wpX_thenX
    using bound unbound
    by (cases "find_run_target (en_doc s) (op_target op)"; cases "binding_of (rt_registry rt) (op_target op)")
      simp_all
qed

section \<open>The run\<close>

definition writes_of :: "string \<Rightarrow> write_event list \<Rightarrow> write_event list" where
  "writes_of k es = filter (\<lambda>e. we_operation e = k) es"

text \<open>What may have gone out when a run stops anywhere, and where a run that goes on stands.\<close>

definition careful :: "'w engine \<Rightarrow> 'w engine \<Rightarrow> bool" where
  "careful r t \<longleftrightarrow> (\<exists>es. en_trace t = en_trace r @ es \<and> (\<forall>k. valid_writes k (writes_of k es)))"

definition orderly :: "'w engine \<Rightarrow> 'w engine \<Rightarrow> bool" where
  "orderly r t \<longleftrightarrow> progressed (en_doc r) (en_doc t) \<and> en_file t = en_doc t \<and>
     (\<exists>es. en_trace t = en_trace r @ es \<and> (\<forall>k. valid_writes k (writes_of k es) \<and>
        (writes_of k es \<noteq> [] \<longrightarrow> state_of k t \<noteq> Some Planned) \<and>
        ((\<exists>e \<in> set (writes_of k es). applied e) \<longrightarrow> state_of k t \<in> {Some Verified, Some Uncertain})))"

lemma orderly_careful: "orderly r t \<Longrightarrow> careful r t"
  by (auto simp: orderly_def careful_def)

lemma writes_of_append [simp]: "writes_of k (es @ fs) = writes_of k es @ writes_of k fs"
  by (simp add: writes_of_def)

lemma writes_of_valid: "valid_writes k es \<Longrightarrow> writes_of j es = (if j = k then es else [])"
  by (auto simp: writes_of_def valid_writes_def filter_empty_conv)

lemma orderly_start: "en_file r = en_doc r \<Longrightarrow> orderly r r"
  unfolding orderly_def by (auto intro!: exI [of _ "[]"] simp: writes_of_def)

lemma orderly_finished:
  assumes "orderly r s" and "state_of k s = Some Planned" and "finished s k t"
  shows "orderly r t"
proof -
  obtain es where es: "en_trace s = en_trace r @ es" "\<And>j. valid_writes j (writes_of j es)"
    "\<And>j. writes_of j es \<noteq> [] \<Longrightarrow> state_of j s \<noteq> Some Planned"
    "\<And>j. \<exists>e \<in> set (writes_of j es). applied e \<Longrightarrow> state_of j s \<in> {Some Verified, Some Uncertain}"
    using assms(1) by (auto simp: orderly_def)
  obtain fs a where fs: "valid_writes k fs" "en_trace t = en_trace s @ fs" "state_of k t = Some a"
     "a \<in> {Verified, Failed, Uncertain}" "(\<exists>e \<in> set fs. applied e) \<Longrightarrow> a \<in> {Verified, Uncertain}"
    using assms(3) by (auto simp: finished_def)
  have none: "writes_of k es = []" using es(3) [of k] assms(2) by blast
  have same: "state_of j t = state_of j s" if "j \<noteq> k" for j
    using assms(3) that by (simp add: finished_def state_of_def)
  have "en_trace t = en_trace r @ (es @ fs)" using es(1) fs(2) by simp
  moreover have "valid_writes j (writes_of j (es @ fs)) \<and>
      (writes_of j (es @ fs) \<noteq> [] \<longrightarrow> state_of j t \<noteq> Some Planned) \<and>
      ((\<exists>e \<in> set (writes_of j (es @ fs)). applied e) \<longrightarrow> state_of j t \<in> {Some Verified, Some Uncertain})" for j
  proof (cases "j = k")
    case True
    then show ?thesis using none fs by (auto simp: writes_of_valid [OF fs(1)])
  next
    case False
    then show ?thesis using es same by (simp add: writes_of_valid [OF fs(1)])
  qed
  ultimately show ?thesis
    using assms(1,3) unfolding orderly_def finished_def by (blast intro: progressed_trans)
qed

lemma orderly_stopped:
  assumes "orderly r s" and "state_of k s = Some Planned" and "stopped s k t"
  shows "careful r t"
proof -
  obtain es where es: "en_trace s = en_trace r @ es" "\<And>j. valid_writes j (writes_of j es)"
    "\<And>j. writes_of j es \<noteq> [] \<Longrightarrow> state_of j s \<noteq> Some Planned" using assms(1) by (auto simp: orderly_def)
  obtain fs where fs: "valid_writes k fs" "en_trace t = en_trace s @ fs" using assms(3) by (auto simp: stopped_def)
  have "writes_of k es = []" using es(3) [of k] assms(2) by blast
  then have "valid_writes j (writes_of j (es @ fs))" for j
    using es(2) fs(1) by (simp add: writes_of_valid [OF fs(1)])
  then show ?thesis using es(1) fs(2) by (auto simp: careful_def intro!: exI [of _ "es @ fs"])
qed

text \<open>The operations still planned: each one processed leaves them.\<close>

definition planned :: "document \<Rightarrow> nat" where
  "planned d = length (filter (\<lambda>op. op_state op = Planned) (d_operations d))"

lemma advanced_planned: "advanced op op' \<Longrightarrow> op_state op' = Planned \<Longrightarrow> op_state op = Planned"
  by (auto simp: advanced_def)

lemma planned_le:
  "list_all2 advanced xs ys \<Longrightarrow> length (filter (\<lambda>op. op_state op = Planned) ys) \<le>
     length (filter (\<lambda>op. op_state op = Planned) xs)"
  by (induction rule: list_all2_induct) (auto dest: advanced_planned)

lemma planned_less:
  assumes "list_all2 advanced xs ys" and "find (\<lambda>op. op_id op = k) xs = Some op" and "op_state op = Planned"
    and "find (\<lambda>op. op_id op = k) ys = Some op'" and "op_state op' \<noteq> Planned"
  shows "length (filter (\<lambda>op. op_state op = Planned) ys) < length (filter (\<lambda>op. op_state op = Planned) xs)"
  using assms
proof (induction rule: list_all2_induct)
  case (Cons x xs y ys)
  have ids: "op_id y = op_id x" using Cons(1) by (simp add: advanced_def)
  show ?case
  proof (cases "op_id x = k")
    case True
    then show ?thesis using Cons.prems ids planned_le [OF Cons(2)] by (auto simp: less_Suc_eq_le)
  next
    case False
    then show ?thesis using Cons.prems ids Cons.IH advanced_planned [OF Cons(1)] by auto
  qed
qed simp

lemma finished_planned:
  assumes "finished s k t" and "state_of k s = Some Planned"
  shows "planned (en_doc t) < planned (en_doc s)"
proof -
  obtain op where op: "look_operation k (en_doc s) = Some op" "op_state op = Planned"
    using assms(2) by (auto simp: state_of_def)
  obtain a op' where op': "look_operation k (en_doc t) = Some op'" "op_state op' = a" "a \<noteq> Planned"
    using assms(1) by (auto simp: finished_def state_of_def)
  have "list_all2 advanced (d_operations (en_doc s)) (d_operations (en_doc t))"
    using assms(1) by (simp add: finished_def progressed_def)
  from planned_less [OF this] show ?thesis
    using op op' unfolding planned_def look_operation_def by blast
qed

lemma progressed_ids: "progressed d d' \<Longrightarrow> map op_id (d_operations d') = map op_id (d_operations d)"
  by (auto simp: progressed_def advanced_def list_all2_conv_all_nth intro!: nth_equalityI)

text \<open>The start of the passes: identifiers are unique and the document is saved.\<close>

definition underway :: "'w engine \<Rightarrow> 'w engine \<Rightarrow> bool" where
  "underway r t \<longleftrightarrow> orderly r t \<and> distinct (map op_id (d_operations (en_doc r)))"

lemma underway_ids: "underway r t \<Longrightarrow> distinct (map op_id (d_operations (en_doc t)))"
  using progressed_ids by (auto simp: underway_def orderly_def)

lemma ready_planned:
  assumes "inspect_validated_document h d = Inr i" and "k \<in> set (in_ready i)"
    and "distinct (map op_id (d_operations d))"
  obtains op where "look_operation k d = Some op" and "op_state op = Planned"
proof -
  obtain op where op: "op \<in> set (d_operations d)" "op_id op = k" "op_state op = Planned"
    using inspect_partition [OF assms(1)] assms(2) by blast
  then have "look_operation k d = Some op"
    using index_ops_member [OF assms(3), of op] look_index [OF assms(3), of k] by (simp add: look_operation_def)
  then show ?thesis using op(3) that by blast
qed

lemma wpX_ready_operation:
  assumes s: "underway r s" and i: "inspect_validated_document (rt_host rt) (en_doc s) = Inr i" "k \<in> set (in_ready i)"
  shows "wpX (process_operation rt k)
    (\<lambda>_ t. underway r t \<and> planned (en_doc t) < planned (en_doc s)) (\<lambda>_. careful r) s"
proof -
  note ids = underway_ids [OF s]
  obtain op where op: "look_operation k (en_doc s) = Some op" "op_state op = Planned"
    by (rule ready_planned [OF i ids])
  then have state: "state_of k s = Some Planned" by (simp add: state_of_def)
  show ?thesis
    by (rule wpX_mono [OF wpX_process_operation [OF op ids]])
      (use s state in \<open>auto simp: underway_def intro: orderly_finished orderly_stopped finished_planned\<close>)
qed

lemma wpX_execute_pass:
  "underway r s \<Longrightarrow> wpX (execute_pass rt ks progress)
     (\<lambda>p t. underway r t \<and> planned (en_doc t) \<le> planned (en_doc s) \<and> (progress \<longrightarrow> p) \<and>
       (p \<longrightarrow> progress \<or> planned (en_doc t) < planned (en_doc s))) (\<lambda>_. careful r) s"
proof (induction ks arbitrary: s progress)
  case (Cons k ks)
  show ?case
  proof (cases "inspect_validated_document (rt_host rt) (en_doc s)")
    case (Inl e)
    then show ?thesis using Cons.prems by (auto simp: underway_def intro: orderly_careful)
  next
    case (Inr i)
    show ?thesis
    proof (cases "k \<in> set (in_ready i)")
      case True
      have "wpX (process_operation rt k) (\<lambda>_. wpX (execute_pass rt ks True)
          (\<lambda>p t. underway r t \<and> planned (en_doc t) \<le> planned (en_doc s) \<and> (progress \<longrightarrow> p) \<and>
             (p \<longrightarrow> progress \<or> planned (en_doc t) < planned (en_doc s))) (\<lambda>_. careful r)) (\<lambda>_. careful r) s"
      proof (rule wpX_mono [OF wpX_ready_operation [OF Cons.prems Inr True]])
        fix u t assume t: "underway r t \<and> planned (en_doc t) < planned (en_doc s)"
        then have "underway r t" by blast
        from Cons.IH [OF this, of True] show "wpX (execute_pass rt ks True)
          (\<lambda>p t. underway r t \<and> planned (en_doc t) \<le> planned (en_doc s) \<and> (progress \<longrightarrow> p) \<and>
             (p \<longrightarrow> progress \<or> planned (en_doc t) < planned (en_doc s))) (\<lambda>_. careful r) t"
          by (rule wpX_mono) (use t in auto)
      qed
      then show ?thesis by (simp add: Inr True)
    next
      case False
      then show ?thesis using Cons.IH [OF Cons.prems] by (simp add: Inr False)
    qed
  qed
qed simp

text \<open>A pass over a non-empty list of ready operations makes progress.\<close>

lemma wpX_ready_pass:
  assumes s: "underway r s" and i: "inspect_validated_document (rt_host rt) (en_doc s) = Inr i" "in_ready i \<noteq> []"
  shows "wpX (execute_pass rt (in_ready i) False)
     (\<lambda>p t. underway r t \<and> p \<and> planned (en_doc t) < planned (en_doc s)) (\<lambda>_. careful r) s"
proof -
  obtain k ks where ks: "in_ready i = k # ks" using i(2) by (cases "in_ready i") auto
  have "wpX (process_operation rt k) (\<lambda>_. wpX (execute_pass rt ks True)
     (\<lambda>p t. underway r t \<and> p \<and> planned (en_doc t) < planned (en_doc s)) (\<lambda>_. careful r)) (\<lambda>_. careful r) s"
  proof (rule wpX_mono [OF wpX_ready_operation [OF s i(1), of k]])
    fix u t assume t: "underway r t \<and> planned (en_doc t) < planned (en_doc s)"
    then have "underway r t" by blast
    from wpX_execute_pass [OF this, of rt ks True] show "wpX (execute_pass rt ks True)
       (\<lambda>p t. underway r t \<and> p \<and> planned (en_doc t) < planned (en_doc s)) (\<lambda>_. careful r) t"
      by (rule wpX_mono) (use t in auto)
  qed (simp_all add: ks)
  then show ?thesis by (simp add: ks i(1))
qed

text \<open>The document a run returns with, and its inspection.\<close>

definition at_rest :: "host \<Rightarrow> inspection \<Rightarrow> 'w engine \<Rightarrow> bool" where
  "at_rest h i t \<longleftrightarrow> in_ready i = [] \<and> inspect_validated_document h (en_doc t) = Inr i \<and>
     validate_document h (en_doc t) = Inr () \<and> en_file t = en_doc t"

lemma wpX_execute_passes:
  "underway r s \<Longrightarrow> planned (en_doc s) < n \<Longrightarrow> wpX (execute_passes n rt)
     (\<lambda>res t. underway r t \<and> (\<exists>i. res = Some i \<and> at_rest (rt_host rt) i t)) (\<lambda>_. careful r) s"
proof (induction n arbitrary: s)
  case (Suc n)
  have careful: "careful r s" using Suc.prems(1) by (auto simp: underway_def intro: orderly_careful)
  have saved: "en_file s = en_doc s" using Suc.prems(1) by (simp add: underway_def orderly_def)
  show ?case
  proof (cases "inspect_validated_document (rt_host rt) (en_doc s)")
    case (Inl e)
    then show ?thesis using careful by simp
  next
    case (Inr i)
    show ?thesis
    proof (cases "in_ready i = []")
      case True
      then show ?thesis
        using careful Suc.prems(1) saved
        by (cases "validate_document (rt_host rt) (en_doc s)") (auto simp: Inr at_rest_def)
    next
      case False
      let ?Q = "\<lambda>res t. underway r t \<and> (\<exists>i. res = Some i \<and> at_rest (rt_host rt) i t)"
      have "wpX (execute_pass rt (in_ready i) False) (\<lambda>p. wpX (if p then execute_passes n rt
          else bindX (askX (\<lambda>s. inspect_document (rt_host rt) (en_doc s))) (\<lambda>j. returnX (Some j)))
            ?Q (\<lambda>_. careful r)) (\<lambda>_. careful r) s"
      proof (rule wpX_mono [OF wpX_ready_pass [OF Suc.prems(1) Inr False]])
        fix p t assume t: "underway r t \<and> p \<and> planned (en_doc t) < planned (en_doc s)"
        then have "planned (en_doc t) < n" using Suc.prems(2) by simp
        then show "wpX (if p then execute_passes n rt
          else bindX (askX (\<lambda>s. inspect_document (rt_host rt) (en_doc s))) (\<lambda>j. returnX (Some j)))
            ?Q (\<lambda>_. careful r) t"
          using t Suc.IH by simp
      qed simp
      then show ?thesis by (simp add: Inr False)
    qed
  qed
qed simp

section \<open>Before the passes\<close>

text \<open>Loading, discovering capabilities and capturing baselines write nothing and touch no
  operation.\<close>

definition unwritten :: "operation list \<Rightarrow> 'w engine \<Rightarrow> 'w engine \<Rightarrow> bool" where
  "unwritten ops s t \<longleftrightarrow> en_trace t = en_trace s \<and> d_operations (en_doc t) = ops"

lemma unwritten_simps [simp]:
  "unwritten ops s (t\<lparr>en_world := w\<rparr>) = unwritten ops s t"
  "unwritten ops s (t\<lparr>en_file := f\<rparr>) = unwritten ops s t"
  by (simp_all add: unwritten_def)

lemma update_result_operations [simp]: "d_operations (update_result t f d) = d_operations d"
  by (simp add: update_result_def)

lemma update_baseline_operations [simp]: "d_operations (update_baseline t f d) = d_operations d"
  by (simp add: update_baseline_def)

lemma update_run_operations [simp]: "d_operations (update_run f d) = d_operations d"
  by (simp add: update_run_def)

lemma capture_one_operations:
  "wpX (capture_one_authenticated_baseline rt d t b) (\<lambda>d' _. d_operations d' = d_operations d) (\<lambda>_ _. True) w"
proof -
  have last: "wpX (liftX r) (\<lambda>d' _. d_operations d' = d_operations d) (\<lambda>_ _. True) u"
    if "\<And>d'. r = Inr d' \<Longrightarrow> d_operations d' = d_operations d" for r u
    using that by (cases r) simp_all
  show ?thesis
    unfolding capture_one_authenticated_baseline_def Let_def wpX_bindX case_prod_beta
    by (auto intro!: wpX_any last dest!: record_target_baseline_operations simp: forget_baseline_error_def
        split: sum.split if_splits)
qed

lemma keeps_worldX [keeps_intros]: "keepsX (unwritten ops r) (worldX m)"
  by (auto simp: keepsX_def intro!: wpX_worldX)

lemma keeps_docX:
  assumes "keepsX (\<lambda>d. d_operations d = ops) m"
  shows "keepsX (unwritten ops r) (docX m)"
  unfolding docX_def
proof (rule keepsX_zoomX)
  fix s assume s: "unwritten ops r s"
  then have "d_operations (en_doc s) = ops" by (simp add: unwritten_def)
  from keepsX_wp [OF assms this] show "wpX m (\<lambda>_ t. unwritten ops r (s\<lparr>en_doc := t\<rparr>))
      (\<lambda>_ t. unwritten ops r (s\<lparr>en_doc := t\<rparr>)) (en_doc s)"
    by (rule wpX_mono) (use s in \<open>simp_all add: unwritten_def\<close>)
qed

lemma keeps_live_status [keeps_intros]: "keepsX (\<lambda>d. d_operations d = ops) derive_live_status"
  unfolding keepsX_def
  by (intro allI impI wpX_mono [OF derive_live_status_wp [OF live_frame_refl]]) (simp_all add: live_frame_def)

lemma keeps_save [keeps_intros]: "keepsX (unwritten ops r) (save rt)"
  by (auto simp: keepsX_def intro!: wpX_save)

lemma keeps_recaptured:
  "keepsX (unwritten ops r) (bindX (getX en_doc) (\<lambda>d.
     bindX (worldX (capture_one_authenticated_baseline rt d t b)) (\<lambda>d'. modifyX (\<lambda>s. s\<lparr>en_doc := d'\<rparr>))))"
  unfolding keepsX_def worldX_def wpX_bindX wpX_getX wpX_zoomX wpX_modifyX
  by (intro allI impI wpX_mono [OF capture_one_operations]) (simp_all add: unwritten_def)

lemma keeps_capture_body [keeps_intros]: "keepsX (unwritten ops r) (capture_body rt t)"
proof -
  have body: "capture_body rt t =
     bindX (liftX (binding_of (rt_registry rt) (tg_id t))) (\<lambda>b.
     bindX (worldX (verified_adapter_identity (bd_identity b) (bd_adapter b))) (\<lambda>_.
     thenX (bindX (getX en_doc) (\<lambda>d. bindX (worldX (capture_one_authenticated_baseline rt d t b))
       (\<lambda>d'. modifyX (\<lambda>s. s\<lparr>en_doc := d'\<rparr>))))
     (docX (thenX (askX (\<lambda>d. bindE (required_result d (tg_id t)) (\<lambda>_. Inr ())))
       (thenX (modifyX (forget_baseline_error (tg_id t))) derive_live_status)))))"
    unfolding capture_body_def thenX_def bindX_assoc ..
  show ?thesis
    unfolding body
    by (intro keeps_intros keeps_docX keeps_recaptured keepsX_modifyX) (simp_all add: forget_baseline_error_def)
qed

lemma keeps_capture_failed [keeps_intros]: "keepsX (unwritten ops r) (capture_failed rt t supplemental e)"
  unfolding capture_failed_def Let_def
  by (intro keeps_intros keeps_docX keepsX_modifyX) simp_all

lemma keeps_capture_baselines [keeps_intros]: "keepsX (unwritten ops r) (capture_authenticated_baselines rt)"
  unfolding capture_authenticated_baselines_def capture_target_def Let_def
  by (intro keeps_intros)

lemma keeps_record_capabilities [keeps_intros]: "keepsX (unwritten ops r) (record_capabilities rt)"
  unfolding record_capabilities_def Let_def
  by (intro keeps_intros keeps_docX keepsX_modifyX) simp_all

section \<open>The whole execution\<close>

definition run_result :: "host \<Rightarrow> inspection option \<Rightarrow> 'w engine \<Rightarrow> 'w engine \<Rightarrow> bool" where
  "run_result h res s t \<longleftrightarrow> (\<exists>i es. res = Some i \<and> at_rest h i t \<and> en_trace t = en_trace s @ es \<and>
     (\<forall>k. valid_writes k (writes_of k es) \<and>
       ((\<exists>e \<in> set (writes_of k es). applied e) \<longrightarrow> state_of k t \<in> {Some Verified, Some Uncertain})))"

lemma careful_same: "careful r t \<Longrightarrow> en_trace r = en_trace s \<Longrightarrow> careful s t"
  by (simp add: careful_def)

lemma unwritten_careful: "unwritten ops s t \<Longrightarrow> careful s t"
  by (auto simp: unwritten_def careful_def writes_of_def)

lemma underway_result:
  assumes "underway r t" and "en_trace r = en_trace s" and "at_rest h i t"
  shows "run_result h (Some i) s t"
  using assms by (auto simp: underway_def orderly_def run_result_def)

lemma wpX_execute_current_locked:
  assumes fuel: "length (d_operations (en_file s)) < n"
  shows "wpX (execute_current_locked n rt) (\<lambda>res. run_result (rt_host rt) res s) (\<lambda>_. careful s) s"
proof (cases "validate_document (rt_host rt) (en_file s)")
  case (Inl e)
  have "careful s s" by (rule unwritten_careful [of _ s s]) (simp add: unwritten_def)
  then show ?thesis by (simp add: execute_current_locked_def load_def Inl)
next
  case (Inr u)
  let ?ops = "d_operations (en_file s)"
  have ids: "distinct (map op_id ?ops)" by (rule validate_document_operations(1)) (use Inr in simp)
  have passes: "wpX (execute_passes n rt) (\<lambda>res. run_result (rt_host rt) res s) (\<lambda>_. careful s) t"
    if t: "unwritten ?ops s t" "en_file t = en_doc t" for t
  proof -
    have u: "underway t t" using t ids by (simp add: underway_def orderly_start unwritten_def)
    have "planned (en_doc t) \<le> length (d_operations (en_doc t))" by (simp add: planned_def)
    then have "planned (en_doc t) < n" using t fuel by (simp add: unwritten_def)
    from wpX_execute_passes [OF u this] show ?thesis
      by (rule wpX_mono) (use t in \<open>auto simp: unwritten_def intro: underway_result careful_same\<close>)
  qed
  have saved: "wpX (save rt) (\<lambda>_. wpX (execute_passes n rt) (\<lambda>res. run_result (rt_host rt) res s) (\<lambda>_. careful s))
      (\<lambda>_. careful s) t" if "unwritten ?ops s t" for t
    by (rule wpX_save) (use that passes in \<open>auto intro: unwritten_careful [of ?ops]\<close>)
  have captured: "wpX (capture_authenticated_baselines rt) (\<lambda>_. wpX (save rt) (\<lambda>_. wpX (execute_passes n rt)
      (\<lambda>res. run_result (rt_host rt) res s) (\<lambda>_. careful s)) (\<lambda>_. careful s)) (\<lambda>_. careful s) t"
    if "unwritten ?ops s t" for t
    by (rule wpX_mono [OF keepsX_wp [OF keeps_capture_baselines that]]) (use saved unwritten_careful in auto)
  have start: "unwritten ?ops s (s\<lparr>en_doc := en_file s\<rparr>)" by (simp add: unwritten_def)
  have "wpX (record_capabilities rt) (\<lambda>_. wpX (capture_authenticated_baselines rt) (\<lambda>_. wpX (save rt)
      (\<lambda>_. wpX (execute_passes n rt) (\<lambda>res. run_result (rt_host rt) res s) (\<lambda>_. careful s)) (\<lambda>_. careful s))
      (\<lambda>_. careful s)) (\<lambda>_. careful s) (s\<lparr>en_doc := en_file s\<rparr>)"
    by (rule wpX_mono [OF keepsX_wp [OF keeps_record_capabilities start]]) (use captured unwritten_careful in auto)
  then show ?thesis by (simp add: execute_current_locked_def load_def Inr)
qed

text \<open>With the lock: whatever the environment does, the run stops, and a run that returns is at
  rest. The fuel of \<open>execute_ready_operations\<close> is never used up.\<close>

lemma wpX_execute_ready_operations:
  "wpX (execute_ready_operations lock rt) (\<lambda>res. run_result (rt_host rt) res s) (\<lambda>_. careful s) s"
proof -
  have careful: "careful s (s\<lparr>en_world := w\<rparr>)" for w
    by (rule unwritten_careful [of "d_operations (en_doc s)"]) (simp add: unwritten_def)
  have locked: "wpX (execute_current_locked (Suc (length (d_operations (en_file s)))) rt)
      (\<lambda>res. run_result (rt_host rt) res s) (\<lambda>_. careful s) (s\<lparr>en_world := w\<rparr>)" for w
    by (rule wpX_mono [OF wpX_execute_current_locked]) (auto simp: run_result_def careful_def)
  have inner: "wpX (thenX (worldX lock) (bindX (getX (\<lambda>s. length (d_operations (en_file s))))
      (\<lambda>n. execute_current_locked (Suc n) rt))) (\<lambda>res. run_result (rt_host rt) res s) (\<lambda>_. careful s) s"
    unfolding wpX_thenX
    by (rule wpX_worldX) (simp_all add: locked careful)
  have handler: "wpX (case e of RunConflictError m \<Rightarrow> raiseX (coded_error ''run_conflict'' m) | _ \<Rightarrow> raiseX e)
      Q (\<lambda>_. careful s) t" if "careful s t" for e t and Q :: "inspection option \<Rightarrow> 'a engine \<Rightarrow> bool"
    using that by (cases e) simp_all
  have careful_self: "careful s s" using careful [of "en_world s"] by simp
  show ?thesis
    unfolding execute_ready_operations_def wpX_thenX [of "checkX _ _"] wpX_catchX wpX_checkX
    using careful_self wpX_mono [OF inner] handler by simp
qed

end
