(* ===== verification/Samples.thy ===== *)
theory Samples
  imports Execution
begin

text \<open>
  A small run, used as the concrete input of the witnesses: one web target, one requirement and
  one folder to create, with an environment whose adapter keeps the object it is given. The
  digest is constant, an instant is the length of its text, and nothing is sensitive.
\<close>

definition run_host :: host where
  "run_host = \<lparr>h_sha256 = (\<lambda>s. replicate 64 (CHR ''0'')), h_loads = (\<lambda>s. None),
     h_instant = (\<lambda>s. Some (Some (int (length s)))), h_findings = (\<lambda>v ps. []),
     h_scrub = (\<lambda>s ss. s),
     h_schema_error = (\<lambda>kind v. None), h_domain = (\<lambda>rule d. Inr ())\<rparr>"

definition run_identity :: identity where
  "run_identity = \<lparr>account_id = ''1'', container_id = ''2'', workspace_id = ''3'', container_type = Web\<rparr>"

definition run_target :: target where
  "run_target = \<lparr>tg_id = ''T'', tg_identity = run_identity, tg_capabilities =
     [(''folder'', \<lparr>cap_list = True, cap_get = True, cap_create = True, cap_update = True, cap_remove = True\<rparr>)]\<rparr>"

definition folder_base :: operation where
  "folder_base = \<lparr>op_id = ''OP-1'', op_target = ''T'', op_container = Web, op_family = ''folder'',
     op_name = ''F'', op_key = ''T::folder::F'', op_action = Create, op_requirements = [''R''],
     op_dependencies = [], op_justification = ''j'', op_evidence = [''approved-input''],
     op_risk = ''routine'', op_intended = Some (JObj [(''notes'', JStr ''n'')]), op_pre_change = None,
     op_object_id = None, op_new_name = None, op_approval = None, op_replacement_reason = None,
     op_permission_delta = None, op_public_identifiers = None, op_assertions = None,
     op_state = Planned, op_journal = [], op_comparison = None, op_saved_readback = None,
     op_pre_write_readback = None, op_pre_write_comparison = None\<rparr>"

definition folder_operation :: operation where
  "folder_operation = folder_base\<lparr>op_approval := Some (build_mutation_approval run_host folder_base ''doc'')\<rparr>"

definition run_requirement :: requirement where
  "run_requirement = \<lparr>rq_id = ''R'', rq_kind = ''event'', rq_source_locator = ''doc'',
     rq_source_event = JNull, rq_event_name = JNull, rq_destination = JNull, rq_status = InProgressRun,
     rq_object_keys = [''T::folder::F'']\<rparr>"

definition run_document_base :: "baseline \<Rightarrow> operation list \<Rightarrow> document" where
  "run_document_base baseline ops = \<lparr>d_schema_version = schema_version,
     d_run = \<lparr>run_id = ''run'', run_mode = WebMode, run_execution_mode = IsolatedDurable,
       run_phase = Preflight, run_status = InProgressRun, run_started_at = ''t'', run_updated_at = ''t'',
       run_targets = [run_target],
       run_contract = \<lparr>cr_schema_version = contract_schema_version, cr_requirement_ids = [''R''],
         cr_source_locator = ''doc'', cr_fingerprint = ''f'', cr_requirement_fingerprints = [(''R'', ''f'')]\<rparr>,
       run_publication_performed = False, run_version_created = False,
       run_materialization = \<lparr>mt_method = materialization_method, mt_owned_sections = owned_sections,
         mt_contract_fingerprint = ''f'', mt_section_fingerprints = []\<rparr>,
       run_revisions = []\<rparr>,
     d_requirements = [run_requirement], d_pipelines = [], d_operations = ops, d_mappings = [],
     d_consent_policies = [], d_tag_policies = [], d_page_views = [], d_first_party = [],
     d_dispositions = [], d_baselines = [baseline], d_dedup = [], d_final_inventories = [],
     d_results = [\<lparr>tr_target = ''T'', tr_status = InProgressRun, tr_last_verified = None,
       tr_baseline_error = None, tr_recovery = None\<rparr>],
     d_official_sources = [], d_external = [], d_publication = [], d_recovery = None,
     d_idempotency = no_idempotency\<rparr>"

definition run_document :: "baseline \<Rightarrow> operation list \<Rightarrow> document" where
  "run_document baseline ops = (let d = run_document_base baseline ops in
     update_run (\<lambda>run. run\<lparr>run_materialization := (run_materialization run)
       \<lparr>mt_section_fingerprints := materialization_fingerprints run_host d\<rparr>\<rparr>) d)"

text \<open>A capture of the folders of the target (there are none), and the object to be saved.\<close>

definition run_evidence :: capture_evidence where
  "run_evidence = \<lparr>ce_captured_by = ''authenticated-adapter-runtime'', ce_identity = run_identity,
     ce_pagination = [(''folder'', \<lparr>pages_read = 1, exhausted = True\<rparr>)],
     ce_changes_pagination = \<lparr>pages_read = 1, exhausted = True\<rparr>\<rparr>"

definition run_baseline :: baseline where
  "run_baseline = assemble_baseline run_host run_target ''t'' run_evidence [(''folder'', [])] []"

definition start_document :: document where
  "start_document = run_document (empty_baseline ''T'') [folder_operation]"

definition captured_document :: document where
  "captured_document = run_document run_baseline [folder_operation]"

definition saved_folder :: "string \<Rightarrow> json" where
  "saved_folder notes = JObj [(''objects'', JArr [JObj [(''target_id'', JStr ''T''),
     (''object_type'', JStr ''folder''), (''name'', JStr ''F''), (''notes'', JStr notes)]])]"

definition folder_verified :: checkpoint where
  "folder_verified = (plain_checkpoint ''OP-1'' Verified ''n'')\<lparr>ck_time := ''t'', ck_saved := saved_folder ''n''\<rparr>"

text \<open>The environment: its state is the object the target holds.\<close>

definition run_adapter :: "json adapter" where
  "run_adapter = \<lparr>ad_identity = returnX (JObj [(''account_id'', JStr ''1''), (''container_id'', JStr ''2''),
       (''workspace_id'', JStr ''3''), (''container_type'', JStr ''web'')]),
     ad_read = (\<lambda>op. getX (\<lambda>w. w)),
     ad_mutate = (\<lambda>m. thenX (modifyX (\<lambda>w. saved_folder ''n'')) (returnX JNull)),
     ad_list = (\<lambda>family cursor. returnX (JObj [(''items'', JArr [])])),
     ad_changes = (\<lambda>cursor. returnX (JObj [(''items'', JArr [])])), ad_observation = None\<rparr>"

definition run_registry :: "json registry" where
  "run_registry = empty_registry\<lparr>rg_bindings := [(''T'', \<lparr>bd_adapter = run_adapter,
     bd_identity = run_identity, bd_capabilities = tg_capabilities run_target, bd_secrets = None\<rparr>)]\<rparr>"

definition run_environment :: "json runtime" where
  "run_environment = \<lparr>rt_host = run_host, rt_registry = run_registry, rt_clock = returnX ''t'',
     rt_sleep = (\<lambda>d. returnX ()), rt_write = (\<lambda>d. returnX ()), rt_retries = 2, rt_max_delay = 100\<rparr>"

definition run_start :: "document \<Rightarrow> json engine" where
  "run_start d = \<lparr>en_world = JNull, en_doc = d, en_file = d, en_trace = [], en_secrets = [],
     en_accepted = False, en_attempted = False\<rparr>"

section \<open>Evaluations\<close>

lemma captured_valid: "validate_document run_host captured_document = Inr ()"
  by code_simp

lemma captured_ready:
  "map_sum (\<lambda>_. ()) in_ready (inspect_validated_document run_host captured_document) = Inr [''OP-1'']"
  by code_simp

lemma captured_verified:
  "fst (checkpoint_validated_operation run_host folder_verified captured_document) = Inr ()"
  by code_simp

lemma captured_look: "look_operation ''OP-1'' captured_document = Some folder_operation"
  by (simp add: look_operation_def captured_document_def run_document_def run_document_base_def
      update_run_def Let_def folder_operation_def folder_base_def)

end
