(* ===== verification/RuntimeProperties.thy ===== *)
theory RuntimeProperties
  imports Lifecycle Samples
begin

text \<open>
  What the runtime promises, as theorems about its definitions: checkpoints and their state
  machine, readiness, run validation, approvals, paginated listings, baselines, convergence,
  adapters, and the execution as a whole. Statements about an execution hold for every adapter,
  clock and writer. Witnesses apply the properties to the run of theory \<open>Samples\<close>.
\<close>

section \<open>Checkpoints\<close>

text \<open>
  C5. A checkpoint that returns implements its abstract specification: the transition was
  allowed, and for an executing state the operation was ready; the document found afterwards
  under the identifier is the one that the checkpoint's abstract outcome function computes from
  the one before; every
  other operation is the same; earlier convergence proofs are dropped.
\<close>

theorem checkpoint_refines_outcome:
  assumes "checkpoint_validated_operation h c d = (Inr (), d')"
  shows "\<exists>op op'. look_operation (ck_operation c) d = Some op \<and>
    transition_allowed (op_state op) (ck_state c) \<and> gate_open c d \<and>
    checkpoint_outcome h c op = Inr op' \<and> look_operation (ck_operation c) d' = Some op' \<and>
    (\<forall>j. j \<noteq> ck_operation c \<longrightarrow> look_operation j d' = look_operation j d) \<and>
    d_idempotency d' = no_idempotency"
proof -
  have done': "checkpointed h c d d'" by (rule wpX_result [OF checkpoint_wp assms])
  then obtain op op' where "look_operation (ck_operation c) d = Some op"
    "transition_allowed (op_state op) (ck_state c)" "gate_open c d" "checkpoint_outcome h c op = Inr op'"
    "touched (ck_operation c) d d' op'" "d_idempotency d' = no_idempotency"
    by (auto simp: checkpointed_def settled_def)
  then show ?thesis using touched_look checkpointed_other [OF done'] by blast
qed

lemma checkpoint_refines_outcome_witness:
  "\<exists>op' d'. checkpoint_outcome run_host folder_verified folder_operation = Inr op' \<and>
     look_operation ''OP-1'' d' = Some op'"
proof -
  obtain d' where "checkpoint_validated_operation run_host folder_verified captured_document = (Inr (), d')"
    using captured_verified by (cases "checkpoint_validated_operation run_host folder_verified captured_document") auto
  from checkpoint_refines_outcome [OF this] show ?thesis
    using captured_look by (auto simp: folder_verified_def)
qed

lemma verified_outcome:
  assumes "checkpoint_outcome h c op = Inr op'" and "ck_state c = Verified"
  shows "\<exists>op1 v. pre_write_outcome h c op = Inr op1 \<and>
    build_verification_comparison h op1 (ck_saved c) = Inr v \<and> vr_pass v \<and> op_state op' = Verified"
proof -
  obtain op1 op2 where o: "pre_write_outcome h c op = Inr op1" "evidence_outcome h c op1 = Inr op2"
    using assms(1) by (auto simp: checkpoint_outcome_def bindE_Inr_iff)
  obtain safe comparison saved where e: "verification_evidence h c op1 safe = Inr (comparison, saved)"
      "jget comparison ''pass'' = Some (JBool True)"
    using o(2) assms(2) by (auto simp: evidence_outcome_def bindE_Inr_iff split: if_splits)
  have "validate_verification_comparison h op1 comparison (ck_saved c) = Inr ()"
    using e(1) by (auto simp: verification_evidence_def reported_def bindE_Inr_iff split: sum.splits)
  from validate_verification_ok [OF this] show ?thesis
    using o(1) e(2) checkpoint_outcome_state [OF assms(1)] assms(2) by auto
qed

text \<open>
  C6. An operation recorded as verified was judged on the object read back: the checkpoint's
  readback, compared with the intended object, passes.
\<close>

theorem verified_only_when_matching:
  assumes "checkpoint_validated_operation h c d = (Inr (), d')" and "ck_state c = Verified"
  shows "\<exists>op op1 op' v. look_operation (ck_operation c) d = Some op \<and>
    pre_write_outcome h c op = Inr op1 \<and> build_verification_comparison h op1 (ck_saved c) = Inr v \<and>
    vr_pass v \<and> look_operation (ck_operation c) d' = Some op' \<and> op_state op' = Verified"
proof -
  have "checkpointed h c d d'" by (rule wpX_result [OF checkpoint_wp assms(1)])
  then obtain op op' where op: "look_operation (ck_operation c) d = Some op"
    "look_operation (ck_operation c) d' = Some op'" "checkpoint_outcome h c op = Inr op'"
    using checkpointed_look by blast
  show ?thesis using verified_outcome [OF op(3) assms(2)] op by blast
qed

lemma verified_only_when_matching_witness:
  "\<exists>op1 v. pre_write_outcome run_host folder_verified folder_operation = Inr op1 \<and>
     build_verification_comparison run_host op1 (saved_folder ''n'') = Inr v \<and> vr_pass v"
proof -
  obtain d' where "checkpoint_validated_operation run_host folder_verified captured_document = (Inr (), d')"
    using captured_verified by (cases "checkpoint_validated_operation run_host folder_verified captured_document") auto
  from verified_only_when_matching [OF this] show ?thesis
    using captured_look by (auto simp: folder_verified_def)
qed

section \<open>The state machine of a document\<close>

lemma checkpoint_step_run: "checkpoint_step h d (snd (checkpoint_validated_operation h c d))"
  by (cases "checkpoint_validated_operation h c d"; cases "fst (checkpoint_validated_operation h c d)")
    (auto intro: checkpoint_step.intros)

text \<open>
  C7. What the contract owns (targets, requirements, the operations as approved, mappings,
  policies and all other sections of the deterministic projection) is the same after any number
  of checkpoints, whether they returned or raised.
\<close>

theorem approved_sections_kept:
  assumes "(checkpoint_step h)\<^sup>*\<^sup>* d d'"
  shows "materialization_projection d' = materialization_projection d"
  using sections.steps_inv [OF assms, of "materialization_projection d"] by (simp add: materialized_def)

lemma approved_sections_kept_witness:
  "materialization_projection (snd (checkpoint_validated_operation run_host folder_verified captured_document)) =
     materialization_projection captured_document"
  by (rule approved_sections_kept [OF r_into_rtranclp [of "checkpoint_step run_host"]]) (rule checkpoint_step_run)

text \<open>
  C8. Whatever the runtime does to a run (checkpoints that return or raise, baselines, reopenings,
  second passes, finalization), an operation keeps its contract and its journal only grows at the
  end. As long as no new entry is marked as a reopening or a repair, its state keeps or raises its
  rank. An operation that failed stays failed and records nothing until an entry marked as its
  reopening, one that is verified until an entry marked as its convergence repair, and one that is
  skipped for ever; every marked entry puts it back to planned. Checkpoints alone add no marked
  entry.
\<close>

theorem operations_move_forward:
  assumes "(run_step h)\<^sup>*\<^sup>* d d'" and "look_operation k d = Some op"
  shows "\<exists>op' es. look_operation k d' = Some op' \<and> op_spec op' = op_spec op \<and>
    op_journal op' = op_journal op @ es \<and>
    (list_all progress_entry es \<longrightarrow> op_state op' = op_state op \<or> state_rank (op_state op) < state_rank (op_state op')) \<and>
    (op_state op = Failed \<longrightarrow> es = [] \<and> op_state op' = Failed \<or> es \<noteq> [] \<and> je_reopened (hd es)) \<and>
    (op_state op = Verified \<longrightarrow> es = [] \<and> op_state op' = Verified \<or> es \<noteq> [] \<and> je_convergence_repair (hd es)) \<and>
    (op_state op = Skipped \<longrightarrow> es = [] \<and> op_state op' = Skipped) \<and>
    (\<forall>e \<in> set es. progress_entry e \<or> je_state e = Planned) \<and>
    ((checkpoint_step h)\<^sup>*\<^sup>* d d' \<longrightarrow> list_all progress_entry es)"
proof -
  obtain op' where op': "look_operation k d' = Some op'" "moved op op'"
    using lived_look [OF life.steps_rel [OF assms(1)] assms(2)] by blast
  then obtain es where es: "op_journal op' = op_journal op @ es" "reactivated (op_state op) (op_state op') es"
      "\<forall>e \<in> set es. progress_entry e \<or> je_state e = Planned" "op_spec op' = op_spec op"
      "list_all progress_entry es \<longrightarrow> op_state op' = op_state op \<or> state_rank (op_state op) < state_rank (op_state op')"
    unfolding moved_def by blast
  have "list_all progress_entry es" if "(checkpoint_step h)\<^sup>*\<^sup>* d d'"
    using progressed_look [OF checkpoints.steps_rel [OF that] assms(2)] op'(1) es(1) by (auto simp: advanced_def)
  then show ?thesis using op'(1) es unfolding reactivated_def
    by (intro exI [of _ op'] exI [of _ es]) (simp split: op_state.splits)
qed

lemma operations_move_forward_witness:
  "\<exists>op' es. look_operation ''OP-1''
       (snd (checkpoint_validated_operation run_host folder_verified captured_document)) = Some op' \<and>
     op_journal op' = op_journal folder_operation @ es \<and> list_all progress_entry es"
proof -
  have step: "checkpoint_step run_host captured_document
      (snd (checkpoint_validated_operation run_host folder_verified captured_document))" by (rule checkpoint_step_run)
  from operations_move_forward [OF r_into_rtranclp [of "run_step run_host", OF run_step.checkpoint [OF step]] captured_look]
  show ?thesis using r_into_rtranclp [of "checkpoint_step run_host", OF step] by blast
qed

section \<open>Readiness\<close>

lemma readiness_rows_total:
  assumes "operation_readiness d = Inr rows" and "map_of (index_ops (d_operations d)) k = Some op"
  obtains r where "map_of rows k = Some r"
proof -
  let ?ops = "index_ops (d_operations d)"
  obtain orig order where rows: "rows = map (\<lambda>k. (k, row_of ?ops orig k)) order"
    and order: "set order = set (nodes (op_graph ?ops))"
    using readiness_rows [OF assms(1)] by blast
  have "k \<in> set (keys ?ops)" using assms(2) map_of_in_keys by metis
  then have "k \<in> set order" unfolding order by (force simp: nodes_def op_graph_def)
  then show ?thesis using that by (simp add: rows map_of_map_restrict restrict_map_def)
qed

text \<open>
  C25. The inspection lists as ready exactly the planned operations that nothing blocks: for
  the operation and for every unverified operation it transitively waits for, there is no
  unresolved field, no missing baseline and no failed authentication, none of them waits for one
  that failed, is uncertain or was skipped, and all its own dependencies are verified.
\<close>

theorem ready_iff_unblocked:
  assumes "inspect_validated_document h d = Inr i" and "distinct (map op_id (d_operations d))"
    and "op \<in> set (d_operations d)"
  shows "op_id op \<in> set (in_ready i) \<longleftrightarrow> op_state op = Planned \<and>
    (\<forall>j jop. (j, op_id op) \<in> (waits_for (index_ops (d_operations d)))\<^sup>* \<longrightarrow>
       map_of (index_ops (d_operations d)) j = Some jop \<longrightarrow> own_cause d j jop = [] \<and>
       (\<forall>dep. (dep, j) \<in> waits_for (index_ops (d_operations d)) \<longrightarrow>
          failure_reason (index_ops (d_operations d)) dep = {})) \<and>
    unverified_dependencies (index_ops (d_operations d)) op = []"
proof -
  let ?ops = "index_ops (d_operations d)"
  obtain rows where rows: "operation_readiness d = Inr rows"
    and ready: "\<And>k. k \<in> set (in_ready i) \<longleftrightarrow> (\<exists>op r. op \<in> set (d_operations d) \<and> op_id op = k \<and>
       op_state op = Planned \<and> map_of rows k = Some r \<and> rd_blocked r = [] \<and> rd_waiting r = [])"
    using inspect_partition [OF assms(1)] by blast
  have op: "map_of ?ops (op_id op) = Some op" by (rule index_ops_member [OF assms(2,3)])
  have same: "op' = op" if "op' \<in> set (d_operations d)" "op_id op' = op_id op" for op'
    using index_ops_member [OF assms(2) that(1)] that(2) op by simp
  obtain r where r: "map_of rows (op_id op) = Some r"
    by (rule readiness_rows_total [OF rows op])
  from readiness_row [OF rows r] op have row:
    "rd_blocked r = [] \<longleftrightarrow> (\<forall>j jop. (j, op_id op) \<in> (waits_for ?ops)\<^sup>* \<longrightarrow> map_of ?ops j = Some jop \<longrightarrow>
       own_cause d j jop = [] \<and> (\<forall>dep. (dep, j) \<in> waits_for ?ops \<longrightarrow> failure_reason ?ops dep = {}))"
    "rd_waiting r = (if rd_blocked r = [] then sort (unverified_dependencies ?ops op) else [])" by auto
  have "op_id op \<in> set (in_ready i) \<longleftrightarrow> op_state op = Planned \<and> rd_blocked r = [] \<and> rd_waiting r = []"
    unfolding ready using assms(3) r same by auto
  also have "\<dots> \<longleftrightarrow> op_state op = Planned \<and> rd_blocked r = [] \<and> unverified_dependencies ?ops op = []"
    using row(2) by auto
  finally show ?thesis unfolding row(1) by blast
qed

lemma ready_iff_unblocked_witness:
  "unverified_dependencies (index_ops (d_operations captured_document)) folder_operation = [] \<and>
   own_cause captured_document ''OP-1'' folder_operation = []"
proof -
  obtain i where i: "inspect_validated_document run_host captured_document = Inr i" "in_ready i = [''OP-1'']"
    using captured_ready by (cases "inspect_validated_document run_host captured_document") auto
  have ops: "d_operations captured_document = [folder_operation]" "op_id folder_operation = ''OP-1''"
    by (simp_all add: captured_document_def run_document_def run_document_base_def update_run_def Let_def
        folder_operation_def folder_base_def)
  then have "map_of (index_ops (d_operations captured_document)) ''OP-1'' = Some folder_operation"
    by (simp add: index_ops_def)
  moreover have "distinct (map op_id (d_operations captured_document))"
    "folder_operation \<in> set (d_operations captured_document)" by (simp_all add: ops)
  ultimately show ?thesis using ready_iff_unblocked [OF i(1)] i(2) ops by auto
qed

end
