(* ===== verification/Rerun.thy ===== *)
theory Rerun
  imports Execution
begin

text \<open>
  \<^verbatim>\<open>verify_idempotent_rerun\<close> of \<^verbatim>\<open>runtime/engine.py\<close>: the read-only second
  pass of a verified run. Where names or references matter it lists the families concerned,
  retains the listing as the final inventory of the target, and decides each operation on the
  listed object when that is evidence enough, on a read of its own otherwise. A listing that
  fails resets the convergence proof; a read that fails persists nothing.
\<close>

section \<open>The names an inventory must prove\<close>

type_synonym names = "(string \<times> string list) list"

definition add_name :: "string \<Rightarrow> string \<Rightarrow> names \<Rightarrow> names" where
  "add_name family name m = (case map_of m family of
     None \<Rightarrow> m @ [(family, [name])] | Some ns \<Rightarrow> AList.update family (ns @ [name]) m)"

text \<open>\<^verbatim>\<open>key.split("::", 2)\<close>, for a key of this target with a family and a name.\<close>

definition reference_name :: "string \<Rightarrow> string \<Rightarrow> (string \<times> string) list" where
  "reference_name target key = (case split_colons key of
     t # family # part # parts \<Rightarrow> if t = target then [(family, join ''::'' (part # parts))] else []
   | _ \<Rightarrow> [])"

definition saved_objects :: "string \<Rightarrow> operation \<Rightarrow> json list res" where
  "saved_objects field op = (case op_saved_readback op of
     Some (JObj d) \<Rightarrow> (case dget d field of
         None \<Rightarrow> Inr [] | Some (JArr xs) \<Rightarrow> Inr xs | Some _ \<Rightarrow> Inl (OtherError field))
   | Some v \<Rightarrow> if truthy v then Inl (OtherError ''no attribute get'') else Inr []
   | None \<Rightarrow> Inr [])"

definition context_name :: "json \<Rightarrow> (string \<times> string) res" where
  "context_name context =
     bindE (field_text (dict_of context) ''object_type'') (\<lambda>family.
     bindE (field_text (dict_of context) ''name'') (\<lambda>name. Inr (family, name)))"

definition operation_names :: "operation \<Rightarrow> (string \<times> string) list res" where
  "operation_names op =
     bindE (saved_objects ''context_objects'' op) (\<lambda>contexts.
     bindE (mapE context_name contexts) (\<lambda>context_names.
       Inr ([(op_family op, op_name op), (op_family op, final_name op)] @
         concat (map (reference_name (op_target op)) (semantic_references (expected_graph op))) @
         context_names @
         map (\<lambda>n. (''variable'', n)) (scan_references (py_str (case op_intended op of
           None \<Rightarrow> JObj [] | Some v \<Rightarrow> v))))))"

definition relevant_names :: "operation list \<Rightarrow> names res" where
  "relevant_names ops = bindE (mapE operation_names ops) (\<lambda>found.
     Inr (fold (\<lambda>(family, name) m. add_name family name m) (concat found) []))"

definition without_object_id :: "operation \<Rightarrow> bool" where
  "without_object_id op = (op_object_id op = None \<or> op_object_id op = Some [])"

definition inventory_needed :: "operation list \<Rightarrow> names \<Rightarrow> bool res" where
  "inventory_needed ops relevant =
     bindE (mapE (saved_objects ''context_objects'') ops) (\<lambda>contexts.
       Inr (list_ex (\<lambda>op. op_action op \<in> {Create, Rename} \<or> without_object_id op) ops \<or>
         list_ex (\<lambda>op. op_dependencies op \<noteq> [] \<or> semantic_references (expected_graph op) \<noteq> []) ops \<or>
         list_ex (\<lambda>c. c \<noteq> []) contexts \<or>
         ''variable'' \<in> set (keys relevant) \<and> list_ex (\<lambda>op. op_family op \<noteq> ''variable'') ops))"

section \<open>The inventory of a target\<close>

definition listed_identity :: "string \<Rightarrow> identity \<Rightarrow> json \<Rightarrow> (string option \<times> string) res" where
  "listed_identity family i raw = (case native_inventory_identity family (dict_of raw) i of
     Inl (ResourceRegistryError m) \<Rightarrow> Inl (coded_error ''final_inventory_incomplete'' m) | r \<Rightarrow> r)"

text \<open>A relevant name that more than one native object carries.\<close>

definition ambiguous_name :: "(string option \<times> string) list \<Rightarrow> string \<Rightarrow> bool" where
  "ambiguous_name identities name =
     (1 < length (remdups (map snd (filter (\<lambda>i. fst i = Some name) identities))))"

definition family_inventory ::
  "'w runtime \<Rightarrow> target \<Rightarrow> 'w binding \<Rightarrow> names \<Rightarrow> string \<Rightarrow> ('w, string \<times> json list \<times> receipt) prog" where
  "family_inventory rt t b relevant family =
     bindX (collect_paginated_with_receipt default_pages (rt_sleep rt) (ad_list (bd_adapter b) family))
       (\<lambda>(items, receipt).
     bindX (liftX (mapE (listed_identity family (tg_identity t)) items)) (\<lambda>identities.
     thenX (checkX (list_ex (ambiguous_name identities) (case map_of relevant family of None \<Rightarrow> [] | Some ns \<Rightarrow> ns))
         (coded_error ''final_identity_conflict'' ''Ambiguous GTM object identity in final inventory''))
       (returnX (family, items, receipt))))"

text \<open>
  The inventory as it is retained: redacted as a whole, under the exemptions that the records
  declare for the resources alone. Only the resources may hold redacted values; a marker in the
  header fields is an error here, and fails the validation of the run there.
\<close>

definition kept_family :: "json \<Rightarrow> string \<Rightarrow> (string \<times> json list) res" where
  "kept_family safe family = bindE (kept_list (jget safe family)) (\<lambda>items. Inr (family, items))"

definition retained_inventory :: "host \<Rightarrow> operation list \<Rightarrow> final_inventory \<Rightarrow> final_inventory res" where
  "retained_inventory h ops raw =
     bindE (public_identifier_paths h (Some (map op_json ops)) (resources_json (fi_resources raw))) (\<lambda>paths.
     bindE (redact_for_persistence h paths (inventory_json raw)) (\<lambda>safe.
     bindE (mapE (kept_family (get_or_null (dict_of safe) ''resources'')) (keys (fi_resources raw))) (\<lambda>kept.
     (let inventory = raw\<lparr>fi_resources := kept\<rparr> in
      bindE (failE (safe \<noteq> inventory_json inventory) (OtherError ''redacted header'')) (\<lambda>_. Inr inventory)))))"

definition reset_convergence :: "'w runtime \<Rightarrow> exn \<Rightarrow> ('w engine, 'a) prog" where
  "reset_convergence rt e =
     thenX (docX (thenX (modifyX (\<lambda>d. d\<lparr>d_idempotency := no_idempotency\<rparr>)) derive_live_status))
     (thenX (save rt) (raiseX e))"

type_synonym inventories = "(string \<times> (string \<times> json list) list) list"

definition target_inventory :: "'w runtime \<Rightarrow> target \<Rightarrow> ('w engine, inventories) prog" where
  "target_inventory rt t =
     bindX (liftX (binding_of (rt_registry rt) (tg_id t))) (\<lambda>b.
     bindX (worldX (verified_adapter_identity (bd_identity b) (bd_adapter b))) (\<lambda>_.
     bindX (getX (\<lambda>s. target_operations (en_doc s) (tg_id t))) (\<lambda>ops.
     bindX (liftX (relevant_names ops)) (\<lambda>relevant.
     bindX (liftX (inventory_needed ops relevant)) (\<lambda>needed.
     if \<not> needed then returnX []
     else
       bindX (catchX (worldX (mapX (family_inventory rt t b relevant) (sort (keys relevant))))
         (reset_convergence rt)) (\<lambda>listed.
       (let resources = map (\<lambda>(f, items, _). (f, items)) listed in
       bindX (worldX (rt_clock rt)) (\<lambda>time.
       bindX (liftX (retained_inventory (rt_host rt) ops
         \<lparr>fi_target = tg_id t, fi_at = time, fi_identity = bd_identity b, fi_resources = resources,
          fi_pagination = map (\<lambda>(f, _, r). (f, r)) listed\<rparr>)) (\<lambda>inventory.
       thenX (docX (modifyX (\<lambda>d. d\<lparr>d_final_inventories := d_final_inventories d @ [inventory]\<rparr>)))
         (returnX [(tg_id t, resources)]))))))))))"

section \<open>Reading one operation again\<close>

text \<open>A Google tag configuration has no name: its identity is the one its creation retained.\<close>

definition retained_ids :: "operation \<Rightarrow> identity \<Rightarrow> string list res" where
  "retained_ids op i =
     bindE (saved_objects ''objects'' op) (\<lambda>objects.
     bindE (mapE (\<lambda>raw. bindE (native_inventory_identity (op_family op) (dict_of raw) i) (\<lambda>found.
         Inr (snd found)))
       (filter (\<lambda>raw. jget raw ''object_type'' = Some (JStr (op_family op)) \<and>
         jget raw ''name'' = Some (JStr (final_name op))) objects)) (\<lambda>ids. Inr (remdups ids)))"

definition sought_id :: "operation \<Rightarrow> identity \<Rightarrow> string option res" where
  "sought_id op i =
     (if op_family op = ''google tag configuration'' \<and> without_object_id op
      then bindE (retained_ids op i) (\<lambda>ids. (case ids of
          [k] \<Rightarrow> Inr (Some k)
        | _ \<Rightarrow> Inl (adapter_error ''Google tag configuration lacks saved native identity'')))
      else Inr (if without_object_id op then None else op_object_id op))"

definition listed_matches :: "operation \<Rightarrow> identity \<Rightarrow> json list \<Rightarrow> json list res" where
  "listed_matches op i listed =
     bindE (sought_id op i) (\<lambda>object_id.
     bindE (mapE (\<lambda>raw. bindE (native_inventory_identity (op_family op) (dict_of raw) i) (\<lambda>(name, native).
         Inr (if (case object_id of Some k \<Rightarrow> native = k | None \<Rightarrow> name = Some (final_name op))
           then [raw] else []))) listed) (\<lambda>matches. Inr (concat matches)))"

definition listed_observation :: "operation \<Rightarrow> json \<Rightarrow> json" where
  "listed_observation op raw = JObj [(''objects'', JArr [JObj (dupdate (dict_of raw)
     ((if op_family op = ''google tag configuration'' then [(''name'', JStr (final_name op))] else []) @
      [(''target_id'', JStr (op_target op)), (''object_type'', JStr (op_family op))]))])]"

definition check_workspace :: "operation \<Rightarrow> identity \<Rightarrow> json \<Rightarrow> unit res" where
  "check_workspace op i raw =
     (if op_family op \<noteq> ''workspace'' then Inr ()
      else bindE (required_field (dict_of raw) ''workspaceId'') (\<lambda>w.
        failE (w \<noteq> JStr (workspace_id i))
          (adapter_error ''Selected workspace differs from the authorized target'')))"

text \<open>What a listing says of an operation: the observation and whether it may be used.\<close>

definition observe_listed ::
  "host \<Rightarrow> 'w binding \<Rightarrow> operation \<Rightarrow> json list \<Rightarrow> ('w, json \<times> bool) prog" where
  "observe_listed h b op listed =
     bindX (liftX (listed_matches op (bd_identity b) listed)) (\<lambda>matches.
     (case matches of
        [] \<Rightarrow> returnX (if op_action op = Remove then JNull else JObj [(''objects'', JArr [])], True)
      | [raw] \<Rightarrow>
          thenX (liftX (check_workspace op (bd_identity b) raw))
          (bindX (case ad_observation (bd_adapter b) of
              Some observe \<Rightarrow> observe op raw | None \<Rightarrow> returnX (listed_observation op raw)) (\<lambda>saved.
           bindX (liftX (complete_observation h op saved)) (\<lambda>complete. returnX (saved, complete))))
      | _ \<Rightarrow> raiseX (adapter_error ''Ambiguous GTM object identity'')))"

definition read_again ::
  "host \<Rightarrow> 'w binding \<Rightarrow> operation \<Rightarrow> json list option \<Rightarrow> ('w, json) prog" where
  "read_again h b op listed = catchX
     (case listed of
        None \<Rightarrow> checked_read (bd_adapter b) op
      | Some items \<Rightarrow> bindX (observe_listed h b op items) (\<lambda>(saved, complete).
          if complete then returnX saved else checked_read (bd_adapter b) op))
     (\<lambda>_. raiseX (coded_error ''convergence_read_failed''
       ''target adapter convergence read failed; no result was persisted''))"

definition observe_operation ::
  "'w runtime \<Rightarrow> inventories \<Rightarrow> operation \<Rightarrow> ('w, raw_observation) prog" where
  "observe_operation rt inventories op =
     bindX (liftX (binding_of (rt_registry rt) (op_target op))) (\<lambda>b.
     bindX (read_again (rt_host rt) b op
       (case map_of (rev inventories) (op_target op) of
          None \<Rightarrow> None | Some resources \<Rightarrow> map_of resources (op_family op))) (\<lambda>saved.
     bindX (rt_clock rt) (\<lambda>time.
       returnX \<lparr>ro_operation = op_id op, ro_target = op_target op, ro_source = ''target-adapter-read'',
         ro_identity = bd_identity b, ro_at = time, ro_saved = saved\<rparr>)))"

section \<open>The second pass\<close>

definition conclude :: "'w runtime \<Rightarrow> raw_observation list \<Rightarrow> ('w engine, idempotency) prog" where
  "conclude rt observations =
     bindX (askX (\<lambda>s. record_adapter_idempotency_observations (rt_host rt) observations (en_doc s))) (\<lambda>d.
     bindX (if id_checked (d_idempotency d)
       then bindX (worldX (rt_clock rt)) (\<lambda>time.
         liftX (finalize_adapter_verified_document (rt_host rt) time d))
       else returnX d) (\<lambda>d'.
     thenX (modifyX (\<lambda>s. s\<lparr>en_doc := d'\<rparr>)) (thenX (save rt) (returnX (d_idempotency d')))))"

definition pass_observations :: "'w runtime \<Rightarrow> document \<Rightarrow> ('w engine, raw_observation list) prog" where
  "pass_observations rt d =
     thenX (checkX (list_ex (\<lambda>op. op_state op \<noteq> Verified) (d_operations d))
       (coded_error ''run_not_verified'' ''idempotency convergence requires every operation verified''))
     (thenX (docX (modifyX (\<lambda>d. d\<lparr>d_final_inventories := []\<rparr>)))
     (bindX (mapX (target_inventory rt) (run_targets (d_run d))) (\<lambda>inventories.
      bindX (getX (\<lambda>s. d_operations (en_doc s))) (\<lambda>ops.
        worldX (mapX (observe_operation rt (concat inventories)) ops)))))"

definition second_pass :: "'w runtime \<Rightarrow> ('w engine, idempotency) prog" where
  "second_pass rt = thenX (load rt) (bindX (getX en_doc) (\<lambda>d.
     bindX (pass_observations rt d) (conclude rt)))"

definition verify_idempotent_rerun :: "('w, unit) prog \<Rightarrow> 'w runtime \<Rightarrow> ('w engine, idempotency) prog" where
  "verify_idempotent_rerun lock rt =
     catchX (thenX (worldX lock) (second_pass rt))
       (\<lambda>e. (case e of
          RunConflictError m \<Rightarrow> raiseX (coded_error ''run_conflict'' m)
        | _ \<Rightarrow> raiseX e))"

section \<open>What the second pass may change\<close>

text \<open>Before anything is concluded the artifact is untouched; a failed listing resets the
  convergence proof and leaves the operations as they are.\<close>

definition unsaved :: "'w engine \<Rightarrow> operation list \<Rightarrow> 'w engine \<Rightarrow> bool" where
  "unsaved s ops t \<longleftrightarrow> en_trace t = en_trace s \<and> en_file t = en_file s \<and> d_operations (en_doc t) = ops"

definition failed_pass :: "'w engine \<Rightarrow> 'w engine \<Rightarrow> bool" where
  "failed_pass s t \<longleftrightarrow> en_trace t = en_trace s \<and> (en_file t = en_file s \<or>
     d_operations (en_file t) = d_operations (en_file s) \<and> d_idempotency (en_file t) = no_idempotency)"

lemma unsaved_failed: "unsaved s ops t \<Longrightarrow> failed_pass s t"
  by (simp add: unsaved_def failed_pass_def)

lemma unsaved_world [simp]: "unsaved s ops (t\<lparr>en_world := w\<rparr>) = unsaved s ops t"
  by (simp add: unsaved_def)

lemma live_status_reset:
  "wpX derive_live_status (\<lambda>_ d. d_operations d = ops \<and> d_idempotency d = i)
     (\<lambda>_ d. d_operations d = ops \<and> d_idempotency d = i) d"
  if "d_operations d = ops" "d_idempotency d = i"
  by (rule wpX_mono [OF derive_live_status_wp [OF live_frame_refl]]) (simp_all add: live_frame_def that)

lemma wpX_reset_convergence:
  assumes t: "unsaved s (d_operations (en_file s)) t"
  shows "wpX (reset_convergence rt e) Q (\<lambda>_. failed_pass s) t"
proof -
  let ?ops = "d_operations (en_file s)"
  have saved: "wpX (thenX (save rt) (raiseX e)) Q (\<lambda>_. failed_pass s) (t\<lparr>en_doc := d\<rparr>)"
    if "d_operations d = ?ops" "d_idempotency d = no_idempotency" for d
    unfolding wpX_thenX by (rule wpX_save) (use t that in \<open>simp_all add: unsaved_def failed_pass_def\<close>)
  have reset: "wpX derive_live_status (\<lambda>_ d. wpX (thenX (save rt) (raiseX e)) Q (\<lambda>_. failed_pass s) (t\<lparr>en_doc := d\<rparr>))
      (\<lambda>_ d. failed_pass s (t\<lparr>en_doc := d\<rparr>)) ((en_doc t)\<lparr>d_idempotency := no_idempotency\<rparr>)"
    by (rule wpX_mono [OF live_status_reset [where ops = ?ops and i = no_idempotency]])
      (use t saved in \<open>auto simp: unsaved_def failed_pass_def\<close>)
  then show ?thesis
    by (simp add: reset_convergence_def wpX_docX del: wpX_thenX) (simp add: wpX_docX)
qed

text \<open>A stage of the pass: it starts and returns with the artifact untouched.\<close>

definition stage :: "'w engine \<Rightarrow> ('w engine, 'a) prog \<Rightarrow> bool" where
  "stage s m \<longleftrightarrow> (\<forall>t. unsaved s (d_operations (en_file s)) t \<longrightarrow>
     wpX m (\<lambda>_. unsaved s (d_operations (en_file s))) (\<lambda>_. failed_pass s) t)"

lemma stage_wp: "stage s m \<Longrightarrow> unsaved s (d_operations (en_file s)) t \<Longrightarrow>
    wpX m (\<lambda>_. unsaved s (d_operations (en_file s))) (\<lambda>_. failed_pass s) t"
  by (simp add: stage_def)

named_theorems stage_intros

lemma stage_bindX [stage_intros]:
  assumes "stage s m" and "\<And>a. stage s (f a)"
  shows "stage s (bindX m f)"
  unfolding stage_def wpX_bindX
  by (intro allI impI wpX_mono [OF stage_wp [OF assms(1)]]) (auto intro: stage_wp [OF assms(2)])

lemma stage_thenX [stage_intros]: "stage s m \<Longrightarrow> stage s n \<Longrightarrow> stage s (thenX m n)"
  unfolding thenX_def by (rule stage_bindX)

lemma stage_returnX [stage_intros]: "stage s (returnX a)"
  by (simp add: stage_def)

lemma stage_liftX [stage_intros]: "stage s (liftX r)"
  by (auto simp: stage_def unsaved_failed split: sum.split)

lemma stage_getX [stage_intros]: "stage s (getX f)"
  by (simp add: stage_def)

lemma stage_checkX [stage_intros]: "stage s (checkX b e)"
  by (simp add: stage_def unsaved_failed)

lemma stage_worldX [stage_intros]: "stage s (worldX m)"
  by (auto simp: stage_def unsaved_failed intro!: wpX_worldX dest: unsaved_failed)

lemma stage_if [stage_intros]: "stage s m \<Longrightarrow> stage s n \<Longrightarrow> stage s (if b then m else n)"
  by simp

lemma stage_modify_doc [stage_intros]:
  "(\<And>d. d_operations (f d) = d_operations d) \<Longrightarrow> stage s (docX (modifyX f))"
  by (simp add: stage_def wpX_docX unsaved_def)

lemma stage_mapX [stage_intros]:
  assumes "\<And>x. stage s (f x)"
  shows "stage s (mapX f xs)"
  unfolding stage_def by (intro allI impI wpX_mapX stage_wp [OF assms]) simp_all

text \<open>A listing that raises has not touched the artifact yet.\<close>

lemma stage_listing [stage_intros]: "stage s (catchX (worldX m) (reset_convergence rt))"
  unfolding stage_def wpX_catchX
  by (intro allI impI, rule wpX_worldX) (simp_all add: wpX_reset_convergence)

lemma stage_target_inventory [stage_intros]: "stage s (target_inventory rt x)"
  unfolding target_inventory_def Let_def
  by (intro stage_intros) simp

lemma stage_pass_observations: "stage s (pass_observations rt d)"
  unfolding pass_observations_def by (intro stage_intros) simp

text \<open>What a pass that returns has saved.\<close>

definition persisted :: "host \<Rightarrow> document \<Rightarrow> document \<Rightarrow> bool" where
  "persisted h d d' \<longleftrightarrow> (if id_checked (d_idempotency d)
     then \<exists>time. finalize_adapter_verified_document h time d = Inr d' else d' = d)"

definition concluded :: "host \<Rightarrow> 'w engine \<Rightarrow> idempotency \<Rightarrow> 'w engine \<Rightarrow> bool" where
  "concluded h s i t \<longleftrightarrow> en_trace t = en_trace s \<and> en_doc t = en_file t \<and> i = d_idempotency (en_file t) \<and>
     (\<exists>obs d d1. d_operations d = d_operations (en_file s) \<and>
        record_adapter_idempotency_observations h obs d = Inr d1 \<and> persisted h d1 (en_file t))"

lemma wpX_conclude:
  assumes t: "unsaved s (d_operations (en_file s)) t"
  shows "wpX (conclude rt obs) (concluded (rt_host rt) s) (\<lambda>_. failed_pass s) t"
proof (cases "record_adapter_idempotency_observations (rt_host rt) obs (en_doc t)")
  case (Inl e)
  then show ?thesis using unsaved_failed [OF t] by (simp add: conclude_def)
next
  case (Inr d1)
  let ?Q = "concluded (rt_host rt) s" and ?E = "\<lambda>_. failed_pass s"
  have saved: "wpX (thenX (modifyX (\<lambda>s. s\<lparr>en_doc := d\<rparr>)) (thenX (save rt) (returnX (d_idempotency d)))) ?Q ?E u"
    if "persisted (rt_host rt) d1 d" "unsaved s (d_operations (en_file s)) u" for d u
    unfolding wpX_thenX wpX_modifyX
    by (rule wpX_save) (use t Inr that in \<open>auto simp: concluded_def unsaved_def failed_pass_def\<close>)
  show ?thesis
  proof (cases "id_checked (d_idempotency d1)")
    case True
    have final: "wpX (liftX (finalize_adapter_verified_document (rt_host rt) time d1))
        (\<lambda>d. wpX (thenX (modifyX (\<lambda>s. s\<lparr>en_doc := d\<rparr>)) (thenX (save rt) (returnX (d_idempotency d)))) ?Q ?E) ?E
        (t\<lparr>en_world := w\<rparr>)" for time w
    proof (cases "finalize_adapter_verified_document (rt_host rt) time d1")
      case (Inl e)
      then show ?thesis using unsaved_failed [OF t] by (simp add: failed_pass_def)
    next
      case (Inr d)
      then have "persisted (rt_host rt) d1 d" using True by (auto simp: persisted_def)
      then show ?thesis using saved t Inr by (simp del: wpX_thenX)
    qed
    have "wpX (worldX (rt_clock rt)) (\<lambda>time. wpX (liftX (finalize_adapter_verified_document (rt_host rt) time d1))
        (\<lambda>d. wpX (thenX (modifyX (\<lambda>s. s\<lparr>en_doc := d\<rparr>)) (thenX (save rt) (returnX (d_idempotency d)))) ?Q ?E) ?E) ?E t"
      by (rule wpX_worldX) (use final unsaved_failed [OF t] in \<open>simp_all add: failed_pass_def\<close>)
    then show ?thesis by (simp add: conclude_def Inr True del: wpX_thenX wpX_liftX)
  next
    case False
    then have "persisted (rt_host rt) d1 d1" by (simp add: persisted_def)
    then show ?thesis using saved t False by (simp add: conclude_def Inr del: wpX_thenX)
  qed
qed

lemma wpX_second_pass: "wpX (second_pass rt) (concluded (rt_host rt) s) (\<lambda>_. failed_pass s) s"
proof (cases "validate_document (rt_host rt) (en_file s)")
  case (Inl e)
  then show ?thesis by (simp add: second_pass_def load_def failed_pass_def)
next
  case (Inr u)
  have "unsaved s (d_operations (en_file s)) (s\<lparr>en_doc := en_file s\<rparr>)" by (simp add: unsaved_def)
  from stage_wp [OF stage_pass_observations this]
  have "wpX (bindX (pass_observations rt (en_file s)) (conclude rt)) (concluded (rt_host rt) s)
      (\<lambda>_. failed_pass s) (s\<lparr>en_doc := en_file s\<rparr>)"
    unfolding wpX_bindX by (rule wpX_mono) (simp_all add: wpX_conclude)
  then show ?thesis by (simp add: second_pass_def load_def Inr)
qed

lemma wpX_verify_idempotent_rerun:
  "wpX (verify_idempotent_rerun lock rt) (concluded (rt_host rt) s) (\<lambda>_. failed_pass s) s"
proof -
  have world: "failed_pass s (s\<lparr>en_world := w\<rparr>)" for w by (simp add: failed_pass_def)
  have same: "concluded h (s\<lparr>en_world := w\<rparr>) i t = concluded h s i t"
    "failed_pass (s\<lparr>en_world := w\<rparr>) t = failed_pass s t" for h w i t
    by (simp_all add: concluded_def failed_pass_def)
  have "wpX (second_pass rt) (concluded (rt_host rt) s) (\<lambda>_. failed_pass s) (s\<lparr>en_world := w\<rparr>)" for w
    using wpX_second_pass [of rt "s\<lparr>en_world := w\<rparr>"] unfolding same .
  then have inner: "wpX (thenX (worldX lock) (second_pass rt)) (concluded (rt_host rt) s) (\<lambda>_. failed_pass s) s"
    unfolding wpX_thenX by (intro wpX_worldX) (simp_all add: world)
  have handler: "wpX (case e of RunConflictError m \<Rightarrow> raiseX (coded_error ''run_conflict'' m) | _ \<Rightarrow> raiseX e)
      (concluded (rt_host rt) s) (\<lambda>_. failed_pass s) t" if "failed_pass s t" for e t
    using that by (cases e) simp_all
  show ?thesis
    unfolding verify_idempotent_rerun_def wpX_catchX by (rule wpX_mono [OF inner]) (simp_all only: handler)
qed

end
