(* ===== verification/ExecutionProperties.thy ===== *)
theory ExecutionProperties
  imports Rerun Samples
begin

text \<open>
  What an execution promises, whatever the adapters, the clock, the sleep and the writer of the
  artifact do: what is on disk when a write goes out, how often a write is sent, where an
  operation stands when the run returns, that the run stops, and what the failure handler
  records. The statements quantify over the environment; its failures are exceptions of the run.
\<close>

section \<open>The whole run\<close>

lemma result_careful: "run_result h res s t \<Longrightarrow> careful s t"
  unfolding run_result_def careful_def by blast

lemma run_careful: "careful s (snd (execute_ready_operations lock rt s))"
proof -
  have "wpX (execute_ready_operations lock rt) (\<lambda>_. careful s) (\<lambda>_. careful s) s"
    by (rule wpX_mono [OF wpX_execute_ready_operations]) (blast intro: result_careful)+
  then show ?thesis by (simp add: wpX_def split: prod.splits sum.splits)
qed

lemma valid_member:
  assumes "\<And>k. valid_writes k (writes_of k es)" and "e \<in> set es"
  shows "write_ready (we_file e) (we_operation e)"
proof -
  have "e \<in> set (writes_of (we_operation e) es)" using assms(2) by (simp add: writes_of_def)
  then show ?thesis using assms(1) [of "we_operation e"] unfolding valid_writes_def by blast
qed

text \<open>
  C1. Write-ahead: whenever a write is sent, the artifact on disk has its operation in
  progress, with a mutating action, with every dependency verified and, for an update, a rename
  or a removal, with a comparison recorded that passed against the approved pre-change snapshot.
\<close>

theorem writes_are_announced:
  "\<exists>es. en_trace (snd (execute_ready_operations lock rt s)) = en_trace s @ es \<and>
     list_all (\<lambda>e. write_ready (we_file e) (we_operation e)) es"
proof -
  obtain es where es: "en_trace (snd (execute_ready_operations lock rt s)) = en_trace s @ es"
      "\<And>k. valid_writes k (writes_of k es)"
    using run_careful [of s lock rt] by (auto simp: careful_def)
  then show ?thesis using valid_member [OF es(2)] by (auto simp: list_all_iff)
qed

text \<open>
  C3. Bounded writes: one run sends at most three writes for an operation, and every one but
  the last was answered by a rate limit; nothing else is ever retried.
\<close>

theorem writes_are_bounded:
  "\<exists>es. en_trace (snd (execute_ready_operations lock rt s)) = en_trace s @ es \<and>
     (\<forall>k. length (writes_of k es) \<le> 3 \<and> list_all limited_event (butlast (writes_of k es)))"
  using run_careful [of s lock rt] by (fastforce simp: careful_def valid_writes_def bounded_writes_def)

lemma run_returned:
  assumes "execute_ready_operations lock rt s = (Inr res, t)"
  shows "run_result (rt_host rt) res s t"
  by (rule wpX_result [OF wpX_execute_ready_operations assms])

text \<open>
  C4. The run terminates: the loop of passes ends within one pass per operation, so the fuel
  never runs out. A run that returns has nothing ready left, reports the inspection of its last
  document, and that document is valid and is the one on disk.
\<close>

theorem run_ends_at_rest:
  "\<exists>r t. execute_ready_operations lock rt s = (r, t) \<and> ((\<exists>e. r = Inl e) \<or>
     (\<exists>i. r = Inr (Some i) \<and> in_ready i = [] \<and> inspect_validated_document (rt_host rt) (en_doc t) = Inr i \<and>
        validate_document (rt_host rt) (en_doc t) = Inr () \<and> en_file t = en_doc t))"
proof (cases "execute_ready_operations lock rt s")
  case (Pair r t)
  then show ?thesis
    using run_returned [of lock rt s _ t] by (cases r) (auto simp: run_result_def at_rest_def)
qed

text \<open>
  C2. No write is lost: when the run returns, every operation for which a write was accepted,
  or may have been accepted, is recorded as verified or as uncertain, never as planned or failed.
\<close>

theorem applied_writes_are_settled:
  "\<exists>r t es. execute_ready_operations lock rt s = (r, t) \<and> en_trace t = en_trace s @ es \<and> ((\<exists>e. r = Inl e) \<or>
     filter (\<lambda>e. applied e \<and> state_of (we_operation e) t \<notin> {Some Verified, Some Uncertain}) es = [])"
proof (cases "execute_ready_operations lock rt s")
  case (Pair r t)
  show ?thesis
  proof (cases r)
    case (Inl e)
    then show ?thesis using run_careful [of s lock rt] Pair by (auto simp: careful_def)
  next
    case (Inr res)
    then obtain es where es: "en_trace t = en_trace s @ es"
      "\<And>k. \<exists>e \<in> set (writes_of k es). applied e \<Longrightarrow> state_of k t \<in> {Some Verified, Some Uncertain}"
      using run_returned [of lock rt s res t] Pair by (auto simp: run_result_def)
    then have "filter (\<lambda>e. applied e \<and> state_of (we_operation e) t \<notin> {Some Verified, Some Uncertain}) es = []"
      unfolding filter_empty_conv writes_of_def by force
    then show ?thesis using Pair es(1) by blast
  qed
qed

section \<open>One pass, one operation\<close>

text \<open>
  C24. Progress: a pass over a non-empty list of ready operations that is not stopped by an
  exception reports progress and leaves fewer operations planned.
\<close>

theorem passes_make_progress:
  assumes "en_file s = en_doc s" and "distinct (map op_id (d_operations (en_doc s)))"
    and "inspect_validated_document (rt_host rt) (en_doc s) = Inr i" and "in_ready i \<noteq> []"
  shows "wpX (execute_pass rt (in_ready i) False)
     (\<lambda>p t. p \<and> planned (en_doc t) < planned (en_doc s)) (\<lambda>_ _. True) s"
proof -
  have "underway s s" using assms(1,2) by (simp add: underway_def orderly_start)
  from wpX_ready_pass [OF this assms(3,4)] show ?thesis by (rule wpX_mono) simp_all
qed

lemma passes_make_progress_witness:
  "wpX (execute_pass run_environment [''OP-1''] False) (\<lambda>p t. p \<and> planned (en_doc t) = 0)
     (\<lambda>_ _. True) (run_start captured_document)"
proof -
  obtain i where i: "inspect_validated_document run_host captured_document = Inr i" "in_ready i = [''OP-1'']"
    using captured_ready by (cases "inspect_validated_document run_host captured_document") auto
  have ops: "d_operations captured_document = [folder_operation]" "op_state folder_operation = Planned"
    by (simp_all add: captured_document_def run_document_def run_document_base_def update_run_def Let_def
        folder_operation_def folder_base_def)
  have "wpX (execute_pass run_environment (in_ready i) False)
     (\<lambda>p t. p \<and> planned (en_doc t) < planned (en_doc (run_start captured_document))) (\<lambda>_ _. True)
     (run_start captured_document)"
    by (rule passes_make_progress) (simp_all add: run_start_def run_environment_def i ops)
  then show ?thesis unfolding i(2)
    by (rule wpX_mono) (simp_all add: run_start_def planned_def ops)
qed

text \<open>
  C23. The failure handler: whatever the exception, an operation that was already under way
  when a write had been accepted is recorded as uncertain; any other one as failed or uncertain.
  Nothing is written to a target.
\<close>

theorem failures_are_classified:
  "wpX (checkpoint_failure rt k e)
     (\<lambda>_ t. en_trace t = en_trace s \<and>
        (if en_accepted s \<and> state_of k s \<noteq> Some Planned then state_of k t = Some Uncertain
         else state_of k t \<in> {Some Failed, Some Uncertain}))
     (\<lambda>_ t. en_trace t = en_trace s) s"
  by (rule wpX_mono [OF wpX_checkpoint_failure [OF kept_refl]])
    (auto simp: ended_def kept_def split: if_splits)

section \<open>The second pass\<close>

lemma concluded_outcome:
  assumes "concluded h s i t"
  shows "i = d_idempotency (en_file t) \<and> validate_document h (en_file t) = Inr () \<and>
    (if id_checked i
     then run_status (d_run (en_file t)) = Configured \<and> d_operations (en_file t) = d_operations (en_file s)
     else Planned \<in> op_state ` set (d_operations (en_file t)))"
proof -
  obtain obs d d1 where d: "d_operations d = d_operations (en_file s)"
    and rec: "record_adapter_idempotency_observations h obs d = Inr d1" and d1: "persisted h d1 (en_file t)"
    and i: "i = d_idempotency (en_file t)" using assms by (auto simp: concluded_def)
  note facts = record_observations_facts [OF rec]
  let ?bad = "map ob_operation (filter (\<lambda>ob. ob_decision ob \<noteq> ''no-op'') (id_observations (d_idempotency d1)))"
  show ?thesis
  proof (cases "id_checked (d_idempotency d1)")
    case True
    then obtain time where fin: "finalize_adapter_verified_document h time d1 = Inr (en_file t)"
      using d1 by (auto simp: persisted_def)
    have "?bad = []" using facts(3) True by blast
    then have "d_operations d1 = d_operations (en_file s)" using facts(5) d by simp
    then show ?thesis
      using finalize_facts(1,2,5) [OF fin] by (simp add: i configured_def)
  next
    case False
    then have same: "en_file t = d1" using d1 by (simp add: persisted_def)
    obtain k where k: "k \<in> set ?bad" using facts(3) False by (cases ?bad) auto
    then have "k \<in> set (map ob_operation (id_observations (d_idempotency d1)))" by auto
    then obtain op where op: "op \<in> set (d_operations d)" "op_id op = k" using facts(1) by auto
    have "planned_again (observed_time (id_observations (d_idempotency d1)) (op_id op)) repair_note True op
        \<in> set (d_operations d1)" using facts(5) op k by auto
    then have "Planned \<in> op_state ` set (d_operations d1)"
      using planned_again_spec(4) by (metis image_eqI)
    then show ?thesis using False facts(7) by (simp add: i same)
  qed
qed

text \<open>
  C9. The second pass writes nothing to a target. If it stops, the artifact is the one it
  found, except that a failed listing may have withdrawn the convergence proof; no operation
  changes. If it returns, the artifact is valid and holds the decision returned: converged, and
  then the run is configured with its operations as they were, or some operation planned again.
\<close>

theorem second_pass_outcome:
  "\<exists>r t. verify_idempotent_rerun lock rt s = (r, t) \<and> en_trace t = en_trace s \<and>
     (case r of
        Inl e \<Rightarrow> en_file t = en_file s \<or>
          d_operations (en_file t) = d_operations (en_file s) \<and> d_idempotency (en_file t) = no_idempotency
      | Inr i \<Rightarrow> i = d_idempotency (en_file t) \<and> validate_document (rt_host rt) (en_file t) = Inr () \<and>
          (if id_checked i
           then run_status (d_run (en_file t)) = Configured \<and> d_operations (en_file t) = d_operations (en_file s)
           else Planned \<in> op_state ` set (d_operations (en_file t))))"
proof (cases "verify_idempotent_rerun lock rt s")
  case (Pair r t)
  note wp = wpX_verify_idempotent_rerun [of lock rt s]
  show ?thesis
  proof (cases r)
    case (Inl e)
    then have "failed_pass s t" using wpX_exception [OF wp] Pair by simp
    then show ?thesis using Pair Inl by (simp add: failed_pass_def)
  next
    case (Inr i)
    then have i: "concluded (rt_host rt) s i t" using wpX_result [OF wp] Pair by simp
    then have "en_trace t = en_trace s" by (simp add: concluded_def)
    then show ?thesis using Pair Inr concluded_outcome [OF i] by simp
  qed
qed

end
