(* ===== verification/RecordProperties.thy ===== *)
theory RecordProperties
  imports Rerun Samples
begin

text \<open>
  What the records of a run rest on: exhausted listings with bounded calls, authenticated
  targets, approvals bound to their payload, validated documents, baselines, the second pass and
  the final status.
\<close>

section \<open>Listings and retries\<close>

lemma wpX_snd: "wpX m (\<lambda>_. P) (\<lambda>_. P) s \<Longrightarrow> P (snd (m s))"
  by (simp add: wpX_def split: prod.splits sum.splits)

text \<open>
  A call that may be retried n times is made at most n + 1 times, and every delay between
  two of them is within the limit the caller permits.
\<close>

theorem retries_are_bounded:
  "snd (snd (with_retries n d (\<lambda>x. uncounted (sleep x)) (counted call) (w, 0))) \<le> n + 1 \<and>
   list_all (\<lambda>r. case retry_delay r d of None \<Rightarrow> True | Some x \<Rightarrow> x \<le> d) rs"
proof
  have "wpX (with_retries n d (\<lambda>x. uncounted (sleep x)) (counted call)) (\<lambda>_ t. snd t \<le> n + 1)
      (\<lambda>_ t. snd t \<le> n + 1) (w, 0)"
    by (rule retries_bound) simp
  from wpX_snd [OF this] show "snd (snd (with_retries n d (\<lambda>x. uncounted (sleep x)) (counted call) (w, 0))) \<le> n + 1" .
qed (auto simp: list_all_iff dest: retry_delay_bound split: option.split)

text \<open>
  A listing of at most p pages calls the adapter at most three times p times, for any
  adapter and any retry limit asked for.
\<close>

theorem listings_are_bounded:
  "snd (snd (collect_paginated_with_receipt opts (\<lambda>x. uncounted (sleep x)) (\<lambda>c. counted (fetch c)) (w, 0)))
     \<le> nat (po_max_pages opts) * 3"
proof -
  let ?n = "nat (po_max_pages opts)" and ?b = "nat (po_max_pages opts) * 3"
  have "retry_limit (po_retries opts) \<le> 2" unfolding retry_limit_def by linarith
  then have "?n * Suc (retry_limit (po_retries opts)) \<le> ?b" by simp
  then have "wpX (collect_pages opts (\<lambda>x. uncounted (sleep x)) (\<lambda>c. counted (fetch c)) ?n None [] [] 0)
      (\<lambda>_ t. snd t \<le> ?b) (\<lambda>_ t. snd t \<le> ?b) (w, 0)"
    by (intro collect_bound) simp
  then have "wpX (collect_paginated_with_receipt opts (\<lambda>x. uncounted (sleep x)) (\<lambda>c. counted (fetch c)))
      (\<lambda>_ t. snd t \<le> ?b) (\<lambda>_ t. snd t \<le> ?b) (w, 0)"
    by (simp add: collect_paginated_with_receipt_def)
  from wpX_snd [OF this] show ?thesis .
qed

text \<open>
  C35. A receipt proves exhaustion: when a listing returns, the pages the adapter served, in
  order, form a complete listing of the items returned (the first was asked for without a
  cursor, each later one with the cursor of the page before, the last names none), the receipt
  counts them, and no cursor was asked for twice.
\<close>

theorem receipts_prove_exhaustion:
  "wpX (collect_paginated_with_receipt opts (\<lambda>x. unlogged (sleep x)) (logged fetch))
     (\<lambda>(items, r) t. \<exists>served. snd t = snd s @ served \<and> listing None served items \<and>
        r = \<lparr>pages_read = length served, exhausted = True\<rparr> \<and> distinct (map fst served)) (\<lambda>_ _. True) s"
proof -
  have "wpX (collect_pages opts (\<lambda>x. unlogged (sleep x)) (logged fetch) (nat (po_max_pages opts)) None [] [] 0)
     (\<lambda>r t. exhausted_by None [] [] 0 (nat (po_max_pages opts)) (snd s) r (snd t)) (\<lambda>_ _. True) s"
    by (rule collect_listing) simp
  then have "wpX (collect_pages opts (\<lambda>x. unlogged (sleep x)) (logged fetch) (nat (po_max_pages opts)) None [] [] 0)
     (\<lambda>(items, r) t. \<exists>served. snd t = snd s @ served \<and> listing None served items \<and>
        r = \<lparr>pages_read = length served, exhausted = True\<rparr> \<and> distinct (map fst served)) (\<lambda>_ _. True) s"
    by (rule wpX_mono) (auto simp: exhausted_by_def)
  then show ?thesis by (simp add: collect_paginated_with_receipt_def)
qed

text \<open>
  Conversely a complete listing of distinct cursors within the page limit is collected
  whole, in order, and the receipt counts its pages.
\<close>

theorem listings_are_collected:
  assumes "listing None served items" and "\<And>d p. (d, p) \<in> set served \<Longrightarrow> pages d = p"
    and "distinct (map fst served)" and "length served \<le> nat (po_max_pages opts)"
    and "1 \<le> po_max_pages opts" and "0 \<le> po_retries opts" and "0 \<le> po_max_delay opts"
  shows "collect_paginated_with_receipt opts sleep (\<lambda>d. returnX (pages d)) s =
    (Inr (items, \<lparr>pages_read = length served, exhausted = True\<rparr>), s)"
  using collect_complete [OF assms(1,2,3,4), where seen = "[]" and items = "[]" and read = 0
      and opts = opts and sleep = sleep and s = s] assms(5-7)
  by (simp add: collect_paginated_with_receipt_def thenX_def checkX_def)

definition two_pages :: "string option \<Rightarrow> json" where
  "two_pages c = (if c = None
     then JObj [(''items'', JArr [JObj [(''name'', JStr ''A'')]]), (''next_cursor'', JStr ''2'')]
     else JObj [(''items'', JArr [JObj [(''name'', JStr ''B'')]])])"

lemma listings_are_collected_witness:
  "collect_paginated_with_receipt default_pages sleep (\<lambda>d. returnX (two_pages d)) () =
     (Inr ([JObj [(''name'', JStr ''A'')], JObj [(''name'', JStr ''B'')]],
       \<lparr>pages_read = 2, exhausted = True\<rparr>), ())"
proof -
  let ?served = "[(None, two_pages None), (Some ''2'', two_pages (Some ''2''))]"
  let ?A = "[JObj [(''name'', JStr ''A'')]]" and ?B = "[JObj [(''name'', JStr ''B'')]]"
  have pages: "page_items (two_pages None) = Inr ?A" "page_cursor (two_pages None) = Inr (Some ''2'')"
    "page_items (two_pages (Some ''2'')) = Inr ?B" "page_cursor (two_pages (Some ''2'')) = Inr None"
    by code_simp+
  have served: "listing None ?served (?A @ ?B)"
    by (rule next_page [OF pages(1,2) last_page [OF pages(3,4)]])
  have "collect_paginated_with_receipt default_pages sleep (\<lambda>d. returnX (two_pages d)) () =
     (Inr (?A @ ?B, \<lparr>pages_read = length ?served, exhausted = True\<rparr>), ())"
  proof (rule listings_are_collected [OF served])
    show "two_pages d = p" if "(d, p) \<in> set ?served" for d p using that by auto
  qed (simp_all add: default_pages_def)
  then show ?thesis by simp
qed

section \<open>Targets and readbacks\<close>

text \<open>
  An adapter is accepted for a target only when the identity it reports agrees with the
  authorized one, field by field, up to surrounding white space.
\<close>

theorem adapters_are_authenticated:
  assumes "verified_adapter_identity authorized adapter w = (Inr i, w')"
  shows "\<exists>observed. ad_identity adapter w = (Inr observed, w') \<and>
     (\<forall>f \<in> set identity_fields. strip (text_of (get_or_null (dict_of observed) f)) = strip (identity_text authorized f)) \<and>
     container_type i = container_type authorized"
proof -
  obtain observed where "ad_identity adapter w = (Inr observed, w')" "check_identity authorized observed = Inr i"
    using assms unfolding verified_adapter_identity_def bindX_def catchX_def liftX_def raiseX_def
    by (simp split: prod.splits sum.splits)
  with check_identity_Inr(1,3) [OF this(2)] show ?thesis by blast
qed

lemma adapters_are_authenticated_witness:
  "\<exists>observed. ad_identity run_adapter JNull = (Inr observed, JNull) \<and>
     text_of (get_or_null (dict_of observed) ''container_type'') = ''web''"
proof -
  have "verified_adapter_identity run_identity run_adapter JNull = (Inr run_identity, JNull)" by code_simp
  from adapters_are_authenticated [OF this] obtain observed where
    o: "ad_identity run_adapter JNull = (Inr observed, JNull)" by blast
  then have "observed = JObj [(''account_id'', JStr ''1''), (''container_id'', JStr ''2''),
       (''workspace_id'', JStr ''3''), (''container_type'', JStr ''web'')]"
    by (simp add: run_adapter_def returnX_def)
  then show ?thesis using o by (simp add: get_or_null_def dict_of_def dget_def text_of_def)
qed

text \<open>
  C38. The reading of a removal whose object is still listed, as a decisive observation, always
  raises: its report carries no object lists.
\<close>

theorem removal_is_not_decisive:
  assumes "op_action op = Remove" and "build_verification_comparison h op (JObj d) = Inr v"
  shows "complete_observation h op (JObj d) = Inl (KeyError ''extra_objects'')"
  by (rule removal_observation_raises [OF assms])

definition folder_removal :: operation where
  "folder_removal = folder_base\<lparr>op_action := Remove, op_intended := None,
     op_pre_change := Some (JObj [(''name'', JStr ''F''), (''notes'', JStr ''n'')])\<rparr>"

lemma removal_is_not_decisive_witness:
  "complete_observation run_host folder_removal (saved_folder ''n'') = Inl (KeyError ''extra_objects'')"
proof -
  have "\<not> isl (build_verification_comparison run_host folder_removal (saved_folder ''n''))" by code_simp
  then obtain v where v: "build_verification_comparison run_host folder_removal (saved_folder ''n'') = Inr v"
    by (cases "build_verification_comparison run_host folder_removal (saved_folder ''n'')") auto
  have "op_action folder_removal = Remove" by (simp add: folder_removal_def)
  from removal_is_not_decisive [OF this v [unfolded saved_folder_def]] show ?thesis by (simp add: saved_folder_def)
qed

section \<open>Public identifiers\<close>

text \<open>
  A path is exempted from redaction only for a declared literal: it lies in an object of the
  value whose type is that of exactly one record, it is the path that a declaration of this
  record names there, and the text found there is bound by the declaration, through its digest
  or as the reviewed template source.
\<close>

theorem exemptions_are_declared:
  assumes "public_identifier_paths h (Some rs) v = Inr ps" and "p \<in> set ps"
  shows "exempted h (map dict_of rs) v p"
  by (rule public_identifier_paths_exempted [OF assms])

definition declared_record :: json where
  "declared_record = JObj [(''name'', JStr ''F''), (''intended'', JObj [(''type'', JStr ''html''), (''html'', JStr ''G-1'')]),
     (''public_identifiers'', JArr [JObj [(''path'', JArr [JStr ''html'']),
       (''value_sha256'', JStr (replicate 64 (CHR ''0'')))]])]"

lemma exemptions_are_declared_witness:
  "exempted run_host [dict_of declared_record]
     (JObj [(''tag'', JArr [JObj [(''name'', JStr ''F''), (''type'', JStr ''html''), (''html'', JStr ''G-1'')]])])
     ''$.tag[0].html''"
proof -
  let ?v = "JObj [(''tag'', JArr [JObj [(''name'', JStr ''F''), (''type'', JStr ''html''), (''html'', JStr ''G-1'')]])]"
  have "public_identifier_paths run_host (Some [declared_record]) ?v = Inr [''$.tag[0].html'']" by code_simp
  from exemptions_are_declared [OF this] show ?thesis by simp
qed

lemma prefix_either: "starts_with (k @ rest) w \<Longrightarrow> starts_with k w \<or> starts_with w k"
  by (induction k w rule: starts_with.induct) auto

text \<open>The exempted paths of the resources are not paths of the inventory that holds them.\<close>

lemma inventory_fields_apart:
  assumes "k \<in> set resource_families" and "f \<in> set (keys (dict_of (inventory_json raw)))"
  shows "\<not> starts_with k f \<and> \<not> starts_with f k"
proof -
  have "list_all (\<lambda>k. list_all (\<lambda>f. \<not> starts_with k f \<and> \<not> starts_with f k)
      [''target_id'', ''observed_at'', ''source_identity'', ''resources'', ''resource_pagination'']) resource_families"
    by code_simp
  then show ?thesis using assms by (auto simp: list_all_iff inventory_json_def dict_of_def)
qed

lemma inventory_paths_apart:
  assumes "public_identifier_paths h (Some rs) (resources_json (fi_resources raw)) = Inr ps" and "p \<in> set ps"
    and "set (keys (fi_resources raw)) \<subseteq> set resource_families"
  shows "p \<notin> set (value_paths ''$'' (inventory_json raw))"
proof
  assume mem: "p \<in> set (value_paths ''$'' (inventory_json raw))"
  have "exempted h (map dict_of rs) (resources_json (fi_resources raw)) p"
    by (rule public_identifier_paths_exempted [OF assms(1,2)])
  then obtain k rest where k: "k \<in> set (keys (fi_resources raw))" "p = ''$.'' @ k @ rest"
    unfolding resources_json_def map_json_def by (auto dest!: exempted_under_field simp: comp_def case_prod_beta)
  have "inventory_json raw = JObj (dict_of (inventory_json raw))" by (simp add: inventory_json_def dict_of_def)
  then obtain f s where f: "f \<in> set (keys (dict_of (inventory_json raw)))" "p = ''$.'' @ f @ s"
    using mem value_paths_field [of p "dict_of (inventory_json raw)"] k(2) by auto
  have "starts_with (f @ s) f" by (rule starts_with_append)
  then have "starts_with (k @ rest) f" using f(2) k(2) by simp
  then have "starts_with k f \<or> starts_with f k" by (rule prefix_either)
  then show False using inventory_fields_apart f(1) k(1) assms(3) by blast
qed

text \<open>
  C37. The exemptions the second pass computes for a final inventory never apply to it: they
  are resolved in the resources alone, while the inventory that is redacted holds the resources
  one level below, under a field of its own. Since the detectors ask for an exemption only at
  paths of the value they scan, the inventory that is retained is the one that redaction without
  any exemption leaves, whatever the operations declare.
\<close>

theorem inventory_exemptions_miss:
  assumes "retained_inventory h ops raw = Inr inventory" and "exemptions_by_path h"
    and "set (keys (fi_resources raw)) \<subseteq> set resource_families"
  shows "redact_for_persistence h [] (inventory_json raw) = Inr (inventory_json inventory)"
proof -
  obtain ps where ps: "public_identifier_paths h (Some (map op_json ops)) (resources_json (fi_resources raw)) = Inr ps"
    and safe: "redact_for_persistence h ps (inventory_json raw) = Inr (inventory_json inventory)"
    using assms(1) by (auto simp: retained_inventory_def bindE_Inr_iff Let_def failE_def split: if_splits)
  have "redact_for_persistence h ps (inventory_json raw) = redact_for_persistence h [] (inventory_json raw)"
    by (rule redact_unexempted [OF assms(2)]) (rule inventory_paths_apart [OF ps _ assms(3)])
  then show ?thesis using safe by simp
qed

text \<open>
  A host whose detector finds the literal of the sample wherever the value has it and no
  exemption is given for that place, and an operation that declares the literal.
\<close>

definition literal_places :: "string list" where
  "literal_places = [''$.tag[0].html'', ''$.resources.tag[0].html'']"

definition finding_host :: host where
  "finding_host = run_host\<lparr>h_findings := \<lambda>v ps. map (\<lambda>p. (p, ''credential'', ''credential-key''))
     (filter (\<lambda>p. p \<in> set (value_paths ''$'' v) \<and> p \<notin> set ps) literal_places)\<rparr>"

definition declaring_operation :: operation where
  "declaring_operation = folder_base\<lparr>op_family := ''tag'',
     op_intended := Some (JObj [(''type'', JStr ''html''), (''html'', JStr ''G-1'')]),
     op_public_identifiers := Some (JArr [JObj [(''path'', JArr [JStr ''html'']),
       (''value_sha256'', JStr (replicate 64 (CHR ''0'')))]])\<rparr>"

definition listed_tags :: "(string \<times> json list) list" where
  "listed_tags = [(''tag'', [JObj [(''name'', JStr ''F''), (''type'', JStr ''html''), (''html'', JStr ''G-1'')]])]"

definition raw_inventory :: final_inventory where
  "raw_inventory = \<lparr>fi_target = ''T'', fi_at = ''t'', fi_identity = run_identity, fi_resources = listed_tags,
     fi_pagination = []\<rparr>"

lemma inventory_exemptions_miss_witness:
  "public_identifier_paths finding_host (Some [op_json declaring_operation]) (resources_json listed_tags) =
     Inr [''$.tag[0].html''] \<and>
   redact_for_persistence finding_host [''$.tag[0].html''] (resources_json listed_tags) = Inr (resources_json listed_tags) \<and>
   (\<exists>inventory. retained_inventory finding_host [declaring_operation] raw_inventory = Inr inventory \<and>
     fi_resources inventory \<noteq> listed_tags \<and>
     redact_for_persistence finding_host [] (inventory_json raw_inventory) = Inr (inventory_json inventory))"
proof -
  have paths: "public_identifier_paths finding_host (Some [op_json declaring_operation]) (resources_json listed_tags) =
      Inr [''$.tag[0].html'']"
    and kept: "redact_for_persistence finding_host [''$.tag[0].html''] (resources_json listed_tags) =
      Inr (resources_json listed_tags)" by code_simp+
  have "map_sum (\<lambda>_. ()) (\<lambda>i. fi_resources i = listed_tags)
      (retained_inventory finding_host [declaring_operation] raw_inventory) = Inr False" by code_simp
  then obtain inventory where i: "retained_inventory finding_host [declaring_operation] raw_inventory = Inr inventory"
    "fi_resources inventory \<noteq> listed_tags"
    by (cases "retained_inventory finding_host [declaring_operation] raw_inventory") auto
  have "exemptions_by_path finding_host"
    by (auto simp: exemptions_by_path_def finding_host_def intro!: arg_cong [where f = "map _"] filter_cong)
  moreover have "set (keys (fi_resources raw_inventory)) \<subseteq> set resource_families"
    by (simp add: raw_inventory_def listed_tags_def resource_families_def web_resource_families_def)
  ultimately show ?thesis using inventory_exemptions_miss [OF i(1)] paths kept i by blast
qed

end
