(* ===== verification/SampleRun.thy ===== *)
theory SampleRun
  imports Samples
begin

text \<open>
  The later stages of the small run of \<open>Samples\<close>: the folder verified, the second
  pass that reads it again and finds nothing to do, and the configured document.
\<close>

definition verified_operation :: operation where
  "verified_operation = (case checkpoint_outcome run_host folder_verified folder_operation of
     Inr op \<Rightarrow> op | Inl _ \<Rightarrow> folder_operation)"

definition verified_document :: document where
  "verified_document = run_document run_baseline [verified_operation]"

definition second_read :: raw_observation where
  "second_read = \<lparr>ro_operation = ''OP-1'', ro_target = ''T'', ro_source = ''target-adapter-read'',
     ro_identity = run_identity, ro_at = ''tt'', ro_saved = saved_folder ''n''\<rparr>"

definition converged_records :: "observation list" where
  "converged_records =
     (case foldE (converge_step run_host verified_document) [] (enumerate 0 [second_read]) of
        Inr rs \<Rightarrow> rs | Inl _ \<Rightarrow> [])"

definition converged_document :: document where
  "converged_document = verified_document\<lparr>d_idempotency :=
     \<lparr>id_checked = True, id_remaining = [], id_observations = converged_records\<rparr>\<rparr>"

definition configured_document :: document where
  "configured_document = configured ''ttt'' converged_document"

lemma verified_state: "op_state verified_operation = Verified \<and> op_id verified_operation = ''OP-1''"
  by code_simp

lemma verified_valid: "validate_document run_host verified_document = Inr ()"
  by code_simp

lemma converged_read:
  "map_sum (\<lambda>_. ()) (map (\<lambda>r. (ob_operation r, ob_decision r)))
     (foldE (converge_step run_host verified_document) [] (enumerate 0 [second_read])) = Inr [(''OP-1'', ''no-op'')]"
  by code_simp

lemma converged_valid: "validate_document run_host converged_document = Inr ()"
  by code_simp

lemma configured_valid: "validate_document run_host configured_document = Inr ()"
  by code_simp

end
