(* ===== verification/DocumentProperties.thy ===== *)
theory DocumentProperties
  imports SampleRun
begin

text \<open>
  What a document that passes validation guarantees, and what the operations on whole documents
  (baselines, reopening, the second pass, finalization) establish.
\<close>

section \<open>Valid documents\<close>

text \<open>
  C39. In a valid document operation identifiers and object keys are unique, and the
  dependencies between the operations have no cycle.
\<close>

theorem valid_documents_are_acyclic:
  assumes "validate_document h d = Inr ()"
  shows "distinct (map op_id (d_operations d)) \<and> distinct (map op_key (d_operations d)) \<and>
    acyclic (edges (op_graph (map (\<lambda>op. (strip (op_id op), op)) (d_operations d))))"
  using validate_document_operations(1,2,4) [OF assms] by blast

lemma valid_documents_are_acyclic_witness:
  "acyclic (edges (op_graph (map (\<lambda>op. (strip (op_id op), op)) (d_operations captured_document))))"
  using valid_documents_are_acyclic [OF captured_valid] by blast

text \<open>
  C15. Evidence is recomputed, not trusted: a verified operation of a valid document retains
  the object read back, and rebuilding the comparison from it passes.
\<close>

theorem verified_evidence_rebuilds:
  assumes "validate_document h d = Inr ()" and "op \<in> set (d_operations d)" and "op_state op = Verified"
  shows "\<exists>saved v. op_saved_readback op = Some saved \<and>
    build_verification_comparison h op saved = Inr v \<and> vr_pass v"
  by (rule accepted_verified [OF validate_document_operations(3) [OF assms(1,2)] assms(3)])

lemma sample_operations:
  "d_operations verified_document = [verified_operation]"
  "d_operations converged_document = [verified_operation]"
  "d_operations configured_document = [verified_operation]"
  by (simp_all add: configured_document_def configured_def converged_document_def verified_document_def
      run_document_def run_document_base_def update_run_def Let_def)

lemma verified_evidence_rebuilds_witness:
  "\<exists>saved v. op_saved_readback verified_operation = Some saved \<and>
    build_verification_comparison run_host verified_operation saved = Inr v \<and> vr_pass v"
  by (rule verified_evidence_rebuilds [OF verified_valid]) (simp_all add: sample_operations verified_state)

text \<open>
  C11. A configured document is finished: every operation verified, every baseline complete,
  and a second pass has read every operation again, after its verification, and found nothing
  left to do.
\<close>

theorem configured_documents_are_finished:
  assumes "validate_document h d = Inr ()" and "run_status (d_run d) = Configured"
  shows "(\<forall>op \<in> set (d_operations d). op_state op = Verified) \<and> (\<forall>b \<in> set (d_baselines d). bl_complete b) \<and>
    set (map ob_operation (id_observations (d_idempotency d))) = set (map op_id (d_operations d)) \<and>
    (\<forall>ob \<in> set (id_observations (d_idempotency d)). ob_decision ob = ''no-op'' \<and> observation_valid h d ob)"
  using validate_configured [OF assms] validate_observations(2,3) [OF assms(1)] by blast

lemma configured_documents_are_finished_witness:
  "op_state verified_operation = Verified \<and>
   set (map ob_operation (id_observations (d_idempotency configured_document))) = {''OP-1''}"
  using configured_documents_are_finished [OF configured_valid] verified_state
  by (simp add: sample_operations configured_document_def configured_def)

text \<open>
  C31. An approved change is the change that was approved: for a mutating action of an accepted
  contract, the approval names a source that is in scope, and its digest is that of the
  operation's own payload (target object, action, requirements, intended and previous fields).
\<close>

theorem approvals_bind_the_payload:
  assumes "validate_action_contract h op path locators = Inr ()" and "mutating_action (op_action op)"
    and "wf_json (nullable (op_approval op))"
  shows "\<exists>approval l. op_approval op = Some (JObj approval) \<and> l \<in> set locators \<and>
    dget approval ''locator'' = Some (JStr l) \<and>
    dget approval ''payload_sha256'' =
      Some (JStr (canonical_sha256 (h_sha256 h) (JObj (mutation_approval_projection op))))"
  by (rule action_contract_approval [OF assms])

lemma approvals_bind_the_payload_witness:
  "\<exists>approval. op_approval folder_operation = Some (JObj approval) \<and>
    dget approval ''payload_sha256'' =
      Some (JStr (canonical_sha256 (h_sha256 run_host) (JObj (mutation_approval_projection folder_operation))))"
proof -
  have "validate_action_contract run_host folder_operation ''p'' [''doc''] = Inr ()" by code_simp
  from approvals_bind_the_payload [OF this] show ?thesis
    by (auto simp: folder_operation_def folder_base_def mutating_action_def nullable_def
        build_mutation_approval_def texts_def)
qed

section \<open>Baselines\<close>

text \<open>
  A baseline built from a capture is complete and bound to the target: the adapter's
  identity was the authorized one, the families are those of the container, each with its
  resources, and the fingerprint covers what is retained.
\<close>

theorem baselines_are_bound:
  assumes "build_target_baseline h t resources captured_at changes evidence ops = Inr b"
  shows "bl_complete b \<and> bl_target b = tg_id t \<and> bl_evidence b = Some evidence \<and>
    ce_identity evidence = tg_identity t \<and> set (keys (bl_resources b)) = set (bl_families b) \<and>
    set (bl_families b) \<subseteq> set (target_families (container_type (tg_identity t))) \<and>
    bl_fingerprint b = Some (baseline_body h (bl_resources b) (bl_changes b) (Some evidence) [])"
  using build_target_baseline_facts [OF assms] by blast

lemma baselines_are_bound_witness:
  "\<exists>b. build_target_baseline run_host run_target [(''folder'', [])] ''t'' [] run_evidence [] = Inr b \<and>
     bl_complete b \<and> bl_evidence b = Some run_evidence"
proof -
  have "map_sum (\<lambda>_. ()) (\<lambda>_. ())
      (build_target_baseline run_host run_target [(''folder'', [])] ''t'' [] run_evidence []) = Inr ()"
    by code_simp
  then obtain b where b: "build_target_baseline run_host run_target [(''folder'', [])] ''t'' [] run_evidence [] = Inr b"
    by (cases "build_target_baseline run_host run_target [(''folder'', [])] ''t'' [] run_evidence []") auto
  then show ?thesis using baselines_are_bound [OF b] by blast
qed

section \<open>Reopening, the second pass and finalization\<close>

text \<open>
  C30. Only a failed operation is reopened. It is planned again, without evidence, its contract
  unchanged, its journal extended by the one entry that says so; every other operation and every
  approved section stay, and the document found is valid.
\<close>

theorem reopening_replans_one_operation:
  "case reopen_failed_operation h k note time d of Inl e \<Rightarrow> True
   | Inr d' \<Rightarrow> (\<exists>op. look_operation k d = Some op \<and> op_state op = Failed \<and>
       look_operation k d' = Some (planned_again time note False op)) \<and>
     d_operations d' = update_first (\<lambda>op. op_id op = k) (planned_again time note False) (d_operations d) \<and>
     materialization_projection d' = materialization_projection d \<and>
     d_idempotency d' = no_idempotency \<and> validate_document h d' = Inr ()"
proof (cases "reopen_failed_operation h k note time d")
  case (Inr d')
  note facts = reopen_facts [OF Inr]
  have "map op_spec (d_operations d') = map op_spec (d_operations d)"
    unfolding facts(2) by (rule map_update_first) simp
  then have "materialization_projection d' = materialization_projection d"
    by (rule frame_projection [OF facts(3)])
  then show ?thesis using Inr facts by simp
qed simp

text \<open>
  C29. The second pass decides on what was just read: every supplied read becomes one observation,
  in order; it was read by the adapter from the authorized target after the verification, and its
  decision and evidence are those of the comparison of the object it read. Together they cover
  every operation once. An operation whose fresh readback no longer matches is planned again and
  listed as remaining, the others stay as they are, and the run counts as converged exactly when
  none remains.
\<close>

theorem second_pass_decides:
  assumes "record_adapter_idempotency_observations h obs d = Inr d'"
  shows "(let rs = id_observations (d_idempotency d');
      failing = map ob_operation (filter (\<lambda>ob. ob_decision ob \<noteq> ''no-op'') rs) in
    list_all2 (recorded h d) obs rs \<and> distinct (map ob_operation rs) \<and>
    set (map ob_operation rs) = set (map op_id (d_operations d)) \<and>
    (id_checked (d_idempotency d') \<longleftrightarrow> failing = []) \<and> id_remaining (d_idempotency d') = sort failing \<and>
    d_operations d' = map (\<lambda>op. if op_id op \<in> set failing
      then planned_again (observed_time rs (op_id op)) repair_note True op else op) (d_operations d) \<and>
    validate_document h d' = Inr ())"
  using record_observations_facts [OF assms] by (simp add: Let_def)

lemma converged:
  "record_adapter_idempotency_observations run_host [second_read] verified_document = Inr converged_document"
proof -
  obtain rs where rs: "foldE (converge_step run_host verified_document) [] (enumerate 0 [second_read]) = Inr rs"
      "map (\<lambda>r. (ob_operation r, ob_decision r)) rs = [(''OP-1'', ''no-op'')]"
    using converged_read
    by (cases "foldE (converge_step run_host verified_document) [] (enumerate 0 [second_read])") auto
  obtain r where r: "rs = [r]" "ob_operation r = ''OP-1''" "ob_decision r = ''no-op''"
    using rs(2) by auto
  have records: "converged_records = rs" unfolding converged_records_def rs(1) by simp
  show ?thesis
    using verified_valid converged_valid verified_state
    by (simp add: record_adapter_idempotency_observations_def sample_operations index_ops_def rs(1) r
        converged_document_def records Let_def failE_def del: enumerate_simps foldE.simps)
qed

lemma second_pass_decides_witness:
  "set (map ob_operation (id_observations (d_idempotency converged_document))) = {''OP-1''} \<and>
   d_operations converged_document = [verified_operation]"
  using second_pass_decides [OF converged] verified_state
  by (simp add: Let_def sample_operations)

text \<open>
  C10. A run is declared configured only when it is: finalization returns the same document
  with its statuses set, and then every operation is verified, every baseline complete, the
  second pass converged and no field unresolved.
\<close>

theorem finalization_is_earned:
  assumes "finalize_adapter_verified_document h time d = Inr d'"
  shows "d' = configured time d \<and> validate_document h d' = Inr () \<and>
    (\<forall>op \<in> set (d_operations d'). op_state op = Verified) \<and> (\<forall>b \<in> set (d_baselines d'). bl_complete b) \<and>
    id_checked (d_idempotency d') \<and> unresolved_fields d' = Inr []"
  using finalize_facts [OF assms] by blast

lemma finalization_is_earned_witness:
  "validate_document run_host configured_document = Inr () \<and> unresolved_fields configured_document = Inr []"
proof -
  have "d_mappings converged_document = [] \<and> d_pipelines converged_document = [] \<and>
      d_baselines converged_document = [run_baseline] \<and> bl_complete run_baseline"
    by (simp add: converged_document_def verified_document_def run_document_def run_document_base_def
        update_run_def Let_def run_baseline_def assemble_baseline_def)
  then have none: "unresolved_fields converged_document = Inr []"
      "map bl_target (filter (\<lambda>b. \<not> bl_complete b) (d_baselines converged_document)) = []"
    by (simp_all add: unresolved_fields_def)
  have verified: "map op_id (filter (\<lambda>op. op_state op \<noteq> Verified) (d_operations converged_document)) = []"
    "d_idempotency converged_document = \<lparr>id_checked = True, id_remaining = [], id_observations = converged_records\<rparr>"
    by (simp_all add: sample_operations verified_state) (simp add: converged_document_def)
  have "finalize_adapter_verified_document run_host ''ttt'' converged_document = Inr configured_document"
    unfolding finalize_adapter_verified_document_def none verified Let_def converged_valid
      configured_document_def [symmetric] by (simp add: configured_valid failE_def)
  from finalization_is_earned [OF this] show ?thesis by blast
qed

text \<open>
  The publication steps the runtime lays down for a run always satisfy the order the
  validator requires.
\<close>

theorem publication_steps_are_valid:
  "validate_publication_dependencies (publication_dependencies mode) mode = Inr ()"
  by (rule publication_dependencies_valid)

end
