(* ===== verification/Requirements.thy ===== *)
theory Requirements
  imports NativeFields PublicIdentifiers
begin

text \<open>
  The approved scope of a contract: the typed accessors of \<^verbatim>\<open>core/validation.py\<close> and
  \<^verbatim>\<open>core/contract_validation.py\<close>, the collection shapes of
  \<^verbatim>\<open>domain/shapes.py\<close>, the requirements of \<^verbatim>\<open>domain/requirements.py\<close> and
  the targets of \<^verbatim>\<open>domain/targets.py\<close>.
\<close>

section \<open>Typed accessors\<close>

text \<open>The error type is an argument, as in the code.\<close>

definition check_object :: "(string \<Rightarrow> exn) \<Rightarrow> json \<Rightarrow> string \<Rightarrow> dict res" where
  "check_object err v path = (case v of JObj d \<Rightarrow> Inr d | _ \<Rightarrow> Inl (err (path @ '' must be an object'')))"

definition check_array :: "(string \<Rightarrow> exn) \<Rightarrow> json \<Rightarrow> string \<Rightarrow> json list res" where
  "check_array err v path = (case v of JArr xs \<Rightarrow> Inr xs | _ \<Rightarrow> Inl (err (path @ '' must be an array'')))"

definition check_text :: "(string \<Rightarrow> exn) \<Rightarrow> json \<Rightarrow> string \<Rightarrow> string res" where
  "check_text err v path = (case v of
     JStr s \<Rightarrow> if blank s then Inl (err (path @ '' must be a non-empty string'')) else Inr (strip s)
   | _ \<Rightarrow> Inl (err (path @ '' must be a non-empty string'')))"

definition check_unique_texts :: "(string \<Rightarrow> exn) \<Rightarrow> json \<Rightarrow> string \<Rightarrow> string list res" where
  "check_unique_texts err v path =
     bindE (check_array err v path) (\<lambda>items.
     bindE (mapE (\<lambda>item. check_text err item (path @ ''[]'')) items) (\<lambda>normalized.
     bindE (failE (\<not> distinct normalized) (err (path @ '' contains duplicate values''))) (\<lambda>_.
       Inr normalized)))"

definition contract_error :: "string \<Rightarrow> exn" where
  "contract_error m = ContractValidationError m ''invalid_contract''"

definition evidence_grades :: "string list" where
  "evidence_grades = [''approved-input'', ''official-current'', ''container-confirmed'', ''contract-sample'']"

definition authority :: "json \<Rightarrow> string \<Rightarrow> bool \<Rightarrow> dict res" where
  "authority v path approved =
     bindE (check_object contract_error v path) (\<lambda>d.
     bindE (check_text contract_error (get_or_null d ''grade'') (path @ ''.grade'')) (\<lambda>grade.
     bindE (failE (grade \<notin> set evidence_grades)
       (contract_error (path @ ''.grade has unsupported value '' @ py_repr grade))) (\<lambda>_.
     bindE (failE (approved \<and> grade \<noteq> ''approved-input'')
       (contract_error (path @ ''.grade must be '' @ py_repr ''approved-input''))) (\<lambda>_.
     bindE (check_text contract_error (get_or_null d ''locator'') (path @ ''.locator'')) (\<lambda>_. Inr d)))))"

section \<open>Collection shapes\<close>

definition field_shapes :: "string list" where
  "field_shapes = [''array'', ''object'', ''scalar:boolean'', ''scalar:integer'', ''scalar:number'', ''scalar:string'']"

definition collection_shape :: "json \<Rightarrow> unit res" where
  "collection_shape v =
     (if unhashable v then Inl (OtherError ''unhashable type'')
      else failE (\<not> text_among (Some v) field_shapes)
        (ValueError (''unsupported collection shape '' @ py_repr_json v @ ''; expected one of ['' @
          join '', '' (map py_repr field_shapes) @ '']'')))"

section \<open>Requirements\<close>

text \<open>The collections of a requirement that hold fields, with the scope of their payload, as
  \<^verbatim>\<open>common.schema.json\<close> declares them.\<close>

definition field_collections :: "(string \<times> string option) list" where
  "field_collections = [(''parameters'', Some ''event-parameter''), (''user_properties'', Some ''user-property''),
     (''item_parameters'', Some ''item-parameter''), (''implementation_fields'', None),
     (''configuration_fields'', Some ''configuration''), (''unresolved_fields'', Some ''unresolved'')]"

definition routes :: "string list" where
  "routes = [''analytics'', ''media'', ''consent'', ''combined'', ''organization'']"

definition requirement_kinds :: "string list" where
  "requirement_kinds = [''analytics'', ''consent'', ''media'', ''organization'']"

definition validate_provenance :: "json \<Rightarrow> string \<Rightarrow> string \<Rightarrow> unit res" where
  "validate_provenance v path route =
     bindE (check_object contract_error v path) (\<lambda>d.
     bindE (check_text contract_error (get_or_null d ''grade'') (path @ ''.grade'')) (\<lambda>grade.
     bindE (failE (grade \<notin> set evidence_grades)
       (contract_error (path @ ''.grade has unsupported value '' @ py_repr grade))) (\<lambda>_.
     bindE (check_text contract_error (get_or_null d ''locator'') (path @ ''.locator'')) (\<lambda>_. seqE
       [failE (route = ''analytics'' \<and> grade \<noteq> ''approved-input'') (contract_error (path @ ''.grade must be '' @
          py_repr ''approved-input'' @ '' for analytics collection fields'')),
        failE (route \<in> {''media'', ''combined''} \<and> grade \<notin> {''approved-input'', ''official-current''})
          (contract_error (path @ ''.grade cannot authorize a media destination field''))]))))"

definition validate_source_authority :: "json \<Rightarrow> string \<Rightarrow> unit res" where
  "validate_source_authority v path =
     bindE (check_object contract_error v path) (\<lambda>d.
     bindE (check_text contract_error (get_or_null d ''grade'') (path @ ''.grade'')) (\<lambda>grade.
     bindE (failE (grade \<noteq> ''approved-input'')
       (contract_error (path @ ''.grade must be '' @ py_repr ''approved-input'' @ '' for a source''))) (\<lambda>_.
     bindE (check_text contract_error (get_or_null d ''locator'') (path @ ''.locator'')) (\<lambda>_. Inr ()))))"

text \<open>Where the value of a field comes from, and on whose authority.\<close>

definition source_authority :: "dict \<Rightarrow> dict \<Rightarrow> json" where
  "source_authority field provenance =
     (if get_or_null field ''source_authority'' \<noteq> JNull then get_or_null field ''source_authority''
      else if get_or_null provenance ''grade'' = JStr ''approved-input'' then JObj provenance else JNull)"

definition source_checks :: "dict \<Rightarrow> dict \<Rightarrow> string \<Rightarrow> unit res" where
  "source_checks field provenance path =
     (let sourced = has_key field ''source'' \<or> has_key field ''literal'' in seqE
      [failE (has_key field ''source'' \<and> has_key field ''literal'')
         (contract_error (path @ '' cannot define both source and literal'')),
       whenE (has_key field ''source'') (bindE (check_text contract_error (get_or_null field ''source'') (path @ ''.source''))
         (\<lambda>_. Inr ())),
       failE (has_key field ''literal'' \<and> get_or_null field ''literal'' = JNull)
         (contract_error (path @ ''.literal must not be null'')),
       whenE sourced (seqE
         [collection_shape (get_or_null field ''source_shape''),
          failE (source_authority field provenance = JNull) (contract_error (path @
            ''.source_authority is required when destination provenance does not authorize the source'')),
          validate_source_authority (source_authority field provenance) (path @ ''.source_authority'')]),
       failE (\<not> sourced \<and> has_key field ''source_authority'')
         (contract_error (path @ ''.source_authority requires source or literal'')),
       failE (\<not> sourced \<and> get_or_null field ''source_shape'' \<noteq> JNull)
         (contract_error (path @ ''.source_shape requires source or literal''))])"

definition validate_field :: "string \<Rightarrow> string \<Rightarrow> string \<Rightarrow> string \<times> json \<Rightarrow> unit res" where
  "validate_field path map_name route named =
     (let field_path = path @ ''.'' @ map_name @ ''.'' @ fst named in
     bindE (check_text contract_error (JStr (fst named)) (path @ ''.'' @ map_name @ '' key'')) (\<lambda>_.
     bindE (check_object contract_error (snd named) field_path) (\<lambda>field.
     (case dget field ''provenance'' of
        None \<Rightarrow> Inl (contract_error (field_path @ '' is missing provenance''))
      | Some provenance \<Rightarrow> seqE
          [validate_provenance provenance (field_path @ ''.provenance'') route,
           collection_shape (get_or_null field ''destination_shape''),
           source_checks field (dict_of provenance) field_path]))))"

text \<open>The route that applies to one requirement.\<close>

definition effective_route :: "dict \<Rightarrow> string \<Rightarrow> string \<Rightarrow> string res" where
  "effective_route requirement path route =
     (if route = ''combined'' then
        bindE (check_text contract_error (get_or_null requirement ''kind'') (path @ ''.kind'')) (\<lambda>kind.
        bindE (failE (kind \<notin> set requirement_kinds)
          (contract_error (path @ ''.kind has unsupported value '' @ py_repr kind))) (\<lambda>_. Inr kind))
      else (case dget requirement ''kind'' of
          None \<Rightarrow> Inr route
        | Some kind \<Rightarrow> bindE (check_text contract_error kind (path @ ''.kind'')) (\<lambda>k.
            bindE (failE (k \<noteq> route)
              (contract_error (path @ ''.kind must match the top-level route '' @ py_repr route))) (\<lambda>_. Inr route))))"

definition validate_requirement :: "nat \<Rightarrow> string \<Rightarrow> json \<Rightarrow> string res" where
  "validate_requirement index route raw =
     (let path = index_path ''$.requirements'' index in
     bindE (check_object contract_error raw path) (\<lambda>requirement.
     bindE (check_text contract_error (get_or_null requirement ''id'') (path @ ''.id'')) (\<lambda>requirement_id.
     bindE (check_object contract_error (get_or_null requirement ''authority'') (path @ ''.authority'')) (\<lambda>a.
     bindE (check_text contract_error (get_or_null a ''grade'') (path @ ''.authority.grade'')) (\<lambda>grade.
     bindE (failE (grade \<noteq> ''approved-input'')
       (contract_error (path @ ''.authority.grade must be '' @ py_repr ''approved-input''))) (\<lambda>_.
     bindE (check_text contract_error (get_or_null a ''locator'') (path @ ''.authority.locator'')) (\<lambda>_.
     bindE (effective_route requirement path route) (\<lambda>effective.
     bindE (forE (sort (filter (has_key requirement) (keys field_collections))) (\<lambda>map_name.
       bindE (check_object contract_error (get_or_null requirement map_name) (path @ ''.'' @ map_name)) (\<lambda>fields.
         forE fields (validate_field path map_name effective)))) (\<lambda>_.
       Inr requirement_id)))))))))"

section \<open>Scope\<close>

definition scope_partitions :: "string list" where
  "scope_partitions = [''included'', ''reference_only'', ''excluded'']"

definition overlap_check :: "string \<times> string list \<Rightarrow> string \<times> string list \<Rightarrow> unit res" where
  "overlap_check left right =
     (let overlap = sort (filter (\<lambda>x. x \<in> set (snd right)) (snd left)) in
      failE (overlap \<noteq> []) (contract_error (''$.scope.'' @ fst left @ '' and $.scope.'' @ fst right @
        '' overlap: '' @ join '', '' overlap)))"

definition reported_as_contract :: "'a res \<Rightarrow> 'a res" where
  "reported_as_contract r = (case r of
     Inl e \<Rightarrow> Inl (if is_value_error e then contract_error (exn_message e) else e) | Inr a \<Rightarrow> Inr a)"

definition scope_requirement_step :: "string \<Rightarrow> string list \<Rightarrow> nat \<times> json \<Rightarrow> string list res" where
  "scope_requirement_step route seen item =
     bindE (reported_as_contract (validate_requirement (fst item) route (snd item))) (\<lambda>k.
     bindE (failE (k \<in> set seen) (contract_error (''duplicate requirement id '' @ py_repr k))) (\<lambda>_.
       Inr (seen @ [k])))"

definition validate_scope_and_requirements :: "dict \<Rightarrow> json \<Rightarrow> string list res" where
  "validate_scope_and_requirements contract raw_route =
     bindE (check_text contract_error raw_route ''$.route'') (\<lambda>route.
     bindE (failE (route \<notin> set routes) (contract_error (''$.route has unsupported value '' @ py_repr route))) (\<lambda>_.
     bindE (required_field contract ''scope'') (\<lambda>raw_scope.
     bindE (check_object contract_error raw_scope ''$.scope'') (\<lambda>scope.
     bindE (mapE (\<lambda>name. check_unique_texts contract_error (get_or_null scope name) (''$.scope.'' @ name))
       scope_partitions) (\<lambda>parts.
     (let part = (\<lambda>i. (scope_partitions ! i, parts ! i)) in
     bindE (seqE [overlap_check (part 0) (part 1), overlap_check (part 0) (part 2),
       overlap_check (part 1) (part 2)]) (\<lambda>_.
     bindE (required_field contract ''requirements'') (\<lambda>raw.
     bindE (check_array contract_error raw ''$.requirements'') (\<lambda>requirements.
     bindE (foldE (scope_requirement_step route) [] (enumerate 0 requirements)) (\<lambda>ids.
     bindE (failE (set ids \<noteq> set (parts ! 0))
       (contract_error ''$.scope.included must equal the IDs represented in $.requirements'')) (\<lambda>_.
       Inr ids)))))))))))"

section \<open>Targets\<close>

definition target_type_names :: "string list" where
  "target_type_names = [''server'', ''web'']"

definition contract_target_step :: "(string \<times> dict) list \<Rightarrow> nat \<times> json \<Rightarrow> (string \<times> dict) list res" where
  "contract_target_step targets item =
     (let path = index_path ''$.targets'' (fst item) in
     bindE (check_object contract_error (snd item) path) (\<lambda>target.
     bindE (check_text contract_error (get_or_null target ''target_id'') (path @ ''.target_id'')) (\<lambda>k.
     bindE (failE (1 < length (split_colons k))
       (contract_error (path @ ''.target_id must not contain '' @ py_repr ''::''))) (\<lambda>_.
     bindE (failE (k \<in> set (keys targets)) (contract_error (''duplicate target_id '' @ py_repr k))) (\<lambda>_.
     bindE (check_text contract_error (get_or_null target ''container_type'') (path @ ''.container_type'')) (\<lambda>c.
     bindE (failE (c \<notin> set target_type_names)
       (contract_error (path @ ''.container_type has unsupported value''))) (\<lambda>_.
     bindE (forE [''account_id'', ''container_id'', ''workspace_id''] (\<lambda>field.
       bindE (check_text contract_error (get_or_null target field) (path @ ''.'' @ field)) (\<lambda>_. Inr ()))) (\<lambda>_.
     bindE (authority (get_or_null target ''authority'') (path @ ''.authority'') True) (\<lambda>_.
       Inr (targets @ [(k, target)]))))))))))"

definition validate_targets :: "json \<Rightarrow> string \<Rightarrow> (string \<times> dict) list res" where
  "validate_targets raw mode =
     bindE (check_array contract_error raw ''$.targets'') (\<lambda>items.
     bindE (foldE contract_target_step [] (enumerate 0 items)) (\<lambda>targets.
     bindE (failE (targets = []) (contract_error ''$.targets must not be empty'')) (\<lambda>_.
     (let types = set (map (\<lambda>kt. get_or_null (snd kt) ''container_type'') targets) in
     bindE (seqE
       [failE (mode = ''web'' \<and> types \<noteq> {JStr ''web''}) (contract_error ''web mode permits only web targets''),
        failE (mode = ''server'' \<and> types \<noteq> {JStr ''server''})
          (contract_error ''server mode permits only server targets''),
        failE (mode = ''pipeline'' \<and> types \<noteq> JStr ` set target_type_names)
          (contract_error ''pipeline mode requires at least one web and one server target'')]) (\<lambda>_.
       Inr targets)))))"

section \<open>What an accepted scope guarantees\<close>

lemma requirement_step_Inr: "scope_requirement_step route seen item = Inr seen' \<longleftrightarrow>
    (\<exists>k. reported_as_contract (validate_requirement (fst item) route (snd item)) = Inr k \<and>
      k \<notin> set seen \<and> seen' = seen @ [k])"
  unfolding scope_requirement_step_def bindE_Inr_iff failE_ok_iff by blast

lemma requirement_fold:
  "foldE (scope_requirement_step route) seen (enumerate n xs) = Inr ids \<Longrightarrow> distinct seen \<Longrightarrow>
   distinct ids \<and> (\<exists>new. ids = seen @ new \<and> list_all2 (\<lambda>(i, x) k. validate_requirement i route x = Inr k) (enumerate n xs) new)"
proof (induction xs arbitrary: seen n)
  case (Cons x xs)
  obtain k where k: "reported_as_contract (validate_requirement n route x) = Inr k" "k \<notin> set seen"
    and rest: "foldE (scope_requirement_step route) (seen @ [k]) (enumerate (Suc n) xs) = Inr ids"
    using Cons.prems(1) unfolding enumerate_simps foldE.simps bindE_Inr_iff requirement_step_Inr by auto
  have valid: "validate_requirement n route x = Inr k"
    using k(1) by (auto simp: reported_as_contract_def split: sum.splits if_splits)
  have "distinct (seen @ [k])" using k(2) Cons.prems(2) by simp
  from Cons.IH [OF rest this] obtain new where new: "distinct ids" "ids = (seen @ [k]) @ new"
    "list_all2 (\<lambda>(i, x) k. validate_requirement i route x = Inr k) (enumerate (Suc n) xs) new" by blast
  then have "ids = seen @ (k # new) \<and>
    list_all2 (\<lambda>(i, x) k. validate_requirement i route x = Inr k) (enumerate n (x # xs)) (k # new)"
    using valid by simp
  then show ?case using new(1) by blast
qed simp

lemma sort_Nil_iff: "sort (xs :: 'a :: linorder list) = [] \<longleftrightarrow> xs = []"
  by (metis set_empty set_sort)

lemma overlap_check_ok: "overlap_check l r = Inr () \<longleftrightarrow> set (snd l) \<inter> set (snd r) = {}"
  by (auto simp: overlap_check_def failE_ok_iff Let_def filter_empty_conv sort_Nil_iff)

text \<open>The partitions of a scope as lists of identifiers.\<close>

definition scope_part :: "dict \<Rightarrow> string \<Rightarrow> string list" where
  "scope_part contract name = map (\<lambda>v. strip (text_of v))
     (list_of (get_or_null (dict_of (get_or_null contract ''scope'')) name))"

lemma check_unique_texts_Inr:
  "check_unique_texts err v path = Inr xs \<Longrightarrow> xs = map (\<lambda>v. strip (text_of v)) (list_of v) \<and> distinct xs"
proof -
  have one: "check_text err v p = Inr x \<Longrightarrow> x = strip (text_of v)" for v p x
    by (auto simp: check_text_def text_of_def split: json.splits if_splits)
  have all: "mapE (\<lambda>item. check_text err item p) vs = Inr xs \<Longrightarrow> xs = map (\<lambda>v. strip (text_of v)) vs" for vs p xs
    by (induction vs arbitrary: xs) (auto simp: bindE_Inr_iff dest: one)
  show "check_unique_texts err v path = Inr xs \<Longrightarrow> ?thesis"
    by (auto simp: check_unique_texts_def bindE_Inr_iff failE_ok_iff check_array_def list_of_def
        dest!: all split: json.splits)
qed

lemma validate_scope_facts:
  assumes "validate_scope_and_requirements contract route = Inr ids"
  shows "distinct ids" and "set ids = set (scope_part contract ''included'')"
    and "set (scope_part contract ''included'') \<inter> set (scope_part contract ''reference_only'') = {}"
    and "set (scope_part contract ''included'') \<inter> set (scope_part contract ''excluded'') = {}"
    and "set (scope_part contract ''reference_only'') \<inter> set (scope_part contract ''excluded'') = {}"
    and "\<exists>r. list_all2 (\<lambda>(i, x) k. validate_requirement i r x = Inr k)
      (enumerate 0 (list_of (get_or_null contract ''requirements''))) ids"
proof -
  obtain r scope parts raw requirements where
      scope: "dget contract ''scope'' = Some scope" "is_dict scope"
    and parts: "mapE (\<lambda>name. check_unique_texts contract_error (get_or_null (dict_of scope) name) (''$.scope.'' @ name))
       scope_partitions = Inr parts"
    and overlap: "overlap_check (scope_partitions ! 0, parts ! 0) (scope_partitions ! 1, parts ! 1) = Inr ()"
      "overlap_check (scope_partitions ! 0, parts ! 0) (scope_partitions ! 2, parts ! 2) = Inr ()"
      "overlap_check (scope_partitions ! 1, parts ! 1) (scope_partitions ! 2, parts ! 2) = Inr ()"
    and reqs: "dget contract ''requirements'' = Some (JArr requirements)"
    and fold: "foldE (scope_requirement_step r) [] (enumerate 0 requirements) = Inr ids"
    and ids: "set ids = set (parts ! 0)"
    using assms unfolding validate_scope_and_requirements_def Let_def bindE_Inr_iff required_field_def checks_iff
    by (fastforce simp: check_object_def check_array_def dict_of_def is_dict_def split: option.splits json.splits)
  have part: "parts = map (scope_part contract) scope_partitions"
  proof -
    have "parts = map (\<lambda>name. map (\<lambda>v. strip (text_of v)) (list_of (get_or_null (dict_of scope) name))) scope_partitions"
      using parts by (auto simp: scope_partitions_def bindE_Inr_iff dest!: check_unique_texts_Inr)
    then show ?thesis using scope by (simp add: scope_part_def get_or_null_def)
  qed
  show "distinct ids" "\<exists>r. list_all2 (\<lambda>(i, x) k. validate_requirement i r x = Inr k)
      (enumerate 0 (list_of (get_or_null contract ''requirements''))) ids"
    using requirement_fold [OF fold] reqs by (auto simp: get_or_null_def list_of_def)
  show "set ids = set (scope_part contract ''included'')"
    "set (scope_part contract ''included'') \<inter> set (scope_part contract ''reference_only'') = {}"
    "set (scope_part contract ''included'') \<inter> set (scope_part contract ''excluded'') = {}"
    "set (scope_part contract ''reference_only'') \<inter> set (scope_part contract ''excluded'') = {}"
    using ids overlap unfolding overlap_check_ok part by (simp_all add: scope_partitions_def numeral_2_eq_2)
qed

end
