(* ===== verification/Conformance.thy ===== *)
theory Conformance
  imports Requirements
begin

text \<open>
  \<^verbatim>\<open>comparison/conformance.py\<close>: the comparison of an approved and a candidate
  collection contract. Both must be valid projections; their scopes are compared up to the
  order of keys and arrays, their requirements one by one up to the order of keys.
\<close>

section \<open>Valid projections\<close>

text \<open>\<open>h_schema_error\<close> is the validator of the shared definition.\<close>

definition comparison_route :: "dict \<Rightarrow> json" where
  "comparison_route value = (case dget value ''route'' of
     Some r \<Rightarrow> r
   | None \<Rightarrow> JStr (if list_ex (\<lambda>r. is_dict r \<and> has_key (dict_of r) ''kind'')
         (list_of (get_or_null value ''requirements''))
       then ''combined'' else ''analytics''))"

definition validate_unversioned_comparison :: "host \<Rightarrow> json \<Rightarrow> unit res" where
  "validate_unversioned_comparison h value =
     (case value of
        JObj d \<Rightarrow>
          if has_key d ''scope'' \<and> has_key d ''requirements'' then
            (case (case h_schema_error h ''approvedProjection'' (JObj [(''scope'', get_or_null d ''scope''),
                  (''requirements'', get_or_null d ''requirements'')]) of
                Some m \<Rightarrow> Inl (contract_error m)
              | None \<Rightarrow> validate_scope_and_requirements d (comparison_route d)) of
               Inl e \<Rightarrow> Inl (if is_value_error e then contract_error (exn_message e) else e)
             | Inr ids \<Rightarrow> Inr ())
          else Inl (contract_error ''normalized comparison input needs explicit $.scope and $.requirements'')
      | _ \<Rightarrow> Inl (contract_error ''normalized comparison input needs explicit $.scope and $.requirements''))"

section \<open>Canonical form\<close>

text \<open>The sort key of an array is its text with sorted keys.\<close>

definition array_key :: "json \<Rightarrow> string" where
  "array_key v = dumps False '', '' '': '' v"

function canonical :: "bool \<Rightarrow> json \<Rightarrow> json" where
  "canonical sort_lists v =
     (if is_dict v then JObj (map (\<lambda>k. (k, case map_of (dict_of v) k of None \<Rightarrow> JNull
         | Some w \<Rightarrow> canonical sort_lists w)) (sorted_set (keys (dict_of v))))
      else if is_list v then (let items = map (canonical sort_lists) (list_of v) in
         JArr (if sort_lists then sort_key array_key items else items))
      else v)"
  by pat_completeness auto
termination
  by (relation "measure (\<lambda>(b, v). size v)")
    (auto simp: is_dict_def is_list_def dict_of_def list_of_def split: json.splits
      dest!: map_of_SomeD intro: size_arr_item size_dict_entry_pair)

declare canonical.simps [simp del]

definition index_step :: "dict \<Rightarrow> json \<Rightarrow> dict res" where
  "index_step index row = bindE (required_field (dict_of row) ''id'') (\<lambda>k.
     (case k of
        JStr s \<Rightarrow> Inr (dset index s (canonical False row))
      | _ \<Rightarrow> Inl (OtherError ''not a text'')))"

definition requirement_index :: "dict \<Rightarrow> dict res" where
  "requirement_index contract =
     bindE (required_field contract ''requirements'') (\<lambda>rows. foldE index_step [] (list_of rows))"

section \<open>The comparison\<close>

record conformance =
  cf_expected :: nat
  cf_actual :: nat
  cf_missing :: "string list"
  cf_extra :: "string list"
  cf_scope :: "difference list"
  cf_requirements :: "(string \<times> difference list) list"
  cf_pass :: bool

definition conformance_report :: "json \<Rightarrow> json \<Rightarrow> dict \<Rightarrow> dict \<Rightarrow> conformance" where
  "conformance_report approved_scope candidate_scope approved candidate =
     (let missing = sort (filter (\<lambda>k. \<not> has_key candidate k) (keys approved));
          extra = sort (filter (\<lambda>k. \<not> has_key approved k) (keys candidate));
          scope = differences (canonical True approved_scope) (canonical True candidate_scope) ''$.scope'';
          found = filter (\<lambda>kd. snd kd \<noteq> []) (map (\<lambda>k. (k, differences (get_or_null approved k)
              (get_or_null candidate k) (''$.requirements['' @ py_repr k @ '']'')))
            (sort (filter (has_key candidate) (keys approved)))) in
      \<lparr>cf_expected = length approved, cf_actual = length candidate, cf_missing = missing,
       cf_extra = extra, cf_scope = scope, cf_requirements = found,
       cf_pass = (missing = [] \<and> extra = [] \<and> scope = [] \<and> found = [])\<rparr>)"

definition compare_contracts :: "host \<Rightarrow> json \<Rightarrow> json \<Rightarrow> conformance res" where
  "compare_contracts h approved candidate =
     bindE (validate_unversioned_comparison h approved) (\<lambda>_.
     bindE (validate_unversioned_comparison h candidate) (\<lambda>_.
     bindE (requirement_index (dict_of approved)) (\<lambda>a.
     bindE (requirement_index (dict_of candidate)) (\<lambda>c.
       Inr (conformance_report (get_or_null (dict_of approved) ''scope'')
         (get_or_null (dict_of candidate) ''scope'') a c)))))"

section \<open>The canonical form keeps the value\<close>

lemma canonical_arr: "canonical False (JArr xs) = JArr (map (canonical False) xs)"
  by (subst canonical.simps) (simp add: is_dict_def is_list_def list_of_def Let_def)

lemma canonical_scalar: "\<not> is_dict v \<Longrightarrow> \<not> is_list v \<Longrightarrow> canonical b v = v"
  by (subst canonical.simps) simp

lemma canonical_obj:
  "\<exists>d'. canonical b (JObj d) = JObj d' \<and> keys d' = sorted_set (keys d) \<and>
     (\<forall>k. map_of d' k = map_option (canonical b) (map_of d k))"
proof -
  let ?f = "\<lambda>k. case map_of d k of None \<Rightarrow> JNull | Some w \<Rightarrow> canonical b w"
  let ?d = "map (\<lambda>k. (k, ?f k)) (sorted_set (keys d))"
  have "canonical b (JObj d) = JObj ?d" by (subst canonical.simps) (simp add: is_dict_def dict_of_def)
  moreover have "keys ?d = sorted_set (keys d)" by (simp add: comp_def)
  moreover have "map_of ?d k = map_option (canonical b) (map_of d k)" for k
  proof (cases "k \<in> set (keys d)")
    case True
    then obtain v where v: "map_of d k = Some v" unfolding map_of_in_keys by blast
    then show ?thesis using True by (simp add: map_of_map_restrict restrict_map_def sorted_set_def)
  next
    case False
    then have "map_of d k = None" unfolding map_of_eq_None_iff by simp
    then show ?thesis using False by (simp add: map_of_map_restrict restrict_map_def sorted_set_def)
  qed
  ultimately show ?thesis by blast
qed

lemma canonical_arr_items:
  "\<exists>ys. canonical b (JArr xs) = JArr ys \<and> set ys = canonical b ` set xs"
  by (subst canonical.simps) (simp add: is_dict_def is_list_def list_of_def Let_def)

lemma canonical_wf: "wf_json v \<Longrightarrow> wf_json (canonical b v)"
proof (induction v rule: json_induct)
  case (Arr xs)
  obtain ys where ys: "canonical b (JArr xs) = JArr ys" "set ys = canonical b ` set xs"
    using canonical_arr_items by blast
  show ?case unfolding ys(1) using Arr ys(2) by (auto simp: list_all_iff)
next
  case (Obj d)
  obtain d' where d': "canonical b (JObj d) = JObj d'" "keys d' = sorted_set (keys d)"
    "\<And>k. map_of d' k = map_option (canonical b) (map_of d k)" using canonical_obj [of b d] by blast
  have dist: "distinct (keys d')" unfolding d'(2) by (simp add: sorted_set_def)
  have "wf_json w" if "(k, w) \<in> set d'" for k w
  proof -
    have "map_of d' k = Some w" using dist that by simp
    then obtain v where v: "map_of d k = Some v" "w = canonical b v" by (auto simp: d'(3))
    then show ?thesis using Obj.IH [OF map_of_SomeD [OF v(1)] wf_dict_value [OF Obj.prems v(1)]] by simp
  qed
  then show ?case using dist unfolding d'(1) by (auto simp: list_all_iff)
qed (simp_all add: canonical_scalar is_dict_def is_list_def)

lemma canonical_same_left: "wf_json v \<Longrightarrow> json_same (canonical False v) w \<longleftrightarrow> json_same v w"
proof (induction v arbitrary: w rule: json_induct)
  case (Arr xs)
  show ?case
  proof (cases w)
    case (JArr ys)
    have "json_same (canonical False x) y \<longleftrightarrow> json_same x y" if "x \<in> set xs" for x y
      using Arr.IH [OF that wf_arr_item [OF Arr.prems that]] .
    then show ?thesis
      unfolding JArr canonical_arr json_same_arr list_all2_map1 by (auto intro: list.rel_mono_strong)
  qed (simp_all add: canonical_arr)
next
  case (Obj d)
  obtain d' where d': "canonical False (JObj d) = JObj d'" "keys d' = sorted_set (keys d)"
    "\<And>k. map_of d' k = map_option (canonical False) (map_of d k)" using canonical_obj [of False d] by blast
  have wf': "wf_json (JObj d')" using canonical_wf [OF Obj.prems, of False] d'(1) by simp
  have ks: "set (keys d') = set (keys d)" unfolding d'(2) by (simp add: sorted_set_def)
  show ?case
  proof (cases w)
    case (JObj e)
    have "json_same (canonical False x) y \<longleftrightarrow> json_same x y" if "map_of d k = Some x" for k x y
      using Obj.IH [OF map_of_SomeD [OF that] wf_dict_value [OF Obj.prems that]] .
    then show ?thesis
      unfolding d'(1) JObj json_same_obj [OF wf'] json_same_obj [OF Obj.prems] ks d'(3) map_option_eq_Some by blast
  qed (simp_all add: d'(1))
qed (simp_all add: canonical_scalar is_dict_def is_list_def)

lemma canonical_same:
  assumes "wf_json v" and "wf_json w"
  shows "json_same (canonical False v) (canonical False w) \<longleftrightarrow> json_same v w"
  using canonical_same_left [OF assms(1), of "canonical False w"] canonical_same_left [OF assms(2), of v]
    json_same_sym [of v "canonical False w"] json_same_sym [of "canonical False w" v] json_same_sym [of w v]
    json_same_sym [of v w] canonical_wf [OF assms(2), of False] assms by blast

section \<open>What the comparison decides\<close>

definition requirement_rows :: "json \<Rightarrow> json list" where
  "requirement_rows value = list_of (get_or_null (dict_of value) ''requirements'')"

definition row_id :: "json \<Rightarrow> string" where
  "row_id row = text_of (get_or_null (dict_of row) ''id'')"

lemma validate_requirement_id:
  assumes "validate_requirement i route row = Inr k"
  shows "is_dict row" and "k = strip (row_id row)" and "dget (dict_of row) ''id'' = Some (JStr (row_id row))"
proof -
  obtain d where d: "row = JObj d" and k: "check_text contract_error (get_or_null d ''id'')
      (index_path ''$.requirements'' i @ ''.id'') = Inr k"
    using assms by (auto simp: validate_requirement_def Let_def bindE_Inr_iff check_object_def split: json.splits)
  then obtain s where s: "get_or_null d ''id'' = JStr s" "k = strip s"
    by (auto simp: check_text_def split: json.splits if_splits)
  then have "dget d ''id'' = Some (JStr s)" by (auto simp: get_or_null_def split: option.splits)
  then show "is_dict row" "k = strip (row_id row)" "dget (dict_of row) ''id'' = Some (JStr (row_id row))"
    using s by (simp_all add: d is_dict_def row_id_def dict_of_def text_of_def)
qed

lemma validated_rows:
  assumes "validate_unversioned_comparison h value = Inr ()"
  shows "distinct (map row_id (requirement_rows value))"
    and "\<forall>row \<in> set (requirement_rows value). is_dict row \<and> dget (dict_of row) ''id'' = Some (JStr (row_id row))"
    and "dget (dict_of value) ''requirements'' \<noteq> None"
proof -
  obtain d ids where d: "value = JObj d" and ids: "validate_scope_and_requirements d (comparison_route d) = Inr ids"
    and key: "has_key d ''requirements''"
    using assms by (auto simp: validate_unversioned_comparison_def split: json.splits if_splits sum.splits option.splits)
  obtain r where rows: "list_all2 (\<lambda>(i, x) k. validate_requirement i r x = Inr k)
      (enumerate 0 (requirement_rows value)) ids"
    using validate_scope_facts(6) [OF ids] by (auto simp: requirement_rows_def d dict_of_def)
  have "ids = map (\<lambda>x. strip (row_id x)) xs \<and>
      (\<forall>row \<in> set xs. is_dict row \<and> dget (dict_of row) ''id'' = Some (JStr (row_id row)))"
    if "list_all2 (\<lambda>(i, x) k. validate_requirement i r x = Inr k) (enumerate n xs) ids" for n xs ids
    using that
    by (induction xs arbitrary: n ids) (auto simp: list_all2_Cons1 dest: validate_requirement_id)
  from this [OF rows] have facts: "ids = map (\<lambda>x. strip (row_id x)) (requirement_rows value)"
      "\<forall>row \<in> set (requirement_rows value). is_dict row \<and> dget (dict_of row) ''id'' = Some (JStr (row_id row))" by blast+
  have "map strip (map row_id (requirement_rows value)) = ids" by (simp add: facts(1))
  then show "distinct (map row_id (requirement_rows value))"
    using validate_scope_facts(1) [OF ids] by (metis distinct_map)
  show "\<forall>row \<in> set (requirement_rows value). is_dict row \<and> dget (dict_of row) ''id'' = Some (JStr (row_id row))"
    by (rule facts(2))
  show "dget (dict_of value) ''requirements'' \<noteq> None" using key by (simp add: d dict_of_def has_key_def dget_def)
qed

lemma dset_new: "k \<notin> set (keys d) \<Longrightarrow> dset d k v = d @ [(k, v)]"
  unfolding dset_def by (induction d) auto

lemma index_fold:
  assumes "distinct (map row_id rows)" and "set (map row_id rows) \<inter> set (keys acc) = {}"
    and "\<forall>row \<in> set rows. dget (dict_of row) ''id'' = Some (JStr (row_id row))"
  shows "foldE index_step acc rows = Inr (acc @ map (\<lambda>row. (row_id row, canonical False row)) rows)"
  using assms
proof (induction rows arbitrary: acc)
  case (Cons row rows)
  have "row_id row \<notin> set (keys acc)" using Cons.prems(2) by auto
  then have step: "index_step acc row = Inr (acc @ [(row_id row, canonical False row)])"
    using Cons.prems(3) by (simp add: index_step_def required_field_def dset_new)
  show ?case using Cons.prems Cons.IH [of "acc @ [(row_id row, canonical False row)]"] by (simp add: step)
qed simp

lemma requirement_index_rows:
  assumes "validate_unversioned_comparison h value = Inr ()"
  shows "requirement_index (dict_of value) =
    Inr (map (\<lambda>row. (row_id row, canonical False row)) (requirement_rows value))"
proof -
  obtain rows where rows: "dget (dict_of value) ''requirements'' = Some rows"
    using validated_rows(3) [OF assms] by blast
  then have "list_of rows = requirement_rows value" by (simp add: requirement_rows_def get_or_null_def)
  then show ?thesis
    using index_fold [of "requirement_rows value" "[]"] validated_rows(1,2) [OF assms]
    by (simp add: requirement_index_def required_field_def rows)
qed

lemma indexed_rows:
  assumes "distinct (map row_id rows)"
  shows "keys (map (\<lambda>row. (row_id row, canonical False row)) rows) = map row_id rows"
    and "row \<in> set rows \<Longrightarrow>
      get_or_null (map (\<lambda>row. (row_id row, canonical False row)) rows) (row_id row) = canonical False row"
proof -
  show keys: "keys (map (\<lambda>row. (row_id row, canonical False row)) rows) = map row_id rows" by (simp add: comp_def)
  show "get_or_null (map (\<lambda>row. (row_id row, canonical False row)) rows) (row_id row) = canonical False row"
    if "row \<in> set rows"
  proof -
    have "distinct (keys (map (\<lambda>row. (row_id row, canonical False row)) rows))" using assms by (simp add: comp_def)
    moreover have "(row_id row, canonical False row) \<in> set (map (\<lambda>row. (row_id row, canonical False row)) rows)"
      using that by auto
    ultimately have "map_of (map (\<lambda>row. (row_id row, canonical False row)) rows) (row_id row) = Some (canonical False row)"
      by (rule map_of_is_SomeI)
    then show ?thesis by (simp add: get_or_null_def dget_def)
  qed
qed

lemma has_key_iff: "has_key d k \<longleftrightarrow> k \<in> set (keys d)"
proof -
  have "has_key d k \<longleftrightarrow> map_of d k \<noteq> None" by (auto simp: has_key_def dget_def)
  then show ?thesis by (simp add: map_of_eq_None_iff)
qed

lemma report_passes:
  "cf_pass (conformance_report s t a c) \<longleftrightarrow>
     set (keys a) = set (keys c) \<and> differences (canonical True s) (canonical True t) ''$.scope'' = [] \<and>
     (\<forall>k \<in> set (keys a) \<inter> set (keys c).
        differences (get_or_null a k) (get_or_null c k) (''$.requirements['' @ py_repr k @ '']'') = [])"
proof -
  have ids: "sort (filter (\<lambda>k. \<not> has_key c k) (keys a)) = [] \<and> sort (filter (\<lambda>k. \<not> has_key a k) (keys c)) = []
      \<longleftrightarrow> set (keys a) = set (keys c)"
    unfolding sort_Nil_iff filter_empty_conv has_key_iff by blast
  have found: "filter (\<lambda>kd. snd kd \<noteq> []) (map (\<lambda>k. (k, f k)) (sort (filter (has_key c) (keys a)))) = []
      \<longleftrightarrow> (\<forall>k \<in> set (keys a) \<inter> set (keys c). f k = [])" for f :: "string \<Rightarrow> difference list"
    unfolding filter_empty_conv set_map set_sort set_filter has_key_iff by (simp add: Ball_def image_iff)
  show ?thesis unfolding conformance_report_def Let_def conformance.select_convs found using ids by argo
qed

lemma field_wf: "wf_json v \<Longrightarrow> wf_json (get_or_null (dict_of v) k)"
proof (cases v)
  case (JObj d)
  then show "wf_json v \<Longrightarrow> wf_json (get_or_null (dict_of v) k)"
    using wf_dict_value [of d k] by (simp add: dict_of_def get_or_null_def dget_def split: option.splits)
qed (simp_all add: dict_of_def get_or_null_def dget_def)

lemma requirement_row_wf: "wf_json v \<Longrightarrow> row \<in> set (requirement_rows v) \<Longrightarrow> wf_json row"
  using field_wf [of v "''requirements''"] unfolding requirement_rows_def
  by (cases "get_or_null (dict_of v) ''requirements''") (auto simp: list_of_def list_all_iff)

text \<open>The contracts that agree, without the machinery of the report.\<close>

definition contracts_agree :: "json \<Rightarrow> json \<Rightarrow> bool" where
  "contracts_agree approved candidate \<longleftrightarrow>
     json_same (canonical True (get_or_null (dict_of approved) ''scope''))
       (canonical True (get_or_null (dict_of candidate) ''scope'')) \<and>
     row_id ` set (requirement_rows approved) = row_id ` set (requirement_rows candidate) \<and>
     (\<forall>x \<in> set (requirement_rows approved). \<forall>y \<in> set (requirement_rows candidate).
        row_id x = row_id y \<longrightarrow> json_same x y)"

lemma compared_rows:
  assumes wf: "wf_json approved" "wf_json candidate"
    and A: "distinct (map row_id (requirement_rows approved))"
    and C: "distinct (map row_id (requirement_rows candidate))"
  shows "(\<forall>k \<in> row_id ` set (requirement_rows approved) \<inter> row_id ` set (requirement_rows candidate).
      differences (get_or_null (map (\<lambda>row. (row_id row, canonical False row)) (requirement_rows approved)) k)
        (get_or_null (map (\<lambda>row. (row_id row, canonical False row)) (requirement_rows candidate)) k)
        (''$.requirements['' @ py_repr k @ '']'') = []) \<longleftrightarrow>
    (\<forall>x \<in> set (requirement_rows approved). \<forall>y \<in> set (requirement_rows candidate).
      row_id x = row_id y \<longrightarrow> json_same x y)" (is "?l = ?r")
proof -
  let ?A = "requirement_rows approved" and ?C = "requirement_rows candidate"
  let ?i = "map (\<lambda>row. (row_id row, canonical False row))"
  let ?d = "\<lambda>k. differences (get_or_null (?i ?A) k) (get_or_null (?i ?C) k) (''$.requirements['' @ py_repr k @ '']'')"
  have rows: "?d (row_id x) = [] \<longleftrightarrow> json_same x y"
    if xy: "x \<in> set ?A" "y \<in> set ?C" and eq: "row_id x = row_id y" for x y
  proof -
    have x: "get_or_null (?i ?A) (row_id x) = canonical False x" by (rule indexed_rows(2) [OF A xy(1)])
    have y: "get_or_null (?i ?C) (row_id x) = canonical False y" unfolding eq by (rule indexed_rows(2) [OF C xy(2)])
    note wfs = requirement_row_wf [OF wf(1) xy(1)] requirement_row_wf [OF wf(2) xy(2)]
    show ?thesis unfolding x y differences_empty_iff_aux [OF canonical_wf [OF wfs(1)]] by (rule canonical_same [OF wfs])
  qed
  show ?thesis
  proof
    assume l: ?l
    show ?r
    proof (intro ballI impI)
      fix x y assume xy: "x \<in> set ?A" "y \<in> set ?C" "row_id x = row_id y"
      then have "row_id x \<in> row_id ` set ?A \<inter> row_id ` set ?C" by (metis IntI imageI)
      then have "?d (row_id x) = []" by (rule bspec [OF l])
      then show "json_same x y" by (rule rows [OF xy, THEN iffD1])
    qed
  next
    assume r: ?r
    show ?l
    proof
      fix k assume "k \<in> row_id ` set ?A \<inter> row_id ` set ?C"
      then obtain x y where xy: "x \<in> set ?A" "y \<in> set ?C" "k = row_id x" "row_id x = row_id y" by blast
      have "json_same x y" using r xy by blast
      then show "?d k = []" unfolding xy(3) by (rule rows [OF xy(1,2,4), THEN iffD2])
    qed
  qed
qed

lemma compare_contracts_decides:
  assumes run: "compare_contracts h approved candidate = Inr r"
    and wf: "wf_json approved" "wf_json candidate"
  shows "cf_pass r \<longleftrightarrow> contracts_agree approved candidate"
proof -
  let ?A = "requirement_rows approved" and ?C = "requirement_rows candidate"
  let ?i = "map (\<lambda>row. (row_id row, canonical False row))"
  have valid: "validate_unversioned_comparison h approved = Inr ()" "validate_unversioned_comparison h candidate = Inr ()"
    using run by (auto simp: compare_contracts_def bindE_Inr_iff)
  note A = validated_rows(1) [OF valid(1)] and C = validated_rows(1) [OF valid(2)]
  have r: "r = conformance_report (get_or_null (dict_of approved) ''scope'')
      (get_or_null (dict_of candidate) ''scope'') (?i ?A) (?i ?C)"
    using run unfolding compare_contracts_def valid requirement_index_rows [OF valid(1)]
      requirement_index_rows [OF valid(2)] by simp
  show ?thesis
    unfolding r report_passes contracts_agree_def indexed_rows(1) [OF A] indexed_rows(1) [OF C] set_map
      differences_empty_iff_aux [OF canonical_wf [OF field_wf [OF wf(1)]]] compared_rows [OF wf A C] by argo
qed

end
