(* ===== verification/ContractModel.thy ===== *)
theory ContractModel
  imports Requirements Actions
begin

text \<open>
  The configuration contract (\<^verbatim>\<open>contract.py\<close>,
  \<^verbatim>\<open>configuration-contract.schema.json\<close>): its records, its JSON form and the
  functions it is validated with. As for the run document, a field whose type the schema fixes
  has that type here; sections the modelled code only copies are JSON values.
\<close>

section \<open>Records\<close>

record contract_object =
  co_target :: string
  co_family :: string
  co_name :: string
  co_key :: string
  co_action :: action
  co_requirements :: "string list"
  co_depends :: "string list"
  co_justification :: string
  co_evidence :: "string list"
  co_risk :: string
  co_intended :: "json option"
  co_pre_change :: "json option"
  co_object_id :: "string option"
  co_new_name :: "string option"
  co_approval :: "json option"
  co_replacement_reason :: "string option"
  co_permission_delta :: "json option"
  co_public_identifiers :: "json option"
  co_assertions :: "json option"

record contract =
  ct_schema_version :: string
  ct_mode :: run_mode
  ct_route :: string
  ct_scope :: json
  ct_requirements :: "json list"
  ct_targets :: "json list"
  ct_pipelines :: "json list"
  ct_consent_policies :: "json list"
  ct_dedup :: "json list"
  ct_tag_policies :: "json list"
  ct_page_views :: "json list"
  ct_first_party :: "json list"
  ct_dispositions :: "json list"
  ct_execution_mode :: execution_mode
  ct_objects :: "contract_object list"
  ct_bindings :: "json list option"
  ct_evidence :: "json list"
  ct_external :: "json list"

text \<open>
  What validation takes from outside: the date of today and the reader of an ISO date, as day
  numbers; whether the bracketed host of a URL is a valid address; and the domain rules of
  servers, pipelines and web containers.
\<close>

record contract_rules =
  cr_today :: int
  cr_date :: "string \<Rightarrow> int option"
  cr_bracketed :: "string \<Rightarrow> bool"
  cr_domain :: "string \<Rightarrow> contract \<Rightarrow> json list \<Rightarrow> unit res"

section \<open>JSON form\<close>

definition object_dict :: "contract_object \<Rightarrow> dict" where
  "object_dict c =
     [(''target_id'', JStr (co_target c)), (''resource_family'', JStr (co_family c)),
      (''name'', JStr (co_name c)), (''object_key'', JStr (co_key c)),
      (''action'', JStr (action_name (co_action c))), (''requirement_ids'', texts (co_requirements c)),
      (''depends_on'', texts (co_depends c)), (''justification'', JStr (co_justification c)),
      (''evidence'', texts (co_evidence c)), (''risk'', JStr (co_risk c))] @
     optional ''intended'' (co_intended c) @ optional ''pre_change'' (co_pre_change c) @
     optional ''object_id'' (map_option JStr (co_object_id c)) @
     optional ''new_name'' (map_option JStr (co_new_name c)) @ optional ''approval'' (co_approval c) @
     optional ''replacement_reason'' (map_option JStr (co_replacement_reason c)) @
     optional ''permission_delta'' (co_permission_delta c) @
     optional ''public_identifiers'' (co_public_identifiers c) @
     optional ''assertions'' (co_assertions c)"

definition object_json :: "contract_object \<Rightarrow> json" where
  "object_json c = JObj (object_dict c)"

definition contract_dict :: "contract \<Rightarrow> dict" where
  "contract_dict c =
     [(''schema_version'', JStr (ct_schema_version c)), (''mode'', JStr (mode_name (ct_mode c))),
      (''route'', JStr (ct_route c)), (''scope'', ct_scope c), (''requirements'', JArr (ct_requirements c)),
      (''targets'', JArr (ct_targets c)), (''pipelines'', JArr (ct_pipelines c)),
      (''consent_policies'', JArr (ct_consent_policies c)), (''dedup_contracts'', JArr (ct_dedup c)),
      (''tag_policies'', JArr (ct_tag_policies c)), (''page_view_decisions'', JArr (ct_page_views c)),
      (''first_party_data_routes'', JArr (ct_first_party c)),
      (''inventory_dispositions'', JArr (ct_dispositions c)),
      (''implementation'', JObj ([(''execution_mode'', JStr (execution_mode_name (ct_execution_mode c))),
         (''objects'', JArr (map object_json (ct_objects c)))] @
         optional ''field_bindings'' (map_option JArr (ct_bindings c)))),
      (''evidence'', JArr (ct_evidence c)), (''external_dependencies'', JArr (ct_external c))]"

definition contract_json :: "contract \<Rightarrow> json" where
  "contract_json c = JObj (contract_dict c)"

section \<open>Objects as operations\<close>

text \<open>
  The action rules are shared with the run: they read the fields an object and an operation have
  in common. The fields only an operation has are not read by them.
\<close>

definition object_operation :: "contract_object \<Rightarrow> operation" where
  "object_operation c = \<lparr>op_id = co_key c, op_target = co_target c, op_container = Web,
     op_family = co_family c, op_name = co_name c, op_key = co_key c, op_action = co_action c,
     op_requirements = co_requirements c, op_dependencies = co_depends c,
     op_justification = co_justification c, op_evidence = co_evidence c, op_risk = co_risk c,
     op_intended = co_intended c, op_pre_change = co_pre_change c, op_object_id = co_object_id c,
     op_new_name = co_new_name c, op_approval = co_approval c,
     op_replacement_reason = co_replacement_reason c, op_permission_delta = co_permission_delta c,
     op_public_identifiers = co_public_identifiers c, op_assertions = co_assertions c,
     op_state = Planned, op_journal = [], op_comparison = None, op_saved_readback = None,
     op_pre_write_readback = None, op_pre_write_comparison = None\<rparr>"

text \<open>The \<^verbatim>\<open>fail\<close> of a contract raises another exception than that of a run.\<close>

definition contract_failure :: "'a res \<Rightarrow> 'a res" where
  "contract_failure r = (case r of
     Inl (RunValidationError m _) \<Rightarrow> Inl (contract_error m) | _ \<Rightarrow> r)"

lemma contract_failure_Inr [simp]: "contract_failure r = Inr a \<longleftrightarrow> r = Inr a"
  by (simp add: contract_failure_def split: sum.splits exn.splits)

text \<open>\<^verbatim>\<open>item["key"]\<close> of a JSON object, read as text.\<close>

definition text_at :: "json \<Rightarrow> string \<Rightarrow> string res" where
  "text_at v k = bindE (required_field (dict_of v) k) (\<lambda>x.
     (case x of JStr s \<Rightarrow> Inr s | _ \<Rightarrow> Inl (OtherError ''not a text'')))"

lemma text_at_Inr: "text_at v k = Inr s \<longleftrightarrow> dget (dict_of v) k = Some (JStr s)"
  by (auto simp: text_at_def required_field_def bindE_Inr_iff split: option.splits json.splits)

end
