(* ===== verification/ContractObjects.thy ===== *)
theory ContractObjects
  imports ContractModel Graph
begin

text \<open>
  \<^verbatim>\<open>contract.py\<close>: the objects of a contract, their dependency graph and the
  evidence a contract rests on.
\<close>

section \<open>Objects\<close>

definition high_impact_families :: "string list" where
  "high_impact_families = [''client'', ''container setting'', ''destination'', ''environment'',
     ''google tag configuration'', ''template'', ''transformation'', ''zone'']"

definition high_impact_action :: "action \<Rightarrow> bool" where
  "high_impact_action a \<longleftrightarrow> a \<in> {Replace, Pause, Unpause, Remove}"

definition single_destination :: "contract_object \<Rightarrow> bool" where
  "single_destination c = (case co_assertions c of
     None \<Rightarrow> False
   | Some a \<Rightarrow> get_or_null (dict_of (get_or_null (dict_of a) ''transformation'')) ''scope'' =
       JStr ''single-destination'')"

definition object_is_high_impact :: "contract_object \<Rightarrow> bool" where
  "object_is_high_impact c =
     (if high_impact_action (co_action c) then True
      else if co_family c \<notin> set high_impact_families then False
      else if co_family c = ''client'' \<and> co_action c = Reuse then False
      else if co_family c = ''transformation'' \<and> single_destination c then False
      else mutating_action (co_action c))"

type_synonym contract_targets = "(string \<times> dict) list"

text \<open>The container type a validated target names.\<close>

definition stated_container :: "dict \<Rightarrow> container res" where
  "stated_container target = (case get_or_null target ''container_type'' of
     JStr s \<Rightarrow> if s = ''web'' then Inr Web else if s = ''server'' then Inr Server
       else Inl (ResourceRegistryError (''unsupported container_type '' @ py_repr s))
   | _ \<Rightarrow> Inl (OtherError ''container_type''))"

definition object_family :: "string \<Rightarrow> dict \<Rightarrow> string \<Rightarrow> string res" where
  "object_family path target family =
     (case bindE (stated_container target) (\<lambda>c. validate_target_family c family) of
        Inl (ResourceRegistryError m) \<Rightarrow> Inl (contract_error (path @ '': '' @ m))
      | r \<Rightarrow> r)"

text \<open>The requirements by identifier, the last of a kind.\<close>

definition requirement_by_id :: "json list \<Rightarrow> (string \<times> json) list res" where
  "requirement_by_id rows = mapE (\<lambda>row. bindE (text_at row ''id'') (\<lambda>k. Inr (k, row))) rows"

definition authority_locator :: "(string \<times> json) list \<Rightarrow> string \<Rightarrow> string res" where
  "authority_locator reqs k = (case map_of (rev reqs) k of
     None \<Rightarrow> Inl (KeyError k)
   | Some row \<Rightarrow> bindE (required_field (dict_of row) ''authority'') (\<lambda>a. text_at a ''locator''))"

definition texts_check :: "string list \<Rightarrow> string \<Rightarrow> string list res" where
  "texts_check xs path = check_unique_texts contract_error (texts xs) path"

definition mutation_authority :: "contract_object \<Rightarrow> string \<Rightarrow> string list \<Rightarrow> string list \<Rightarrow> unit res" where
  "mutation_authority c path links evidence = seqE
     [whenE (mutating_action (co_action c)) (seqE
        [failE (links = [])
           (contract_error (path @ ''.requirement_ids must bind every mutation to approved scope'')),
         failE (''approved-input'' \<notin> set evidence)
           (contract_error (path @ ''.evidence needs '' @ py_repr ''approved-input'' @ '' mutation authority''))]),
      failE ((co_action c \<in> {Reuse, Untouched} \<or> delta_action (co_action c)) \<and> ''container-confirmed'' \<notin> set evidence)
        (contract_error (path @ ''.evidence needs '' @ py_repr ''container-confirmed''))]"

text \<open>An object field that must be a non-empty object.\<close>

definition filled_object :: "json option \<Rightarrow> string \<Rightarrow> unit res" where
  "filled_object v path = bindE (check_object contract_error (nullable v) path) (\<lambda>d.
     failE (d = []) (contract_error (path @ '' must not be empty'')))"

definition snapshot_checks :: "contract_object \<Rightarrow> string \<Rightarrow> unit res" where
  "snapshot_checks c path = seqE
     [whenE (delta_action (co_action c)) (filled_object (co_pre_change c) (path @ ''.pre_change'')),
      whenE (co_action c \<in> {Create, Update, Replace}) (filled_object (co_intended c) (path @ ''.intended'')),
      failE (object_is_high_impact c \<and> co_risk c \<noteq> ''high-impact'')
        (contract_error (path @ ''.risk must be '' @ py_repr ''high-impact''))]"

text \<open>The identity of an object: a known target, a family of its container in normal form, and a
  new key made of target, family and name.\<close>

definition object_identity ::
  "contract_targets \<Rightarrow> string list \<Rightarrow> string \<Rightarrow> contract_object \<Rightarrow> (string \<times> contract_object) res" where
  "object_identity targets seen path raw =
     bindE (check_text contract_error (JStr (co_target raw)) (path @ ''.target_id'')) (\<lambda>target_id.
     (case map_of targets target_id of
        None \<Rightarrow> Inl (contract_error (path @ ''.target_id references an unknown target''))
      | Some target \<Rightarrow>
     bindE (check_text contract_error (JStr (co_family raw)) (path @ ''.resource_family'')) (\<lambda>stated.
     bindE (object_family path target stated) (\<lambda>family.
     bindE (failE (co_action raw \<in> {Pause, Unpause} \<and> family \<noteq> ''tag'')
       (contract_error (path @ ''.'' @ action_name (co_action raw) @ '' is supported only for tags''))) (\<lambda>_.
     bindE (check_text contract_error (JStr (co_name raw)) (path @ ''.name'')) (\<lambda>name.
     bindE (semantic_object_key target_id family name) (\<lambda>key.
     bindE (failE (key \<in> set seen)
       (contract_error (''duplicate object identity '' @ py_repr key))) (\<lambda>_.
     bindE (check_text contract_error (JStr (co_key raw)) (path @ ''.object_key'')) (\<lambda>alias.
     bindE (failE (alias \<noteq> key)
       (contract_error (path @ ''.object_key must equal '' @ py_repr key))) (\<lambda>_.
     bindE (check_text contract_error (JStr (co_justification raw)) (path @ ''.justification'')) (\<lambda>_.
       Inr (key, raw\<lparr>co_family := family\<rparr>))))))))))))"

text \<open>Its authority: the requirements it serves, whose locators it returns, and its evidence.\<close>

definition object_authority ::
  "(string \<times> json) list \<Rightarrow> string \<Rightarrow> contract_object \<Rightarrow> string list res" where
  "object_authority reqs path c =
     bindE (texts_check (co_requirements c) (path @ ''.requirement_ids'')) (\<lambda>links.
     (let unknown = sort (filter (\<lambda>k. k \<notin> set (keys reqs)) links) in
     bindE (failE (unknown \<noteq> []) (contract_error (path @ ''.requirement_ids contains unknown IDs: '' @
       join '', '' unknown))) (\<lambda>_.
     bindE (texts_check (co_evidence c) (path @ ''.evidence'')) (\<lambda>evidence.
     bindE (failE (evidence = []) (contract_error (path @ ''.evidence must not be empty''))) (\<lambda>_.
     bindE (failE (\<not> set evidence \<subseteq> set evidence_grades)
       (contract_error (path @ ''.evidence contains an unsupported grade''))) (\<lambda>_.
     bindE (mutation_authority c path links evidence) (\<lambda>_.
     bindE (snapshot_checks c path) (\<lambda>_.
       mapE (authority_locator reqs) links))))))))"

definition object_step ::
  "host \<Rightarrow> contract_targets \<Rightarrow> (string \<times> json) list \<Rightarrow> (string \<times> contract_object) list \<Rightarrow>
   nat \<times> contract_object \<Rightarrow> (string \<times> contract_object) list res" where
  "object_step h targets reqs seen item =
     (let path = index_path ''$.implementation.objects'' (fst item) in
     bindE (object_identity targets (keys seen) path (snd item)) (\<lambda>(key, c).
     bindE (object_authority reqs path c) (\<lambda>locators.
     bindE (contract_failure (validate_action_contract h (object_operation c) path locators)) (\<lambda>_.
       Inr (seen @ [(key, c)])))))"

section \<open>Dependencies\<close>

definition dependency_check :: "(string \<times> contract_object) list \<Rightarrow> string \<times> contract_object \<Rightarrow> unit res" where
  "dependency_check objects ko =
     bindE (texts_check (co_depends (snd ko))
       (''$.implementation.objects['' @ py_repr (fst ko) @ ''].depends_on'')) (\<lambda>deps.
     forE deps (\<lambda>d. seqE
       [failE (d \<notin> set (keys objects))
          (contract_error (''object '' @ py_repr (fst ko) @ '' depends on unknown object '' @ py_repr d)),
        failE (d = fst ko) (contract_error (''object '' @ py_repr (fst ko) @ '' cannot depend on itself''))]))"

text \<open>
  The nodes that leave the loop of \<open>_reject_cycles\<close>: the newest ready node is popped
  and its dependents are released. A dependency that is not a key is never ready; the dependents
  of a node are counted once for each time they name it. One unit of fuel per node.
\<close>

definition dissolved :: "graph \<Rightarrow> string list" where
  "dissolved g = kahn (length g) Lifo g (filter (\<lambda>k. initial_count g k = 0) (keys g)) (initial_count g)"

definition reject_cycles :: "graph \<Rightarrow> string \<Rightarrow> unit res" where
  "reject_cycles g label = failE (length (dissolved g) \<noteq> length g)
     (contract_error (label @ '' dependency graph contains a cycle''))"

definition object_graph :: "(string \<times> contract_object) list \<Rightarrow> graph" where
  "object_graph objects = map (\<lambda>(k, c). (k, co_depends c)) objects"

definition validate_objects ::
  "host \<Rightarrow> contract_targets \<Rightarrow> (string \<times> json) list \<Rightarrow> contract_object list \<Rightarrow>
   (string \<times> contract_object) list res" where
  "validate_objects h targets reqs items =
     bindE (foldE (object_step h targets reqs) [] (enumerate 0 items)) (\<lambda>objects.
     bindE (forE objects (dependency_check objects)) (\<lambda>_.
     bindE (reject_cycles (object_graph objects) ''objects'') (\<lambda>_. Inr objects)))"

section \<open>Evidence\<close>

text \<open>\<^verbatim>\<open>urlparse\<close>: the authority part, its user information and its host.\<close>

definition after_scheme :: "string \<Rightarrow> string" where
  "after_scheme url = (let text = url_text url in
     if url_scheme url \<noteq> [] then tl (dropWhile (\<lambda>c. c \<noteq> CHR '':'') text) else text)"

definition url_netloc :: "string \<Rightarrow> string" where
  "url_netloc url = (case after_scheme url of
     c # d # rest \<Rightarrow> if c = CHR ''/'' \<and> d = CHR ''/''
       then takeWhile (\<lambda>c. c \<notin> {CHR ''/'', CHR ''?'', CHR ''#''}) rest else []
   | _ \<Rightarrow> [])"

definition url_host :: "string \<Rightarrow> string" where
  "url_host netloc = (let info = rev (takeWhile (\<lambda>c. c \<noteq> CHR ''@'') (rev netloc)) in
     if CHR ''['' \<in> set info
     then takeWhile (\<lambda>c. c \<noteq> CHR '']'') (tl (dropWhile (\<lambda>c. c \<noteq> CHR ''['') info))
     else takeWhile (\<lambda>c. c \<noteq> CHR '':'') info)"

definition documentation_url :: "contract_rules \<Rightarrow> string \<Rightarrow> bool" where
  "documentation_url env locator =
     (let netloc = url_netloc locator in
      (CHR ''['' \<in> set netloc \<longleftrightarrow> CHR '']'' \<in> set netloc) \<and>
      (CHR ''['' \<in> set netloc \<longrightarrow> cr_bracketed env netloc) \<and>
      url_scheme locator = ''https'' \<and> url_host netloc \<noteq> [] \<and> CHR ''@'' \<notin> set netloc)"

definition max_evidence_age :: int where "max_evidence_age = 365"

definition access_date_checks :: "contract_rules \<Rightarrow> dict \<Rightarrow> string \<Rightarrow> unit res" where
  "access_date_checks env d path =
     bindE (case check_text contract_error (get_or_null d ''accessed_on'') (path @ ''.accessed_on'') of
         Inl e \<Rightarrow> Inl (contract_error (path @ ''.accessed_on must be an ISO date''))
       | Inr s \<Rightarrow> (case cr_date env s of
           None \<Rightarrow> Inl (contract_error (path @ ''.accessed_on must be an ISO date'')) | Some n \<Rightarrow> Inr n)) (\<lambda>day. seqE
     [failE (cr_today env - day < 0) (contract_error (path @ ''.accessed_on cannot be in the future'')),
      failE (max_evidence_age < cr_today env - day) (contract_error (path @
        ''.official-current evidence is older than 365 days''))])"

definition official_checks :: "contract_rules \<Rightarrow> string list \<Rightarrow> dict \<Rightarrow> string \<Rightarrow> string \<Rightarrow> string list res" where
  "official_checks env ids d locator path =
     bindE (forE [''title'', ''decision''] (\<lambda>f.
       bindE (check_text contract_error (get_or_null d f) (path @ ''.'' @ f)) (\<lambda>_. Inr ()))) (\<lambda>_.
     bindE (failE (\<not> documentation_url env locator)
       (contract_error (path @ ''.locator must be a credential-free HTTPS documentation URL''))) (\<lambda>_.
     bindE (access_date_checks env d path) (\<lambda>_.
     bindE (check_unique_texts contract_error (get_or_null d ''supports'') (path @ ''.supports'')) (\<lambda>supports.
     bindE (failE (supports = []) (contract_error (path @ ''.supports must not be empty''))) (\<lambda>_.
     bindE (failE (\<not> set supports \<subseteq> set ids)
       (contract_error (path @ ''.supports contains an unknown requirement''))) (\<lambda>_. Inr supports))))))"

text \<open>The grades seen and the requirements officially supported.\<close>

definition evidence_row_step ::
  "contract_rules \<Rightarrow> string list \<Rightarrow> string list \<times> string list \<Rightarrow> nat \<times> json \<Rightarrow>
   (string list \<times> string list) res" where
  "evidence_row_step env ids acc item =
     (let path = index_path ''$.evidence'' (fst item) in
     bindE (check_object contract_error (snd item) path) (\<lambda>d.
     bindE (check_text contract_error (get_or_null d ''grade'') (path @ ''.grade'')) (\<lambda>grade.
     bindE (failE (grade \<notin> set evidence_grades) (contract_error (path @ ''.grade is unsupported''))) (\<lambda>_.
     bindE (check_text contract_error (get_or_null d ''locator'') (path @ ''.locator'')) (\<lambda>locator.
     bindE (if grade = ''official-current'' then official_checks env ids d locator path else Inr []) (\<lambda>supports.
       Inr (fst acc @ [grade], snd acc @ supports)))))))"

definition validate_evidence ::
  "contract_rules \<Rightarrow> json list \<Rightarrow> string list \<Rightarrow> string list \<Rightarrow> unit res" where
  "validate_evidence env rows ids product =
     bindE (foldE (evidence_row_step env ids) ([], []) (enumerate 0 rows)) (\<lambda>(grades, supported). seqE
       [failE (''container-confirmed'' \<notin> set grades \<or> product \<noteq> [] \<and> ''official-current'' \<notin> set grades)
          (contract_error ''$.evidence needs official-current and container-confirmed records''),
        failE (\<not> set product \<subseteq> set supported)
          (contract_error (''official-current evidence must support every included requirement; missing='' @
            py_repr_json (texts (sorted_set (filter (\<lambda>k. k \<notin> set supported) product)))))])"

section \<open>The cycle check decides\<close>

text \<open>The invariant of the loop from any set of ready keys: what left it is closed under
  predecessors and lies among the keys.\<close>

definition loop_safe :: "graph \<Rightarrow> string list \<Rightarrow> string list \<Rightarrow> (string \<Rightarrow> nat) \<Rightarrow> bool" where
  "loop_safe g out ready cnt \<longleftrightarrow> distinct (out @ ready) \<and> set (out @ ready) \<subseteq> set (keys g) \<and>
     (\<forall>n. cnt n = pending g out n) \<and> (\<forall>n \<in> set (out @ ready). cnt n = 0) \<and> closed_order g out"

lemma loop_safe_step:
  assumes keys: "distinct (keys g)" and inv: "loop_safe g out ready cnt" and "ready \<noteq> []"
    and take: "take_ready q ready = (x, rest)" and rel: "release g x cnt = (new, cnt')"
  shows "loop_safe g (out @ [x]) (rest @ new) cnt'"
proof -
  note inv = inv [unfolded loop_safe_def]
  note ready = take_ready_set [OF assms(3) take]
  have x: "x \<notin> set out" "cnt x = 0" using inv ready by auto
  define k where "k = (\<lambda>n. count_list (preds g n) x)"
  have k: "count_list (successors g x) n = k n" for n by (simp add: k_def count_successors [OF keys])
  have le: "k n \<le> cnt n" for n using pending_snoc(2) [OF x(1), of g n] inv by (simp add: k_def)
  have rel: "released [] cnt (successors g x) new cnt'"
    using le k by (intro release_fold [OF rel [unfolded release_def]]) simp_all
  have cnt': "cnt' n = cnt n - k n" for n using rel by (simp add: released_def k)
  have succ: "n \<in> set (successors g x) \<longleftrightarrow> k n \<noteq> 0" for n by (metis count_list_0_iff k)
  have new: "n \<in> set new \<longleftrightarrow> k n \<noteq> 0 \<and> cnt n = k n" for n
    using rel succ by (simp add: released_def k)
  have "set new \<subseteq> set (keys g)"
  proof
    fix n assume "n \<in> set new"
    then have "n \<in> set (successors g x)" using new succ by blast
    then show "n \<in> set (keys g)" by (rule successors_in_keys)
  qed
  moreover have "set new \<inter> set (out @ ready) = {}" using new inv by fastforce
  moreover have "distinct new" using rel by (simp add: released_def)
  moreover have same: "set ((out @ [x]) @ rest) = set (out @ ready)" and "distinct ((out @ [x]) @ rest)"
    using ready inv by auto
  ultimately have "distinct ((out @ [x]) @ rest @ new)" and sub: "set (out @ ready) \<union> set new \<subseteq> set (keys g)"
    using inv by (metis append.assoc distinct_append inf_commute, blast)
  moreover have all: "set ((out @ [x]) @ rest @ new) = set (out @ ready) \<union> set new" using same by auto
  moreover have "closed_order g (out @ [x])"
    unfolding closed_order_snoc using inv x(2) by (auto simp: pending_def filter_empty_conv)
  moreover have "cnt' n = pending g (out @ [x]) n" for n
    using inv by (simp add: cnt' k_def pending_snoc(1) [OF x(1)])
  moreover have "cnt' n = 0" if "n \<in> set (out @ ready) \<union> set new" for n
    using that inv new [of n] unfolding cnt' by auto
  ultimately show ?thesis unfolding loop_safe_def all by blast
qed

lemma loop_safe_final:
  assumes "distinct (keys g)"
  shows "loop_safe g out ready cnt \<Longrightarrow> \<exists>ready' cnt'. loop_safe g (out @ kahn fuel q g ready cnt) ready' cnt'"
proof (induction fuel arbitrary: out ready cnt)
  case (Suc fuel)
  show ?case
  proof (cases "ready = []")
    case False
    obtain x rest where t: "take_ready q ready = (x, rest)" by (cases "take_ready q ready")
    obtain new cnt' where r: "release g x cnt = (new, cnt')" by (cases "release g x cnt")
    from Suc.IH [OF loop_safe_step [OF assms Suc.prems False t r]] show ?thesis by (simp add: False t r)
  qed (use Suc.prems in auto)
qed auto

lemma dissolved_safe:
  assumes "distinct (keys g)"
  shows "distinct (dissolved g)" and "set (dissolved g) \<subseteq> set (keys g)" and "closed_order g (dissolved g)"
proof -
  have "loop_safe g [] (filter (\<lambda>k. initial_count g k = 0) (keys g)) (initial_count g)"
    using assms by (auto simp: loop_safe_def initial_count_def pending_def closed_order_def)
  from loop_safe_final [OF assms this, of "length g" Lifo] show "distinct (dissolved g)"
    "set (dissolved g) \<subseteq> set (keys g)" "closed_order g (dissolved g)"
    by (auto simp: loop_safe_def dissolved_def)
qed

lemma closed_order_acyclic:
  assumes "distinct out" and "closed_order g out" and "\<And>n p. p \<in> set (preds g n) \<Longrightarrow> n \<in> set out"
  shows "acyclic (edges g)"
proof -
  have "edges g \<subseteq> measure (position out)"
    using closed_order_position(1) [OF assms(2,1)] assms(3) by (auto simp: edges_def)
  then show ?thesis by (rule acyclic_subset [OF wf_acyclic [OF wf_measure]])
qed

lemma dissolved_complete:
  assumes keys: "distinct (keys g)" and known: "\<And>n p. p \<in> set (preds g n) \<Longrightarrow> p \<in> set (keys g)"
    and "acyclic (edges g)"
  shows "length (dissolved g) = length g"
proof -
  have len: "length (nodes g) = length g" by (rule closed_graph_nodes [OF keys known])
  have nodes: "set (nodes g) = set (keys g)"
    using card_subset_eq [OF _ keys_in_nodes, of g] len distinct_card [OF keys] distinct_card [OF distinct_nodes, of g]
    by simp
  have "kahn_inv g [] (filter (\<lambda>k. initial_count g k = 0) (keys g)) (initial_count g)"
    using keys nodes by (auto simp: kahn_inv_def initial_count_def pending_def closed_order_def)
  then obtain cnt where inv: "kahn_inv g (dissolved g) [] cnt"
    using kahn_final [OF keys, of "[]" _ _ "length g" Lifo] len by (auto simp: dissolved_def)
  have wf: "wf (edges g)" using assms(3) by (rule finite_acyclic_wf [OF finite_edges])
  have "set (nodes g) \<subseteq> set (dissolved g)"
  proof (rule ccontr)
    assume "\<not> set (nodes g) \<subseteq> set (dissolved g)"
    then obtain z where "z \<in> set (nodes g) - set (dissolved g)" by blast
    from wfE_min [OF wf this] obtain n where n: "n \<in> set (nodes g) - set (dissolved g)"
      "\<And>p. (p, n) \<in> edges g \<Longrightarrow> p \<notin> set (nodes g) - set (dissolved g)" by blast
    have "pending g (dissolved g) n \<noteq> 0" using inv n(1) unfolding kahn_inv_def append_Nil2 by (metis DiffE)
    then show False using n(2) preds_nodes by (auto simp: pending_def filter_empty_conv)
  qed
  then have "set (dissolved g) = set (keys g)" using dissolved_safe(2) [OF keys] nodes by blast
  then show ?thesis using distinct_card [OF dissolved_safe(1) [OF keys]] distinct_card [OF keys] by simp
qed

lemma reject_cycles_iff:
  assumes keys: "distinct (keys g)"
  shows "reject_cycles g label = Inr () \<longleftrightarrow>
    (\<forall>n p. p \<in> set (preds g n) \<longrightarrow> p \<in> set (keys g)) \<and> acyclic (edges g)"
proof
  assume "reject_cycles g label = Inr ()"
  then have "length (dissolved g) = length g" by (simp add: reject_cycles_def)
  then have full: "set (dissolved g) = set (keys g)"
    using card_subset_eq [OF _ dissolved_safe(2) [OF keys]] distinct_card [OF dissolved_safe(1) [OF keys]]
      distinct_card [OF keys] by simp
  have owner: "n \<in> set (keys g)" if "p \<in> set (preds g n)" for n p
    using preds_entry [OF that] by force
  have "p \<in> set (keys g)" if "p \<in> set (preds g n)" for n p
    using closed_order_position(2) [OF dissolved_safe(3,1) [OF keys] that] owner [OF that] full by blast
  moreover have "acyclic (edges g)"
    by (rule closed_order_acyclic [OF dissolved_safe(1,3) [OF keys]]) (use owner full in blast)
  ultimately show "(\<forall>n p. p \<in> set (preds g n) \<longrightarrow> p \<in> set (keys g)) \<and> acyclic (edges g)" by blast
next
  assume "(\<forall>n p. p \<in> set (preds g n) \<longrightarrow> p \<in> set (keys g)) \<and> acyclic (edges g)"
  then show "reject_cycles g label = Inr ()"
    using dissolved_complete [OF keys] by (simp add: reject_cycles_def)
qed

section \<open>What accepted objects guarantee\<close>

lemma object_identity_Inr:
  assumes "object_identity targets seen path raw = Inr (key, c)"
  shows "key \<notin> set seen" and "\<exists>f. c = raw\<lparr>co_family := f\<rparr>" and "strip (co_key c) = key"
    and "strip (co_target c) \<in> set (keys targets)"
    and "semantic_object_key (strip (co_target c)) (co_family c) (strip (co_name c)) = Inr key"
proof -
  obtain t family where t: "map_of targets (strip (co_target raw)) = Some t"
    and k: "semantic_object_key (strip (co_target raw)) family (strip (co_name raw)) = Inr key"
    and c: "key \<notin> set seen" "strip (co_key raw) = key" "c = raw\<lparr>co_family := family\<rparr>"
    using assms by (auto simp: object_identity_def bindE_Inr_iff check_text_def split: option.splits if_splits)
  have "strip (co_target raw) \<in> set (keys targets)" using map_of_in_keys [of _ targets] t by blast
  then show "key \<notin> set seen" "\<exists>f. c = raw\<lparr>co_family := f\<rparr>" "strip (co_key c) = key"
    "strip (co_target c) \<in> set (keys targets)"
    "semantic_object_key (strip (co_target c)) (co_family c) (strip (co_name c)) = Inr key"
    using c k by auto
qed

lemma object_authority_Inr:
  assumes "object_authority reqs path c = Inr locators"
  shows "mapE (authority_locator reqs) (map strip (co_requirements c)) = Inr locators"
    and "set (map strip (co_requirements c)) \<subseteq> set (keys reqs)"
    and "mutating_action (co_action c) \<Longrightarrow> co_requirements c \<noteq> [] \<and> ''approved-input'' \<in> strip ` set (co_evidence c)"
proof -
  have texts: "xs = map strip ys" if "texts_check ys p = Inr xs" for xs ys p
    using check_unique_texts_Inr [OF that [unfolded texts_check_def]]
    by (simp add: texts_def list_of_def comp_def text_of_def)
  obtain links evidence where l: "texts_check (co_requirements c) (path @ ''.requirement_ids'') = Inr links"
    "\<forall>k \<in> set links. k \<in> set (keys reqs)" "mapE (authority_locator reqs) links = Inr locators"
    and e: "texts_check (co_evidence c) (path @ ''.evidence'') = Inr evidence"
    "mutation_authority c path links evidence = Inr ()"
    using assms by (auto simp: object_authority_def bindE_Inr_iff Let_def sort_Nil_iff filter_empty_conv)
  show "mapE (authority_locator reqs) (map strip (co_requirements c)) = Inr locators"
    "set (map strip (co_requirements c)) \<subseteq> set (keys reqs)"
    using l texts [OF l(1)] by auto
  show "mutating_action (co_action c) \<Longrightarrow> co_requirements c \<noteq> [] \<and> ''approved-input'' \<in> strip ` set (co_evidence c)"
    using e(2) texts [OF l(1)] texts [OF e(1)] by (auto simp: mutation_authority_def checks_iff simp del: seqE.simps)
qed

text \<open>What one accepted object satisfies.\<close>

definition object_accepted ::
  "host \<Rightarrow> contract_targets \<Rightarrow> (string \<times> json) list \<Rightarrow> string \<times> contract_object \<Rightarrow> bool" where
  "object_accepted h targets reqs kc \<longleftrightarrow> (\<exists>path locators. strip (co_key (snd kc)) = fst kc \<and>
     strip (co_target (snd kc)) \<in> set (keys targets) \<and>
     object_authority reqs path (snd kc) = Inr locators \<and>
     validate_action_contract h (object_operation (snd kc)) path locators = Inr ())"

lemma object_step_Inr:
  assumes "object_step h targets reqs seen item = Inr seen'"
  shows "\<exists>k f. seen' = seen @ [(k, (snd item)\<lparr>co_family := f\<rparr>)] \<and> k \<notin> set (keys seen) \<and>
    object_accepted h targets reqs (k, (snd item)\<lparr>co_family := f\<rparr>)"
proof -
  let ?p = "index_path ''$.implementation.objects'' (fst item)"
  obtain k c locators where o: "object_identity targets (keys seen) ?p (snd item) = Inr (k, c)"
      "object_authority reqs ?p c = Inr locators"
      "validate_action_contract h (object_operation c) ?p locators = Inr ()" "seen' = seen @ [(k, c)]"
    using assms by (auto simp: object_step_def bindE_Inr_iff Let_def)
  then show ?thesis using object_identity_Inr(1-4) [OF o(1)] unfolding object_accepted_def by force
qed

lemma object_fold:
  assumes "foldE (object_step h targets reqs) seen (enumerate n items) = Inr objects" and "distinct (keys seen)"
  shows "\<exists>new. objects = seen @ new \<and> distinct (keys objects) \<and>
    list_all2 (\<lambda>c kc. \<exists>f. snd kc = c\<lparr>co_family := f\<rparr>) items new \<and> list_all (object_accepted h targets reqs) new"
  using assms
proof (induction items arbitrary: n seen)
  case (Cons c items)
  obtain s1 where s1: "object_step h targets reqs seen (n, c) = Inr s1"
      "foldE (object_step h targets reqs) s1 (enumerate (Suc n) items) = Inr objects"
    using Cons.prems(1) by (auto simp: bindE_Inr_iff)
  obtain k f where k: "s1 = seen @ [(k, c\<lparr>co_family := f\<rparr>)]" "k \<notin> set (keys seen)"
      "object_accepted h targets reqs (k, c\<lparr>co_family := f\<rparr>)" using object_step_Inr [OF s1(1)] by auto
  have "distinct (keys s1)" using k(1,2) Cons.prems(2) by simp
  from Cons.IH [OF s1(2) this] obtain new where "objects = s1 @ new" "distinct (keys objects)"
    "list_all2 (\<lambda>c kc. \<exists>f. snd kc = c\<lparr>co_family := f\<rparr>) items new" "list_all (object_accepted h targets reqs) new"
    by blast
  then show ?case using k by (intro exI [of _ "(k, c\<lparr>co_family := f\<rparr>) # new"]) auto
qed simp

lemma preds_object_graph: "distinct (keys objects) \<Longrightarrow> (k, c) \<in> set objects \<Longrightarrow> preds (object_graph objects) k = co_depends c"
  by (induction objects) (auto simp: object_graph_def preds_def image_iff)

lemma keys_object_graph [simp]: "keys (object_graph objects) = keys objects"
  by (simp add: object_graph_def comp_def case_prod_beta)

lemma validate_objects_facts:
  assumes "validate_objects h targets reqs items = Inr objects"
  shows "distinct (keys objects)" and "list_all2 (\<lambda>c kc. \<exists>f. snd kc = c\<lparr>co_family := f\<rparr>) items objects"
    and "\<And>kc. kc \<in> set objects \<Longrightarrow> object_accepted h targets reqs kc"
    and "\<And>k c. (k, c) \<in> set objects \<Longrightarrow> set (co_depends c) \<subseteq> set (keys objects)"
    and "acyclic (edges (object_graph objects))"
proof -
  have fold: "foldE (object_step h targets reqs) [] (enumerate 0 items) = Inr objects"
    and cycles: "reject_cycles (object_graph objects) ''objects'' = Inr ()"
    using assms by (auto simp: validate_objects_def bindE_Inr_iff)
  from object_fold [OF fold] show d: "distinct (keys objects)"
    and "list_all2 (\<lambda>c kc. \<exists>f. snd kc = c\<lparr>co_family := f\<rparr>) items objects"
    and "\<And>kc. kc \<in> set objects \<Longrightarrow> object_accepted h targets reqs kc" by (auto simp: list_all_iff)
  have "distinct (keys (object_graph objects))" using d by simp
  note decide = reject_cycles_iff [OF this, of "''objects''"]
  show "acyclic (edges (object_graph objects))" using decide cycles by blast
  show "set (co_depends c) \<subseteq> set (keys objects)" if "(k, c) \<in> set objects" for k c
    using decide cycles preds_object_graph [OF d that] keys_object_graph [of objects] by (metis subsetI)
qed

end
