(* ===== verification/PayloadMappings.thy ===== *)
theory PayloadMappings
  imports ContractModel
begin

text \<open>
  \<^verbatim>\<open>domain/fields.py\<close>: the payload mappings of a contract. Every field of a requirement
  becomes a mapping; the field bindings of the implementation say how it is implemented; the
  result is validated.
\<close>

section \<open>Vocabularies\<close>

definition payload_scopes :: "string list" where
  "payload_scopes = concat (map (\<lambda>(name, scope). case scope of None \<Rightarrow> [] | Some s \<Rightarrow> [s]) field_collections)"

definition extended_mapping_keys :: "string list" where
  "extended_mapping_keys = [''source_authority_grade'', ''source_authority_locator'', ''source_shape'',
     ''destination_shape'', ''shape_compatibility'', ''mapping_method'', ''missing_behavior'']"

definition mapping_statuses :: "string list" where
  "mapping_statuses = [''blocked'', ''external'', ''intentionally-omitted'', ''mapped'', ''pending'']"

definition mapping_methods :: "string list" where
  "mapping_methods = [''constant'', ''custom-javascript'', ''direct-dlv'', ''lookup-table'',
     ''native-template'', ''regex-table'', ''settings-variable'']"

definition shape_compatibilities :: "string list" where
  "shape_compatibilities = [''compatible'', ''conversion-required'']"

section \<open>From requirements to mappings\<close>

text \<open>The authority of a source: its own, or the approved provenance of the field.\<close>

definition mapping_authority :: "dict \<Rightarrow> json \<Rightarrow> json res" where
  "mapping_authority field source =
     (let own = get_or_null field ''source_authority'' in
      if source = JNull \<or> own \<noteq> JNull then Inr own
      else bindE (required_field field ''provenance'') (\<lambda>p.
        Inr (if get_or_null (dict_of p) ''grade'' = JStr ''approved-input'' then p else JNull)))"

definition mapping_source :: "dict \<Rightarrow> json" where
  "mapping_source field =
     (if get_or_null field ''source'' = JNull \<and> has_key field ''literal''
      then JStr (''literal:'' @ py_str (get_or_null field ''literal'')) else get_or_null field ''source'')"

definition authority_part :: "json \<Rightarrow> string \<Rightarrow> json" where
  "authority_part a k = (if truthy a then get_or_null (dict_of a) k else JNull)"

definition field_mapping :: "host \<Rightarrow> json \<Rightarrow> string \<Rightarrow> string \<times> json \<Rightarrow> json res" where
  "field_mapping h requirement scope named =
     (let field = dict_of (snd named); source = mapping_source field; unresolved = (scope = ''unresolved'') in
     bindE (mapping_authority field source) (\<lambda>a.
     bindE (required_field (dict_of requirement) ''id'') (\<lambda>requirement_id.
     bindE (required_field field ''provenance'') (\<lambda>p.
     bindE (required_field (dict_of p) ''locator'') (\<lambda>locator. Inr (JObj
       [(''requirement_id'', requirement_id), (''field_scope'', JStr scope),
        (''destination_field'', JStr (fst named)),
        (''source_fingerprint'', JStr (canonical_sha256 (h_sha256 h) (snd named))),
        (''source'', source), (''source_authority_grade'', authority_part a ''grade''),
        (''source_authority_locator'', authority_part a ''locator''),
        (''source_shape'', get_or_null field ''source_shape''),
        (''destination_shape'', get_or_null field ''destination_shape''),
        (''shape_compatibility'', JNull), (''mapping_method'', JNull), (''gtm_resolution'', JNull),
        (''template_field'', JNull),
        (''missing_behavior'', if unresolved then JStr ''An approved destination surface is required'' else JNull),
        (''status'', JStr (if unresolved then ''blocked'' else ''pending'')),
        (''provenance_locator'', locator)]))))))"

definition field_mappings :: "host \<Rightarrow> json \<Rightarrow> json list res" where
  "field_mappings h requirement =
     bindE (mapE (\<lambda>(name, scope). (case scope of
         None \<Rightarrow> Inr []
       | Some s \<Rightarrow> mapE (field_mapping h requirement s) (dict_of (get_or_null (dict_of requirement) name))))
       field_collections) (\<lambda>rows. Inr (concat rows))"

section \<open>Validating mappings\<close>

definition run_text :: "dict \<Rightarrow> string \<Rightarrow> string \<Rightarrow> string res" where
  "run_text item path k = check_text run_error (get_or_null item k) (path @ ''.'' @ k)"

definition optional_text :: "dict \<Rightarrow> string \<Rightarrow> string \<Rightarrow> string option res" where
  "optional_text item path k =
     (if get_or_null item k = JNull then Inr None else bindE (run_text item path k) (\<lambda>s. Inr (Some s)))"

definition shape_check :: "dict \<Rightarrow> string \<Rightarrow> string \<Rightarrow> unit res" where
  "shape_check item path k =
     (if get_or_null item k = JNull then Inr ()
      else (case collection_shape (get_or_null item k) of
          Inl e \<Rightarrow> Inl (if is_value_error e then run_error (path @ ''.'' @ k @ '': '' @ exn_message e) else e)
        | Inr u \<Rightarrow> Inr u))"

text \<open>The implementation decision of a mapping.\<close>

record decision =
  dc_grade :: "string option"
  dc_locator :: "string option"
  dc_source :: "string option"
  dc_destination :: "string option"
  dc_compatibility :: "string option"
  dc_method :: "string option"
  dc_missing :: "string option"

definition read_decision :: "dict \<Rightarrow> string \<Rightarrow> decision res" where
  "read_decision item path =
     bindE (optional_text item path ''source_authority_grade'') (\<lambda>grade.
     bindE (optional_text item path ''source_authority_locator'') (\<lambda>locator.
     bindE (optional_text item path ''source_shape'') (\<lambda>source.
     bindE (optional_text item path ''destination_shape'') (\<lambda>destination.
     bindE (optional_text item path ''shape_compatibility'') (\<lambda>compatibility.
     bindE (optional_text item path ''mapping_method'') (\<lambda>meth.
     bindE (optional_text item path ''missing_behavior'') (\<lambda>missing.
     bindE (seqE
       [failE (grade \<noteq> None \<and> grade \<noteq> Some ''approved-input'')
          (run_error (path @ ''.source_authority_grade must be '' @ py_repr ''approved-input'')),
        failE (compatibility \<noteq> None \<and> the compatibility \<notin> set shape_compatibilities)
          (run_error (path @ ''.shape_compatibility has unsupported value '' @ py_repr (the compatibility))),
        failE (meth \<noteq> None \<and> the meth \<notin> set mapping_methods)
          (run_error (path @ ''.mapping_method has unsupported value '' @ py_repr (the meth)))]) (\<lambda>_.
       Inr \<lparr>dc_grade = grade, dc_locator = locator, dc_source = source, dc_destination = destination,
            dc_compatibility = compatibility, dc_method = meth, dc_missing = missing\<rparr>))))))))"

definition mapped_checks :: "decision \<Rightarrow> string \<Rightarrow> string \<Rightarrow> string \<Rightarrow> unit res" where
  "mapped_checks c path scope field = seqE
     [failE (dc_grade c \<noteq> Some ''approved-input'')
        (run_error (path @ ''.source_authority_grade must be '' @ py_repr ''approved-input'' @ '' when mapped'')),
      failE (dc_locator c = None) (run_error (path @ ''.source_authority_locator is required when mapped'')),
      failE (dc_source c = None \<or> dc_destination c = None)
        (run_error (path @ '' needs source_shape and destination_shape when mapped'')),
      failE (dc_compatibility c = None \<or> dc_method c = None \<or> dc_missing c = None)
        (run_error (path @ '' needs shape_compatibility, mapping_method, and missing_behavior when mapped'')),
      failE (dc_method c \<in> {Some ''direct-dlv'', Some ''native-template''} \<and> dc_compatibility c \<noteq> Some ''compatible'')
        (run_error (path @ ''.'' @ the (dc_method c) @ '' requires compatible source and destination shapes'')),
      failE (dc_method c = Some ''custom-javascript'' \<and> dc_compatibility c \<noteq> Some ''conversion-required'')
        (run_error (path @ ''.custom-javascript requires a documented shape conversion'')),
      failE (field = ''user_data'' \<and> dc_method c = Some ''settings-variable'')
        (run_error (path @ ''.user_data must not use a shared Event Settings variable'')),
      failE (field = ''items'' \<and> dc_method c = Some ''settings-variable'')
        (run_error (path @ ''.items must not use a shared Event Settings variable'')),
      failE (starts_with field ''items.0.'')
        (run_error (path @ ''.destination_field must preserve the items array'')),
      failE (field = ''user_id'' \<and> scope = ''user-property'')
        (run_error (path @ ''.user_id must not be configured as a GA4 user property''))]"

text \<open>The decision is read only when the mapping has its keys, all of them or none.\<close>

definition decision_of :: "dict \<Rightarrow> string \<Rightarrow> decision option res" where
  "decision_of item path =
     (let present = filter (has_key item) extended_mapping_keys;
          absent = sort (filter (\<lambda>k. \<not> has_key item k) extended_mapping_keys) in
      if present = [] then Inr None
      else if absent \<noteq> []
      then Inl (run_error (path @ '' is missing extended mapping key(s): '' @ join '', '' absent))
      else bindE (read_decision item path) (\<lambda>c. Inr (Some c)))"

definition status_checks ::
  "dict \<Rightarrow> string \<Rightarrow> string \<Rightarrow> string \<Rightarrow> string \<Rightarrow> decision option \<Rightarrow> unit res" where
  "status_checks item path scope field status decision =
     (if status = ''mapped'' then
        bindE (forE [''source'', ''gtm_resolution'', ''template_field''] (\<lambda>k.
          bindE (run_text item path k) (\<lambda>_. Inr ()))) (\<lambda>_.
        (case decision of None \<Rightarrow> Inr () | Some c \<Rightarrow> mapped_checks c path scope field))
      else failE (decision \<noteq> None \<and> dc_missing (the decision) = None \<and>
          status \<in> {''intentionally-omitted'', ''external'', ''blocked''})
        (run_error (path @ ''.missing_behavior is required for '' @ status)))"

type_synonym mapping_key = "string \<times> string \<times> string"

definition mapping_step ::
  "string list \<Rightarrow> mapping_key list \<Rightarrow> nat \<times> json \<Rightarrow> mapping_key list res" where
  "mapping_step requirement_ids seen row =
     (let path = index_path ''$.payload_mappings'' (fst row) in
     bindE (check_object run_error (snd row) path) (\<lambda>item.
     bindE (run_text item path ''requirement_id'') (\<lambda>requirement_id.
     bindE (failE (requirement_id \<notin> set requirement_ids)
       (run_error (path @ ''.requirement_id is unknown''))) (\<lambda>_.
     bindE (run_text item path ''field_scope'') (\<lambda>scope.
     bindE (failE (scope \<notin> set payload_scopes)
       (run_error (path @ ''.field_scope has unsupported value '' @ py_repr scope))) (\<lambda>_.
     bindE (run_text item path ''destination_field'') (\<lambda>field.
     bindE (failE ((requirement_id, scope, field) \<in> set seen)
       (run_error (''duplicate payload mapping ('' @ join '', '' (map py_repr [requirement_id, scope, field]) @ '')''))) (\<lambda>_.
     bindE (forE [''source'', ''gtm_resolution'', ''template_field''] (\<lambda>k.
       bindE (optional_text item path k) (\<lambda>_. Inr ()))) (\<lambda>_.
     bindE (forE [''source_shape'', ''destination_shape''] (shape_check item path)) (\<lambda>_.
     bindE (run_text item path ''status'') (\<lambda>status.
     bindE (failE (scope = ''unresolved'' \<and> status \<noteq> ''blocked'') (run_error (path @
       '': unresolved destinations remain blocked until the approved field contract specifies a destination surface''))) (\<lambda>_.
     bindE (failE (status \<notin> set mapping_statuses)
       (run_error (path @ ''.status has unsupported value '' @ py_repr status))) (\<lambda>_.
     bindE (run_text item path ''provenance_locator'') (\<lambda>_.
     bindE (decision_of item path) (\<lambda>decision.
     bindE (status_checks item path scope field status decision) (\<lambda>_.
       Inr (seen @ [(requirement_id, scope, field)])))))))))))))))))"

definition validate_payload_mappings :: "json list \<Rightarrow> string list \<Rightarrow> json list res" where
  "validate_payload_mappings rows requirement_ids =
     bindE (foldE (mapping_step requirement_ids) [] (enumerate 0 rows)) (\<lambda>_. Inr rows)"

section \<open>Bindings\<close>

definition binding_key :: "dict \<Rightarrow> (json \<times> json \<times> json) res" where
  "binding_key d =
     bindE (required_field d ''requirement_id'') (\<lambda>r.
     bindE (required_field d ''field_scope'') (\<lambda>s.
     bindE (required_field d ''destination_field'') (\<lambda>f.
     bindE (failE (list_ex unhashable [r, s, f]) (OtherError ''unhashable type'')) (\<lambda>_. Inr (r, s, f)))))"

definition row_key :: "json \<Rightarrow> json \<times> json \<times> json" where
  "row_key row = (let d = dict_of row in
     (get_or_null d ''requirement_id'', get_or_null d ''field_scope'', get_or_null d ''destination_field''))"

text \<open>A key stands for the last row that has it, which the binding updates in place.\<close>

fun update_last :: "('a \<Rightarrow> bool) \<Rightarrow> ('a \<Rightarrow> 'a) \<Rightarrow> 'a list \<Rightarrow> 'a list" where
  "update_last p f [] = []"
| "update_last p f (x # xs) =
     (if list_ex p xs then x # update_last p f xs else if p x then f x # xs else x # xs)"

definition binding_step ::
  "host \<Rightarrow> json list \<times> (json \<times> json \<times> json) list \<Rightarrow> json \<Rightarrow>
   (json list \<times> (json \<times> json \<times> json) list) res" where
  "binding_step h acc binding =
     bindE (case h_schema_error h ''fieldBinding'' binding of
         Some m \<Rightarrow> Inl (run_error m) | None \<Rightarrow> Inr ()) (\<lambda>_.
     bindE (binding_key (dict_of binding)) (\<lambda>key.
     bindE (failE (key \<notin> set (map row_key (fst acc)) \<or> key \<in> set (snd acc))
       (run_error ''field binding is unknown or duplicated'')) (\<lambda>_.
       Inr (update_last (\<lambda>row. row_key row = key) (\<lambda>row. JObj (dupdate (dict_of row) (dict_of binding))) (fst acc),
         snd acc @ [key]))))"

definition requirement_ids :: "json list \<Rightarrow> string list res" where
  "requirement_ids rows = mapE (\<lambda>row. text_at row ''id'') rows"

definition materialize_payload_mappings :: "host \<Rightarrow> contract \<Rightarrow> json list res" where
  "materialize_payload_mappings h c =
     bindE (mapE (field_mappings h) (ct_requirements c)) (\<lambda>rows.
     bindE (foldE (binding_step h) (concat rows, [])
       (case ct_bindings c of None \<Rightarrow> [] | Some bs \<Rightarrow> bs)) (\<lambda>(bound, _).
     bindE (requirement_ids (ct_requirements c)) (\<lambda>ids. validate_payload_mappings bound ids)))"

end
