(* ===== verification/Contract.thy ===== *)
theory Contract
  imports ContractObjects PayloadMappings
begin

text \<open>
  \<^verbatim>\<open>validate_document\<close> of \<^verbatim>\<open>contract.py\<close>: the validation that lets a contract
  authorise a run. It returns the contract with the families of its objects in normal form.
\<close>

section \<open>Organisation requirements\<close>

text \<open>\<^verbatim>\<open>item.get("kind", route)\<close>.\<close>

definition requirement_kind :: "contract \<Rightarrow> json \<Rightarrow> json" where
  "requirement_kind c row = (case dget (dict_of row) ''kind'' of None \<Rightarrow> JStr (ct_route c) | Some k \<Rightarrow> k)"

definition organization_ids :: "contract \<Rightarrow> string list res" where
  "organization_ids c = requirement_ids
     (filter (\<lambda>row. requirement_kind c row = JStr ''organization'') (ct_requirements c))"

definition organization_object_check :: "string list \<Rightarrow> contract_object \<Rightarrow> unit res" where
  "organization_object_check ids c = failE (list_ex (\<lambda>k. k \<in> set ids) (co_requirements c) \<and>
       (co_family c \<noteq> ''folder'' \<or> co_action c \<notin> {Create, Rename, Reuse, Untouched}))
     (contract_error ''organization requirements support only folder creation, rename, or reuse'')"

definition organization_requirement_check :: "string list \<Rightarrow> json \<Rightarrow> unit res" where
  "organization_requirement_check ids row = bindE (text_at row ''id'') (\<lambda>k.
     (let d = dict_of row in failE (k \<in> set ids \<and> (list_ex (has_key d) (keys field_collections) \<or>
         truthy (get_or_null d ''event_name'') \<or> truthy (get_or_null d ''source_event'')))
       (contract_error ''organization requirements cannot contain collection semantics'')))"

section \<open>Payload\<close>

definition contract_mappings :: "host \<Rightarrow> contract \<Rightarrow> json list res" where
  "contract_mappings h c = (case materialize_payload_mappings h c of
     Inl e \<Rightarrow> Inl (if is_run_validation_error e then contract_error (exn_message e) else e)
   | Inr rows \<Rightarrow>
       (let unresolved = map (\<lambda>row. text_of (get_or_null (dict_of row) ''requirement_id'') @ ''::'' @
              text_of (get_or_null (dict_of row) ''destination_field''))
            (filter (\<lambda>row. get_or_null (dict_of row) ''status'' = JStr ''pending'') rows) in
        bindE (failE (unresolved \<noteq> []) (contract_error
          (''Bind approved fields before execution (implementation.field_bindings): '' @
            join '', '' unresolved))) (\<lambda>_. Inr rows)))"

section \<open>The document\<close>

definition contract_secrets :: "host \<Rightarrow> contract \<Rightarrow> unit res" where
  "contract_secrets h c =
     bindE (public_identifier_paths h None (contract_json c)) (\<lambda>paths.
     (let leaks = map fst (h_findings h (contract_json c) paths) in
      failE (leaks \<noteq> []) (contract_error
        (''contract contains literal secret or user data at: '' @ join '', '' leaks))))"

definition missing_implementation :: "string list \<Rightarrow> contract_object list \<Rightarrow> string list" where
  "missing_implementation ids objects = sort (filter (\<lambda>k. \<not> list_ex (\<lambda>c. k \<in> set (co_requirements c)) objects) ids)"

definition validate_contract :: "host \<Rightarrow> contract_rules \<Rightarrow> contract \<Rightarrow> contract res" where
  "validate_contract h env raw =
     bindE (case h_schema_error h ''contract'' (contract_json raw) of
         Some m \<Rightarrow> Inl (contract_error m) | None \<Rightarrow> Inr ()) (\<lambda>_.
     bindE (failE (ct_schema_version raw \<noteq> contract_schema_version)
       (contract_error (''$.schema_version must be '' @ py_repr contract_schema_version))) (\<lambda>_.
     bindE (reported_as_contract (validate_public_identifiers h (contract_json raw))) (\<lambda>_.
     bindE (contract_secrets h raw) (\<lambda>_.
     bindE (check_text contract_error (JStr (ct_route raw)) ''$.route'') (\<lambda>route.
     bindE (validate_scope_and_requirements (contract_dict raw) (JStr route)) (\<lambda>ids.
     bindE (validate_targets (JArr (ct_targets raw)) (mode_name (ct_mode raw))) (\<lambda>targets.
     bindE (requirement_by_id (ct_requirements raw)) (\<lambda>reqs.
     bindE (validate_objects h targets reqs (ct_objects raw)) (\<lambda>objects.
     (let c = raw\<lparr>ct_objects := map snd objects\<rparr>;
          missing = missing_implementation ids (ct_objects c) in
     bindE (failE (missing \<noteq> []) (contract_error
       (''every included requirement needs an implementing create/update/reuse/untouched object; missing='' @
         py_repr_json (texts missing)))) (\<lambda>_.
     bindE (contract_mappings h c) (\<lambda>mappings.
     bindE (forE [''server'', ''pipeline'', ''web''] (\<lambda>rule. cr_domain env rule c mappings)) (\<lambda>_.
     bindE (organization_ids c) (\<lambda>organization.
     bindE (seqE
       [forE (ct_objects c) (organization_object_check organization),
        forE (ct_requirements c) (organization_requirement_check organization),
        validate_evidence env (ct_evidence c) ids (filter (\<lambda>k. k \<notin> set organization) ids)]) (\<lambda>_.
       Inr c)))))))))))))))"

section \<open>What an accepted contract guarantees\<close>

lemma validate_contract_facts:
  assumes "validate_contract h env raw = Inr c"
  obtains ids targets reqs objects where "validate_scope_and_requirements (contract_dict raw) (JStr (strip (ct_route raw))) = Inr ids"
    and "requirement_by_id (ct_requirements raw) = Inr reqs"
    and "validate_objects h targets reqs (ct_objects raw) = Inr objects"
    and "c = raw\<lparr>ct_objects := map snd objects\<rparr>" and "missing_implementation ids (ct_objects c) = []"
    and "\<forall>rule \<in> {''server'', ''pipeline'', ''web''}. \<exists>rows. contract_mappings h c = Inr rows \<and> cr_domain env rule c rows = Inr ()"
proof -
  obtain route ids targets reqs objects rows u where route: "check_text contract_error (JStr (ct_route raw)) ''$.route'' = Inr route"
    and "validate_scope_and_requirements (contract_dict raw) (JStr route) = Inr ids"
    and "requirement_by_id (ct_requirements raw) = Inr reqs"
    and "validate_objects h targets reqs (ct_objects raw) = Inr objects"
    and "missing_implementation ids (ct_objects (raw\<lparr>ct_objects := map snd objects\<rparr>)) = []"
    and "c = raw\<lparr>ct_objects := map snd objects\<rparr>"
    and "contract_mappings h (raw\<lparr>ct_objects := map snd objects\<rparr>) = Inr rows"
    and "forE [''server'', ''pipeline'', ''web''] (\<lambda>rule. cr_domain env rule (raw\<lparr>ct_objects := map snd objects\<rparr>) rows) = Inr u"
    using assms unfolding validate_contract_def Let_def bindE_Inr_iff failE_ok_iff sum.inject not_not by (elim exE conjE) blast
  moreover have "route = strip (ct_route raw)" using route by (auto simp: check_text_def split: if_splits)
  ultimately show ?thesis using that unfolding forE_ok_iff by simp
qed

lemma missing_implementation_Nil:
  "missing_implementation ids objects = [] \<longleftrightarrow> (\<forall>k \<in> set ids. \<exists>c \<in> set objects. k \<in> set (co_requirements c))"
  by (auto simp: missing_implementation_def sort_Nil_iff filter_empty_conv list_ex_iff)

text \<open>A mutating object is approved by name: its approval is the one derived from its payload and
  from the locator of a requirement it serves.\<close>

definition object_authorized :: "host \<Rightarrow> (string \<times> json) list \<Rightarrow> contract_object \<Rightarrow> bool" where
  "object_authorized h reqs c \<longleftrightarrow> (\<exists>approval k l. co_approval c = Some (JObj approval) \<and>
     k \<in> set (co_requirements c) \<and> authority_locator reqs (strip k) = Inr l \<and>
     py_eq (JObj approval) (build_mutation_approval h (object_operation c) l))"

lemma accepted_authorized:
  assumes "object_accepted h targets reqs (k, c)" and "mutating_action (co_action c)"
  shows "object_authorized h reqs c"
proof -
  obtain path locators where a: "object_authority reqs path c = Inr locators"
    "validate_action_contract h (object_operation c) path locators = Inr ()"
    using assms(1) by (auto simp: object_accepted_def)
  have "mutating_action (op_action (object_operation c))" using assms(2) by (simp add: object_operation_def)
  then have "approval_checks h (object_operation c) path locators = Inr ()"
    using a(2) unfolding validate_action_contract_def Let_def checks_iff by simp
  from approval_checks_ok [OF this] obtain approval l where
    l: "op_approval (object_operation c) = Some (JObj approval)" "l \<in> set locators"
      "py_eq (JObj approval) (build_mutation_approval h (object_operation c) l)" by blast
  obtain k where "k \<in> set (co_requirements c)" "authority_locator reqs (strip k) = Inr l"
    using mapE_member [OF object_authority_Inr(1) [OF a(1)] l(2)] by auto
  then show ?thesis using l unfolding object_authorized_def object_operation_def by auto
qed

end
