(* ===== verification/Creation.thy ===== *)
theory Creation
  imports Contract Convergence Baselines
begin

text \<open>
  \<^verbatim>\<open>create_from_contract\<close> of \<^verbatim>\<open>runtime/state.py\<close>: a validated contract becomes
  the run document that executes it, one planned operation per object.
\<close>

section \<open>Operations\<close>

text \<open>\<^verbatim>\<open>operation_by_key[key]\<close>.\<close>

definition operation_by_key :: "host \<Rightarrow> string list \<Rightarrow> string \<Rightarrow> string res" where
  "operation_by_key h known key =
     (if key \<in> set known then Inr (operation_identifier h key) else Inl (KeyError key))"

definition operation_by_value :: "host \<Rightarrow> string list \<Rightarrow> json \<Rightarrow> json res" where
  "operation_by_value h known v = (case v of
     JStr key \<Rightarrow> bindE (operation_by_key h known key) (\<lambda>k. Inr (JStr k))
   | _ \<Rightarrow> if unhashable v then Inl (OtherError ''unhashable type'') else Inl (KeyError (py_str v)))"

text \<open>A field as it is persisted; the schema of a run rejects a redacted text.\<close>

definition persisted_field :: "host \<Rightarrow> contract_object \<Rightarrow> json option \<Rightarrow> json option res" where
  "persisted_field h c v = (case v of
     None \<Rightarrow> Inr None
   | Some x \<Rightarrow> bindE (redact_for_records h [object_json c] x) (\<lambda>y. Inr (Some y)))"

definition persisted_text :: "host \<Rightarrow> contract_object \<Rightarrow> string option \<Rightarrow> string option res" where
  "persisted_text h c v = bindE (persisted_field h c (map_option JStr v)) (\<lambda>y. (case y of
     None \<Rightarrow> Inr None | Some (JStr s) \<Rightarrow> Inr (Some s) | Some _ \<Rightarrow> Inl (run_error ''redacted text'')))"

definition planned_operation ::
  "host \<Rightarrow> (string \<times> container) list \<Rightarrow> string list \<Rightarrow> contract_object \<Rightarrow> operation res" where
  "planned_operation h types known c =
     bindE (case map_of types (co_target c) of None \<Rightarrow> Inl (KeyError (co_target c)) | Some t \<Rightarrow> Inr t) (\<lambda>container.
     bindE (mapE (operation_by_key h known) (co_depends c)) (\<lambda>dependencies.
     bindE (persisted_field h c (co_intended c)) (\<lambda>intended.
     bindE (persisted_field h c (co_pre_change c)) (\<lambda>pre_change.
     bindE (persisted_text h c (co_object_id c)) (\<lambda>object_id.
     bindE (persisted_text h c (co_new_name c)) (\<lambda>new_name.
     bindE (persisted_field h c (co_approval c)) (\<lambda>approval.
     bindE (persisted_text h c (co_replacement_reason c)) (\<lambda>replacement_reason.
     bindE (persisted_field h c (co_permission_delta c)) (\<lambda>permission_delta.
     bindE (persisted_field h c (co_public_identifiers c)) (\<lambda>public_identifiers.
     bindE (persisted_field h c (co_assertions c)) (\<lambda>assertions.
       Inr \<lparr>op_id = operation_identifier h (co_key c), op_target = co_target c, op_container = container,
         op_family = co_family c, op_name = co_name c, op_key = co_key c, op_action = co_action c,
         op_requirements = co_requirements c, op_dependencies = dependencies,
         op_justification = co_justification c, op_evidence = co_evidence c, op_risk = co_risk c,
         op_intended = intended, op_pre_change = pre_change, op_object_id = object_id,
         op_new_name = new_name, op_approval = approval, op_replacement_reason = replacement_reason,
         op_permission_delta = permission_delta, op_public_identifiers = public_identifiers,
         op_assertions = assertions, op_state = Planned, op_journal = [], op_comparison = None,
         op_saved_readback = None, op_pre_write_readback = None, op_pre_write_comparison = None\<rparr>)))))))))))"

section \<open>Targets and requirements\<close>

definition run_target_of :: "json \<Rightarrow> target res" where
  "run_target_of row =
     bindE (text_at row ''target_id'') (\<lambda>target_id.
     bindE (stated_container (dict_of row)) (\<lambda>container.
     bindE (text_at row ''account_id'') (\<lambda>account.
     bindE (text_at row ''container_id'') (\<lambda>container_key.
     bindE (text_at row ''workspace_id'') (\<lambda>workspace.
       Inr \<lparr>tg_id = target_id, tg_identity = \<lparr>account_id = account, container_id = container_key,
         workspace_id = workspace, container_type = container\<rparr>, tg_capabilities = []\<rparr>)))))"

definition operation_demands :: "operation list \<Rightarrow> demands" where
  "operation_demands ops = map (\<lambda>(k, op). (k, op_dependencies op, op_requirements op)) (index_ops ops)"

text \<open>The keys of the operations that serve a requirement; one served that is not a requirement
  raises.\<close>

definition serving_keys ::
  "operation list \<Rightarrow> string list \<Rightarrow> (string \<Rightarrow> string list) res" where
  "serving_keys ops ids =
     bindE (served_requirements (operation_demands ops)) (\<lambda>serves.
     bindE (failE (\<not> list_all (\<lambda>op. serves (op_id op) \<subseteq> set ids) ops) (KeyError ''requirement'')) (\<lambda>_.
       Inr (\<lambda>k. sort (map op_key (filter (\<lambda>op. k \<in> serves (op_id op)) ops)))))"

definition run_requirement_of :: "contract \<Rightarrow> (string \<Rightarrow> string list) \<Rightarrow> json \<Rightarrow> requirement res" where
  "run_requirement_of c served row =
     (let d = dict_of row in
     bindE (text_at row ''id'') (\<lambda>k.
     bindE (case requirement_kind c row of JStr s \<Rightarrow> Inr s | _ \<Rightarrow> Inl (OtherError ''kind'')) (\<lambda>kind.
     bindE (required_field d ''authority'') (\<lambda>a.
     bindE (text_at a ''locator'') (\<lambda>locator.
       Inr \<lparr>rq_id = k, rq_kind = kind, rq_source_locator = locator,
         rq_source_event = get_or_null d ''source_event'', rq_event_name = get_or_null d ''event_name'',
         rq_destination = (if truthy (get_or_null d ''destination'') then get_or_null d ''destination''
           else get_or_null d ''event_name''),
         rq_status = InProgressRun, rq_object_keys = served k\<rparr>)))))"

section \<open>Sections that name operations\<close>

definition operation_values :: "host \<Rightarrow> string list \<Rightarrow> json \<Rightarrow> json res" where
  "operation_values h known v = bindE (mapE (operation_by_value h known) (list_of v)) (\<lambda>ks. Inr (JArr ks))"

definition run_flow :: "host \<Rightarrow> string list \<Rightarrow> json \<Rightarrow> json res" where
  "run_flow h known flow =
     bindE (operation_values h known (get_or_null (dict_of flow) ''server_consumer_keys'')) (\<lambda>ids.
       Inr (JObj (dset (dict_of flow) ''server_consumer_operation_ids'' ids)))"

definition run_pipeline :: "host \<Rightarrow> string list \<Rightarrow> json \<Rightarrow> json res" where
  "run_pipeline h known item =
     (let d = dict_of item in
     bindE (required_field d ''claiming_client'') (\<lambda>client.
     bindE (required_field (dict_of client) ''object_key'') (\<lambda>key.
     bindE (operation_by_value h known key) (\<lambda>claiming.
     bindE (operation_values h known (get_or_null d ''operation_dependencies'')) (\<lambda>dependencies.
     (let d1 = dset (dset d ''claiming_client_operation_id'' claiming) ''operation_dependencies'' dependencies in
     bindE (case dget d1 ''cutover_operation_key'' of
         None \<Rightarrow> Inr d1
       | Some cutover \<Rightarrow> bindE (operation_by_value h known cutover) (\<lambda>k.
           Inr (dset (dpop d1 ''cutover_operation_key'') ''cutover_operation_id'' k))) (\<lambda>d2.
     (case dget d2 ''event_flows'' of
        None \<Rightarrow> Inr (JObj d2)
      | Some flows \<Rightarrow> bindE (mapE (run_flow h known) (list_of flows)) (\<lambda>fs.
          Inr (JObj (dset d2 ''event_flows'' (JArr fs))))))))))))"

definition run_disposition :: "host \<Rightarrow> string list \<Rightarrow> json \<Rightarrow> json res" where
  "run_disposition h known item =
     (let d = dict_of item in
     bindE (required_field d ''operation_keys'') (\<lambda>keys.
     bindE (operation_values h known keys) (\<lambda>ids.
       Inr (JObj (dset (dpop d ''operation_keys'') ''operation_ids'' ids)))))"

definition official_source :: "json \<Rightarrow> json list res" where
  "official_source row =
     (let d = dict_of row in
     bindE (required_field d ''grade'') (\<lambda>grade.
     if grade \<noteq> JStr ''official-current'' then Inr []
     else bindE (required_field d ''locator'') (\<lambda>url.
       bindE (required_field d ''title'') (\<lambda>title.
       bindE (required_field d ''accessed_on'') (\<lambda>accessed.
       bindE (required_field d ''supports'') (\<lambda>supports.
       bindE (required_field d ''decision'') (\<lambda>decision.
         Inr [JObj [(''url'', url), (''title'', title), (''access_date'', accessed),
           (''supports'', supports), (''decision'', decision)]])))))))"

definition official_sources :: "contract \<Rightarrow> json list res" where
  "official_sources c = bindE (mapE official_source (ct_evidence c)) (\<lambda>rows. Inr (concat rows))"

section \<open>The document\<close>

definition started_result :: "target \<Rightarrow> target_result" where
  "started_result t = \<lparr>tr_target = tg_id t, tr_status = InProgressRun, tr_last_verified = None,
     tr_baseline_error = None, tr_recovery = None\<rparr>"

definition requirement_fingerprints :: "host \<Rightarrow> json list \<Rightarrow> (string \<times> string) list res" where
  "requirement_fingerprints h rows = bindE (mapE (\<lambda>row. bindE (text_at row ''id'') (\<lambda>k.
     Inr (k, canonical_sha256 (h_sha256 h) row))) rows) (\<lambda>ps.
       Inr (fold (\<lambda>(k, v) m. AList.update k v m) ps []))"

definition started_run ::
  "host \<Rightarrow> contract \<Rightarrow> string \<Rightarrow> string \<Rightarrow> string \<Rightarrow> target list \<Rightarrow> string list \<Rightarrow>
   (string \<times> string) list \<Rightarrow> run_header" where
  "started_run h c name source now targets ids prints =
     \<lparr>run_id = name, run_mode = ct_mode c, run_execution_mode = ct_execution_mode c,
      run_phase = Preflight, run_status = InProgressRun, run_started_at = now, run_updated_at = now,
      run_targets = targets,
      run_contract = \<lparr>cr_schema_version = ct_schema_version c, cr_requirement_ids = ids,
        cr_source_locator = source, cr_fingerprint = canonical_sha256 (h_sha256 h) (contract_json c),
        cr_requirement_fingerprints = prints\<rparr>,
      run_publication_performed = False, run_version_created = False,
      run_materialization = \<lparr>mt_method = materialization_method, mt_owned_sections = owned_sections,
        mt_contract_fingerprint = canonical_sha256 (h_sha256 h) (contract_json c),
        mt_section_fingerprints = []\<rparr>,
      run_revisions = []\<rparr>"

definition fingerprinted :: "host \<Rightarrow> document \<Rightarrow> document" where
  "fingerprinted h d = update_run (\<lambda>run. run\<lparr>run_materialization :=
     (run_materialization run)\<lparr>mt_section_fingerprints := materialization_fingerprints h d\<rparr>\<rparr>) d"

definition composed_document ::
  "contract \<Rightarrow> run_header \<Rightarrow> requirement list \<Rightarrow> json list \<Rightarrow> operation list \<Rightarrow> json list \<Rightarrow>
   json list \<Rightarrow> json list \<Rightarrow> document" where
  "composed_document c header requirements pipelines ops mappings dispositions sources =
     \<lparr>d_schema_version = schema_version, d_run = header, d_requirements = requirements,
      d_pipelines = pipelines, d_operations = ops, d_mappings = mappings,
      d_consent_policies = ct_consent_policies c, d_tag_policies = ct_tag_policies c,
      d_page_views = ct_page_views c, d_first_party = ct_first_party c, d_dispositions = dispositions,
      d_baselines = map (\<lambda>t. empty_baseline (tg_id t)) (run_targets header), d_dedup = ct_dedup c,
      d_final_inventories = [], d_results = map started_result (run_targets header),
      d_official_sources = sources, d_external = ct_external c,
      d_publication = publication_dependencies (ct_mode c), d_recovery = None,
      d_idempotency = no_idempotency\<rparr>"

definition types_by_target :: "target list \<Rightarrow> (string \<times> container) list" where
  "types_by_target targets = rev (map (\<lambda>t. (tg_id t, container_type (tg_identity t))) targets)"

definition materialized_document ::
  "host \<Rightarrow> contract \<Rightarrow> string \<Rightarrow> string \<Rightarrow> string \<Rightarrow> document res" where
  "materialized_document h c name source now =
     (let known = map co_key (ct_objects c) in
     bindE (mapE run_target_of (ct_targets c)) (\<lambda>targets.
     bindE (requirement_ids (ct_requirements c)) (\<lambda>ids.
     bindE (mapE (planned_operation h (types_by_target targets) known) (ct_objects c)) (\<lambda>ops.
     bindE (serving_keys ops ids) (\<lambda>served.
     bindE (mapE (run_requirement_of c served) (ct_requirements c)) (\<lambda>requirements.
     bindE (materialize_payload_mappings h c) (\<lambda>mappings.
     bindE (mapE (run_pipeline h known) (ct_pipelines c)) (\<lambda>pipelines.
     bindE (mapE (run_disposition h known) (ct_dispositions c)) (\<lambda>dispositions.
     bindE (requirement_fingerprints h (ct_requirements c)) (\<lambda>prints.
     bindE (official_sources c) (\<lambda>sources.
       Inr (fingerprinted h (composed_document c (started_run h c name source now targets ids prints)
         requirements pipelines ops mappings dispositions sources)))))))))))))"

definition as_run_error :: "'a res \<Rightarrow> 'a res" where
  "as_run_error r = (case r of Inl (ContractValidationError m code) \<Rightarrow> Inl (RunValidationError m code) | _ \<Rightarrow> r)"

definition create_from_contract ::
  "host \<Rightarrow> contract_rules \<Rightarrow> string \<Rightarrow> string \<Rightarrow> string \<Rightarrow> contract \<Rightarrow> document res" where
  "create_from_contract h env name source now raw =
     bindE (as_run_error (validate_contract h env raw)) (\<lambda>c.
     bindE (materialized_document h c name source now) (\<lambda>d.
     bindE (validate_document h d) (\<lambda>_. Inr d)))"

section \<open>What a created run holds\<close>

text \<open>The operation planned for an object: its identity, its graph and an untouched history.\<close>

definition plans :: "host \<Rightarrow> contract_object \<Rightarrow> operation \<Rightarrow> bool" where
  "plans h c op \<longleftrightarrow> op_key op = co_key c \<and> op_id op = operation_identifier h (co_key c) \<and>
     op_target op = co_target c \<and> op_family op = co_family c \<and> op_action op = co_action c \<and>
     op_requirements op = co_requirements c \<and>
     op_dependencies op = map (operation_identifier h) (co_depends c) \<and>
     op_state op = Planned \<and> op_journal op = [] \<and> op_saved_readback op = None"

lemma operation_by_key_Inr: "operation_by_key h known k = Inr i \<longleftrightarrow> k \<in> set known \<and> i = operation_identifier h k"
  by (auto simp: operation_by_key_def)

lemma operation_by_keys:
  "mapE (operation_by_key h known) ks = Inr is \<Longrightarrow> is = map (operation_identifier h) ks"
  by (induction ks arbitrary: "is") (auto simp: bindE_Inr_iff operation_by_key_Inr)

lemma planned_operation_plans:
  assumes "planned_operation h types known c = Inr op"
  shows "plans h c op"
  using assms by (auto simp: planned_operation_def plans_def bindE_Inr_iff dest: operation_by_keys)

lemma planned_operation_target:
  "planned_operation h (types_by_target targets) known c = Inr op \<Longrightarrow> op_target op \<in> tg_id ` set targets"
  by (auto simp: planned_operation_def types_by_target_def bindE_Inr_iff image_iff
      split: option.splits dest!: map_of_SomeD)

lemma run_requirement_facts:
  assumes "run_requirement_of c served row = Inr r"
  shows "rq_object_keys r = served (rq_id r)" and "dget (dict_of row) ''id'' = Some (JStr (rq_id r))"
    and "rq_status r = InProgressRun"
  using assms by (auto simp: run_requirement_of_def Let_def bindE_Inr_iff text_at_Inr)

lemma serving_keys_facts:
  assumes "serving_keys ops ids = Inr served"
  shows "set (served k) = {op_key op | op. op \<in> set ops \<and> k \<in> demanded (operation_demands ops) (op_id op)}"
proof -
  obtain serves where s: "served_requirements (operation_demands ops) = Inr serves"
    and served: "served = (\<lambda>k. sort (map op_key (filter (\<lambda>op. k \<in> serves (op_id op)) ops)))"
    using assms by (auto simp: serving_keys_def bindE_Inr_iff)
  have "keys (operation_demands ops) = keys (index_ops ops)"
    by (simp add: operation_demands_def comp_def case_prod_beta)
  then have "serves n = demanded (operation_demands ops) n" for n
    using served_requirements_sound [OF _ s] by simp
  then show ?thesis unfolding served by auto
qed

text \<open>A requirement lists the operations that serve it, directly or through their dependents.\<close>

definition serves_requirement :: "document \<Rightarrow> requirement \<Rightarrow> bool" where
  "serves_requirement d r \<longleftrightarrow> set (rq_object_keys r) =
     {op_key op | op. op \<in> set (d_operations d) \<and> rq_id r \<in> demanded (operation_demands (d_operations d)) (op_id op)}"

lemma fingerprinted_simps [simp]:
  "d_operations (fingerprinted h d) = d_operations d" "d_requirements (fingerprinted h d) = d_requirements d"
  "d_baselines (fingerprinted h d) = d_baselines d" "d_results (fingerprinted h d) = d_results d"
  "run_targets (d_run (fingerprinted h d)) = run_targets (d_run d)"
  "run_contract (d_run (fingerprinted h d)) = run_contract (d_run d)"
  "run_revisions (d_run (fingerprinted h d)) = run_revisions (d_run d)"
  "run_started_at (d_run (fingerprinted h d)) = run_started_at (d_run d)"
  "d_final_inventories (fingerprinted h d) = d_final_inventories d"
  by (simp_all add: fingerprinted_def update_run_def)

lemma materialized_facts:
  assumes "materialized_document h c name source now = Inr d"
  shows "list_all2 (plans h) (ct_objects c) (d_operations d)"
    and "\<And>r. r \<in> set (d_requirements d) \<Longrightarrow> serves_requirement d r"
    and "\<And>op. op \<in> set (d_operations d) \<Longrightarrow> op_target op \<in> tg_id ` set (run_targets (d_run d))"
    and "d_baselines d = map (\<lambda>t. empty_baseline (tg_id t)) (run_targets (d_run d))"
    and "cr_fingerprint (run_contract (d_run d)) = canonical_sha256 (h_sha256 h) (contract_json c)"
proof -
  obtain targets ids ops served requirements mappings pipelines dispositions prints sources
    where ops: "mapE (planned_operation h (types_by_target targets) (map co_key (ct_objects c))) (ct_objects c) = Inr ops"
      and served: "serving_keys ops ids = Inr served"
      and requirements: "mapE (run_requirement_of c served) (ct_requirements c) = Inr requirements"
      and d: "d = fingerprinted h (composed_document c (started_run h c name source now targets ids prints)
         requirements pipelines ops mappings dispositions sources)"
    using assms unfolding materialized_document_def Let_def bindE_Inr_iff by blast
  have d': "d_operations d = ops" "d_requirements d = requirements"
    by (simp_all add: d composed_document_def)
  show "list_all2 (plans h) (ct_objects c) (d_operations d)"
    using ops unfolding mapE_Inr_iff d' by (rule list_all2_mono) (rule planned_operation_plans)
  have "run_targets (d_run d) = targets" by (simp add: d composed_document_def started_run_def)
  then show "op_target op \<in> tg_id ` set (run_targets (d_run d))" if "op \<in> set (d_operations d)" for op
    using mapE_member [OF ops that [unfolded d']] by (auto dest: planned_operation_target)
  show "serves_requirement d r" if "r \<in> set (d_requirements d)" for r
    using mapE_member [OF requirements that [unfolded d']] run_requirement_facts(1)
      serving_keys_facts [OF served] unfolding serves_requirement_def d' by metis
  show "d_baselines d = map (\<lambda>t. empty_baseline (tg_id t)) (run_targets (d_run d))"
    "cr_fingerprint (run_contract (d_run d)) = canonical_sha256 (h_sha256 h) (contract_json c)"
    by (simp_all add: d composed_document_def started_run_def)
qed

lemma create_facts:
  assumes "create_from_contract h env name source now raw = Inr d"
  obtains c where "validate_contract h env raw = Inr c" and "materialized_document h c name source now = Inr d"
    and "validate_document h d = Inr ()"
  using assms by (auto simp: create_from_contract_def bindE_Inr_iff as_run_error_def
      split: sum.splits exn.splits)

text \<open>Every target waits for its baseline, so nothing can be dispatched yet.\<close>

lemma created_nothing_ready:
  assumes "materialized_document h c name source now = Inr d" and "inspect_validated_document h d = Inr i"
  shows "in_ready i = []"
proof (rule ccontr)
  assume "in_ready i \<noteq> []"
  then obtain k where "k \<in> set (in_ready i)" by (cases "in_ready i") auto
  then obtain rows op r where rows: "operation_readiness d = Inr rows" "map_of rows k = Some r"
    "rd_blocked r = []" "rd_waiting r = []" using inspect_partition [OF assms(2)] by blast
  then have "readiness_of d k = Inr r" by (simp add: readiness_of_def)
  from readiness_clear [OF this rows(3,4)] obtain op where
    op: "map_of (index_ops (d_operations d)) k = Some op" "own_cause d k op = []" by blast
  then have "op \<in> set (d_operations d)" using index_ops_id by blast
  from materialized_facts(3) [OF assms(1) this] obtain t where
    t: "t \<in> set (run_targets (d_run d))" "op_target op = tg_id t" by auto
  have "empty_baseline (tg_id t) \<in> set (d_baselines d)"
    unfolding materialized_facts(4) [OF assms(1)] using t(1) by simp
  from own_cause_baseline [OF op(2) rows(1) this] show False using t(2) by (simp add: empty_baseline_def)
qed

end
