(* ===== verification/Revision.thy ===== *)
theory Revision
  imports Creation
begin

text \<open>
  \<^verbatim>\<open>revise_from_contract\<close> of \<^verbatim>\<open>runtime/state.py\<close>: another contract replaces the part of
  the graph that was not written yet. What the verified operations own in the other sections is
  found by annotations of the run's schema.
\<close>

section \<open>References\<close>

text \<open>\<^verbatim>\<open>object_references\<close> of \<^verbatim>\<open>domain/graph.py\<close>: every text of a value.\<close>

function reference_values :: "json \<Rightarrow> string list" where
  "reference_values v =
     (if is_dict v then concat (map (\<lambda>(k, w). reference_values w) (dict_of v))
      else if is_list v then concat (map reference_values (list_of v))
      else (case v of JStr s \<Rightarrow> [s] | _ \<Rightarrow> []))"
  by pat_completeness auto
termination
  by (relation "measure size")
    (auto simp: is_dict_def is_list_def dict_of_def list_of_def split: json.splits
      intro: size_arr_item size_dict_entry_pair)

declare reference_values.simps [simp del]

section \<open>Schema annotations\<close>

text \<open>
  The schema of a run is data; \<open>sv_lookup base ref\<close> is the resolver of the referencing library,
  a shape and the base its own references start from. \<open>sv_depth\<close> is the recursion limit of the
  interpreter.
\<close>

type_synonym layer = "json \<times> string"

record schema_view =
  sv_properties :: dict
  sv_base :: string
  sv_lookup :: "string \<Rightarrow> string \<Rightarrow> layer res"
  sv_depth :: nat

definition layers_below ::
  "schema_view \<Rightarrow> (layer \<Rightarrow> layer list res) \<Rightarrow> layer \<Rightarrow> layer list res" where
  "layers_below sv below l =
     (let shape = dict_of (fst l) in
     bindE (case dget shape ''$ref'' of
         Some (JStr r) \<Rightarrow> bindE (sv_lookup sv (snd l) r) below
       | Some _ \<Rightarrow> Inl (OtherError ''not a reference'') | None \<Rightarrow> Inr []) (\<lambda>referenced.
     bindE (mapE (\<lambda>x. below (x, snd l)) (list_of (get_or_null shape ''allOf''))) (\<lambda>all.
       Inr (referenced @ concat all @ [l]))))"

primrec shape_layers :: "schema_view \<Rightarrow> nat \<Rightarrow> layer \<Rightarrow> layer list res" where
  "shape_layers sv 0 = (\<lambda>l. Inl (OtherError ''RecursionError''))"
| "shape_layers sv (Suc n) = layers_below sv (shape_layers sv n)"

text \<open>Later layers override the earlier ones.\<close>

definition annotation :: "layer list \<Rightarrow> string \<Rightarrow> json option" where
  "annotation layers k = dget (rev (concat (map (\<lambda>(shape, base). dict_of shape) layers))) k"

definition item_layer :: "layer list \<Rightarrow> layer option" where
  "item_layer layers = (case find (\<lambda>(shape, base). dget (dict_of shape) ''items'' \<noteq> None) (rev layers) of
     None \<Rightarrow> None | Some (shape, base) \<Rightarrow> Some (get_or_null (dict_of shape) ''items'', base))"

definition layer_properties :: "layer list \<Rightarrow> (string \<times> layer) list" where
  "layer_properties layers = rev (concat (map (\<lambda>(shape, base).
     map (\<lambda>(k, child). (k, (child, base))) (dict_of (get_or_null (dict_of shape) ''properties''))) layers))"

section \<open>What operations own\<close>

fun resolve_path :: "json \<Rightarrow> json list \<Rightarrow> json" where
  "resolve_path v [] = v"
| "resolve_path v (part # path) = resolve_path (case (v, part) of
     (JObj d, JStr k) \<Rightarrow> (case dget d k of None \<Rightarrow> JArr [] | Some w \<Rightarrow> w)
   | _ \<Rightarrow> JArr []) path"

definition owner_texts :: "json \<Rightarrow> json \<Rightarrow> string list" where
  "owner_texts paths context =
     concat (map (\<lambda>path. reference_values (resolve_path context (list_of path))) (list_of paths))"

definition refers :: "string list \<Rightarrow> string list \<Rightarrow> bool" where
  "refers references xs = list_ex (\<lambda>x. x \<in> set references) xs"

definition with_identity :: "layer list \<Rightarrow> dict \<Rightarrow> dict \<Rightarrow> json option res" where
  "with_identity layers value result =
     (if result = [] then Inr None
      else (case annotation layers ''x-identity-key'' of
          Some (JStr k) \<Rightarrow> if k = [] then Inr (Some (JObj result))
            else bindE (required_field value k) (\<lambda>v. Inr (Some (JObj (dset result k v))))
        | _ \<Rightarrow> Inr (Some (JObj result))))"

function owned :: "schema_view \<Rightarrow> string list \<Rightarrow> json \<Rightarrow> layer \<Rightarrow> json \<Rightarrow> json option res"
and owned_parts ::
  "schema_view \<Rightarrow> string list \<Rightarrow> json \<Rightarrow> layer \<Rightarrow> layer list \<Rightarrow> json option res" where
  "owned sv references value shape context =
     bindE (shape_layers sv (sv_depth sv) shape) (\<lambda>layers.
     (case annotation layers ''x-owner-paths'' of
        Some paths \<Rightarrow> if paths \<noteq> JNull
          then Inr (if refers references (owner_texts paths context) then Some value else None)
          else owned_parts sv references value shape layers
      | None \<Rightarrow> owned_parts sv references value shape layers))"
| "owned_parts sv references value shape layers =
     (if is_list value then
        (let item = (case item_layer layers of None \<Rightarrow> (JObj [], snd shape) | Some l \<Rightarrow> l) in
        bindE (mapE (\<lambda>x. owned sv references x item x) (list_of value)) (\<lambda>items.
        (let kept = List.map_filter id items in Inr (if kept = [] then None else Some (JArr kept)))))
      else if is_dict value then
        bindE (mapE (\<lambda>(k, child). bindE (owned sv references child
            (case map_of (layer_properties layers) k of None \<Rightarrow> (JObj [], snd shape) | Some l \<Rightarrow> l) value)
          (\<lambda>r. Inr (map_option (Pair k) r))) (dict_of value)) (\<lambda>entries.
        with_identity layers (dict_of value) (List.map_filter id entries))
      else Inr None)"
  by pat_completeness auto
termination
  by (relation "measure (\<lambda>x. case x of Inl (sv, rs, v, l, c) \<Rightarrow> 2 * size v + 1 | Inr (sv, rs, v, l, ls) \<Rightarrow> 2 * size v)")
    (auto simp: is_dict_def is_list_def dict_of_def list_of_def split: json.splits
      dest: size_arr_item size_dict_entry_pair)

declare owned.simps [simp del] owned_parts.simps [simp del]

text \<open>One section of the projection; those that are not arrays are left out.\<close>

definition protected_section ::
  "schema_view \<Rightarrow> string list \<Rightarrow> string \<times> json \<Rightarrow> (string \<times> json list) list res" where
  "protected_section sv references kv =
     (let (name, rows) = kv in
      if name \<in> {''object_changes'', ''requirements'', ''targets''} \<or> \<not> is_list rows then Inr []
      else bindE (required_field (sv_properties sv) name) (\<lambda>shape.
        bindE (owned sv references rows (shape, sv_base sv) rows) (\<lambda>kept.
          Inr [(name, case kept of None \<Rightarrow> [] | Some v \<Rightarrow> list_of v)])))"

definition consent_identifier :: "json \<Rightarrow> json res" where
  "consent_identifier row = required_field (dict_of row) ''consent_policy_id''"

definition kept_policy :: "json list \<Rightarrow> json list \<Rightarrow> json \<Rightarrow> json list res" where
  "kept_policy ids rows item = bindE (consent_identifier item) (\<lambda>k.
     Inr (if list_ex (\<lambda>i. py_eq k i) ids \<or> list_ex (\<lambda>r. py_eq item r) rows then [item] else []))"

definition operation_reference :: "document \<Rightarrow> string \<Rightarrow> string res" where
  "operation_reference d key = (case map_of (rev (map (\<lambda>op. (op_key op, op_id op)) (d_operations d))) key of
     None \<Rightarrow> Inl (KeyError key) | Some k \<Rightarrow> Inr k)"

text \<open>\<^verbatim>\<open>_verified_policy_projection\<close>.\<close>

definition verified_policy_projection :: "schema_view \<Rightarrow> document \<Rightarrow> string list \<Rightarrow> json res" where
  "verified_policy_projection sv d ks =
     bindE (mapE (operation_reference d) ks) (\<lambda>ids.
     bindE (mapE (protected_section sv (ks @ ids)) (materialization_projection d)) (\<lambda>sections.
     (let protected = concat sections;
          section = (\<lambda>k. case map_of protected k of None \<Rightarrow> [] | Some rows \<Rightarrow> rows) in
     bindE (mapE consent_identifier (section ''tag_policies'')) (\<lambda>consents.
     bindE (mapE (kept_policy consents (section ''consent_policies'')) (d_consent_policies d)) (\<lambda>policies.
       Inr (JObj (dset (map (\<lambda>(k, rows). (k, JArr rows)) protected) ''consent_policies''
         (JArr (concat policies)))))))))"

section \<open>Comparing the two graphs\<close>

definition operations_by_key :: "document \<Rightarrow> (string \<times> operation) list" where
  "operations_by_key d = rev (map (\<lambda>op. (op_key op, op)) (d_operations d))"

definition operation_at :: "document \<Rightarrow> string \<Rightarrow> operation option" where
  "operation_at d key = map_of (operations_by_key d) key"

definition same_identities :: "document \<Rightarrow> document \<Rightarrow> bool" where
  "same_identities d e =
     (let ks = map tg_id (run_targets (d_run d)); js = map tg_id (run_targets (d_run e)) in
      set ks = set js \<and> list_all (\<lambda>k. authorized_identity d k = authorized_identity e k) ks)"

definition requirement_print :: "document \<Rightarrow> string \<Rightarrow> string option" where
  "requirement_print d k = map_of (cr_requirement_fingerprints (run_contract (d_run d))) k"

definition same_source :: "document \<Rightarrow> document \<Rightarrow> string \<Rightarrow> unit res" where
  "same_source d e k = (case requirement_print d k of
     None \<Rightarrow> Inl (KeyError k)
   | Some p \<Rightarrow> failE (requirement_print e k \<noteq> Some p)
       (run_error ''Revision preserves approved source semantics of verified consumers''))"

definition same_digests :: "host \<Rightarrow> json \<Rightarrow> json \<Rightarrow> bool" where
  "same_digests h v w = (canonical_sha256 (h_sha256 h) v = canonical_sha256 (h_sha256 h) w)"

text \<open>A verified operation must be in the new graph with the same specification.\<close>

definition verified_kept :: "host \<Rightarrow> document \<Rightarrow> document \<Rightarrow> operation \<Rightarrow> unit res" where
  "verified_kept h d e op =
     bindE (failE (case operation_at e (op_key op) of None \<Rightarrow> True
         | Some new \<Rightarrow> \<not> same_digests h (op_spec op) (op_spec new))
       (run_error ''Verified operations retain their original intent and authority; use an authorized follow-on change''))
       (\<lambda>_. if event_consumer d op then forE (op_requirements op) (same_source d e) else Inr ())"

definition verified_by_key :: "document \<Rightarrow> operation list" where
  "verified_by_key d = filter (\<lambda>op. op_state op = Verified)
     (List.map_filter (operation_at d) (remdups (map op_key (d_operations d))))"

definition owned_intent :: "schema_view \<Rightarrow> document \<Rightarrow> string \<Rightarrow> json res" where
  "owned_intent sv d key = (case operation_at d key of
     None \<Rightarrow> Inr (JObj [(''native'', JNull), (''policies'', JNull), (''requirements'', JObj [])])
   | Some op \<Rightarrow> bindE (verified_policy_projection sv d [key]) (\<lambda>policies.
       Inr (JObj [(''native'', op_spec op), (''policies'', policies),
         (''requirements'', JObj (if event_consumer d op
            then map (\<lambda>k. (k, case requirement_print d k of None \<Rightarrow> JNull | Some p \<Rightarrow> JStr p))
              (remdups (op_requirements op))
            else []))])))"

definition changed_key ::
  "host \<Rightarrow> schema_view \<Rightarrow> document \<Rightarrow> document \<Rightarrow> string \<Rightarrow> string list res" where
  "changed_key h sv d e key =
     bindE (owned_intent sv d key) (\<lambda>old. bindE (owned_intent sv e key) (\<lambda>new.
       Inr (if same_digests h old new then [] else [key])))"

definition changed_keys ::
  "host \<Rightarrow> schema_view \<Rightarrow> document \<Rightarrow> document \<Rightarrow> string list res" where
  "changed_keys h sv d e = bindE (mapE (changed_key h sv d e)
     (remdups (map op_key (d_operations d) @ map op_key (d_operations e)))) (\<lambda>ks. Inr (sort (concat ks)))"

section \<open>The revision\<close>

text \<open>An operation whose specification did not change stays as the run left it.\<close>

definition carried :: "document \<Rightarrow> document \<Rightarrow> operation \<Rightarrow> operation" where
  "carried d e op = (case operation_at d (op_key op) of
     None \<Rightarrow> op
   | Some old \<Rightarrow> (case operation_at e (op_key op) of
       None \<Rightarrow> op | Some new \<Rightarrow> if py_eq (op_spec old) (op_spec new) then old else op))"

definition revision_entry :: "string \<Rightarrow> string \<Rightarrow> string list \<Rightarrow> document \<Rightarrow> document \<Rightarrow> revision" where
  "revision_entry now note' changed d e = \<lparr>rv_at = now, rv_note = note',
     rv_previous = cr_fingerprint (run_contract (d_run d)),
     rv_fingerprint = cr_fingerprint (run_contract (d_run e)), rv_changed = changed\<rparr>"

definition merged_document ::
  "host \<Rightarrow> revision \<Rightarrow> document \<Rightarrow> document \<Rightarrow> document" where
  "merged_document h entry d e = fingerprinted h (update_run (\<lambda>run. run
       \<lparr>run_targets := run_targets (d_run d), run_started_at := run_started_at (d_run d),
        run_revisions := run_revisions (d_run d) @ [entry]\<rparr>)
     (e\<lparr>d_operations := map (carried d e) (d_operations e), d_baselines := d_baselines d,
        d_results := d_results d, d_final_inventories := d_final_inventories d\<rparr>))"

definition revise_from_contract ::
  "host \<Rightarrow> contract_rules \<Rightarrow> schema_view \<Rightarrow> contract \<Rightarrow> string \<Rightarrow> json \<Rightarrow> string \<Rightarrow> document \<Rightarrow> document res" where
  "revise_from_contract h env sv raw expected rationale now d =
     bindE (validate_document h d) (\<lambda>_.
     bindE (failE (canonical_sha256 (h_sha256 h) (document_json d) \<noteq> expected)
       (RunConflictError ''Current run changed since revision inspection'')) (\<lambda>_.
     bindE (case rationale of JStr s \<Rightarrow> if strip s \<noteq> [] then Inr s
         else Inl (run_error ''Revision requires a durable rationale'')
       | _ \<Rightarrow> Inl (run_error ''Revision requires a durable rationale'')) (\<lambda>rationale_text.
     bindE (failE (\<not> list_all (\<lambda>op. op_state op \<in> {Planned, Verified}) (d_operations d))
       (run_error ''Revision requires authoritative reconciliation of every dispatched operation'')) (\<lambda>_.
     bindE (create_from_contract h env (run_id (d_run d)) (cr_source_locator (run_contract (d_run d))) now raw) (\<lambda>e.
     bindE (failE (cr_fingerprint (run_contract (d_run e)) = cr_fingerprint (run_contract (d_run d)))
       (run_error ''Revision requires an approved change to the remaining graph'')) (\<lambda>_.
     bindE (failE (\<not> same_identities d e)
       (run_error (''Revision preserves the current run'' @ [CHR 0x27] @
         ''s authorized target identities''))) (\<lambda>_.
     bindE (forE (verified_by_key d) (verified_kept h d e)) (\<lambda>_.
     (let verified = map op_key (verified_by_key d) in
     bindE (verified_policy_projection sv d verified) (\<lambda>old.
     bindE (verified_policy_projection sv e verified) (\<lambda>new.
     bindE (failE (\<not> same_digests h old new)
       (run_error ''Revision preserves policies and field proofs of verified consumers'')) (\<lambda>_.
     bindE (changed_keys h sv d e) (\<lambda>changed.
     bindE (copyX derive_live_status
       (merged_document h (revision_entry now rationale_text changed d e) d e)) (\<lambda>d'.
     bindE (validate_document h d') (\<lambda>_. Inr d')))))))))))))))"

section \<open>What a revision keeps\<close>

lemma operation_at_member:
  "distinct (map op_key (d_operations d)) \<Longrightarrow> op \<in> set (d_operations d) \<Longrightarrow> operation_at d (op_key op) = Some op"
  unfolding operation_at_def operations_by_key_def rev_map
  by (intro map_of_is_SomeI) (auto simp: rev_map comp_def simp flip: rev_map)

lemma operation_at_SomeD: "operation_at d k = Some op \<Longrightarrow> op \<in> set (d_operations d) \<and> op_key op = k"
  by (auto simp: operation_at_def operations_by_key_def dest: map_of_SomeD)

lemma verified_by_key_set:
  assumes "distinct (map op_key (d_operations d))"
  shows "set (verified_by_key d) = {op \<in> set (d_operations d). op_state op = Verified}"
proof -
  have "List.map_filter (operation_at d) (map op_key (d_operations d)) = d_operations d"
    using operation_at_member [OF assms] by (simp add: List.map_filter_def comp_def cong: map_cong)
  then show ?thesis using assms by (auto simp: verified_by_key_def distinct_remdups_id)
qed

lemma carried_cases:
  "carried d e op = op \<or> carried d e op \<in> set (d_operations d)"
  by (auto simp: carried_def split: option.splits dest: operation_at_SomeD)

text \<open>The stages of an accepted revision.\<close>

lemma revise_stages:
  assumes "revise_from_contract h env sv raw expected rationale now d = Inr d'"
  obtains e changed note' where "validate_document h d = Inr ()" and "validate_document h d' = Inr ()"
    and "canonical_sha256 (h_sha256 h) (document_json d) = expected" and "rationale = JStr note'"
    and "create_from_contract h env (run_id (d_run d)) (cr_source_locator (run_contract (d_run d))) now raw = Inr e"
    and "cr_fingerprint (run_contract (d_run e)) \<noteq> cr_fingerprint (run_contract (d_run d))"
    and "\<And>op. op \<in> set (d_operations d) \<Longrightarrow> op_state op \<in> {Planned, Verified}"
    and "\<And>op. op \<in> set (verified_by_key d) \<Longrightarrow> verified_kept h d e op = Inr ()"
    and "live_frame (merged_document h (revision_entry now note' changed d e) d e) d'"
proof -
  obtain note' e changed where valid: "validate_document h d = Inr ()" "validate_document h d' = Inr ()"
    and "canonical_sha256 (h_sha256 h) (document_json d) = expected" "rationale = JStr note'"
    and "create_from_contract h env (run_id (d_run d)) (cr_source_locator (run_contract (d_run d))) now raw = Inr e"
    and "cr_fingerprint (run_contract (d_run e)) \<noteq> cr_fingerprint (run_contract (d_run d))"
    and "list_all (\<lambda>op. op_state op \<in> {Planned, Verified}) (d_operations d)"
    and "forE (verified_by_key d) (verified_kept h d e) = Inr ()"
    and copied: "copyX derive_live_status (merged_document h (revision_entry now note' changed d e) d e) = Inr d'"
    using assms unfolding revise_from_contract_def Let_def bindE_Inr_iff failE_ok_iff
    by (clarsimp split: json.splits if_splits)
  moreover have "live_frame (merged_document h (revision_entry now note' changed d e) d e) d'"
    by (rule copyX_wp [OF _ copied], rule wpX_mono [OF derive_live_status_wp [OF live_frame_refl]]) simp_all
  ultimately show ?thesis using that unfolding checks_iff list_all_iff by blast
qed

lemma merged_parts:
  "d_operations (merged_document h entry d e) = map (carried d e) (d_operations e)"
  "d_baselines (merged_document h entry d e) = d_baselines d"
  "d_final_inventories (merged_document h entry d e) = d_final_inventories d"
  "run_targets (d_run (merged_document h entry d e)) = run_targets (d_run d)"
  "run_started_at (d_run (merged_document h entry d e)) = run_started_at (d_run d)"
  "run_revisions (d_run (merged_document h entry d e)) = run_revisions (d_run d) @ [entry]"
  "run_contract (d_run (merged_document h entry d e)) = run_contract (d_run e)"
  by (simp_all add: merged_document_def update_run_def)

lemma live_frame_parts:
  assumes "live_frame d d'"
  shows "d_operations d' = d_operations d" and "d_baselines d' = d_baselines d"
    and "d_final_inventories d' = d_final_inventories d" and "run_targets (d_run d') = run_targets (d_run d)"
    and "run_started_at (d_run d') = run_started_at (d_run d)"
    and "run_revisions (d_run d') = run_revisions (d_run d)" and "run_contract (d_run d') = run_contract (d_run d)"
proof -
  have f: "frame d' = frame d" and "d_operations d' = d_operations d" using assms by (simp_all add: live_frame_def)
  then show "d_operations d' = d_operations d" by blast
  show "d_baselines d' = d_baselines d" "d_final_inventories d' = d_final_inventories d"
    "run_targets (d_run d') = run_targets (d_run d)" "run_contract (d_run d') = run_contract (d_run d)"
    using frame_eqD [OF f] by simp_all
  show "run_started_at (d_run d') = run_started_at (d_run d)" "run_revisions (d_run d') = run_revisions (d_run d)"
    using arg_cong [OF f, of "\<lambda>d. run_started_at (d_run d)"] arg_cong [OF f, of "\<lambda>d. run_revisions (d_run d)"]
    by (simp_all add: frame_def)
qed

lemma verified_kept_Inr:
  assumes "verified_kept h d e op = Inr ()"
  obtains new where "operation_at e (op_key op) = Some new" and "same_digests h (op_spec op) (op_spec new)"
  using assms that unfolding verified_kept_def bindE_Inr_iff failE_ok_iff by (auto split: option.splits)

text \<open>A verified operation has its successor in the merged graph.\<close>

lemma carried_verified:
  assumes "distinct (map op_key (d_operations d))" and "op \<in> set (d_operations d)"
    and "verified_kept h d e op = Inr ()"
  shows "\<exists>op' \<in> carried d e ` set (d_operations e). op_key op' = op_key op \<and> same_digests h (op_spec op) (op_spec op') \<and>
    (py_eq (op_spec op) (op_spec op') \<longrightarrow> op' = op)"
proof -
  obtain new where new: "operation_at e (op_key op) = Some new" "same_digests h (op_spec op) (op_spec new)"
    using verified_kept_Inr [OF assms(3)] .
  then have mem: "new \<in> set (d_operations e)" "op_key new = op_key op" by (auto dest: operation_at_SomeD)
  have "carried d e new = (if py_eq (op_spec op) (op_spec new) then op else new)"
    using new(1) mem(2) operation_at_member [OF assms(1,2)] by (simp add: carried_def)
  then have "op_key (carried d e new) = op_key op \<and> same_digests h (op_spec op) (op_spec (carried d e new)) \<and>
      (py_eq (op_spec op) (op_spec (carried d e new)) \<longrightarrow> carried d e new = op)"
    using new(2) mem(2) by (simp add: same_digests_def)
  then show ?thesis using mem(1) by blast
qed

lemma created_planned:
  assumes "create_from_contract h env name source now raw = Inr e" and "op \<in> set (d_operations e)"
  shows "op_state op = Planned \<and> op_journal op = []"
proof -
  obtain c where "materialized_document h c name source now = Inr e" using create_facts [OF assms(1)] by blast
  from materialized_facts(1) [OF this] assms(2) show ?thesis
    by (auto simp: list_all2_conv_all_nth in_set_conv_nth plans_def)
qed

lemma revision_facts:
  assumes "revise_from_contract h env sv raw expected rationale now d = Inr d'"
  shows "validate_document h d' = Inr () \<and> d_baselines d' = d_baselines d \<and>
    d_final_inventories d' = d_final_inventories d \<and> run_targets (d_run d') = run_targets (d_run d) \<and>
    run_started_at (d_run d') = run_started_at (d_run d) \<and>
    (\<exists>entry. run_revisions (d_run d') = run_revisions (d_run d) @ [entry] \<and>
       rv_previous entry = cr_fingerprint (run_contract (d_run d)) \<and>
       rv_fingerprint entry = cr_fingerprint (run_contract (d_run d')) \<and> rv_fingerprint entry \<noteq> rv_previous entry) \<and>
    (\<forall>op \<in> set (d_operations d'). op \<in> set (d_operations d) \<or> op_state op = Planned \<and> op_journal op = []) \<and>
    (\<forall>op \<in> set (d_operations d). op_state op = Verified \<longrightarrow>
       (\<exists>op' \<in> set (d_operations d'). op_key op' = op_key op \<and> same_digests h (op_spec op) (op_spec op') \<and>
         (py_eq (op_spec op) (op_spec op') \<longrightarrow> op' = op)))"
proof -
  obtain e changed note' where valid: "validate_document h d = Inr ()" "validate_document h d' = Inr ()"
    and created: "create_from_contract h env (run_id (d_run d)) (cr_source_locator (run_contract (d_run d))) now raw = Inr e"
    and new: "cr_fingerprint (run_contract (d_run e)) \<noteq> cr_fingerprint (run_contract (d_run d))"
    and kept: "\<And>op. op \<in> set (verified_by_key d) \<Longrightarrow> verified_kept h d e op = Inr ()"
    and live: "live_frame (merged_document h (revision_entry now note' changed d e) d e) d'"
    using revise_stages [OF assms] by metis
  note parts = live_frame_parts [OF live, unfolded merged_parts]
  note keys = validate_document_operations(2) [OF valid(1)]
  have history: "op \<in> set (d_operations d) \<or> op_state op = Planned \<and> op_journal op = []"
    if "op \<in> set (d_operations d')" for op
    using that carried_cases [of d e] created_planned [OF created] unfolding parts(1) by force
  have verified: "\<exists>op' \<in> set (d_operations d'). op_key op' = op_key op \<and> same_digests h (op_spec op) (op_spec op') \<and>
      (py_eq (op_spec op) (op_spec op') \<longrightarrow> op' = op)"
    if "op \<in> set (d_operations d)" "op_state op = Verified" for op
  proof -
    have "op \<in> set (verified_by_key d)" using that verified_by_key_set [OF keys] by blast
    from carried_verified [OF keys that(1) kept [OF this]] show ?thesis unfolding parts(1) by simp
  qed
  have entry: "\<exists>entry. run_revisions (d_run d') = run_revisions (d_run d) @ [entry] \<and>
       rv_previous entry = cr_fingerprint (run_contract (d_run d)) \<and>
       rv_fingerprint entry = cr_fingerprint (run_contract (d_run d')) \<and> rv_fingerprint entry \<noteq> rv_previous entry"
    using new unfolding parts by (intro exI [of _ "revision_entry now note' changed d e"]) (simp add: revision_entry_def)
  show ?thesis using valid(2) parts(2-5) entry history verified by blast
qed

end
