(* ===== verification/SampleContract.thy ===== *)
theory SampleContract
  imports Revision SampleRun
begin

text \<open>
  A small contract, the concrete input of the witnesses on contracts: one folder to create for
  one organisation requirement, the run it starts, and the revision of a run in which that
  folder is verified.
\<close>

definition sample_rules :: contract_rules where
  "sample_rules = \<lparr>cr_today = 0, cr_date = (\<lambda>s. Some 0), cr_bracketed = (\<lambda>s. False),
     cr_domain = (\<lambda>rule c rows. Inr ())\<rparr>"

definition folder_object_base :: contract_object where
  "folder_object_base = \<lparr>co_target = ''T'', co_family = ''folder'', co_name = ''F'',
     co_key = ''T::folder::F'', co_action = Create, co_requirements = [''R''], co_depends = [],
     co_justification = ''j'', co_evidence = [''approved-input''], co_risk = ''routine'',
     co_intended = Some (JObj [(''notes'', JStr ''n'')]), co_pre_change = None, co_object_id = None,
     co_new_name = None, co_approval = None, co_replacement_reason = None, co_permission_delta = None,
     co_public_identifiers = None, co_assertions = None\<rparr>"

definition folder_object :: contract_object where
  "folder_object = folder_object_base\<lparr>co_approval :=
     Some (build_mutation_approval run_host (object_operation folder_object_base) ''doc'')\<rparr>"

definition approved_authority :: json where
  "approved_authority = JObj [(''grade'', JStr ''approved-input''), (''locator'', JStr ''doc'')]"

definition folder_contract :: "string \<Rightarrow> contract" where
  "folder_contract locator = \<lparr>ct_schema_version = contract_schema_version, ct_mode = WebMode,
     ct_route = ''organization'',
     ct_scope = JObj [(''included'', JArr [JStr ''R'']), (''reference_only'', JArr []), (''excluded'', JArr [])],
     ct_requirements = [JObj [(''id'', JStr ''R''), (''authority'', approved_authority)]],
     ct_targets = [JObj [(''target_id'', JStr ''T''), (''container_type'', JStr ''web''),
       (''account_id'', JStr ''1''), (''container_id'', JStr ''2''), (''workspace_id'', JStr ''3''),
       (''authority'', approved_authority)]],
     ct_pipelines = [], ct_consent_policies = [], ct_dedup = [], ct_tag_policies = [],
     ct_page_views = [], ct_first_party = [], ct_dispositions = [],
     ct_execution_mode = IsolatedDurable, ct_objects = [folder_object], ct_bindings = None,
     ct_evidence = [JObj [(''grade'', JStr ''container-confirmed''), (''locator'', JStr locator)]],
     ct_external = []\<rparr>"

text \<open>A run in which the folder of the contract is verified.\<close>

definition sample_schema :: schema_view where
  "sample_schema = \<lparr>sv_properties = map (\<lambda>k. (k, JObj [])) owned_sections, sv_base = [],
     sv_lookup = (\<lambda>b r. Inl (KeyError r)), sv_depth = 2\<rparr>"

definition sample_digest :: string where
  "sample_digest = ''sha256:'' @ replicate 64 (CHR ''0'')"

text \<open>The folder planned for the contract, and as its checkpoint leaves it.\<close>

definition planned_folder :: operation where
  "planned_folder = folder_operation\<lparr>op_id := operation_identifier run_host ''T::folder::F'',
     op_approval := Some (JObj [(''grade'', JStr ''approved-input''), (''locator'', JStr ''doc''),
       (''object_key'', JStr ''T::folder::F''), (''action'', JStr ''create''),
       (''requirement_ids'', JArr [JStr ''R'']), (''payload_sha256'', JStr sample_digest)])\<rparr>"

definition kept_operation :: operation where
  "kept_operation = planned_folder\<lparr>op_state := Verified,
     op_journal := [\<lparr>je_at = ''t'', je_state = Verified, je_note = ''n'', je_result = Some JNull,
       je_error = Some JNull, je_reopened = False, je_convergence_repair = False\<rparr>],
     op_comparison := Some (JObj [(''schema_version'', JStr verification_schema_version),
       (''method'', JStr ''target-scoped-object-graph''),
       (''operation_id'', JStr (operation_identifier run_host ''T::folder::F'')), (''target_id'', JStr ''T''),
       (''expected_sha256'', JStr sample_digest), (''saved_sha256'', JStr sample_digest),
       (''pass'', JBool True),
       (''report'', JObj [(''pass'', JBool True), (''missing_objects'', JArr []), (''extra_objects'', JArr []),
         (''object_differences'', JArr []), (''normalized_expected_count'', JInt 1),
         (''normalized_saved_count'', JInt 1),
         (''secret_comparison'', JObj [(''state'', JStr ''absent''), (''expected_paths'', JArr []),
           (''saved_paths'', JArr []), (''value_equality_claimed'', JBool False),
           (''presence_paths_match'', JBool True)])])]),
     op_saved_readback := Some (saved_folder ''n'')\<rparr>"

definition kept_document :: document where
  "kept_document = run_document run_baseline [kept_operation]"

lemma kept_document_valid: "validate_document run_host kept_document = Inr ()"
  by code_simp

text \<open>The run the contract starts, and the run that continues the verified one with it.\<close>

definition restarted_document :: document where
  "restarted_document = fingerprinted run_host (composed_document (folder_contract ''w'')
     (started_run run_host (folder_contract ''w'') ''run'' ''doc'' ''tt''
        [run_target\<lparr>tg_capabilities := []\<rparr>] [''R''] [(''R'', canonical_sha256 (h_sha256 run_host) JNull)])
     [run_requirement\<lparr>rq_kind := ''organization''\<rparr>] [] [planned_folder] [] [] [])"

definition merged_sample :: document where
  "merged_sample = merged_document run_host
     (revision_entry ''tt'' ''why'' [] kept_document restarted_document) kept_document restarted_document"

lemma sample_created:
  "create_from_contract run_host sample_rules ''run'' ''doc'' ''tt'' (folder_contract ''w'') = Inr restarted_document"
  by code_simp

lemmas sample_defs = run_document_def run_document_base_def update_run_def composed_document_def
  started_run_def fingerprinted_def kept_document_def restarted_document_def Let_def

lemma kept_parts:
  "d_operations kept_document = [kept_operation]" "run_targets (d_run kept_document) = [run_target]"
  "run_id (d_run kept_document) = ''run''" "cr_source_locator (run_contract (d_run kept_document)) = ''doc''"
  "cr_fingerprint (run_contract (d_run kept_document)) = ''f''" "d_consent_policies kept_document = []"
  "d_tag_policies kept_document = []" "d_pipelines kept_document = []" "d_mappings kept_document = []"
  "d_page_views kept_document = []" "d_first_party kept_document = []" "d_dispositions kept_document = []"
  "d_dedup kept_document = []" "d_official_sources kept_document = []" "d_external kept_document = []"
  "d_publication kept_document = []"
  by (simp_all add: sample_defs)

lemma restarted_parts:
  "d_operations restarted_document = [planned_folder]"
  "run_targets (d_run restarted_document) = [run_target\<lparr>tg_capabilities := []\<rparr>]"
  "cr_fingerprint (run_contract (d_run restarted_document)) = ''sha256:'' @ replicate 64 (CHR ''0'')"
  "d_consent_policies restarted_document = []" "d_tag_policies restarted_document = []"
  "d_pipelines restarted_document = []" "d_mappings restarted_document = []"
  "d_page_views restarted_document = []" "d_first_party restarted_document = []"
  "d_dispositions restarted_document = []" "d_dedup restarted_document = []"
  "d_official_sources restarted_document = []" "d_external restarted_document = []"
  "d_publication restarted_document = publication_dependencies WebMode"
  by (simp_all add: sample_defs folder_contract_def canonical_sha256_def run_host_def)

text \<open>The digest of the sample host is constant.\<close>

lemma sample_digests [simp]: "same_digests run_host v w"
  by (simp add: same_digests_def canonical_sha256_def run_host_def)

lemma folder_fields [simp]:
  "op_id planned_folder = operation_identifier run_host ''T::folder::F''"
  "op_key planned_folder = ''T::folder::F''" "op_family planned_folder = ''folder''"
  "op_id kept_operation = operation_identifier run_host ''T::folder::F''"
  "op_key kept_operation = ''T::folder::F''" "op_family kept_operation = ''folder''"
  "op_state kept_operation = Verified"
  by (simp_all add: kept_operation_def planned_folder_def folder_operation_def folder_base_def)

lemma sample_at [simp]:
  "operation_at kept_document k = (if k = ''T::folder::F'' then Some kept_operation else None)"
  "operation_at restarted_document k = (if k = ''T::folder::F'' then Some planned_folder else None)"
  by (simp_all add: operation_at_def operations_by_key_def kept_parts restarted_parts)

lemma sample_identities: "same_identities kept_document restarted_document"
  by (simp add: same_identities_def authorized_identity_def kept_parts restarted_parts)

lemma sample_verified: "verified_by_key kept_document = [kept_operation]"
  by (simp add: verified_by_key_def kept_parts List.map_filter_def)

lemma sample_kept: "verified_kept run_host kept_document restarted_document kept_operation = Inr ()"
  by (simp add: verified_kept_def event_consumer_def failE_def)

lemma sample_policies:
  "\<exists>old. verified_policy_projection sample_schema kept_document [''T::folder::F''] = Inr old"
  "\<exists>new. verified_policy_projection sample_schema restarted_document [''T::folder::F''] = Inr new"
proof -
  have "\<not> isl (verified_policy_projection sample_schema kept_document [''T::folder::F''])"
    unfolding verified_policy_projection_def materialization_projection_def operation_reference_def
      kept_parts list.map folder_fields by code_simp
  then show "\<exists>old. verified_policy_projection sample_schema kept_document [''T::folder::F''] = Inr old"
    by (metis sum.collapse(2))
  have "\<not> isl (verified_policy_projection sample_schema restarted_document [''T::folder::F''])"
    unfolding verified_policy_projection_def materialization_projection_def operation_reference_def
      restarted_parts list.map folder_fields by code_simp
  then show "\<exists>new. verified_policy_projection sample_schema restarted_document [''T::folder::F''] = Inr new"
    by (metis sum.collapse(2))
qed

lemma sample_changes: "changed_keys run_host sample_schema kept_document restarted_document = Inr []"
proof -
  have "changed_key run_host sample_schema kept_document restarted_document ''T::folder::F'' = Inr []"
    using sample_policies by (auto simp: changed_key_def owned_intent_def bindE_Inr_iff)
  then show ?thesis by (simp add: changed_keys_def kept_parts restarted_parts)
qed

lemma sample_merged:
  "map_sum exn_message (validate_document run_host) (copyX derive_live_status merged_sample) = Inr (Inr ())"
  by code_simp

text \<open>The revision is accepted, stage by stage.\<close>

lemma sample_revision:
  "\<exists>d'. revise_from_contract run_host sample_rules sample_schema (folder_contract ''w'')
     (canonical_sha256 (h_sha256 run_host) (document_json kept_document)) (JStr ''why'') ''tt'' kept_document = Inr d'"
proof -
  obtain d' where merged: "copyX derive_live_status merged_sample = Inr d'" "validate_document run_host d' = Inr ()"
    using sample_merged by (cases "copyX derive_live_status merged_sample") auto
  have why: "strip ''why'' = ''why''" by code_simp
  show ?thesis
    unfolding revise_from_contract_def Let_def bindE_Inr_iff failE_ok_iff kept_parts sample_verified
    using kept_document_valid sample_created sample_identities sample_kept sample_changes
      sample_policies merged by (simp add: why restarted_parts merged_sample_def forE_ok_iff)
qed

end
