(* ===== verification/ContractProperties.thy ===== *)
theory ContractProperties
  imports Conformance SampleContract
begin

text \<open>
  What an accepted contract guarantees, what the run it starts is, what a revision keeps, and
  what the comparison of two contracts decides.
\<close>

section \<open>Concrete contracts\<close>

text \<open>Two contracts of one analytics requirement, with their keys and scope in another order.\<close>

definition sample_authority :: json where
  "sample_authority = JObj [(''grade'', JStr ''approved-input''), (''locator'', JStr ''doc'')]"

definition sample_scope :: "string list \<Rightarrow> string list \<Rightarrow> json" where
  "sample_scope included excluded = JObj [(''included'', JArr (map JStr included)),
     (''reference_only'', JArr []), (''excluded'', JArr (map JStr excluded))]"

definition sample_contract :: json where
  "sample_contract = JObj [(''scope'', sample_scope [''R''] [''X'', ''Y'']),
     (''requirements'', JArr [JObj [(''id'', JStr ''R''), (''event_name'', JStr ''e''), (''authority'', sample_authority)]])]"

definition sample_reordered :: json where
  "sample_reordered = JObj [(''requirements'', JArr [JObj [(''authority'', sample_authority), (''id'', JStr ''R''),
     (''event_name'', JStr ''e'')]]), (''scope'', sample_scope [''R''] [''Y'', ''X''])]"

section \<open>The scope of a contract\<close>

text \<open>
  An accepted contract has one requirement per included identifier and no other: the
  identifiers are distinct, they are exactly those of the included part of the scope, and the
  three parts of the scope exclude each other.
\<close>

theorem scope_is_partitioned:
  assumes "validate_scope_and_requirements contract route = Inr ids"
  shows "distinct ids \<and> set ids = set (scope_part contract ''included'') \<and>
    length ids = length (list_of (get_or_null contract ''requirements'')) \<and>
    set (scope_part contract ''included'') \<inter> set (scope_part contract ''reference_only'') = {} \<and>
    set (scope_part contract ''included'') \<inter> set (scope_part contract ''excluded'') = {} \<and>
    set (scope_part contract ''reference_only'') \<inter> set (scope_part contract ''excluded'') = {}"
  using validate_scope_facts [OF assms] by (auto dest: list_all2_lengthD)

lemma scope_is_partitioned_witness:
  "scope_part (dict_of sample_contract) ''included'' = [''R''] \<and>
   scope_part (dict_of sample_contract) ''excluded'' = [''X'', ''Y''] \<and>
   set (scope_part (dict_of sample_contract) ''included'') \<inter> set (scope_part (dict_of sample_contract) ''excluded'') = {}"
proof -
  have "validate_scope_and_requirements (dict_of sample_contract) (JStr ''analytics'') = Inr [''R'']" by code_simp
  from scope_is_partitioned [OF this]
  have "set (scope_part (dict_of sample_contract) ''included'') \<inter> set (scope_part (dict_of sample_contract) ''excluded'') = {}"
    by blast
  moreover have "scope_part (dict_of sample_contract) ''included'' = [''R'']"
    "scope_part (dict_of sample_contract) ''excluded'' = [''X'', ''Y'']" by code_simp+
  ultimately show ?thesis by blast
qed

section \<open>Conformance\<close>

text \<open>
  C40. The comparison of two contracts passes exactly when they agree: their scopes are equal up
  to the order of keys and arrays, they have the same requirement identifiers, and requirements
  of one identifier are equal JSON values up to the order of keys.
\<close>

theorem conformance_decides:
  assumes "compare_contracts h approved candidate = Inr r" and "wf_json approved" and "wf_json candidate"
  shows "cf_pass r \<longleftrightarrow> contracts_agree approved candidate"
  by (rule compare_contracts_decides [OF assms])

lemma conformance_decides_witness: "contracts_agree sample_contract sample_reordered"
proof -
  have pass: "map_sum (\<lambda>_. ()) cf_pass (compare_contracts run_host sample_contract sample_reordered) = Inr True" by code_simp
  then obtain r where r: "compare_contracts run_host sample_contract sample_reordered = Inr r" "cf_pass r"
    by (cases "compare_contracts run_host sample_contract sample_reordered") auto
  have "wf_json sample_contract" "wf_json sample_reordered" by code_simp+
  from conformance_decides [OF r(1) this] show ?thesis using r(2) by blast
qed

section \<open>Accepted contracts\<close>

text \<open>
  C14. The objects of an accepted contract have distinct keys, depend only on each other, without
  cycles, and implement every requirement in scope; a mutating one carries the approval that is
  derived from its payload and from the locator of a requirement it serves.
\<close>

theorem contract_authorizes_objects:
  assumes "validate_contract h env raw = Inr c"
  shows "\<exists>objects reqs ids. ct_objects c = map snd objects \<and> requirement_by_id (ct_requirements c) = Inr reqs \<and>
    validate_scope_and_requirements (contract_dict raw) (JStr (strip (ct_route raw))) = Inr ids \<and>
    distinct (keys objects) \<and> acyclic (edges (object_graph objects)) \<and>
    (\<forall>(k, o') \<in> set objects. strip (co_key o') = k \<and> set (co_depends o') \<subseteq> set (keys objects) \<and>
       (mutating_action (co_action o') \<longrightarrow> object_authorized h reqs o')) \<and>
    (\<forall>k \<in> set ids. \<exists>o' \<in> set (ct_objects c). k \<in> set (co_requirements o'))"
proof -
  obtain ids targets reqs objects where scope: "validate_scope_and_requirements (contract_dict raw) (JStr (strip (ct_route raw))) = Inr ids"
    and reqs: "requirement_by_id (ct_requirements raw) = Inr reqs"
    and objects: "validate_objects h targets reqs (ct_objects raw) = Inr objects"
    and c: "c = raw\<lparr>ct_objects := map snd objects\<rparr>" and all: "missing_implementation ids (ct_objects c) = []"
    using validate_contract_facts [OF assms] by metis
  note facts = validate_objects_facts [OF objects]
  have "strip (co_key o') = k \<and> set (co_depends o') \<subseteq> set (keys objects) \<and>
      (mutating_action (co_action o') \<longrightarrow> object_authorized h reqs o')" if "(k, o') \<in> set objects" for k o'
    using facts(3) [OF that] facts(4) [OF that] accepted_authorized [OF facts(3) [OF that]]
    unfolding object_accepted_def by auto
  moreover have "ct_objects c = map snd objects" "requirement_by_id (ct_requirements c) = Inr reqs"
    using reqs by (simp_all add: c)
  ultimately show ?thesis
    using scope facts(1,5) all unfolding missing_implementation_Nil by blast
qed

lemma contract_authorizes_objects_witness:
  "\<exists>c o' reqs. validate_contract run_host sample_rules (folder_contract ''w'') = Inr c \<and> o' \<in> set (ct_objects c) \<and>
     object_authorized run_host reqs o'"
proof -
  obtain c where valid: "validate_contract run_host sample_rules (folder_contract ''w'') = Inr c"
    and d: "materialized_document run_host c ''run'' ''doc'' ''tt'' = Inr restarted_document"
    using create_facts [OF sample_created] by blast
  obtain o' where o': "ct_objects c = [o']" "plans run_host o' planned_folder"
    using materialized_facts(1) [OF d] by (auto simp: restarted_parts list_all2_Cons2)
  then have mutating: "mutating_action (co_action o')"
    by (auto simp: plans_def planned_folder_def folder_operation_def folder_base_def mutating_action_def)
  obtain objects reqs where objects: "ct_objects c = map snd objects"
    and all: "\<forall>(k, o') \<in> set objects. strip (co_key o') = k \<and> set (co_depends o') \<subseteq> set (keys objects) \<and>
       (mutating_action (co_action o') \<longrightarrow> object_authorized run_host reqs o')"
    using contract_authorizes_objects [OF valid] by (elim exE conjE)
  obtain k where "(k, o') \<in> set objects" using objects o'(1) by (cases objects) auto
  then have "object_authorized run_host reqs o'" using all mutating by blast
  then show ?thesis using valid o'(1) by auto
qed

section \<open>Runs\<close>

text \<open>
  C12. The run a contract starts is valid and plans exactly the objects of the accepted contract,
  one untouched operation each under the identifiers of its dependencies; a requirement lists
  exactly the operations that serve it, themselves or through their dependents; and nothing is
  ready before the targets are captured.
\<close>

theorem created_run_follows_contract:
  assumes "create_from_contract h env name source now raw = Inr d"
  shows "\<exists>c. validate_contract h env raw = Inr c \<and> list_all2 (plans h) (ct_objects c) (d_operations d) \<and>
    validate_document h d = Inr () \<and>
    cr_fingerprint (run_contract (d_run d)) = canonical_sha256 (h_sha256 h) (contract_json c) \<and>
    (\<forall>r \<in> set (d_requirements d). serves_requirement d r) \<and>
    (\<forall>i. inspect_validated_document h d = Inr i \<longrightarrow> in_ready i = [])"
proof -
  obtain c where c: "validate_contract h env raw = Inr c" "validate_document h d = Inr ()"
    and d: "materialized_document h c name source now = Inr d"
    using create_facts [OF assms] by blast
  then show ?thesis using materialized_facts(1,2,5) [OF d] created_nothing_ready [OF d] by blast
qed

lemma created_run_follows_contract_witness:
  "validate_document run_host restarted_document = Inr () \<and>
   (\<exists>c. validate_contract run_host sample_rules (folder_contract ''w'') = Inr c \<and>
     list_all2 (plans run_host) (ct_objects c) (d_operations restarted_document))"
  using created_run_follows_contract [OF sample_created] by blast

text \<open>
  C13. A revision keeps the work of the run: targets, baselines and inventories stay, every
  operation is one of the run as it was or a planned one without history, every verified
  operation stays in the graph with a specification of the same fingerprint (and unchanged, with
  its evidence, when the specification is equal), and exactly one entry joins the fingerprints of
  the two different contracts.
\<close>

theorem revision_keeps_verified_work:
  assumes "revise_from_contract h env sv raw expected rationale now d = Inr d'"
  shows "validate_document h d' = Inr () \<and> d_baselines d' = d_baselines d \<and>
    d_final_inventories d' = d_final_inventories d \<and> run_targets (d_run d') = run_targets (d_run d) \<and>
    run_started_at (d_run d') = run_started_at (d_run d) \<and>
    (\<exists>entry. run_revisions (d_run d') = run_revisions (d_run d) @ [entry] \<and>
       rv_previous entry = cr_fingerprint (run_contract (d_run d)) \<and>
       rv_fingerprint entry = cr_fingerprint (run_contract (d_run d')) \<and> rv_fingerprint entry \<noteq> rv_previous entry) \<and>
    (\<forall>op \<in> set (d_operations d'). op \<in> set (d_operations d) \<or> op_state op = Planned \<and> op_journal op = []) \<and>
    (\<forall>op \<in> set (d_operations d). op_state op = Verified \<longrightarrow>
       (\<exists>op' \<in> set (d_operations d'). op_key op' = op_key op \<and> same_digests h (op_spec op) (op_spec op') \<and>
         (py_eq (op_spec op) (op_spec op') \<longrightarrow> op' = op)))"
  by (rule revision_facts [OF assms])

lemma revision_keeps_verified_work_witness:
  "\<exists>d' op'. revise_from_contract run_host sample_rules sample_schema (folder_contract ''w'')
     (canonical_sha256 (h_sha256 run_host) (document_json kept_document)) (JStr ''why'') ''tt'' kept_document = Inr d' \<and>
   d_baselines d' = [run_baseline] \<and> op' \<in> set (d_operations d') \<and> op_key op' = ''T::folder::F''"
proof -
  obtain d' where d': "revise_from_contract run_host sample_rules sample_schema (folder_contract ''w'')
     (canonical_sha256 (h_sha256 run_host) (document_json kept_document)) (JStr ''why'') ''tt'' kept_document = Inr d'"
    using sample_revision by blast
  have "kept_operation \<in> set (d_operations kept_document)" "d_baselines kept_document = [run_baseline]"
    by (simp_all add: kept_parts) (simp add: sample_defs)
  then show ?thesis using revision_keeps_verified_work [OF d'] d' by force
qed

end
