(* ===== verification/JsonFiles.thy ===== *)
theory JsonFiles
  imports JsonValues
begin

text \<open>
  \<^verbatim>\<open>core/json_io.py\<close>: the strict JSON reader and the text the artifacts are written as.
  The reader is Python's \<^verbatim>\<open>json.loads\<close> with the two hooks of the program; the text of a
  number that is not an integer becomes what Python prints for it, which is the argument
  \<open>shown\<close>. Characters above 255 are outside the model.
\<close>

section \<open>Numbers\<close>

definition decode_error :: exn where "decode_error = ValueError ''JSONDecodeError''"

definition json_space :: "char \<Rightarrow> bool" where
  "json_space c \<longleftrightarrow> c \<in> {CHR '' '', CHR 0x09, CHR 0x0A, CHR 0x0D}"

definition skip_space :: "string \<Rightarrow> string" where
  "skip_space s = dropWhile json_space s"

definition sign_of :: "string \<Rightarrow> char set \<Rightarrow> string" where
  "sign_of s signs = (case s of [] \<Rightarrow> [] | c # _ \<Rightarrow> if c \<in> signs then [c] else [])"

definition int_part :: "string \<Rightarrow> (string \<times> string) option" where
  "int_part s = (let sign = sign_of s {CHR ''-''}; t = drop (length sign) s in
     (case t of [] \<Rightarrow> None
      | c # u \<Rightarrow> if c = CHR ''0'' then Some (sign @ [c], u)
          else if is_digit c then Some (sign @ takeWhile is_digit t, dropWhile is_digit t) else None))"

definition fraction_part :: "string \<Rightarrow> string \<times> string" where
  "fraction_part t = (case t of [] \<Rightarrow> ([], [])
     | c # u \<Rightarrow> if c = CHR ''.'' \<and> takeWhile is_digit u \<noteq> []
         then (c # takeWhile is_digit u, dropWhile is_digit u) else ([], t))"

definition exponent_part :: "string \<Rightarrow> string \<times> string" where
  "exponent_part t = (case t of [] \<Rightarrow> ([], [])
     | c # u \<Rightarrow> (let sign = sign_of u {CHR ''+'', CHR ''-''}; w = drop (length sign) u in
         if c \<in> {CHR ''e'', CHR ''E''} \<and> takeWhile is_digit w \<noteq> []
         then (c # sign @ takeWhile is_digit w, dropWhile is_digit w) else ([], t)))"

definition digits_value :: "string \<Rightarrow> nat" where
  "digits_value ds = foldl (\<lambda>n c. 10 * n + (of_char c - 48)) 0 ds"

definition int_value :: "string \<Rightarrow> int" where
  "int_value s = (let sign = sign_of s {CHR ''-''} in
     (if sign = [] then 1 else - 1) * int (digits_value (drop (length sign) s)))"

definition read_number :: "(string \<Rightarrow> string) \<Rightarrow> string \<Rightarrow> (json \<times> string) option" where
  "read_number shown s = (case int_part s of
     None \<Rightarrow> None
   | Some (i, t) \<Rightarrow> (let (f, u) = fraction_part t; (e, w) = exponent_part u in
       Some (if f @ e = [] then JInt (int_value i) else JFloat (shown (i @ f @ e)), w)))"

section \<open>Texts\<close>

definition hex_value :: "char \<Rightarrow> nat option" where
  "hex_value c = (let n = of_char c :: nat in
     if 48 \<le> n \<and> n \<le> 57 then Some (n - 48) else if 97 \<le> n \<and> n \<le> 102 then Some (n - 87)
     else if 65 \<le> n \<and> n \<le> 70 then Some (n - 55) else None)"

definition simple_escape :: "char \<Rightarrow> char option" where
  "simple_escape c =
     (if c \<in> {CHR 0x22, CHR 0x5C, CHR ''/''} then Some c
      else map_of [(CHR ''b'', CHR 0x08), (CHR ''f'', CHR 0x0C), (CHR ''n'', CHR 0x0A),
        (CHR ''r'', CHR 0x0D), (CHR ''t'', CHR 0x09)] c)"

definition code_point :: "char \<Rightarrow> char \<Rightarrow> char \<Rightarrow> char \<Rightarrow> char res" where
  "code_point a b c d = (case (hex_value a, hex_value b, hex_value c, hex_value d) of
     (Some w, Some x, Some y, Some z) \<Rightarrow>
       if w = 0 \<and> x = 0 then Inr (char_of (16 * y + z)) else Inl (OtherError ''character above 255'')
   | _ \<Rightarrow> Inl decode_error)"

definition with_char :: "char \<Rightarrow> (string \<times> string) res \<Rightarrow> (string \<times> string) res" where
  "with_char c r = bindE r (\<lambda>(s, t). Inr (c # s, t))"

fun read_chars :: "string \<Rightarrow> (string \<times> string) res" where
  "read_chars [] = Inl decode_error"
| "read_chars (c # s) =
     (if c = CHR 0x22 then Inr ([], s)
      else if c = CHR 0x5C then (case s of
          [] \<Rightarrow> Inl decode_error
        | e # t \<Rightarrow> if e = CHR ''u'' then (case t of
            h # i # j # k # u \<Rightarrow> (case code_point h i j k of Inl x \<Rightarrow> Inl x | Inr x \<Rightarrow> with_char x (read_chars u))
            | _ \<Rightarrow> Inl decode_error)
          else (case simple_escape e of None \<Rightarrow> Inl decode_error | Some x \<Rightarrow> with_char x (read_chars t)))
      else if (of_char c :: nat) < 32 then Inl decode_error
      else with_char c (read_chars s))"

declare read_chars.simps [simp del]

section \<open>Values\<close>

definition duplicate_key :: "string \<Rightarrow> exn" where
  "duplicate_key k = StrictJsonError (''duplicate JSON key '' @ py_repr k) ''invalid_json''"

definition reject_duplicate_keys :: "dict \<Rightarrow> dict res" where
  "reject_duplicate_keys ps = foldE (\<lambda>d (k, v).
     if k \<in> set (keys d) then Inl (duplicate_key k) else Inr (d @ [(k, v)])) [] ps"

definition read_constant :: "string \<Rightarrow> (json \<times> string) res" where
  "read_constant s =
     (case find (starts_with s) [''NaN'', ''Infinity'', ''-Infinity''] of
        Some c \<Rightarrow> Inl (StrictJsonError (''non-finite JSON number '' @ py_repr c @ '' is not supported'') ''invalid_json'')
      | None \<Rightarrow> Inl decode_error)"

definition read_scalar :: "(string \<Rightarrow> string) \<Rightarrow> string \<Rightarrow> (json \<times> string) res" where
  "read_scalar shown s =
     (if starts_with s ''null'' then Inr (JNull, drop 4 s)
      else if starts_with s ''true'' then Inr (JBool True, drop 4 s)
      else if starts_with s ''false'' then Inr (JBool False, drop 5 s)
      else (case read_number shown s of Some p \<Rightarrow> Inr p | None \<Rightarrow> read_constant s))"

text \<open>The character a text starts with.\<close>

definition at_char :: "char \<Rightarrow> string \<Rightarrow> bool" where
  "at_char c s \<longleftrightarrow> s \<noteq> [] \<and> hd s = c"

text \<open>
  Fuel stands for the recursion; \<open>2 * length s + 1\<close> is enough for any text. The interpreter may
  stop earlier, at its own recursion limit, which the model does not bound.
\<close>

fun read_value :: "(string \<Rightarrow> string) \<Rightarrow> nat \<Rightarrow> string \<Rightarrow> (json \<times> string) res"
and read_items :: "(string \<Rightarrow> string) \<Rightarrow> nat \<Rightarrow> string \<Rightarrow> (json list \<times> string) res"
and read_members :: "(string \<Rightarrow> string) \<Rightarrow> nat \<Rightarrow> string \<Rightarrow> (dict \<times> string) res" where
  "read_value shown 0 s = Inl (OtherError ''RecursionError'')"
| "read_value shown (Suc n) s =
     (if at_char (CHR 0x22) s then bindE (read_chars (tl s)) (\<lambda>(x, r). Inr (JStr x, r))
      else if at_char (CHR ''['') s then
        (let u = skip_space (tl s) in
         if at_char (CHR '']'') u then Inr (JArr [], tl u)
         else bindE (read_items shown n u) (\<lambda>(xs, r). Inr (JArr xs, r)))
      else if at_char (CHR ''{'') s then
        (let u = skip_space (tl s) in
         if at_char (CHR ''}'') u then Inr (JObj [], tl u)
         else bindE (read_members shown n u) (\<lambda>(ps, r).
           bindE (reject_duplicate_keys ps) (\<lambda>d. Inr (JObj d, r))))
      else read_scalar shown s)"
| "read_items shown 0 s = Inl (OtherError ''RecursionError'')"
| "read_items shown (Suc n) s = bindE (read_value shown n s) (\<lambda>(v, r).
     (let u = skip_space r in
      if at_char (CHR '']'') u then Inr ([v], tl u)
      else if at_char (CHR '','') u then
        bindE (read_items shown n (skip_space (tl u))) (\<lambda>(vs, w). Inr (v # vs, w))
      else Inl decode_error))"
| "read_members shown 0 s = Inl (OtherError ''RecursionError'')"
| "read_members shown (Suc n) s =
     (if \<not> at_char (CHR 0x22) s then Inl decode_error
      else bindE (read_chars (tl s)) (\<lambda>(k, r).
        (let u = skip_space r in
         if \<not> at_char (CHR '':'') u then Inl decode_error
         else bindE (read_value shown n (skip_space (tl u))) (\<lambda>(v, t).
           (let w = skip_space t in
            if at_char (CHR ''}'') w then Inr ([(k, v)], tl w)
            else if at_char (CHR '','') w then
              bindE (read_members shown n (skip_space (tl w))) (\<lambda>(ps, x). Inr ((k, v) # ps, x))
            else Inl decode_error)))))"

declare read_value.simps [simp del] read_items.simps [simp del] read_members.simps [simp del]

definition read_json :: "(string \<Rightarrow> string) \<Rightarrow> string \<Rightarrow> json res" where
  "read_json shown s = (let t = skip_space s in
     bindE (read_value shown (2 * length t + 1) t) (\<lambda>(v, r).
       if skip_space r = [] then Inr v else Inl decode_error))"

section \<open>Nesting\<close>

text \<open>The stack of \<^verbatim>\<open>_validate_depth\<close>; its top is the head of the list.\<close>

definition children :: "json \<Rightarrow> json list" where
  "children v = (case v of JObj d \<Rightarrow> map snd d | JArr xs \<Rightarrow> xs | _ \<Rightarrow> [])"

lemma size_children: "sum_list (map (Suc \<circ> size) (children v)) \<le> size v"
proof (cases v)
  case (JArr xs)
  have "sum_list (map (Suc \<circ> size) xs) \<le> size_list size xs" by (induction xs) auto
  then show ?thesis by (simp add: children_def JArr)
next
  case (JObj d)
  have "sum_list (map (Suc \<circ> size \<circ> snd) d) \<le> size_list (size_prod (\<lambda>_. 0) size) d" by (induction d) auto
  then show ?thesis by (simp add: children_def JObj comp_def)
qed (simp_all add: children_def)

function within_depth :: "nat \<Rightarrow> (json \<times> nat) list \<Rightarrow> bool" where
  "within_depth limit [] = True"
| "within_depth limit ((v, depth) # stack) =
     (if limit < depth then False
      else within_depth limit (rev (map (\<lambda>w. (w, Suc depth)) (children v)) @ stack))"
  by pat_completeness auto
termination
  by (relation "measure (\<lambda>(limit, stack). sum_list (map (Suc \<circ> size \<circ> fst) stack))")
    (use size_children in \<open>auto simp: comp_def sum_list_rev simp flip: rev_map intro: le_imp_less_Suc\<close>)

definition max_json_depth :: nat where "max_json_depth = 256"
definition max_json_bytes :: nat where "max_json_bytes = 64 * 1024 * 1024"

definition validate_depth :: "nat \<Rightarrow> json \<Rightarrow> unit res" where
  "validate_depth limit v = failE (\<not> within_depth limit [(v, 0)])
     (StrictJsonError (''JSON nesting exceeds the '' @ show_nat limit @ ''-level safety limit'') ''json_depth'')"

section \<open>Loading\<close>

definition loads_strict :: "(string \<Rightarrow> string) \<Rightarrow> string \<Rightarrow> nat \<Rightarrow> string \<Rightarrow> json res" where
  "loads_strict shown source limit s =
     bindE (case read_json shown s of
         Inl e \<Rightarrow> Inl (if e = decode_error then StrictJsonError (''invalid JSON in '' @ source) ''invalid_json''
           else if e = OtherError ''RecursionError''
             then StrictJsonError (''JSON nesting in '' @ source @ '' exceeds the parser safety limit'') ''json_depth''
           else e)
       | Inr v \<Rightarrow> Inr v) (\<lambda>v.
     bindE (validate_depth limit v) (\<lambda>_. Inr v))"

text \<open>What reading a file gives: an error, or its size and its text, if it is UTF-8.\<close>

datatype file_bytes = Unreadable string | Bytes nat "string option"

definition load_json :: "(string \<Rightarrow> string) \<Rightarrow> string \<Rightarrow> nat \<Rightarrow> file_bytes \<Rightarrow> json res" where
  "load_json shown path limit f = (case f of
     Unreadable m \<Rightarrow> Inl (StrictJsonError (''cannot read '' @ path @ '': '' @ m) ''io_error'')
   | Bytes n decoded \<Rightarrow>
       if limit < n then Inl (StrictJsonError (''JSON file '' @ path @ '' exceeds the '' @ show_nat limit @
         ''-byte safety limit'') ''json_size'')
       else (case decoded of
           None \<Rightarrow> Inl (StrictJsonError (path @ '' is not valid UTF-8'') ''invalid_encoding'')
         | Some s \<Rightarrow> loads_strict shown path max_json_depth s))"

section \<open>Writing\<close>

text \<open>
  \<^verbatim>\<open>json.dump\<close> with sorted keys. \<open>br n\<close> starts a line at nesting \<open>n\<close>; with nothing there
  this is the compact form of the fingerprints.
\<close>

fun render :: "(nat \<Rightarrow> string) \<Rightarrow> string \<Rightarrow> nat \<Rightarrow> json \<Rightarrow> string" where
  "render br colon n (JArr xs) = (if xs = [] then ''[]'' else ''['' @ br (Suc n) @
     join ('','' @ br (Suc n)) (map (render br colon (Suc n)) xs) @ br n @ '']'')"
| "render br colon n (JObj d) = (if d = [] then ''{}'' else ''{'' @ br (Suc n) @
     join ('','' @ br (Suc n)) (map (\<lambda>k. dump_str False k @ colon @ (case map_of d k of None \<Rightarrow> []
        | Some v \<Rightarrow> render br colon (Suc n) v)) (sorted_set (keys d))) @ br n @ ''}'')"
| "render br colon n v = dumps False [] [] v"

definition indented :: "nat \<Rightarrow> string" where
  "indented n = CHR 0x0A # replicate (2 * n) (CHR '' '')"

definition file_text :: "json \<Rightarrow> string" where
  "file_text v = render indented '': '' 0 v @ [CHR 0x0A]"

text \<open>
  \<^verbatim>\<open>write_json_atomic\<close> as the steps on the directory, a map from paths to texts: the
  temporary file is made, written and moved over the target. The \<^verbatim>\<open>finally\<close> removes what is
  left of it.
\<close>

type_synonym directory = "string \<Rightarrow> string option"

definition move_file :: "string \<Rightarrow> string \<Rightarrow> directory \<Rightarrow> directory" where
  "move_file from to fs = fs(to := fs from, from := None)"

definition atomic_steps :: "string \<Rightarrow> string \<Rightarrow> string \<Rightarrow> (directory \<Rightarrow> directory) list" where
  "atomic_steps temporary path s =
     [(\<lambda>fs. fs(temporary := Some [])),
      (\<lambda>fs. fs(temporary := Some s)),
      (\<lambda>fs. fs(temporary := Some (s @ [CHR 0x0A]))),
      move_file temporary path]"

text \<open>The directory when the first \<open>n\<close> steps were done, and what the \<^verbatim>\<open>finally\<close> makes of it.\<close>

definition after_steps :: "nat \<Rightarrow> string \<Rightarrow> string \<Rightarrow> string \<Rightarrow> directory \<Rightarrow> directory" where
  "after_steps n temporary path s fs = fold (\<lambda>step. step) (take n (atomic_steps temporary path s)) fs"

definition cleaned :: "string \<Rightarrow> directory \<Rightarrow> directory" where
  "cleaned temporary fs = fs(temporary := None)"

definition write_json_atomic :: "string \<Rightarrow> string \<Rightarrow> json \<Rightarrow> directory \<Rightarrow> directory" where
  "write_json_atomic temporary path v fs =
     cleaned temporary (after_steps 4 temporary path (render indented '': '' 0 v) fs)"

end
