(* ===== verification/JsonRoundtrip.thy ===== *)
theory JsonRoundtrip
  imports JsonFiles Conformance
begin

text \<open>
  What the strict reader makes of a written text: the same value with the keys of its objects
  sorted. Hence the canonical text of a value determines it up to the order of keys.
\<close>

section \<open>Nesting\<close>

fun json_depth :: "json \<Rightarrow> nat" where
  "json_depth (JArr xs) = (if xs = [] then 0 else Suc (Max (set (map json_depth xs))))"
| "json_depth (JObj d) = (if d = [] then 0 else Suc (Max (set (map (json_depth \<circ> snd) d))))"
| "json_depth v = 0"

lemma Suc_Max_le:
  assumes "xs \<noteq> []"
  shows "Suc (d + Max (f ` set xs)) \<le> limit \<longleftrightarrow> (\<forall>x \<in> set xs. Suc (d + f x) \<le> (limit :: nat))"
proof -
  have "Suc (d + m) \<le> limit \<longleftrightarrow> Suc d \<le> limit \<and> m \<le> limit - Suc d" for m by auto
  then show ?thesis using assms by (cases xs) (auto simp del: image_insert)
qed

lemma json_depth_children:
  "d + json_depth v \<le> limit \<longleftrightarrow> d \<le> limit \<and> (\<forall>w \<in> set (children v). Suc d + json_depth w \<le> limit)"
proof (cases v)
  case (JArr xs)
  show ?thesis
  proof (cases "xs = []")
    case False
    then obtain x where "x \<in> set xs" by (cases xs) auto
    then show ?thesis using False Suc_Max_le [OF False, of d json_depth limit] by (force simp: children_def JArr)
  qed (simp add: children_def JArr)
next
  case (JObj e)
  show ?thesis
  proof (cases "e = []")
    case False
    then obtain x where "x \<in> set e" by (cases e) auto
    then show ?thesis using False Suc_Max_le [OF False, of d "json_depth \<circ> snd" limit]
      by (force simp: children_def JObj comp_def)
  qed (simp add: children_def JObj)
qed (simp_all add: children_def)

lemma within_depth_iff: "within_depth limit stack \<longleftrightarrow> (\<forall>(v, d) \<in> set stack. d + json_depth v \<le> limit)"
proof (induction limit stack rule: within_depth.induct)
  case (2 limit v depth stack)
  show ?case
  proof (cases "limit < depth")
    case False
    then show ?thesis using 2 json_depth_children [of depth v limit] by (simp add: ball_Un)
  qed simp
qed simp

section \<open>Numbers\<close>

definition number_end :: "string \<Rightarrow> bool" where
  "number_end r \<longleftrightarrow> r = [] \<or> \<not> is_digit (hd r) \<and> hd r \<notin> {CHR ''.'', CHR ''e'', CHR ''E'', CHR ''+'', CHR ''-''}"

lemma takeWhile_digits: "number_end r \<Longrightarrow> takeWhile is_digit (ds @ r) = takeWhile is_digit ds"
  and dropWhile_digits: "number_end r \<Longrightarrow> dropWhile is_digit (ds @ r) = dropWhile is_digit ds @ r"
  by (induction ds) (cases r; simp add: number_end_def)+

lemma sign_of_append: "number_end r \<Longrightarrow> signs \<subseteq> {CHR ''+'', CHR ''-''} \<Longrightarrow> sign_of (u @ r) signs = sign_of u signs"
  by (cases u; cases r) (auto simp: sign_of_def number_end_def)

lemma length_sign_of: "length (sign_of u signs) \<le> length u"
  by (cases u) (simp_all add: sign_of_def)

lemma drop_sign: "drop (length (sign_of u signs)) (u @ r) = drop (length (sign_of u signs)) u @ r"
  using length_sign_of [of u signs] by simp

lemma int_part_append:
  assumes "number_end r" and "int_part s = Some (i, t)"
  shows "int_part (s @ r) = Some (i, t @ r)"
proof -
  let ?sign = "sign_of s {CHR ''-''}"
  obtain c u where u: "drop (length ?sign) s = c # u"
    using assms(2) by (cases "drop (length ?sign) s") (auto simp: int_part_def Let_def)
  have "drop (length ?sign) (s @ r) = c # u @ r" using u drop_sign [of s "{CHR ''-''}" r] by simp
  then show ?thesis
    using assms u takeWhile_digits [OF assms(1), of "c # u"] dropWhile_digits [OF assms(1), of "c # u"]
    by (auto simp: int_part_def Let_def sign_of_append split: if_splits)
qed

lemma fraction_part_append:
  assumes "number_end r" and "fraction_part t = (f, u)"
  shows "fraction_part (t @ r) = (f, u @ r)"
proof (cases t)
  case Nil
  then show ?thesis using assms by (cases r) (auto simp: fraction_part_def number_end_def)
next
  case (Cons c w)
  then show ?thesis using assms takeWhile_digits [OF assms(1), of w] dropWhile_digits [OF assms(1), of w]
    by (auto simp: fraction_part_def split: if_splits)
qed

lemma exponent_part_append:
  assumes "number_end r" and "exponent_part t = (e, u)"
  shows "exponent_part (t @ r) = (e, u @ r)"
proof (cases t)
  case Nil
  then show ?thesis using assms by (cases r) (auto simp: exponent_part_def number_end_def Let_def)
next
  case (Cons c w)
  let ?sign = "sign_of w {CHR ''+'', CHR ''-''}"
  let ?w = "drop (length ?sign) w"
  have "drop (length ?sign) (w @ r) = ?w @ r" by (rule drop_sign)
  then show ?thesis
    using Cons assms takeWhile_digits [OF assms(1), of ?w] dropWhile_digits [OF assms(1), of ?w]
    by (auto simp: exponent_part_def Let_def sign_of_append split: if_splits)
qed

text \<open>A float is printed as Python's \<^verbatim>\<open>repr\<close> prints it: read again, it is the same text.\<close>

definition printed_float :: "(string \<Rightarrow> string) \<Rightarrow> string \<Rightarrow> bool" where
  "printed_float shown s \<longleftrightarrow> read_number shown s = Some (JFloat s, [])"

lemma read_number_append:
  assumes "number_end r" and "read_number shown s = Some (v, t)"
  shows "read_number shown (s @ r) = Some (v, t @ r)"
proof -
  obtain i t1 where i: "int_part s = Some (i, t1)" using assms(2) by (auto simp: read_number_def split: option.splits)
  obtain f t2 e t3 where f: "fraction_part t1 = (f, t2)" "exponent_part t2 = (e, t3)" by (metis surj_pair)
  have "v = (if f @ e = [] then JInt (int_value i) else JFloat (shown (i @ f @ e)))" "t3 = t"
    using assms(2) i f by (simp_all add: read_number_def)
  then show ?thesis
    using int_part_append [OF assms(1) i] fraction_part_append [OF assms(1) f(1)] exponent_part_append [OF assms(1) f(2)]
    by (simp add: read_number_def)
qed

lemma digits_value_snoc: "digits_value (ds @ [c]) = 10 * digits_value ds + (of_char c - 48)"
  by (simp add: digits_value_def)

lemma is_digit_char: "k < 10 \<Longrightarrow> is_digit (char_of (48 + k :: nat))"
  by (simp add: is_digit_def)

lemma show_nat_facts:
  "list_all is_digit (show_nat n) \<and> show_nat n \<noteq> [] \<and> digits_value (show_nat n) = n \<and>
   (hd (show_nat n) = CHR ''0'' \<longrightarrow> n = 0)"
proof (induction n rule: show_nat.induct)
  case (1 n)
  show ?case
  proof (cases "n < 10")
    case True
    have "n = 0" if "char_of (48 + n) = CHR ''0''"
    proof -
      have "of_char (char_of (48 + n) :: char) = (of_char (CHR ''0'') :: nat)" using that by simp
      then show ?thesis using True by simp
    qed
    then show ?thesis using True by (simp add: show_nat.simps [of n] digits_value_def is_digit_char)
  next
    case False
    then have "show_nat n = show_nat (n div 10) @ [char_of (48 + n mod 10)]" by (subst show_nat.simps) simp
    then show ?thesis using 1 [OF False] False by (auto simp: digits_value_snoc is_digit_char)
  qed
qed

lemma takeWhile_all: "list_all P xs \<Longrightarrow> takeWhile P xs = xs" and dropWhile_all: "list_all P xs \<Longrightarrow> dropWhile P xs = []"
  by (induction xs) simp_all

lemma minus_not_digit [simp]: "\<not> is_digit (CHR ''-'')"
  by (simp add: is_digit_def)

lemma read_show_int: "read_number shown (show_int i) = Some (JInt i, [])"
proof (cases "i < 0")
  case True
  let ?n = "show_nat (nat (- i))"
  obtain c u where c: "?n = c # u" using show_nat_facts [of "nat (- i)"] by (cases ?n) auto
  have "c \<noteq> CHR ''0''" "is_digit c" "takeWhile is_digit ?n = ?n" "dropWhile is_digit ?n = []"
    using show_nat_facts [of "nat (- i)"] True c takeWhile_all dropWhile_all by fastforce+
  then have "int_part (CHR ''-'' # ?n) = Some (CHR ''-'' # ?n, [])" using c by (simp add: int_part_def sign_of_def)
  moreover have "int_value (CHR ''-'' # ?n) = i"
    using show_nat_facts [of "nat (- i)"] True by (simp add: int_value_def sign_of_def)
  ultimately show ?thesis using True
    by (simp add: read_number_def show_int_def fraction_part_def exponent_part_def)
next
  case False
  let ?n = "show_nat (nat i)"
  obtain c u where c: "?n = c # u" using show_nat_facts [of "nat i"] by (cases ?n) auto
  have d: "is_digit c" "takeWhile is_digit ?n = ?n" "dropWhile is_digit ?n = []"
    using show_nat_facts [of "nat i"] c takeWhile_all dropWhile_all by fastforce+
  then have "c \<noteq> CHR ''-''" by auto
  then have sign: "sign_of ?n {CHR ''-''} = []" using c by (simp add: sign_of_def)
  have "u = []" if "c = CHR ''0''"
  proof -
    have "nat i = 0" using show_nat_facts [of "nat i"] that c by simp
    then show ?thesis using c by (simp add: show_nat.simps [of 0])
  qed
  then have "int_part ?n = Some (?n, [])" using c d sign unfolding int_part_def Let_def by auto
  moreover have "int_value ?n = i" using show_nat_facts [of "nat i"] False sign by (simp add: int_value_def)
  ultimately show ?thesis using False
    by (simp add: read_number_def show_int_def fraction_part_def exponent_part_def)
qed

section \<open>Texts\<close>

lemma hex_digit_value: "k < 16 \<Longrightarrow> hex_value (hex_digit k) = Some k"
  by (simp add: hex_value_def hex_digit_def)

lemma read_chars_escaped: "read_chars (esc_char False c @ s) = with_char c (read_chars s)"
proof -
  let ?n = "of_char c :: nat"
  have inverse: "char_of ?n = c" by simp
  consider (quote) "c \<in> {CHR 0x22, CHR 0x5C}" | (short) "?n \<in> {8, 9, 10, 12, 13}"
    | (control) "c \<notin> {CHR 0x22, CHR 0x5C}" "?n < 32" "?n \<notin> {8, 9, 10, 12, 13}"
    | (plain) "c \<notin> {CHR 0x22, CHR 0x5C}" "\<not> ?n < 32" by blast
  then show ?thesis
  proof cases
    case quote
    then show ?thesis by (auto simp: esc_char_def read_chars.simps simple_escape_def)
  next
    case short
    have "c \<in> char_of ` {8, 9, 10, 12, 13 :: nat}" using short by (metis imageI inverse)
    also have "char_of ` {8, 9, 10, 12, 13 :: nat} = {CHR 0x08, CHR 0x09, CHR 0x0A, CHR 0x0C, CHR 0x0D}"
      by (simp add: char_of_def bit_iff_odd)
    finally have "c \<in> {CHR 0x08, CHR 0x09, CHR 0x0A, CHR 0x0C, CHR 0x0D}" .
    then show ?thesis by (auto simp: esc_char_def read_chars.simps simple_escape_def)
  next
    case control
    have "16 * (?n div 16) + ?n mod 16 = ?n" by simp
    then have "code_point (CHR ''0'') (CHR ''0'') (hex_digit (?n div 16)) (hex_digit (?n mod 16)) = Inr c"
      using control(2) hex_digit_value [of "?n div 16"] hex_digit_value [of "?n mod 16"] inverse
      by (simp add: code_point_def hex_value_def)
    then show ?thesis using control by (auto simp: esc_char_def read_chars.simps Let_def)
  next
    case plain
    then show ?thesis by (auto simp: esc_char_def read_chars.simps Let_def)
  qed
qed

lemma read_dump_str: "read_chars (tl (dump_str False s @ r)) = Inr (s, r)"
proof -
  have "read_chars (concat (map (esc_char False) s) @ CHR 0x22 # r) = Inr (s, r)"
    by (induction s) (simp_all add: read_chars.simps(2) [of "CHR 0x22" r] read_chars_escaped with_char_def)
  then show ?thesis by (simp add: dump_str_def)
qed

lemma at_char_dump_str [simp]: "at_char (CHR 0x22) (dump_str ascii s @ r)"
  by (simp add: at_char_def dump_str_def)

section \<open>Values\<close>

text \<open>The value the reader gives for a written one.\<close>

fun sorted_json :: "json \<Rightarrow> json" where
  "sorted_json (JArr xs) = JArr (map sorted_json xs)"
| "sorted_json (JObj d) = JObj (map (\<lambda>k. (k, case map_of d k of None \<Rightarrow> JNull | Some v \<Rightarrow> sorted_json v))
     (sorted_set (keys d)))"
| "sorted_json v = v"

fun printed :: "(string \<Rightarrow> string) \<Rightarrow> json \<Rightarrow> bool" where
  "printed shown (JArr xs) = list_all (printed shown) xs"
| "printed shown (JObj d) = list_all (\<lambda>kv. printed shown (snd kv)) d"
| "printed shown (JFloat s) = printed_float shown s"
| "printed shown v = True"

abbreviation spaces :: "string \<Rightarrow> bool" where
  "spaces s \<equiv> list_all json_space s"

lemma skip_spaces: "spaces b \<Longrightarrow> skip_space (b @ s) = skip_space s"
  by (induction b) (simp_all add: skip_space_def)

text \<open>What a value and a member start with, so that the reader goes on where it should.\<close>

definition value_start :: "string \<Rightarrow> bool" where
  "value_start s \<longleftrightarrow> s \<noteq> [] \<and> \<not> json_space (hd s) \<and> hd s \<notin> {CHR '']'', CHR ''}'', CHR '',''}"

lemma value_start_append: "value_start s \<Longrightarrow> value_start (s @ r)"
  by (cases s) (simp_all add: value_start_def)

lemma skip_value_start: "value_start s \<Longrightarrow> skip_space s = s"
  by (cases s) (simp_all add: value_start_def skip_space_def)

lemma digit_start: "is_digit c \<Longrightarrow> value_start (c # s)"
  by (auto simp: value_start_def json_space_def is_digit_def Let_def)

text \<open>The text of a number starts with a digit or a minus.\<close>

lemma int_part_start: "int_part s = Some p \<Longrightarrow> \<exists>c t. s = c # t \<and> (is_digit c \<or> c = CHR ''-'')"
  by (cases s) (auto simp: int_part_def sign_of_def Let_def is_digit_def split: if_splits)

lemma read_number_start:
  assumes "read_number shown s = Some p"
  shows "\<exists>c t. s = c # t \<and> (is_digit c \<or> c = CHR ''-'')"
proof -
  obtain q where "int_part s = Some q" using assms by (auto simp: read_number_def split: option.splits)
  then show ?thesis by (rule int_part_start)
qed

lemma number_not_literal:
  assumes "is_digit c \<or> c = CHR ''-''"
  shows "c \<notin> {CHR 0x22, CHR ''['', CHR ''{'', CHR ''n'', CHR ''t'', CHR ''f''}" and "value_start (c # s)"
  using assms digit_start by (auto simp: is_digit_def value_start_def json_space_def)

lemma read_value_number:
  assumes "read_number shown s = Some (v, [])" and "number_end r"
  shows "read_value shown (Suc n) (s @ r) = Inr (v, r)" and "value_start s"
proof -
  obtain c t where s: "s = c # t" "is_digit c \<or> c = CHR ''-''" using read_number_start [OF assms(1)] by blast
  note other = number_not_literal(1) [OF s(2)]
  show "value_start s" unfolding s(1) by (rule number_not_literal(2) [OF s(2)])
  have "read_scalar shown (s @ r) = Inr (v, r)"
    using read_number_append [OF assms(2,1)] other by (simp add: read_scalar_def s(1))
  then show "read_value shown (Suc n) (s @ r) = Inr (v, r)"
    using other by (simp add: read_value.simps at_char_def s(1))
qed

lemma reject_duplicate_keys_distinct: "distinct (keys d) \<Longrightarrow> reject_duplicate_keys d = Inr d"
proof -
  have "distinct (keys (e @ d)) \<Longrightarrow> foldE (\<lambda>d (k, v). if k \<in> set (keys d) then Inl (duplicate_key k)
      else Inr (d @ [(k, v)])) e d = Inr (e @ d)" for e
    by (induction d arbitrary: e) (auto simp: image_iff)
  from this [of "[]"] show "distinct (keys d) \<Longrightarrow> reject_duplicate_keys d = Inr d"
    by (simp add: reject_duplicate_keys_def)
qed

text \<open>Reading the text \<open>s\<close> of a value gives it whatever follows.\<close>

definition reads :: "(string \<Rightarrow> string) \<Rightarrow> string \<Rightarrow> json \<Rightarrow> bool" where
  "reads shown s v \<longleftrightarrow> value_start s \<and> (\<forall>r n. number_end r \<longrightarrow> 2 * length (s @ r) + 1 \<le> n \<longrightarrow>
     read_value shown n (s @ r) = Inr (v, r))"

lemma readsD: "reads shown s v \<Longrightarrow> number_end r \<Longrightarrow> 2 * length (s @ r) + 1 \<le> n \<Longrightarrow>
    read_value shown n (s @ r) = Inr (v, r)"
  by (simp add: reads_def)

lemma end_spaces: "spaces b \<Longrightarrow> number_end (b @ c # r) \<longleftrightarrow> b \<noteq> [] \<or> number_end (c # r)"
  by (cases b) (auto simp: number_end_def json_space_def is_digit_def)

lemma end_separators [simp]: "number_end (CHR '','' # r)" "number_end (CHR '']'' # r)" "number_end (CHR ''}'' # r)"
  by (simp_all add: number_end_def is_digit_def)

lemma skip_separators [simp]: "skip_space (CHR '','' # r) = CHR '','' # r" "skip_space (CHR '']'' # r) = CHR '']'' # r"
  "skip_space (CHR ''}'' # r) = CHR ''}'' # r" "skip_space (CHR '':'' # r) = CHR '':'' # r"
  by (simp_all add: skip_space_def json_space_def)

lemma join_Cons: "join sep (x # xs) = x @ concat (map (\<lambda>y. sep @ y) xs)"
  by (induction xs arbitrary: x) simp_all

lemma read_items_joined:
  assumes "spaces b" and "spaces b'"
  shows "list_all2 (reads shown) (s # ss) (v # vs) \<Longrightarrow>
    2 * length (s @ concat (map (\<lambda>y. ('','' @ b) @ y) ss) @ b' @ CHR '']'' # r) + 2 \<le> n \<Longrightarrow>
    read_items shown n (s @ concat (map (\<lambda>y. ('','' @ b) @ y) ss) @ b' @ CHR '']'' # r) = Inr (v # vs, r)"
proof (induction ss arbitrary: s v vs n)
  case Nil
  then obtain m where n: "n = Suc m" by (cases n) auto
  have "read_value shown m (s @ b' @ CHR '']'' # r) = Inr (v, b' @ CHR '']'' # r)"
    using Nil n assms(2) by (intro readsD) (simp_all add: end_spaces)
  then show ?case using Nil n assms(2) by (simp add: read_items.simps skip_spaces at_char_def)
next
  case (Cons s2 ss)
  obtain m where n: "n = Suc m" using Cons.prems(2) by (cases n) auto
  obtain v2 vs2 where vs: "vs = v2 # vs2" using Cons.prems(1) by (cases vs) auto
  let ?rest = "s2 @ concat (map (\<lambda>y. ('','' @ b) @ y) ss) @ b' @ CHR '']'' # r"
  have "read_value shown m (s @ CHR '','' # b @ ?rest) = Inr (v, CHR '','' # b @ ?rest)"
    using Cons.prems n by (intro readsD) simp_all
  moreover have "value_start ?rest" using Cons.prems(1) vs by (simp add: reads_def value_start_append)
  then have "skip_space (b @ ?rest) = ?rest" using assms(1) by (simp only: skip_spaces skip_value_start)
  moreover have "read_items shown m ?rest = Inr (v2 # vs2, r)"
    using Cons.prems n vs by (intro Cons.IH) simp_all
  ultimately show ?case using n vs by (simp add: read_items.simps at_char_def)
qed

definition member_text :: "string \<Rightarrow> string \<times> string \<Rightarrow> string" where
  "member_text c m = dump_str False (fst m) @ (CHR '':'' # c) @ snd m"

definition reads_member :: "(string \<Rightarrow> string) \<Rightarrow> string \<times> string \<Rightarrow> string \<times> json \<Rightarrow> bool" where
  "reads_member shown m kv \<longleftrightarrow> fst m = fst kv \<and> reads shown (snd m) (snd kv)"

lemma member_start: "value_start (member_text c m @ r)" "at_char (CHR 0x22) (member_text c m @ r)"
  by (simp_all add: member_text_def value_start_def dump_str_def json_space_def at_char_def)

lemma read_member:
  assumes "spaces c" and "reads_member shown m kv" and "number_end r"
    and "2 * length (member_text c m @ r) + 1 \<le> n"
  shows "read_members shown (Suc n) (member_text c m @ r) = (let w = skip_space r in
            if at_char (CHR ''}'') w then Inr ([kv], tl w)
            else if at_char (CHR '','') w then
              bindE (read_members shown n (skip_space (tl w))) (\<lambda>(ps, x). Inr (kv # ps, x))
            else Inl decode_error)"
proof -
  have chars: "read_chars (tl (member_text c m @ r)) = Inr (fst m, CHR '':'' # c @ snd m @ r)"
    using read_dump_str [of "fst m" "CHR '':'' # c @ snd m @ r"] by (simp add: member_text_def)
  have start: "value_start (snd m @ r)" using assms(2) by (simp add: reads_member_def reads_def value_start_append)
  have "skip_space (c @ snd m @ r) = snd m @ r"
    using assms(1) start by (simp only: skip_spaces skip_value_start)
  moreover have "read_value shown n (snd m @ r) = Inr (snd kv, r)"
    using assms by (intro readsD) (simp_all add: reads_member_def member_text_def)
  moreover have "fst m = fst kv" using assms(2) by (simp add: reads_member_def)
  ultimately show ?thesis using chars member_start(2) [of c m r]
    by (simp add: read_members.simps at_char_def Let_def)
qed

lemma read_members_joined:
  assumes "spaces b" and "spaces b'" and "spaces c"
  shows "list_all2 (reads_member shown) (m # ms) (kv # kvs) \<Longrightarrow>
    2 * length (member_text c m @ concat (map (\<lambda>y. ('','' @ b) @ member_text c y) ms) @ b' @ CHR ''}'' # r) + 2 \<le> n \<Longrightarrow>
    read_members shown n (member_text c m @ concat (map (\<lambda>y. ('','' @ b) @ member_text c y) ms) @ b' @ CHR ''}'' # r) =
      Inr (kv # kvs, r)"
proof (induction ms arbitrary: m kv kvs n)
  case Nil
  then obtain i where n: "n = Suc i" by (cases n) auto
  have "read_members shown (Suc i) (member_text c m @ b' @ CHR ''}'' # r) = (let w = skip_space (b' @ CHR ''}'' # r) in
            if at_char (CHR ''}'') w then Inr ([kv], tl w)
            else if at_char (CHR '','') w then
              bindE (read_members shown i (skip_space (tl w))) (\<lambda>(ps, x). Inr (kv # ps, x))
            else Inl decode_error)"
    using Nil n assms(2,3) by (intro read_member) (simp_all add: end_spaces)
  then show ?case using Nil n assms(2) by (simp add: skip_spaces at_char_def)
next
  case (Cons m2 ms)
  obtain i where n: "n = Suc i" using Cons.prems(2) by (cases n) auto
  obtain kv2 kvs2 where kvs: "kvs = kv2 # kvs2" using Cons.prems(1) by (cases kvs) auto
  let ?rest = "member_text c m2 @ concat (map (\<lambda>y. ('','' @ b) @ member_text c y) ms) @ b' @ CHR ''}'' # r"
  have "read_members shown (Suc i) (member_text c m @ CHR '','' # b @ ?rest) = (let w = skip_space (CHR '','' # b @ ?rest) in
            if at_char (CHR ''}'') w then Inr ([kv], tl w)
            else if at_char (CHR '','') w then
              bindE (read_members shown i (skip_space (tl w))) (\<lambda>(ps, x). Inr (kv # ps, x))
            else Inl decode_error)"
    using Cons.prems n assms(3) by (intro read_member) simp_all
  moreover have "skip_space (b @ ?rest) = ?rest"
    using assms(1) member_start(1) [of c m2] by (simp only: skip_spaces skip_value_start)
  moreover have "read_members shown i ?rest = Inr (kv2 # kvs2, r)"
    using Cons.prems n kvs by (intro Cons.IH) simp_all
  ultimately show ?case using n kvs by (simp add: at_char_def)
qed

lemma reads_scalar:
  assumes "value_start s" and "\<And>r n. number_end r \<Longrightarrow> read_value shown (Suc n) (s @ r) = Inr (v, r)"
  shows "reads shown s v"
  unfolding reads_def using assms by (metis Suc_eq_plus1 Suc_le_D)

lemma reads_arr:
  assumes "spaces b" and "spaces b'" and "list_all2 (reads shown) ss vs" and "ss \<noteq> []"
  shows "reads shown (''['' @ b @ join ('','' @ b) ss @ b' @ '']'') (JArr vs)"
  unfolding reads_def
proof (intro conjI allI impI)
  obtain s ss1 v vs1 where c: "ss = s # ss1" "vs = v # vs1" using assms(3,4) by (cases ss; cases vs) auto
  let ?t = "\<lambda>r. s @ concat (map (\<lambda>y. ('','' @ b) @ y) ss1) @ b' @ CHR '']'' # r"
  show "value_start (''['' @ b @ join ('','' @ b) ss @ b' @ '']'')" by (simp add: value_start_def json_space_def)
  fix r n
  assume "number_end r" and n: "2 * length ((''['' @ b @ join ('','' @ b) ss @ b' @ '']'') @ r) + 1 \<le> n"
  obtain m where m: "n = Suc m" using n by (cases n) auto
  have form: "(''['' @ b @ join ('','' @ b) ss @ b' @ '']'') @ r = CHR ''['' # b @ ?t r"
    by (simp add: c join_Cons)
  have start: "value_start (?t r)" using assms(3) c by (simp add: reads_def value_start_append)
  then have "skip_space (b @ ?t r) = ?t r" using assms(1) by (simp only: skip_spaces skip_value_start)
  moreover have "\<not> at_char (CHR '']'') (?t r)" using start by (auto simp: value_start_def at_char_def)
  moreover have "read_items shown m (?t r) = Inr (vs, r)"
    using assms n m unfolding c form by (intro read_items_joined) (simp_all add: join_Cons)
  moreover define T where "T = ?t r"
  ultimately show "read_value shown n ((''['' @ b @ join ('','' @ b) ss @ b' @ '']'') @ r) = Inr (JArr vs, r)"
    unfolding form m T_def [symmetric] by (auto simp: read_value.simps at_char_def)
qed

lemma reads_obj:
  assumes "spaces b" and "spaces b'" and "spaces c" and "list_all2 (reads_member shown) ms kvs" and "ms \<noteq> []"
    and "distinct (keys kvs)"
  shows "reads shown (''{'' @ b @ join ('','' @ b) (map (member_text c) ms) @ b' @ ''}'') (JObj kvs)"
  unfolding reads_def
proof (intro conjI allI impI)
  obtain x ms1 kv kvs1 where m: "ms = x # ms1" "kvs = kv # kvs1" using assms(4,5) by (cases ms; cases kvs) auto
  let ?t = "\<lambda>r. member_text c x @ concat (map (\<lambda>y. ('','' @ b) @ member_text c y) ms1) @ b' @ CHR ''}'' # r"
  show "value_start (''{'' @ b @ join ('','' @ b) (map (member_text c) ms) @ b' @ ''}'')"
    by (simp add: value_start_def json_space_def)
  fix r n
  assume "number_end r" and n: "2 * length ((''{'' @ b @ join ('','' @ b) (map (member_text c) ms) @ b' @ ''}'') @ r) + 1 \<le> n"
  obtain i where i: "n = Suc i" using n by (cases n) auto
  have form: "(''{'' @ b @ join ('','' @ b) (map (member_text c) ms) @ b' @ ''}'') @ r = CHR ''{'' # b @ ?t r"
    by (simp add: m join_Cons comp_def)
  have "skip_space (b @ ?t r) = ?t r" using assms(1) member_start(1) [of c x] by (simp only: skip_spaces skip_value_start)
  moreover have "\<not> at_char (CHR ''}'') (?t r)" using member_start(1) [of c x] by (auto simp: value_start_def at_char_def)
  moreover have "read_members shown i (?t r) = Inr (kvs, r)"
    using assms n i unfolding m form by (intro read_members_joined) (simp_all add: join_Cons comp_def)
  moreover define T where "T = ?t r"
  ultimately show "read_value shown n ((''{'' @ b @ join ('','' @ b) (map (member_text c) ms) @ b' @ ''}'') @ r) = Inr (JObj kvs, r)"
    unfolding form i T_def [symmetric] using reject_duplicate_keys_distinct [OF assms(6)] by (auto simp: read_value.simps at_char_def)
qed

section \<open>The round trip\<close>

lemma literal_reads:
  "reads shown ''null'' JNull" "reads shown ''true'' (JBool True)" "reads shown ''false'' (JBool False)"
  by (auto intro!: reads_scalar simp: value_start_def json_space_def read_value.simps at_char_def read_scalar_def)

lemma text_reads: "reads shown (dump_str False s) (JStr s)"
proof (rule reads_scalar)
  show "value_start (dump_str False s)" by (simp add: value_start_def json_space_def dump_str_def)
  show "read_value shown (Suc n) (dump_str False s @ r) = Inr (JStr s, r)" for r n
    using read_dump_str [of s r] by (simp add: read_value.simps)
qed

lemma number_reads: "read_number shown s = Some (v, []) \<Longrightarrow> reads shown s v"
  using read_value_number(1) read_value_number(2) [where r = "[]"] by (intro reads_scalar) (simp_all add: number_end_def)

lemma render_reads:
  assumes "\<And>n. spaces (br n)" and "spaces c"
  shows "wf_json v \<Longrightarrow> printed shown v \<Longrightarrow> reads shown (render br (CHR '':'' # c) n v) (sorted_json v)"
proof (induction v arbitrary: n rule: json_induct)
  case (Arr xs)
  have "list_all2 (reads shown) (map (render br (CHR '':'' # c) (Suc n)) xs) (map sorted_json xs)"
    using Arr by (auto simp: list_all2_conv_all_nth list_all_iff)
  then show ?case
    using reads_arr [OF assms(1) assms(1), of shown _ _ "Suc n" n] literal_reads
    by (cases xs) (auto intro!: reads_scalar simp: value_start_def json_space_def read_value.simps at_char_def skip_space_def)
next
  case (Obj d)
  show ?case
  proof (cases "d = []")
    case True
    then show ?thesis
      by (auto intro!: reads_scalar simp: value_start_def json_space_def read_value.simps at_char_def
          skip_space_def sorted_set_def)
  next
    case False
    let ?entry = "\<lambda>k. (k, case map_of d k of None \<Rightarrow> [] | Some v \<Rightarrow> render br (CHR '':'' # c) (Suc n) v)"
    let ?member = "\<lambda>k. (k, case map_of d k of None \<Rightarrow> JNull | Some v \<Rightarrow> sorted_json v)"
    have "reads_member shown (?entry k) (?member k)" if k: "k \<in> set (keys d)" for k
    proof -
      obtain v where v: "map_of d k = Some v" using k map_of_in_keys [of k d] by blast
      then have "(k, v) \<in> set d" by (rule map_of_SomeD)
      then have "wf_json v" "printed shown v" using Obj.prems by (auto simp: list_all_iff)
      then show ?thesis using Obj.IH [OF \<open>(k, v) \<in> set d\<close>] v by (simp add: reads_member_def)
    qed
    then have "list_all2 (reads_member shown) (map ?entry (sorted_set (keys d))) (map ?member (sorted_set (keys d)))"
      unfolding list.rel_map list_all2_same set_sorted_set by blast
    moreover have "distinct (keys (map ?member (sorted_set (keys d))))" by (simp add: comp_def)
    moreover have "map ?entry (sorted_set (keys d)) \<noteq> []" using False by simp
    ultimately have all: "reads shown (''{'' @ br (Suc n) @ join ('','' @ br (Suc n))
        (map (member_text c) (map ?entry (sorted_set (keys d)))) @ br n @ ''}'') (JObj (map ?member (sorted_set (keys d))))"
      using assms by (intro reads_obj) blast+
    have member: "map (member_text c) (map ?entry ks) = map (\<lambda>k. dump_str False k @ (CHR '':'' # c) @ (case map_of d k of None \<Rightarrow> []
        | Some v \<Rightarrow> render br (CHR '':'' # c) (Suc n) v)) ks" for ks by (simp add: member_text_def)
    show ?thesis using all unfolding member render.simps sorted_json.simps if_not_P [OF False] .
  qed
qed (auto simp: literal_reads text_reads number_reads read_show_int printed_float_def)

lemma reads_json:
  assumes "reads shown s v" and "spaces b"
  shows "read_json shown (s @ b) = Inr v"
proof -
  have start: "skip_space (s @ b) = s @ b" using assms(1) by (simp add: reads_def value_start_append skip_value_start)
  have "number_end b" using assms(2) by (cases b) (auto simp: number_end_def json_space_def is_digit_def)
  then have "read_value shown (2 * length (s @ b) + 1) (s @ b) = Inr (v, b)"
    by (intro readsD [OF assms(1)]) simp_all
  moreover have "skip_space b = []" using skip_spaces [OF assms(2), of "[]"] by (simp add: skip_space_def)
  ultimately show ?thesis unfolding read_json_def Let_def start by simp
qed

text \<open>The canonical text is the compact form.\<close>

lemma canonical_render: "render (\<lambda>_. []) '':'' n v = canonical_json v"
  unfolding canonical_json_def
proof (induction v arbitrary: n rule: json_induct)
  case (Arr xs)
  then have "map (render (\<lambda>_. []) '':'' (Suc n)) xs = map (dumps False '','' '':'') xs" by simp
  then show ?case by (simp only: render.simps dumps.simps) simp
next
  case (Obj d)
  have same: "(case map_of d k of None \<Rightarrow> [] | Some v \<Rightarrow> render (\<lambda>_. []) '':'' (Suc n) v) =
      (case map_of d k of None \<Rightarrow> [] | Some v \<Rightarrow> dumps False '','' '':'' v)" for k
    using Obj by (auto split: option.splits dest: map_of_SomeD)
  show ?case unfolding render.simps dumps.simps same by (simp add: sorted_set_def)
qed simp_all

lemma sorted_json_same: "wf_json v \<Longrightarrow> json_same v (sorted_json v)"
proof (induction v rule: json_induct)
  case (Arr xs)
  then show ?case by (auto simp: json_same_arr list_all2_conv_all_nth list_all_iff simp del: json_same.simps)
next
  case (Obj d)
  have map: "map_of (map (\<lambda>k. (k, f k)) ks) k = (if k \<in> set ks then Some (f k) else None)" for f :: "string \<Rightarrow> json" and ks k
    by (induction ks) auto
  have "json_same v (sorted_json v)" if "map_of d k = Some v" for k v
    using that Obj by (auto dest: map_of_SomeD simp: list_all_iff)
  then have "list_all (\<lambda>(k, v). json_same v (sorted_json v) \<and> map_of d k = Some v) d"
    using Obj.prems by (auto simp: list_all_iff)
  moreover have "set (keys d) = set (keys (map (\<lambda>k. (k, case map_of d k of None \<Rightarrow> JNull | Some v \<Rightarrow> sorted_json v)) (sorted_set (keys d))))"
    by (simp add: comp_def)
  ultimately show ?case unfolding sorted_json.simps json_same.simps json.case map
    by (auto simp: list_all_iff) force+
qed simp_all

lemma sorted_json_depth: "json_depth (sorted_json v) \<le> json_depth v"
proof (induction v rule: json_induct)
  case (Arr xs)
  then show ?case by (cases "xs = []") (auto intro!: Max.boundedI Max_ge_iff [THEN iffD2])
next
  case (Obj d)
  have "json_depth (case map_of d k of None \<Rightarrow> JNull | Some v \<Rightarrow> sorted_json v) \<le> Max (set (map (json_depth \<circ> snd) d))"
    if k: "k \<in> set (keys d)" for k
  proof -
    obtain v where v: "map_of d k = Some v" using k map_of_in_keys [of k d] by blast
    then have m: "(k, v) \<in> set d" by (rule map_of_SomeD)
    then have "json_depth v \<le> Max (set (map (json_depth \<circ> snd) d))" by (intro Max_ge) (force simp: image_iff)+
    then show ?thesis using Obj.IH [OF m] v by simp
  qed
  then show ?case by (cases "d = []") (auto simp: sorted_set_def intro!: Max.boundedI)
qed simp_all

section \<open>Reading a written artifact\<close>

lemma indented_spaces: "spaces (indented n)"
  by (simp add: indented_def json_space_def list_all_iff)

lemma read_file_text: "wf_json v \<Longrightarrow> printed shown v \<Longrightarrow> read_json shown (file_text v) = Inr (sorted_json v)"
  unfolding file_text_def
  using render_reads [where br = indented and c = "'' ''" and v = v and shown = shown and n = 0, OF indented_spaces]
  by (intro reads_json) (simp_all add: json_space_def)

lemma read_canonical: "wf_json v \<Longrightarrow> printed shown v \<Longrightarrow> read_json shown (canonical_json v) = Inr (sorted_json v)"
  using reads_json [OF render_reads [where br = "\<lambda>_. []" and c = "[]" and v = v and shown = shown and n = 0], of "[]"]
  by (simp add: canonical_render)

lemma sorted_canonical: "canonical_json (sorted_json v) = canonical_json v"
proof (induction v rule: json_induct)
  case (Arr xs)
  then have "map (dumps False '','' '':'') (map sorted_json xs) = map (dumps False '','' '':'') xs"
    by (simp add: canonical_json_def)
  then show ?case unfolding canonical_json_def sorted_json.simps dumps.simps by metis
next
  case (Obj d)
  let ?d = "map (\<lambda>k. (k, case map_of d k of None \<Rightarrow> JNull | Some v \<Rightarrow> sorted_json v)) (sorted_set (keys d))"
  have map: "map_of (map (\<lambda>k. (k, f k)) ks) k = (if k \<in> set ks then Some (f k) else None)" for f :: "string \<Rightarrow> json" and ks k
    by (induction ks) auto
  have ks: "sorted_set (keys ?d) = sorted_set (keys d)" by (rule sorted_set_cong) (simp add: comp_def)
  have same: "(case map_of ?d k of None \<Rightarrow> [] | Some v \<Rightarrow> dumps False '','' '':'' v) =
      (case map_of d k of None \<Rightarrow> [] | Some v \<Rightarrow> dumps False '','' '':'' v)" if k: "k \<in> set (keys d)" for k
  proof -
    obtain v where v: "map_of d k = Some v" using k map_of_in_keys [of k d] by blast
    then have "canonical_json (sorted_json v) = canonical_json v" using Obj by (blast dest: map_of_SomeD)
    then show ?thesis using v k by (simp add: map canonical_json_def)
  qed
  show ?case unfolding canonical_json_def sorted_json.simps dumps.simps ks
    by (intro arg_cong [where f = "\<lambda>x. ''{'' @ join '','' x @ ''}''"] map_cong refl) (simp only: same set_sorted_set)
qed (simp_all add: canonical_json_def)

lemma sorted_json_canonical: "sorted_json v = canonical False v"
proof (induction v rule: json_induct)
  case (Obj d)
  have "(case map_of d k of None \<Rightarrow> JNull | Some v \<Rightarrow> sorted_json v) =
      (case map_of d k of None \<Rightarrow> JNull | Some v \<Rightarrow> canonical False v)" for k
    using Obj by (auto split: option.splits dest: map_of_SomeD)
  then show ?case by (subst canonical.simps) (simp add: is_dict_def dict_of_def)
qed (simp_all add: canonical_arr canonical_scalar is_dict_def is_list_def)

text \<open>The canonical text of a value determines it up to the order of keys.\<close>

lemma canonical_json_determines:
  assumes "wf_json v" and "wf_json w" and "printed shown v" and "printed shown w"
    and "canonical_json v = canonical_json w"
  shows "json_same v w"
proof -
  have "canonical False v = canonical False w"
    using read_canonical [OF assms(1,3)] read_canonical [OF assms(2,4)] assms(5) by (simp add: sorted_json_canonical)
  then have "json_same (canonical False v) (canonical False w)"
    using json_same_refl [OF canonical_wf [OF assms(2)], of False] by simp
  then show ?thesis using canonical_same [OF assms(1,2)] by blast
qed

section \<open>What the reader accepts\<close>

lemma reject_duplicate_keys_Inr: "reject_duplicate_keys ps = Inr d \<Longrightarrow> d = ps \<and> distinct (keys ps)"
proof -
  have "foldE (\<lambda>d (k, v). if k \<in> set (keys d) then Inl (duplicate_key k) else Inr (d @ [(k, v)])) e ps = Inr d \<Longrightarrow>
      distinct (keys e) \<Longrightarrow> d = e @ ps \<and> distinct (keys (e @ ps))" for e
  proof (induction ps arbitrary: e)
    case (Cons kv ps)
    obtain k v where kv: "kv = (k, v)" by (cases kv)
    have new: "k \<notin> set (keys e)" using Cons.prems(1) kv by (auto split: if_splits)
    then have "foldE (\<lambda>d (k, v). if k \<in> set (keys d) then Inl (duplicate_key k) else Inr (d @ [(k, v)])) (e @ [(k, v)]) ps = Inr d"
      "distinct (keys (e @ [(k, v)]))" using Cons.prems kv by simp_all
    from Cons.IH [OF this] show ?case by (simp add: kv)
  qed simp
  from this [of "[]"] show "reject_duplicate_keys ps = Inr d \<Longrightarrow> d = ps \<and> distinct (keys ps)"
    by (simp add: reject_duplicate_keys_def)
qed

lemma reject_duplicate_keys_Inl: "reject_duplicate_keys ps = Inl e \<Longrightarrow> \<exists>k. e = duplicate_key k"
proof -
  have "foldE (\<lambda>d (k, v). if k \<in> set (keys d) then Inl (duplicate_key k) else Inr (d @ [(k, v)])) a ps = Inl e \<Longrightarrow>
      \<exists>k. e = duplicate_key k" for a
    by (induction ps arbitrary: a) (auto simp: bindE_Inl_iff split: if_splits)
  then show "reject_duplicate_keys ps = Inl e \<Longrightarrow> \<exists>k. e = duplicate_key k"
    unfolding reject_duplicate_keys_def .
qed

text \<open>No object has a key twice.\<close>

fun unique_keys :: "json \<Rightarrow> bool" where
  "unique_keys (JArr xs) = list_all unique_keys xs"
| "unique_keys (JObj d) = (distinct (keys d) \<and> list_all (\<lambda>kv. unique_keys (snd kv)) d)"
| "unique_keys v = True"

lemma read_scalar_unique: "read_scalar shown s = Inr (v, r) \<Longrightarrow> unique_keys v"
  by (auto simp: read_scalar_def read_number_def read_constant_def split: if_splits option.splits prod.splits)

lemma read_value_unique:
  "read_value shown n s = Inr (v, r) \<Longrightarrow> unique_keys v"
  "read_items shown n s = Inr (vs, r) \<Longrightarrow> list_all unique_keys vs"
  "read_members shown n s = Inr (ps, r) \<Longrightarrow> list_all (\<lambda>kv. unique_keys (snd kv)) ps"
proof (induction shown n s and shown n s and shown n s arbitrary: v r and vs r and ps r
    rule: read_value_read_items_read_members.induct)
  case (2 shown n s)
  then show ?case
    by (auto simp: read_value.simps Let_def bindE_Inr_iff split: if_splits
        dest!: reject_duplicate_keys_Inr dest: read_scalar_unique)
next
  case (4 shown n s)
  then show ?case by (auto simp: read_items.simps Let_def bindE_Inr_iff split: if_splits)
next
  case (6 shown n s)
  then show ?case by (auto simp: read_members.simps Let_def bindE_Inr_iff split: if_splits)
qed (simp_all add: read_value.simps read_items.simps read_members.simps)

section \<open>The fuel of the reader\<close>

text \<open>A reader that takes something from its text, and never runs out of fuel.\<close>

definition consumes :: "string \<Rightarrow> ('a \<times> string) res \<Rightarrow> bool" where
  "consumes s p \<longleftrightarrow> (case p of Inl e \<Rightarrow> e \<noteq> OtherError ''RecursionError'' | Inr (x, r) \<Rightarrow> length r < length s)"

lemma consumes_Inl [simp]: "consumes s (Inl e) \<longleftrightarrow> e \<noteq> OtherError ''RecursionError''"
  and consumes_Inr [simp]: "consumes s (Inr (x, r)) \<longleftrightarrow> length r < length s"
  by (simp_all add: consumes_def)

lemma decode_error_other [simp]: "decode_error \<noteq> OtherError m" "duplicate_key k \<noteq> OtherError m"
  by (simp_all add: decode_error_def duplicate_key_def)

lemma consumes_bind:
  assumes "consumes s p" and "\<And>x r. p = Inr (x, r) \<Longrightarrow> length r < length s \<Longrightarrow> consumes t (f (x, r))"
  shows "consumes t (bindE p f)"
  using assms by (cases p) auto

lemma consumes_mono: "consumes s p \<Longrightarrow> length s \<le> length t \<Longrightarrow> consumes t p"
  by (auto simp: consumes_def split: sum.splits)

lemma consumes_with_char: "consumes s p \<Longrightarrow> consumes s (with_char c p)"
  unfolding with_char_def by (rule consumes_bind) auto

lemma code_point_error: "code_point h i j k = Inl e \<Longrightarrow> e \<noteq> OtherError ''RecursionError''"
  by (auto simp: code_point_def decode_error_def split: option.splits if_splits)

lemma read_chars_consumes: "consumes s (read_chars s)"
proof (induction s rule: measure_induct_rule [where f = length])
  case (less s)
  have rest: "consumes s (with_char x (read_chars t))" if "length t < length s" for x t
    using less [OF that] that by (intro consumes_with_char) (auto intro: consumes_mono)
  show ?case
  proof (cases s)
    case (Cons c t)
    have unicode: "consumes s (case code_point h i j k of Inl x \<Rightarrow> Inl x | Inr x \<Rightarrow> with_char x (read_chars w))"
      if "length w < length s" for h i j k w
      using rest [OF that] code_point_error by (cases "code_point h i j k") auto
    have escape: "consumes s (case simple_escape e of None \<Rightarrow> Inl decode_error | Some x \<Rightarrow> with_char x (read_chars u))"
      if "length u < length s" for e u
      using rest [OF that] by (cases "simple_escape e") auto
    have escaped: "consumes s (case t of [] \<Rightarrow> Inl decode_error
        | e # u \<Rightarrow> if e = CHR ''u'' then (case u of
            h # i # j # k # w \<Rightarrow> (case code_point h i j k of Inl x \<Rightarrow> Inl x | Inr x \<Rightarrow> with_char x (read_chars w))
            | _ \<Rightarrow> Inl decode_error)
          else (case simple_escape e of None \<Rightarrow> Inl decode_error | Some x \<Rightarrow> with_char x (read_chars u)))"
    proof (cases t)
      case t: (Cons e u)
      have "consumes s (case u of
            h # i # j # k # w \<Rightarrow> (case code_point h i j k of Inl x \<Rightarrow> Inl x | Inr x \<Rightarrow> with_char x (read_chars w))
            | _ \<Rightarrow> Inl decode_error)"
        using unicode unfolding Cons t by (auto split: list.split)
      moreover have "length u < length s" by (simp add: Cons t)
      ultimately show ?thesis using escape unfolding t list.case by (simp split del: list.split)
    qed simp
    have plain: "consumes s (with_char c (read_chars t))" using rest [of t] Cons by simp
    show ?thesis
    proof (cases "c = CHR 0x5C")
      case True
      show ?thesis using escaped unfolding Cons True read_chars.simps(2) by simp
    next
      case False
      then show ?thesis using plain unfolding Cons read_chars.simps(2) by simp
    qed
  qed (simp add: read_chars.simps)
qed

lemma skip_space_length: "length (skip_space s) \<le> length s"
  by (simp add: skip_space_def length_dropWhile_le)

lemma drop_Cons_length:
  assumes "drop k s = c # u"
  shows "length u < length s"
proof -
  have "length s - k = Suc (length u)" using assms by (metis length_Cons length_drop)
  then show ?thesis by simp
qed

lemma int_part_length:
  assumes "int_part s = Some (i, t)"
  shows "length t < length s"
proof -
  obtain c u where u: "drop (length (sign_of s {CHR ''-''})) s = c # u"
    using assms by (cases "drop (length (sign_of s {CHR ''-''})) s") (auto simp: int_part_def Let_def)
  have "length t \<le> length u"
    using assms u length_dropWhile_le [of is_digit u] by (auto simp: int_part_def Let_def split: if_splits)
  then show ?thesis using drop_Cons_length [OF u] by simp
qed

lemma fraction_part_length: "fraction_part t = (f, u) \<Longrightarrow> length u \<le> length t"
  by (cases t) (auto simp: fraction_part_def intro: le_SucI [OF length_dropWhile_le] split: if_splits)

lemma exponent_part_length:
  assumes "exponent_part t = (e, u)"
  shows "length u \<le> length t"
proof (cases t)
  case (Cons c w)
  have "length (dropWhile is_digit (drop k w)) \<le> Suc (length w)" for k
    using length_dropWhile_le [of is_digit "drop k w"] by simp
  then show ?thesis using assms unfolding Cons exponent_part_def Let_def by (auto split: if_splits)
qed (use assms in \<open>simp add: exponent_part_def\<close>)

lemma starts_with_length: "starts_with s p \<Longrightarrow> length p \<le> length s"
  by (auto simp: starts_with_iff)

lemma read_number_length:
  assumes "read_number shown s = Some (v, w)"
  shows "length w < length s"
proof -
  obtain i t1 where i: "int_part s = Some (i, t1)" using assms by (auto simp: read_number_def split: option.splits)
  obtain f t2 where f: "fraction_part t1 = (f, t2)" by (cases "fraction_part t1")
  obtain e t3 where e: "exponent_part t2 = (e, t3)" by (cases "exponent_part t2")
  have "t3 = w" using assms by (simp add: read_number_def i f e)
  then show ?thesis
    using int_part_length [OF i] fraction_part_length [OF f] exponent_part_length [OF e] by simp
qed

lemma read_constant_consumes: "consumes s (read_constant s)"
  by (auto simp: read_constant_def split: option.split)

lemma read_scalar_consumes: "consumes s (read_scalar shown s)"
proof (cases "\<exists>p \<in> {''null'', ''true'', ''false''}. starts_with s p")
  case True
  then have "4 \<le> length s" by (auto dest!: starts_with_length)
  then show ?thesis using True by (auto simp: read_scalar_def)
next
  case False
  then show ?thesis using read_number_length [of shown s] read_constant_consumes [of s]
    by (auto simp: read_scalar_def split: option.split)
qed

lemma at_char_tl: "at_char c s \<Longrightarrow> length s = Suc (length (tl s))"
  by (cases s) (simp_all add: at_char_def)

lemma skip_tl_length: "at_char c s \<Longrightarrow> length (skip_space (tl s)) < length s"
  using skip_space_length [of "tl s"] by (cases s) (simp_all add: at_char_def)

lemma reader_consumes:
  "2 * length s + 1 \<le> n \<Longrightarrow> consumes s (read_value shown n s)"
  "2 * length s + 2 \<le> n \<Longrightarrow> consumes s (read_items shown n s)"
  "2 * length s + 2 \<le> n \<Longrightarrow> consumes s (read_members shown n s)"
proof (induction shown n s and shown n s and shown n s rule: read_value_read_items_read_members.induct)
  case (2 shown n s)
  let ?u = "skip_space (tl s)"
  have chars: "consumes s (bindE (read_chars (tl s)) (\<lambda>(x, r). Inr (JStr x, r)))" if "at_char (CHR 0x22) s"
    using at_char_tl [OF that] by (intro consumes_bind [OF read_chars_consumes]) simp
  have items: "consumes s (bindE (read_items shown n ?u) (\<lambda>(xs, r). Inr (JArr xs, r)))"
    if "\<not> at_char (CHR 0x22) s" "at_char (CHR ''['') s" "\<not> at_char (CHR '']'') ?u"
    using skip_tl_length [OF that(2)] "2.IH"(1) [OF that(1,2) refl that(3)] "2.prems"
    by (intro consumes_bind [where s = ?u]) auto
  have members: "consumes s (bindE (read_members shown n ?u) (\<lambda>(ps, r).
           bindE (reject_duplicate_keys ps) (\<lambda>d. Inr (JObj d, r))))"
    if "\<not> at_char (CHR 0x22) s" "\<not> at_char (CHR ''['') s" "at_char (CHR ''{'') s" "\<not> at_char (CHR ''}'') ?u"
  proof (rule consumes_bind [where s = ?u])
    show "consumes ?u (read_members shown n ?u)"
      using skip_tl_length [OF that(3)] "2.IH"(2) [OF that(1-3) refl that(4)] "2.prems" by simp
    show "consumes s (case (ps, r) of (ps, r) \<Rightarrow> bindE (reject_duplicate_keys ps) (\<lambda>d. Inr (JObj d, r)))"
      if "length r < length ?u" for ps r
    proof (cases "reject_duplicate_keys ps")
      case (Inl e)
      then show ?thesis using reject_duplicate_keys_Inl [OF Inl] by auto
    next
      case (Inr d)
      then show ?thesis using that skip_tl_length [OF \<open>at_char (CHR ''{'') s\<close>] by simp
    qed
  qed
  have empty: "consumes s (Inr (x, tl ?u))" if "at_char a s" "at_char c ?u" for a c and x :: json
    using at_char_tl [OF that(2)] skip_tl_length [OF that(1)] by simp
  show ?case unfolding read_value.simps Let_def
    using chars items members read_scalar_consumes [of s shown] empty
    by (simp del: consumes_Inr consumes_Inl)
next
  case (4 shown n s)
  show ?case unfolding read_items.simps
  proof (rule consumes_bind [where s = s])
    show "consumes s (read_value shown n s)" using 4 by simp
    fix v r
    assume v: "read_value shown n s = Inr (v, r)" and r: "length r < length s"
    let ?u = "skip_space r"
    have u: "length ?u < length s" using skip_space_length [of r] r by simp
    have "consumes s (bindE (read_items shown n (skip_space (tl ?u))) (\<lambda>(vs, w). Inr (v # vs, w)))"
      if "\<not> at_char (CHR '']'') ?u" "at_char (CHR '','') ?u"
      using skip_tl_length [OF that(2)] u "4.IH"(2) [OF v refl refl that] "4.prems"
      by (intro consumes_bind [where s = "skip_space (tl ?u)"]) auto
    then show "consumes s (case (v, r) of (v, r) \<Rightarrow> (let u = skip_space r in
        if at_char (CHR '']'') u then Inr ([v], tl u)
        else if at_char (CHR '','') u then bindE (read_items shown n (skip_space (tl u))) (\<lambda>(vs, w). Inr (v # vs, w))
        else Inl decode_error))"
      using u at_char_tl [of _ ?u] by (auto simp: Let_def)
  qed
next
  case (6 shown n s)
  show ?case
  proof (cases "at_char (CHR 0x22) s")
    case quote: True
    show ?thesis unfolding read_members.simps not_not if_not_P [OF not_not [THEN iffD2, OF quote]]
    proof (rule consumes_bind [where s = "tl s"])
      show "consumes (tl s) (read_chars (tl s))" by (rule read_chars_consumes)
      fix k r
      assume k: "read_chars (tl s) = Inr (k, r)" and r: "length r < length (tl s)"
      let ?u = "skip_space r"
      let ?v = "skip_space (tl ?u)"
      have u: "length ?u < length s" using skip_space_length [of r] r by simp
      have "consumes s (bindE (read_value shown n ?v) (\<lambda>(v, t). (let w = skip_space t in
            if at_char (CHR ''}'') w then Inr ([(k, v)], tl w)
            else if at_char (CHR '','') w then
              bindE (read_members shown n (skip_space (tl w))) (\<lambda>(ps, x). Inr ((k, v) # ps, x))
            else Inl decode_error)))" if colon: "at_char (CHR '':'') ?u"
      proof (rule consumes_bind [where s = ?v])
        have less: "length ?v < length s" using skip_tl_length [OF colon] u by simp
        show "consumes ?v (read_value shown n ?v)"
          using "6.IH"(1) [OF _ k refl refl] quote colon less "6.prems" by simp
        fix v t
        assume v: "read_value shown n ?v = Inr (v, t)" and t: "length t < length ?v"
        let ?w = "skip_space t"
        have w: "length ?w < length s" using skip_space_length [of t] t less by simp
        have "consumes s (bindE (read_members shown n (skip_space (tl ?w))) (\<lambda>(ps, x). Inr ((k, v) # ps, x)))"
          if "\<not> at_char (CHR ''}'') ?w" "at_char (CHR '','') ?w"
          using skip_tl_length [OF that(2)] w "6.IH"(2) [OF _ k refl refl _ v refl refl that] quote colon "6.prems"
          by (intro consumes_bind [where s = "skip_space (tl ?w)"]) auto
        then show "consumes s (case (v, t) of (v, t) \<Rightarrow> (let w = skip_space t in
            if at_char (CHR ''}'') w then Inr ([(k, v)], tl w)
            else if at_char (CHR '','') w then
              bindE (read_members shown n (skip_space (tl w))) (\<lambda>(ps, x). Inr ((k, v) # ps, x))
            else Inl decode_error))"
          using w at_char_tl [of _ ?w] by (auto simp: Let_def)
      qed
      then show "consumes s (case (k, r) of (k, r) \<Rightarrow> (let u = skip_space r in
         if \<not> at_char (CHR '':'') u then Inl decode_error
         else bindE (read_value shown n (skip_space (tl u))) (\<lambda>(v, t).
           (let w = skip_space t in
            if at_char (CHR ''}'') w then Inr ([(k, v)], tl w)
            else if at_char (CHR '','') w then
              bindE (read_members shown n (skip_space (tl w))) (\<lambda>(ps, x). Inr ((k, v) # ps, x))
            else Inl decode_error))))"
        by (simp add: Let_def)
    qed
  qed (simp add: read_members.simps)
qed simp_all

end
