(* ===== verification/FileProperties.thy ===== *)
theory FileProperties
  imports JsonRoundtrip Samples
begin

text \<open>
  The artifacts on disk: what the strict reader accepts, that a written artifact is read back as
  the same value, that its fingerprint text determines it, and that its file is replaced at once.
\<close>

text \<open>An environment in which every float is already printed, and a small value.\<close>

definition sample_value :: json where
  "sample_value = JObj [(''b'', JArr [JInt (- 12), JNull, JFloat ''1.5'']),
     (''a'', JStr (CHR 0x0A # ''q'' @ [CHR 0x22]))]"

definition sample_text :: string where
  "sample_text = CHR ''{'' # CHR 0x22 # ''a'' @ CHR 0x22 # '': [1, {}]}''"

lemma sample_value_valid: "wf_json sample_value" "printed (\<lambda>s. s) sample_value" "json_depth sample_value \<le> max_json_depth"
  by code_simp+

lemma read_json_error: "read_json shown s \<noteq> Inl (OtherError ''RecursionError'')"
proof -
  have "consumes (skip_space s) (read_value shown (2 * length (skip_space s) + 1) (skip_space s))"
    by (rule reader_consumes(1)) simp
  then show ?thesis
    by (cases "read_value shown (2 * length (skip_space s) + 1) (skip_space s)") (auto simp: read_json_def Let_def split: if_splits)
qed

lemma loads_strict_Inr:
  "loads_strict shown source limit s = Inr v \<longleftrightarrow> read_json shown s = Inr v \<and> json_depth v \<le> limit"
  by (auto simp: loads_strict_def validate_depth_def bindE_Inr_iff failE_ok_iff within_depth_iff split: sum.split)

section \<open>Reading\<close>

text \<open>
  C33. The strict reader always answers: its recursion never exceeds its fuel, whatever the text.
  A value it accepts has no duplicate key anywhere and is nested at most as deep as allowed.
\<close>

theorem strict_reader_is_total:
  "read_json shown s \<noteq> Inl (OtherError ''RecursionError'') \<and>
   (case loads_strict shown source limit s of Inl e \<Rightarrow> True | Inr v \<Rightarrow> unique_keys v \<and> json_depth v \<le> limit)"
proof -
  have "unique_keys v" if "loads_strict shown source limit s = Inr v" for v
    using read_value_unique(1) that
    by (auto simp: loads_strict_Inr read_json_def Let_def bindE_Inr_iff split: if_splits)
  then show ?thesis using read_json_error [of shown s] by (auto simp: loads_strict_Inr split: sum.split)
qed

lemma strict_reader_is_total_witness:
  "loads_strict (\<lambda>t. t) ''f'' 2 sample_text = Inr (JObj [(''a'', JArr [JInt 1, JObj []])]) \<and>
   unique_keys (JObj [(''a'', JArr [JInt 1, JObj []])])"
proof -
  have "loads_strict (\<lambda>t. t) ''f'' 2 sample_text = Inr (JObj [(''a'', JArr [JInt 1, JObj []])])" by code_simp
  then show ?thesis using strict_reader_is_total [where shown = "\<lambda>t. t" and source = "''f''" and limit = 2 and s = sample_text] by simp
qed

text \<open>
  The two hooks reject the names of the non-finite numbers, but not a literal that overflows:
  Python reads \<open>1e999\<close> as infinity, and the reader accepts it.
\<close>

lemma overflowing_number_accepted: "loads_strict (\<lambda>t. ''inf'') ''f'' 2 ''1e999'' = Inr (JFloat ''inf'')"
  by code_simp

section \<open>Writing\<close>

text \<open>
  C19. A written artifact is read back: the file text of a value whose floats are printed as
  Python prints them is accepted and gives the value with sorted keys, which is the same JSON
  value with the same fingerprint.
\<close>

theorem written_json_is_read_back:
  assumes "wf_json v" and "printed shown v" and "json_depth v \<le> limit"
  shows "\<exists>w. loads_strict shown source limit (file_text v) = Inr w \<and> json_same v w \<and>
    canonical_sha256 sha w = canonical_sha256 sha v"
proof -
  have "loads_strict shown source limit (file_text v) = Inr (sorted_json v)"
    using read_file_text [OF assms(1,2)] sorted_json_depth [of v] assms(3) by (simp add: loads_strict_Inr)
  then show ?thesis using sorted_json_same [OF assms(1)] sorted_canonical [of v] by (auto simp: canonical_sha256_def)
qed

lemma written_json_is_read_back_witness:
  "\<exists>w. loads_strict (\<lambda>s. s) ''run.json'' max_json_depth (file_text sample_value) = Inr w \<and> json_same sample_value w"
  using written_json_is_read_back [OF sample_value_valid, of "''run.json''"] by blast

text \<open>
  C34. The canonical text that is fingerprinted determines the value: two values with the same
  canonical text are equal up to the order of keys.
\<close>

theorem canonical_text_determines:
  assumes "wf_json v" and "wf_json w" and "printed shown v" and "printed shown w"
    and "canonical_json v = canonical_json w"
  shows "json_same v w"
  by (rule canonical_json_determines [OF assms])

lemma canonical_text_determines_witness:
  "json_same (JObj [(''b'', JInt 1), (''a'', JNull)]) (JObj [(''a'', JNull), (''b'', JInt 1)])"
proof -
  let ?v = "JObj [(''b'', JInt 1), (''a'', JNull)]" and ?w = "JObj [(''a'', JNull), (''b'', JInt 1)]"
  have "wf_json ?v" "wf_json ?w" "printed (\<lambda>s. s) ?v" "printed (\<lambda>s. s) ?w" "canonical_json ?v = canonical_json ?w"
    by code_simp+
  then show ?thesis by (rule canonical_text_determines)
qed

text \<open>
  C20. A file is replaced at once: whatever step the writer was interrupted after, the path holds
  its previous text or the whole new one, no other file has changed and, after the clean-up, the
  temporary file is gone; when no step failed the new text is there.
\<close>

theorem writes_are_atomic:
  assumes "temporary \<noteq> path" and "fs temporary = None"
  shows "(\<forall>n. after_steps n temporary path (render indented '': '' 0 v) fs path \<in> {fs path, Some (file_text v)} \<and>
      cleaned temporary (after_steps n temporary path (render indented '': '' 0 v) fs) temporary = None \<and>
      (\<forall>q. q = temporary \<or> q = path \<or> after_steps n temporary path (render indented '': '' 0 v) fs q = fs q)) \<and>
    write_json_atomic temporary path v fs = fs(path := Some (file_text v))"
proof -
  have steps: "take n (atomic_steps temporary path s) \<in> {take 0 (atomic_steps temporary path s),
      take 1 (atomic_steps temporary path s), take 2 (atomic_steps temporary path s),
      take 3 (atomic_steps temporary path s), take 4 (atomic_steps temporary path s)}" for n s
  proof -
    have "n = 0 \<or> n = 1 \<or> n = 2 \<or> n = 3 \<or> 4 \<le> n" by arith
    then show ?thesis by (auto simp: atomic_steps_def)
  qed
  have "after_steps n temporary path s fs path \<in> {fs path, Some (s @ [CHR 0x0A])} \<and>
      (\<forall>q. q = temporary \<or> q = path \<or> after_steps n temporary path s fs q = fs q)" for n s
    using steps [of n s] assms(1) unfolding after_steps_def
    by (auto simp: atomic_steps_def move_file_def numeral_eq_Suc split: if_splits)
  moreover have "write_json_atomic temporary path v fs = fs(path := Some (file_text v))"
    using assms by (auto simp: write_json_atomic_def after_steps_def atomic_steps_def move_file_def cleaned_def
        file_text_def numeral_eq_Suc fun_eq_iff)
  ultimately show ?thesis by (auto simp: cleaned_def file_text_def)
qed

lemma writes_are_atomic_witness:
  "write_json_atomic ''t'' ''run.json'' sample_value (\<lambda>q. None) ''run.json'' = Some (file_text sample_value)"
  using writes_are_atomic [of "''t''" "''run.json''" "\<lambda>q. None" sample_value] by simp

end
