(* ===== verification/GraphContext.thy ===== *)
theory GraphContext
  imports ContractModel ContractObjects
begin

text \<open>
  \<^verbatim>\<open>domain/context.py\<close>: the graph the domain rules read, which a contract and a run both
  become. An object of a contract goes by its key, an operation of a run by its identifier.
\<close>

section \<open>Objects\<close>

record graph_object =
  gx_id :: string
  gx_target :: string
  gx_family :: string
  gx_name :: string
  gx_key :: string
  gx_action :: action
  gx_requirements :: "string list"
  gx_dependencies :: "string list"
  gx_risk :: string
  gx_intended :: "json option"
  gx_pre_change :: "json option"
  gx_object_id :: "string option"
  gx_new_name :: "string option"
  gx_assertions :: "json option"

definition object_of_contract :: "contract_object \<Rightarrow> graph_object" where
  "object_of_contract c = \<lparr>gx_id = co_key c, gx_target = co_target c, gx_family = co_family c,
     gx_name = co_name c, gx_key = co_key c, gx_action = co_action c, gx_requirements = co_requirements c,
     gx_dependencies = co_depends c, gx_risk = co_risk c, gx_intended = co_intended c,
     gx_pre_change = co_pre_change c, gx_object_id = co_object_id c, gx_new_name = co_new_name c,
     gx_assertions = co_assertions c\<rparr>"

definition object_of_run :: "operation \<Rightarrow> graph_object" where
  "object_of_run op = \<lparr>gx_id = op_id op, gx_target = op_target op, gx_family = op_family op,
     gx_name = op_name op, gx_key = op_key op, gx_action = op_action op, gx_requirements = op_requirements op,
     gx_dependencies = op_dependencies op, gx_risk = op_risk op, gx_intended = op_intended op,
     gx_pre_change = op_pre_change op, gx_object_id = op_object_id op, gx_new_name = op_new_name op,
     gx_assertions = op_assertions op\<rparr>"

text \<open>A dictionary of the objects by a field: the first place and the last value of each key.\<close>

definition index_by :: "('a \<Rightarrow> string) \<Rightarrow> 'a list \<Rightarrow> (string \<times> 'a) list" where
  "index_by f xs = fold (\<lambda>x m. AList.update (f x) x m) xs []"

section \<open>The graph\<close>

record configuration_graph =
  cg_mode :: run_mode
  cg_types :: "(string \<times> container) list"
  cg_requirements :: "dict list"
  cg_operations :: "graph_object list"
  cg_pipelines :: "dict list"
  cg_dispositions :: "dict list"
  cg_mappings :: "json list"
  cg_consent :: "json list"
  cg_dedup :: "json list"
  cg_external :: "json list"
  cg_tag_policies :: "json list"
  cg_baselines :: "baseline list"
  cg_run_phase :: bool
  cg_by_id :: "(string \<times> graph_object) list"
  cg_by_key :: "(string \<times> graph_object) list"
  cg_serves :: "string \<Rightarrow> string set"

definition graph_demands :: "graph_object list \<Rightarrow> demands" where
  "graph_demands xs = map (\<lambda>(k, x). (k, gx_dependencies x, gx_requirements x)) (index_by gx_id xs)"

text \<open>\<^verbatim>\<open>__post_init__\<close>.\<close>

definition with_indices :: "configuration_graph \<Rightarrow> configuration_graph res" where
  "with_indices g = bindE (served_requirements (graph_demands (cg_operations g))) (\<lambda>serves.
     Inr (g\<lparr>cg_by_id := index_by gx_id (cg_operations g), cg_by_key := index_by gx_key (cg_operations g),
       cg_serves := serves\<rparr>))"

section \<open>From a contract\<close>

definition flow_of_contract :: "json \<Rightarrow> json res" where
  "flow_of_contract flow =
     bindE (required_field (dict_of flow) ''server_consumer_keys'') (\<lambda>ks.
       Inr (JObj (dset (dict_of flow) ''server_consumer_operation_ids'' ks)))"

definition pipeline_of_contract :: "json \<Rightarrow> dict res" where
  "pipeline_of_contract row =
     bindE (required_field (dict_of row) ''claiming_client'') (\<lambda>claiming.
     bindE (required_field (dict_of claiming) ''object_key'') (\<lambda>client.
     bindE (required_field (dict_of row) ''event_flows'') (\<lambda>flows.
     bindE (mapE flow_of_contract (list_of flows)) (\<lambda>event_flows.
       Inr (dset (dset (dset (dict_of row) ''claiming_client_operation_id'' client)
         ''cutover_operation_id'' (get_or_null (dict_of row) ''cutover_operation_key''))
         ''event_flows'' (JArr event_flows))))))"

definition disposition_of_contract :: "json \<Rightarrow> dict res" where
  "disposition_of_contract row =
     bindE (required_field (dict_of row) ''operation_keys'') (\<lambda>ks.
       Inr (dset (dpop (dict_of row) ''operation_keys'') ''operation_ids'' ks))"

definition target_type :: "json \<Rightarrow> (string \<times> container) res" where
  "target_type row = bindE (text_at row ''target_id'') (\<lambda>k.
     bindE (stated_container (dict_of row)) (\<lambda>t. Inr (k, t)))"

definition requirement_of_contract :: "contract \<Rightarrow> json \<Rightarrow> dict" where
  "requirement_of_contract c row = dset (dict_of row) ''kind''
     (json_field (dict_of row) ''kind'' (JStr (ct_route c)))"

definition graph_of_contract :: "contract \<Rightarrow> json list \<Rightarrow> configuration_graph res" where
  "graph_of_contract c mappings =
     bindE (mapE pipeline_of_contract (ct_pipelines c)) (\<lambda>pipelines.
     bindE (mapE disposition_of_contract (ct_dispositions c)) (\<lambda>dispositions.
     bindE (mapE target_type (ct_targets c)) (\<lambda>types.
       with_indices \<lparr>cg_mode = ct_mode c, cg_types = types,
         cg_requirements = map (requirement_of_contract c) (ct_requirements c),
         cg_operations = map object_of_contract (ct_objects c), cg_pipelines = pipelines,
         cg_dispositions = dispositions, cg_mappings = mappings, cg_consent = ct_consent_policies c,
         cg_dedup = ct_dedup c, cg_external = ct_external c, cg_tag_policies = ct_tag_policies c,
         cg_baselines = [], cg_run_phase = False, cg_by_id = [], cg_by_key = [], cg_serves = (\<lambda>k. {})\<rparr>)))"

section \<open>From a run\<close>

definition graph_of_run :: "document \<Rightarrow> configuration_graph res" where
  "graph_of_run d = with_indices
     \<lparr>cg_mode = run_header.run_mode (d_run d),
      cg_types = map (\<lambda>t. (tg_id t, container_type (tg_identity t))) (run_targets (d_run d)),
      cg_requirements = map requirement_dict (d_requirements d),
      cg_operations = map object_of_run (d_operations d), cg_pipelines = map dict_of (d_pipelines d),
      cg_dispositions = map dict_of (d_dispositions d), cg_mappings = d_mappings d,
      cg_consent = d_consent_policies d, cg_dedup = d_dedup d, cg_external = d_external d,
      cg_tag_policies = d_tag_policies d, cg_baselines = d_baselines d, cg_run_phase = True,
      cg_by_id = [], cg_by_key = [], cg_serves = (\<lambda>k. {})\<rparr>"

lemma with_indices_Inr:
  assumes "with_indices g = Inr g'"
  shows "cg_operations g' = cg_operations g" and "cg_by_id g' = index_by gx_id (cg_operations g)"
    and "cg_by_key g' = index_by gx_key (cg_operations g)"
    and "served_requirements (graph_demands (cg_operations g)) = Inr (cg_serves g')"
    and "cg_requirements g' = cg_requirements g" and "cg_types g' = cg_types g"
    and "cg_pipelines g' = cg_pipelines g" and "cg_mode g' = cg_mode g"
  using assms by (auto simp: with_indices_def bindE_Inr_iff)

lemma keys_index_by: "set (keys (index_by f xs)) = f ` set xs"
proof -
  have "set (keys (fold (\<lambda>x m. AList.update (f x) x m) xs m)) = set (keys m) \<union> f ` set xs" for m
  proof (induction xs arbitrary: m)
    case (Cons x xs)
    show ?case unfolding fold_Cons comp_apply Cons.IH update_keys by (simp add: insert_absorb)
  qed simp
  then show ?thesis by (simp add: index_by_def)
qed

lemma index_by_Some:
  assumes "map_of (index_by f xs) k = Some x"
  shows "x \<in> set xs \<and> f x = k"
proof -
  have "map_of (fold (\<lambda>x m. AList.update (f x) x m) xs m) k = Some x \<Longrightarrow>
      x \<in> set xs \<and> f x = k \<or> map_of m k = Some x" for m
  proof (induction xs arbitrary: m)
    case (Cons y ys)
    from Cons.IH [of "AList.update (f y) y m"] Cons.prems show ?case
      by (auto simp: update_conv' split: if_splits)
  qed simp
  from this [of "[]"] show ?thesis using assms by (simp add: index_by_def)
qed

end
