(* ===== verification/ServerRules.thy ===== *)
theory ServerRules
  imports GraphContext
begin

text \<open>
  The rules of a server container: the event selectors of \<^verbatim>\<open>domain/events.py\<close>, the
  reviewed assertions of \<^verbatim>\<open>domain/server_assertions.py\<close> and
  \<^verbatim>\<open>validate_server_operations\<close> of \<^verbatim>\<open>domain/server.py\<close>. \<open>fail\<close>
  raises in a contract and in a run; what it raises is an argument.
\<close>

section \<open>Values\<close>

text \<open>Regular expressions: whether one matches, or nothing when it is not a pattern.\<close>

record patterns =
  pt_fullmatch :: "string \<Rightarrow> string \<Rightarrow> bool option"
  pt_search :: "bool \<Rightarrow> string \<Rightarrow> string \<Rightarrow> bool option"

definition occurs :: "string \<Rightarrow> string \<Rightarrow> bool" where
  "occurs needle s \<longleftrightarrow> after_first needle s \<noteq> None"

definition templated :: "string \<Rightarrow> bool" where
  "templated s = occurs ''{{'' s"

text \<open>Iterating over a value.\<close>

definition iterated :: "json \<Rightarrow> json list res" where
  "iterated v = (case v of
     JArr xs \<Rightarrow> Inr xs | JObj d \<Rightarrow> Inr (map JStr (keys d)) | JStr s \<Rightarrow> Inr (map (\<lambda>c. JStr [c]) s)
   | _ \<Rightarrow> Inl (OtherError ''not iterable''))"

text \<open>\<^verbatim>\<open>item.get(k) or {}\<close>, of which fields are read.\<close>

definition native_or_empty :: "json option \<Rightarrow> dict res" where
  "native_or_empty v = (case v of
     None \<Rightarrow> Inr []
   | Some x \<Rightarrow> if \<not> truthy x then Inr [] else (case x of JObj d \<Rightarrow> Inr d | _ \<Rightarrow> Inl (OtherError ''not an object'')))"

text \<open>\<^verbatim>\<open>item.get(k, {})\<close>.\<close>

definition native_default :: "json option \<Rightarrow> dict res" where
  "native_default v = (case v of
     None \<Rightarrow> Inr [] | Some (JObj d) \<Rightarrow> Inr d | Some _ \<Rightarrow> Inl (OtherError ''not an object''))"

text \<open>\<^verbatim>\<open>value in {...}\<close>.\<close>

definition in_texts :: "json \<Rightarrow> string list \<Rightarrow> bool res" where
  "in_texts v ks = (if unhashable v then Inl (OtherError ''unhashable type'') else Inr (text_among (Some v) ks))"

section \<open>Events\<close>

definition approved_event_name :: "dict \<Rightarrow> string option" where
  "approved_event_name requirement =
     (let v = (if truthy (get_or_null requirement ''source_event'') then get_or_null requirement ''source_event''
               else get_or_null requirement ''event_name'')
      in if nonblank_text v then Some (strip (text_of v)) else None)"

definition literal_name :: "json \<Rightarrow> string option" where
  "literal_name v = (case v of JStr s \<Rightarrow> if templated s then None else Some s | _ \<Rightarrow> None)"

definition event_keys :: "string list" where
  "event_keys = [''event_name'', ''eventName'']"

fun parameter_event :: "json list \<Rightarrow> string option res" where
  "parameter_event [] = Inr None"
| "parameter_event (row # rows) = (case row of
     JObj d \<Rightarrow> bindE (in_texts (get_or_null d ''key'') event_keys) (\<lambda>named.
       (case (if named then literal_name (get_or_null d ''value'') else None) of
          Some s \<Rightarrow> Inr (Some s) | None \<Rightarrow> parameter_event rows))
   | _ \<Rightarrow> parameter_event rows)"

definition configured_event_name :: "dict \<Rightarrow> string option res" where
  "configured_event_name intended =
     (case (literal_name (get_or_null intended ''event_name''), literal_name (get_or_null intended ''eventName'')) of
        (Some s, _) \<Rightarrow> Inr (Some s) | (None, Some s) \<Rightarrow> Inr (Some s)
      | (None, None) \<Rightarrow> bindE (iterated (json_field intended ''parameter'' (JArr []))) parameter_event)"

text \<open>The fields of a native condition; later entries replace earlier ones.\<close>

definition condition_fields :: "json list \<Rightarrow> (json \<times> json) list res" where
  "condition_fields rows =
     (let ds = map dict_of (filter is_dict rows) in
      if list_ex (\<lambda>d. unhashable (get_or_null d ''key'')) ds then Inl (OtherError ''unhashable type'')
      else Inr (rev (map (\<lambda>d. (get_or_null d ''key'', get_or_null d ''value'')) ds)))"

definition condition_field :: "(json \<times> json) list \<Rightarrow> string \<Rightarrow> json" where
  "condition_field entries k = (case map_of entries (JStr k) of None \<Rightarrow> JNull | Some v \<Rightarrow> v)"

definition flagged :: "json \<Rightarrow> bool res" where
  "flagged v = (if unhashable v then Inl (OtherError ''unhashable type'')
     else Inr (py_eq v (JBool True) \<or> v = JStr ''true''))"

text \<open>The operator of a condition on one event, before negation; nothing when it is unsupported.\<close>

definition operator_matches :: "patterns \<Rightarrow> string \<Rightarrow> (json \<times> json) list \<Rightarrow> string \<Rightarrow> string \<Rightarrow> bool option res" where
  "operator_matches rx operator entries operand event =
     (if operator = ''equals'' then Inr (Some (event = operand))
      else if operator = ''matchregex'' then
        bindE (flagged (condition_field entries ''ignore_case'')) (\<lambda>ignore. Inr (pt_search rx ignore operand event))
      else Inr None)"

definition condition_accepts :: "patterns \<Rightarrow> string \<Rightarrow> json \<Rightarrow> bool res" where
  "condition_accepts rx event condition = (case condition of
     JObj d \<Rightarrow> (case json_field d ''parameter'' (JArr []) of
        JArr rows \<Rightarrow> bindE (condition_fields rows) (\<lambda>entries.
          bindE (in_texts (condition_field entries ''arg0'') [''{{_event}}'', ''{{Event}}'']) (\<lambda>named.
          if \<not> named then Inr False
          else (case condition_field entries ''arg1'' of
            JStr operand \<Rightarrow> if templated operand then Inr False
              else bindE (operator_matches rx (casefold (py_str (json_field d ''type'' (JStr [])))) entries operand event)
                (\<lambda>matches. (case matches of
                    None \<Rightarrow> Inr False
                  | Some m \<Rightarrow> bindE (flagged (condition_field entries ''negate'')) (\<lambda>negated.
                      Inr (if negated then \<not> m else m))))
          | _ \<Rightarrow> Inr False)))
      | _ \<Rightarrow> Inr False)
   | _ \<Rightarrow> Inr False)"

fun all_accept :: "patterns \<Rightarrow> string \<Rightarrow> json list \<Rightarrow> bool res" where
  "all_accept rx event [] = Inr True"
| "all_accept rx event (c # cs) = bindE (condition_accepts rx event c) (\<lambda>ok.
     if ok then all_accept rx event cs else Inr False)"

definition trigger_accepts_event :: "patterns \<Rightarrow> dict \<Rightarrow> string \<Rightarrow> bool res" where
  "trigger_accepts_event rx intended event = (case get_or_null intended ''customEventFilter'' of
     JStr selector \<Rightarrow> Inr (pt_fullmatch rx selector event = Some True)
   | JArr conditions \<Rightarrow> if conditions = [] then Inr False else all_accept rx event conditions
   | _ \<Rightarrow> Inr False)"

section \<open>Reviewed assertions\<close>

definition review_metadata :: "string list" where
  "review_metadata = [''claim_criteria'', ''scope'', ''mode'', ''variable_type'', ''key_path'',
     ''claiming_client_proof'', ''secret_fields'', ''allowed_parameters'']"

definition required_assertion :: "string \<Rightarrow> dict \<Rightarrow> string option" where
  "required_assertion family native =
     (if family = ''client'' then Some ''client_claim''
      else if family = ''transformation'' then Some ''transformation''
      else if family = ''variable'' \<and> get_or_null native ''type'' = JStr ''ed'' then Some ''event_data'' else None)"

definition assertion_family :: "string \<Rightarrow> string res" where
  "assertion_family kind = (case map_of [(''client_claim'', ''client''), (''transformation'', ''transformation''),
       (''event_data'', ''variable'')] kind of None \<Rightarrow> Inl (KeyError kind) | Some f \<Rightarrow> Inr f)"

definition assertion_checks :: "host \<Rightarrow> (string \<Rightarrow> exn) \<Rightarrow> string \<Rightarrow> string \<Rightarrow> dict \<Rightarrow> string \<times> json \<Rightarrow> unit res" where
  "assertion_checks h err path family native named =
     bindE (assertion_family (fst named)) (\<lambda>expected.
     bindE (failE (family \<noteq> expected) (err (path @ ''.assertions.'' @ fst named @ '' does not apply to '' @ family))) (\<lambda>_.
     bindE (required_field (dict_of (snd named)) ''native_sha256'') (\<lambda>reviewed.
       failE (reviewed \<noteq> JStr (canonical_sha256 (h_sha256 h) (JObj native)))
         (err (path @ ''.assertions.'' @ fst named @ '' is stale: review the exact intended native snapshot'')))))"

definition client_checks :: "(string \<Rightarrow> exn) \<Rightarrow> string \<Rightarrow> graph_object \<Rightarrow> dict \<Rightarrow> unit res" where
  "client_checks err path x native = seqE
     [failE (case get_or_null native ''priority'' of JInt _ \<Rightarrow> False | _ \<Rightarrow> True)
        (err (path @ ''.intended.priority must explicitly record the reviewed integer priority'')),
      failE (gx_action x \<in> {Create, Update, Replace} \<and> gx_risk x \<noteq> ''high-impact'')
        (err (path @ ''.risk must be high-impact for Client claim behavior''))]"

definition transformation_checks :: "(string \<Rightarrow> exn) \<Rightarrow> string \<Rightarrow> graph_object \<Rightarrow> dict \<Rightarrow> unit res" where
  "transformation_checks err path x assertions =
     bindE (required_field assertions ''transformation'') (\<lambda>a.
     bindE (required_field (dict_of a) ''scope'') (\<lambda>scope.
       failE (scope \<noteq> JStr ''single-destination'' \<and> gx_risk x \<noteq> ''high-impact'')
         (err (path @ ''.risk must be high-impact for a shared Transformation''))))"

definition validate_server_assertions :: "host \<Rightarrow> (string \<Rightarrow> exn) \<Rightarrow> string \<Rightarrow> graph_object \<Rightarrow> unit res" where
  "validate_server_assertions h err path x =
     bindE (native_or_empty (gx_intended x)) (\<lambda>native.
     bindE (native_default (gx_assertions x)) (\<lambda>assertions.
     (let obsolete = sort (filter (\<lambda>k. k \<in> set (keys native)) review_metadata) in
     bindE (failE (obsolete \<noteq> []) (err (path @ ''.intended contains review metadata instead of native GTM fields: '' @
       py_repr_json (JArr (map JStr obsolete))))) (\<lambda>_.
     if gx_action x = Remove then Inr ()
     else seqE
       [case required_assertion (gx_family x) native of None \<Rightarrow> Inr ()
        | Some k \<Rightarrow> failE (\<not> has_key assertions k)
            (err (path @ ''.assertions.'' @ k @ '' must describe the reviewed native behavior'')),
        forE assertions (assertion_checks h err path (gx_family x) native),
        whenE (gx_family x = ''client'') (client_checks err path x native),
        whenE (gx_family x = ''transformation'') (transformation_checks err path x assertions)]))))"

section \<open>Operations of a server container\<close>

definition web_only_markers :: "string list" where
  "web_only_markers = [''click'', ''dom-ready'', ''element-visibility'', ''form-submission'', ''history-change'',
     ''javascript-error'', ''scroll-depth'', ''timer'', ''window-loaded'', ''youtube-video'']"

definition browser_code_types :: "string list" where
  "browser_code_types = [''custom-html'', ''custom-javascript'', ''html'', ''cjs'']"

text \<open>The objects by identifier, key and native identifier.\<close>

definition object_references_of :: "graph_object \<Rightarrow> string list" where
  "object_references_of x = filter (\<lambda>k. k \<noteq> []) ([gx_id x, gx_key x] @ (case gx_object_id x of None \<Rightarrow> [] | Some k \<Rightarrow> [k]))"

definition by_reference :: "graph_object list \<Rightarrow> (string \<times> graph_object) list" where
  "by_reference xs = fold (\<lambda>x m. fold (\<lambda>k m. AList.update k x m) (object_references_of x) m) xs []"

definition at_reference :: "graph_object list \<Rightarrow> json \<Rightarrow> graph_object option" where
  "at_reference xs v = (case v of JStr k \<Rightarrow> map_of (by_reference xs) k | _ \<Rightarrow> None)"

definition type_of_target :: "(string \<times> container) list \<Rightarrow> string \<Rightarrow> container res" where
  "type_of_target types k = (case map_of types k of None \<Rightarrow> Inl (KeyError k) | Some t \<Rightarrow> Inr t)"

text \<open>
  The events the flows of the pipelines bring to an operation. The schema makes an event a text;
  an empty or missing one is dropped where the code reads the set.
\<close>

definition transported_events :: "dict list \<Rightarrow> string \<Rightarrow> string list" where
  "transported_events pipelines k = concat (map (\<lambda>p. concat (map (\<lambda>flow.
     if JStr k \<in> set (list_of (get_or_null (dict_of flow) ''server_consumer_operation_ids''))
     then (case get_or_null (dict_of flow) ''transported_event'' of JStr e \<Rightarrow> if e = [] then [] else [e] | _ \<Rightarrow> []) else [])
     (list_of (get_or_null p ''event_flows'')))) pipelines)"

definition requirement_rows_by_id :: "dict list \<Rightarrow> (string \<times> dict) list" where
  "requirement_rows_by_id rows = index_by (\<lambda>r. text_of (get_or_null r ''id'')) rows"

definition expected_events :: "dict list \<Rightarrow> dict list \<Rightarrow> graph_object \<Rightarrow> string list" where
  "expected_events pipelines requirements x =
     (let flows = transported_events pipelines (gx_id x) in
      if flows \<noteq> [] then flows
      else List.map_filter (\<lambda>k. case map_of (requirement_rows_by_id requirements) k of
          None \<Rightarrow> None | Some r \<Rightarrow> approved_event_name r) (gx_requirements x))"

definition reference_check :: "(string \<Rightarrow> exn) \<Rightarrow> string \<Rightarrow> dict \<Rightarrow> string \<Rightarrow> unit res" where
  "reference_check err path intended field = (case json_field intended field (JArr []) of
     JArr vs \<Rightarrow> failE (list_ex (\<lambda>v. py_str v \<in> set built_in_trigger_ids) vs)
       (err (path @ ''.intended.'' @ field @ '' uses a web built-in trigger in a server container''))
   | _ \<Rightarrow> Inl (err (path @ ''.intended.'' @ field @ '' must be an array'')))"

definition resolve_trigger ::
  "(string \<Rightarrow> exn) \<Rightarrow> string \<Rightarrow> graph_object list \<Rightarrow> graph_object \<Rightarrow> json \<Rightarrow> graph_object res" where
  "resolve_trigger err path xs x reference = (case at_reference xs reference of
     Some t \<Rightarrow> if gx_family t \<noteq> ''trigger'' \<or> gx_target t \<noteq> gx_target x
         then Inl (err (path @ '' trigger references must resolve inside the server target''))
         else if gx_id t \<notin> set (gx_dependencies x)
         then Inl (err (path @ '' must depend on every firing and blocking trigger''))
         else Inr t
   | None \<Rightarrow> Inl (err (path @ '' trigger references must resolve inside the server target'')))"

fun any_accepts :: "patterns \<Rightarrow> string \<Rightarrow> graph_object list \<Rightarrow> bool res" where
  "any_accepts rx event [] = Inr False"
| "any_accepts rx event (t # ts) = bindE (native_default (gx_intended t)) (\<lambda>intended.
     bindE (trigger_accepts_event rx intended event) (\<lambda>ok. if ok then Inr True else any_accepts rx event ts))"

definition event_check :: "(string \<Rightarrow> exn) \<Rightarrow> string \<Rightarrow> patterns \<Rightarrow> graph_object list \<Rightarrow> string \<Rightarrow> unit res" where
  "event_check err path rx firing event = bindE (any_accepts rx event firing) (\<lambda>ok.
     failE (\<not> ok) (err (path @ '' has no firing trigger for '' @ py_repr event)))"

definition active_server_tag :: "graph_object \<Rightarrow> dict \<Rightarrow> bool" where
  "active_server_tag x intended \<longleftrightarrow> gx_family x = ''tag'' \<and> gx_action x \<notin> {Remove, Pause} \<and>
     get_or_null intended ''paused'' \<noteq> JBool True"

definition disjoint_check :: "(string \<Rightarrow> exn) \<Rightarrow> string \<Rightarrow> json list \<Rightarrow> json list \<Rightarrow> unit res" where
  "disjoint_check err path firing blocking =
     (if list_ex unhashable (firing @ blocking) then Inl (OtherError ''unhashable type'')
      else failE (list_ex (\<lambda>v. list_ex (py_eq v) blocking) firing)
        (err (path @ '' reuses one trigger for firing and blocking'')))"

definition tag_checks ::
  "(string \<Rightarrow> exn) \<Rightarrow> patterns \<Rightarrow> graph_object list \<Rightarrow> dict list \<Rightarrow> dict list \<Rightarrow> string \<Rightarrow> graph_object \<Rightarrow> dict \<Rightarrow> unit res" where
  "tag_checks err rx xs pipelines requirements path x intended =
     (let firing = list_of (get_or_null intended ''firingTriggerId'');
          blocking = list_of (get_or_null intended ''blockingTriggerId'') in
     bindE (failE (firing = []) (err (path @ ''.intended.firingTriggerId must bind an active server trigger''))) (\<lambda>_.
     bindE (failE (\<not> is_list (json_field intended ''blockingTriggerId'' (JArr [])))
       (err (path @ ''.intended.blockingTriggerId must be an array''))) (\<lambda>_.
     bindE (disjoint_check err path firing blocking) (\<lambda>_.
     bindE (mapE (resolve_trigger err path xs x) firing) (\<lambda>triggers.
     bindE (mapE (resolve_trigger err path xs x) blocking) (\<lambda>_.
       forE (expected_events pipelines requirements x) (event_check err path rx triggers)))))))"

text \<open>The event names the requirements of a tag approve.\<close>

definition approved_names :: "dict list \<Rightarrow> graph_object \<Rightarrow> json list" where
  "approved_names requirements x = filter (\<lambda>v. v \<noteq> JNull)
     (List.map_filter (\<lambda>k. map_option (\<lambda>r. get_or_null r ''event_name'')
        (map_of (requirement_rows_by_id requirements) k)) (gx_requirements x))"

definition event_name_check :: "(string \<Rightarrow> exn) \<Rightarrow> dict list \<Rightarrow> string \<Rightarrow> graph_object \<Rightarrow> dict \<Rightarrow> unit res" where
  "event_name_check err requirements path x intended =
     whenE (gx_family x = ''tag'' \<and> get_or_null intended ''type'' = JStr ''gaawc'')
       (bindE (configured_event_name intended) (\<lambda>literal. (case literal of
          None \<Rightarrow> Inr ()
        | Some s \<Rightarrow> (let approved = approved_names requirements x in
            failE (approved \<noteq> [] \<and> JStr s \<notin> set approved)
              (err (path @ '' configured event '' @ py_repr s @ '' differs from approved event names''))))))"

definition server_operation_checks ::
  "host \<Rightarrow> (string \<Rightarrow> exn) \<Rightarrow> patterns \<Rightarrow> graph_object list \<Rightarrow> dict list \<Rightarrow> dict list \<Rightarrow> string \<Rightarrow> graph_object \<Rightarrow> unit res" where
  "server_operation_checks h err rx xs pipelines requirements path x =
     bindE (failE (gx_family x \<notin> set server_resource_families)
       (err (path @ ''.resource_family is unavailable in a server container''))) (\<lambda>_.
     bindE (native_or_empty (gx_intended x)) (\<lambda>intended.
     (let raw_type = casefold (py_str (json_field intended ''type'' (json_field intended ''trigger_type'' (JStr [])))) in
     seqE
       [failE (gx_family x = ''trigger'' \<and> list_ex (\<lambda>marker. occurs marker raw_type) web_only_markers)
          (err (path @ '' uses a web lifecycle trigger in a server container'')),
        forE [''firingTriggerId'', ''blockingTriggerId''] (reference_check err path intended),
        failE (raw_type \<in> set browser_code_types)
          (err (path @ '' uses a browser Custom HTML/Custom JavaScript escape hatch'')),
        whenE (active_server_tag x intended) (tag_checks err rx xs pipelines requirements path x intended),
        validate_server_assertions h err path x,
        event_name_check err requirements path x intended])))"

definition validate_server_operations ::
  "host \<Rightarrow> (string \<Rightarrow> exn) \<Rightarrow> patterns \<Rightarrow> (string \<times> container) list \<Rightarrow> graph_object list \<Rightarrow> dict list \<Rightarrow> dict list \<Rightarrow> unit res" where
  "validate_server_operations h err rx types xs pipelines requirements =
     bindE (mapE (\<lambda>x. type_of_target types (gx_target x)) xs) (\<lambda>_.
       forE (enumerate 0 xs) (\<lambda>(i, x). bindE (type_of_target types (gx_target x)) (\<lambda>t.
         whenE (t = Server) (server_operation_checks h err rx xs pipelines requirements
           (index_path ''$.object_changes'' i) x))))"

text \<open>The rule as a run and as a contract call it.\<close>

definition server_rule_of_run :: "host \<Rightarrow> patterns \<Rightarrow> document \<Rightarrow> unit res" where
  "server_rule_of_run h rx d = bindE (graph_of_run d) (\<lambda>g.
     validate_server_operations h run_error rx (cg_types g) (map snd (cg_by_id g)) (cg_pipelines g) (cg_requirements g))"

definition server_rule_of_contract :: "host \<Rightarrow> patterns \<Rightarrow> contract \<Rightarrow> json list \<Rightarrow> unit res" where
  "server_rule_of_contract h rx c mappings = bindE (graph_of_contract c mappings) (\<lambda>g.
     validate_server_operations h contract_error rx (cg_types g) (cg_operations g) (cg_pipelines g) (cg_requirements g))"

end
