(* ===== verification/ServerProperties.thy ===== *)
theory ServerProperties
  imports ServerRules SampleRun
begin

text \<open>
  What the rules of a server container guarantee, for any graph and for a valid run document.
\<close>

section \<open>Accepted operations\<close>

lemma native_or_empty_dict [simp]: "native_or_empty (Some (JObj d)) = Inr d"
  by (auto simp: native_or_empty_def)

lemma server_operation_accepted:
  assumes "validate_server_operations h err rx types xs pipelines requirements = Inr ()"
    and "x \<in> set xs" and "map_of types (gx_target x) = Some Server"
  obtains path where "server_operation_checks h err rx xs pipelines requirements path x = Inr ()"
proof -
  obtain i where i: "(i, x) \<in> set (enumerate 0 xs)" using assms(2) by (metis in_set_conv_nth in_set_enumerate_eq add_0 length_enumerate nth_enumerate_eq nth_mem)
  then have "server_operation_checks h err rx xs pipelines requirements (index_path ''$.object_changes'' i) x = Inr ()"
    using assms(1,3) by (force simp: validate_server_operations_def bindE_Inr_iff forE_ok_iff type_of_target_def)
  then show thesis by (rule that)
qed

lemma resolve_trigger_Inr:
  "resolve_trigger err path xs x v = Inr t \<longleftrightarrow>
     at_reference xs v = Some t \<and> gx_family t = ''trigger'' \<and> gx_target t = gx_target x \<and> gx_id t \<in> set (gx_dependencies x)"
  by (auto simp: resolve_trigger_def split: option.split)

lemma at_reference_member:
  assumes "at_reference xs v = Some t"
  shows "t \<in> set xs"
proof -
  have inner: "map_of (fold (\<lambda>k m. AList.update k x m) ks m) k = Some t \<Longrightarrow> t = x \<or> map_of m k = Some t" for x ks m k
    by (induction ks arbitrary: m) (fastforce simp: update_conv' split: if_splits)+
  have "map_of (fold (\<lambda>x m. fold (\<lambda>k m. AList.update k x m) (object_references_of x) m) xs m) k = Some t \<Longrightarrow>
      t \<in> set xs \<or> map_of m k = Some t" for m k
    by (induction xs arbitrary: m) (auto dest: inner)
  from this [of "[]"] show ?thesis
    using assms by (auto simp: at_reference_def by_reference_def split: json.splits)
qed

lemma any_accepts_True:
  "any_accepts rx event ts = Inr True \<Longrightarrow>
     \<exists>t \<in> set ts. \<exists>n. native_default (gx_intended t) = Inr n \<and> trigger_accepts_event rx n event = Inr True"
  by (induction ts) (auto simp: bindE_Inr_iff split: if_splits)

lemma server_operation_parts:
  assumes "server_operation_checks h err rx xs pipelines requirements path x = Inr ()"
    and "native_or_empty (gx_intended x) = Inr intended"
  shows "active_server_tag x intended \<Longrightarrow> tag_checks err rx xs pipelines requirements path x intended = Inr ()"
    and "validate_server_assertions h err path x = Inr ()"
    and "event_name_check err requirements path x intended = Inr ()"
  using assms unfolding server_operation_checks_def bindE_Inr_iff Let_def seqE_ok_iff by simp_all

text \<open>What an accepted tag has: firing triggers of its container it depends on, none of them
  blocking, one for every event it is to receive.\<close>

definition triggered :: "patterns \<Rightarrow> graph_object list \<Rightarrow> string list \<Rightarrow> graph_object \<Rightarrow> dict \<Rightarrow> bool" where
  "triggered rx xs events x intended \<longleftrightarrow> (\<exists>firing. firing \<noteq> [] \<and>
     list_all2 (\<lambda>v t. at_reference xs v = Some t) (list_of (get_or_null intended ''firingTriggerId'')) firing \<and>
     (\<forall>t \<in> set firing. t \<in> set xs \<and> gx_family t = ''trigger'' \<and> gx_target t = gx_target x \<and> gx_id t \<in> set (gx_dependencies x)) \<and>
     set (list_of (get_or_null intended ''firingTriggerId'')) \<inter> set (list_of (get_or_null intended ''blockingTriggerId'')) = {} \<and>
     (\<forall>e \<in> set events. \<exists>t \<in> set firing. \<exists>n. native_default (gx_intended t) = Inr n \<and> trigger_accepts_event rx n e = Inr True))"

lemma accepted_tag_triggered:
  assumes "server_operation_checks h err rx xs pipelines requirements path x = Inr ()"
    and "native_or_empty (gx_intended x) = Inr intended" and "active_server_tag x intended"
  shows "triggered rx xs (expected_events pipelines requirements x) x intended"
proof -
  let ?firing = "list_of (get_or_null intended ''firingTriggerId'')"
  let ?blocking = "list_of (get_or_null intended ''blockingTriggerId'')"
  have checks: "tag_checks err rx xs pipelines requirements path x intended = Inr ()"
    by (rule server_operation_parts(1) [OF assms])
  then obtain ts where ts: "mapE (resolve_trigger err path xs x) ?firing = Inr ts" and "?firing \<noteq> []"
    and disjoint: "disjoint_check err path ?firing ?blocking = Inr ()"
    and events: "\<forall>e \<in> set (expected_events pipelines requirements x). event_check err path rx ts e = Inr ()"
    by (auto simp: tag_checks_def Let_def bindE_Inr_iff forE_ok_iff)
  have facts: "list_all2 (\<lambda>v t. at_reference xs v = Some t) ?firing ts"
    "\<forall>t \<in> set ts. gx_family t = ''trigger'' \<and> gx_target t = gx_target x \<and> gx_id t \<in> set (gx_dependencies x) \<and> t \<in> set xs"
    using ts mapE_member [OF ts]
    by (auto simp: mapE_Inr_iff resolve_trigger_Inr elim!: list_all2_mono dest: at_reference_member)
  have "py_eq v v" if "\<not> unhashable v" for v
    using that by (cases v) (simp_all add: unhashable_def is_dict_def is_list_def)
  then have "set ?firing \<inter> set ?blocking = {}"
    using disjoint by (fastforce simp: disjoint_check_def list_ex_iff split: if_splits)
  moreover have "\<exists>t \<in> set ts. \<exists>n. native_default (gx_intended t) = Inr n \<and> trigger_accepts_event rx n e = Inr True"
    if "e \<in> set (expected_events pipelines requirements x)" for e
  proof -
    have "any_accepts rx e ts = Inr True" using events that by (auto simp: event_check_def bindE_Inr_iff)
    then show ?thesis by (rule any_accepts_True)
  qed
  moreover have "ts \<noteq> []" using facts(1) \<open>?firing \<noteq> []\<close> by auto
  ultimately show ?thesis using facts unfolding triggered_def by blast
qed

text \<open>What the review of an accepted object is: bound to its snapshot, present where it is due.\<close>

definition reviewed :: "host \<Rightarrow> graph_object \<Rightarrow> dict \<Rightarrow> dict \<Rightarrow> bool" where
  "reviewed h x native assertions \<longleftrightarrow>
     (\<forall>(kind, a) \<in> set assertions. assertion_family kind = Inr (gx_family x) \<and>
        dget (dict_of a) ''native_sha256'' = Some (JStr (canonical_sha256 (h_sha256 h) (JObj native)))) \<and>
     (\<forall>k. required_assertion (gx_family x) native = Some k \<longrightarrow> has_key assertions k) \<and>
     set (keys native) \<inter> set review_metadata = {} \<and>
     (gx_family x = ''client'' \<and> gx_action x \<in> {Create, Update, Replace} \<longrightarrow> gx_risk x = ''high-impact'')"

lemma assertion_checks_ok:
  "assertion_checks h err path family native (kind, a) = Inr () \<longleftrightarrow> assertion_family kind = Inr family \<and>
     dget (dict_of a) ''native_sha256'' = Some (JStr (canonical_sha256 (h_sha256 h) (JObj native)))"
  by (auto simp: assertion_checks_def bindE_Inr_iff required_field_def split: option.split)

lemma accepted_object_reviewed:
  assumes "validate_server_assertions h err path x = Inr ()" and "native_or_empty (gx_intended x) = Inr native"
    and "native_default (gx_assertions x) = Inr assertions" and "gx_action x \<noteq> Remove"
  shows "reviewed h x native assertions"
proof -
  have obsolete: "sort (filter (\<lambda>k. k \<in> set (keys native)) review_metadata) = []"
    and parts: "required_assertion (gx_family x) native = Some k \<Longrightarrow> has_key assertions k"
    "forE assertions (assertion_checks h err path (gx_family x) native) = Inr ()"
    "gx_family x = ''client'' \<Longrightarrow> client_checks err path x native = Inr ()" for k
    using assms by (auto simp: validate_server_assertions_def bindE_Inr_iff Let_def checks_iff simp del: seqE.simps)
  have "filter (\<lambda>k. k \<in> set (keys native)) review_metadata = []" using obsolete by (metis set_empty set_sort)
  then have "set (keys native) \<inter> set review_metadata = {}" by (auto simp: filter_empty_conv)
  moreover have "gx_family x = ''client'' \<Longrightarrow> gx_action x \<in> {Create, Update, Replace} \<Longrightarrow> gx_risk x = ''high-impact''"
    using parts(3) unfolding client_checks_def seqE_ok_iff by simp
  ultimately show ?thesis using parts(1,2) unfolding reviewed_def forE_ok_iff
    by (auto simp: assertion_checks_ok)
qed

section \<open>Valid documents\<close>

text \<open>The host whose rule for servers is the one of the program.\<close>

definition with_server_rules :: "patterns \<Rightarrow> host \<Rightarrow> host" where
  "with_server_rules rx h = h\<lparr>h_domain := (\<lambda>rule d. if rule = ''server'' then server_rule_of_run h rx d else h_domain h rule d)\<rparr>"

definition run_types :: "document \<Rightarrow> (string \<times> container) list" where
  "run_types d = map (\<lambda>t. (tg_id t, container_type (tg_identity t))) (run_targets (d_run d))"

lemma index_by_distinct:
  assumes "distinct (map f xs)"
  shows "index_by f xs = map (\<lambda>x. (f x, x)) xs"
proof -
  have fresh: "k \<notin> set (keys m) \<Longrightarrow> AList.update k v m = m @ [(k, v)]" for k and v :: 'a and m
    by (induction m) auto
  have "distinct (map f xs) \<Longrightarrow> set (keys m) \<inter> f ` set xs = {} \<Longrightarrow>
      fold (\<lambda>x m. AList.update (f x) x m) xs m = m @ map (\<lambda>x. (f x, x)) xs" for m
  proof (induction xs arbitrary: m)
    case (Cons x xs)
    then show ?case by (auto simp: fresh Cons.IH)
  qed simp
  then show ?thesis using assms by (simp add: index_by_def)
qed

lemma valid_document_server_rules:
  assumes "validate_document (with_server_rules rx h) d = Inr ()"
  shows "validate_server_operations h run_error rx (run_types d) (map object_of_run (d_operations d))
     (map dict_of (d_pipelines d)) (map requirement_dict (d_requirements d)) = Inr ()"
proof -
  have "h_domain (with_server_rules rx h) ''server'' d = Inr ()"
    using assms by (auto simp: validate_document_def bindE_Inr_iff checks_iff Let_def simp del: seqE.simps)
  then obtain g where g: "graph_of_run d = Inr g"
    "validate_server_operations h run_error rx (cg_types g) (map snd (cg_by_id g)) (cg_pipelines g) (cg_requirements g) = Inr ()"
    by (auto simp: with_server_rules_def server_rule_of_run_def bindE_Inr_iff)
  have "distinct (map op_id (d_operations d))" by (rule validate_document_operations(1) [OF assms])
  then have "distinct (map gx_id (map object_of_run (d_operations d)))" by (simp add: comp_def object_of_run_def)
  then have "map snd (cg_by_id g) = map object_of_run (d_operations d)"
    using with_indices_Inr(2) [OF g(1) [unfolded graph_of_run_def]] by (simp add: index_by_distinct comp_def)
  then show ?thesis
    using g(2) with_indices_Inr(5-7) [OF g(1) [unfolded graph_of_run_def]] by (simp add: run_types_def)
qed

section \<open>A server container\<close>

text \<open>A tag that is to receive the event \<open>e\<close> of its requirement, and its trigger.\<close>

definition server_operation :: "string \<Rightarrow> string \<Rightarrow> string \<Rightarrow> string list \<Rightarrow> json \<Rightarrow> operation" where
  "server_operation key family name dependencies native = (let op = folder_base
     \<lparr>op_id := key, op_container := Server, op_family := family, op_name := name,
      op_key := ''T::'' @ family @ ''::'' @ name, op_dependencies := dependencies, op_intended := Some native\<rparr>
     in op\<lparr>op_approval := Some (build_mutation_approval run_host op ''doc'')\<rparr>)"

definition event_trigger :: json where
  "event_trigger = JObj [(''type'', JStr ''customEvent''), (''customEventFilter'', JArr [JObj
     [(''type'', JStr ''equals''), (''parameter'', JArr
       [JObj [(''type'', JStr ''template''), (''key'', JStr ''arg0''), (''value'', JStr ''{{_event}}'')],
        JObj [(''type'', JStr ''template''), (''key'', JStr ''arg1''), (''value'', JStr ''e'')]])]])]"

definition event_tag :: dict where
  "event_tag = [(''type'', JStr ''sgtmgaaw''), (''firingTriggerId'', JArr [JStr ''T::trigger::E''])]"

definition server_tag :: operation where
  "server_tag = server_operation ''OP-2'' ''tag'' ''G'' [''OP-1''] (JObj event_tag)"

definition server_document :: document where
  "server_document = (let d = update_run (\<lambda>run. run\<lparr>run_mode := ServerMode,
         run_targets := [run_target\<lparr>tg_identity := run_identity\<lparr>container_type := Server\<rparr>\<rparr>]\<rparr>)
       (run_document_base (empty_baseline ''T'') [server_operation ''OP-1'' ''trigger'' ''E'' [] event_trigger, server_tag])
       \<lparr>d_requirements := [run_requirement\<lparr>rq_event_name := JStr ''e'',
         rq_object_keys := [''T::trigger::E'', ''T::tag::G'']\<rparr>],
        d_publication := publication_dependencies ServerMode\<rparr> in
     update_run (\<lambda>run. run\<lparr>run_materialization := (run_materialization run)
       \<lparr>mt_section_fingerprints := materialization_fingerprints run_host d\<rparr>\<rparr>) d)"

definition sample_patterns :: patterns where
  "sample_patterns = \<lparr>pt_fullmatch = (\<lambda>p s. Some (p = s)), pt_search = (\<lambda>i p s. Some (occurs p s))\<rparr>"


lemma server_document_valid: "validate_document (with_server_rules sample_patterns run_host) server_document = Inr ()"
  by code_simp

lemma server_document_parts:
  "server_tag \<in> set (d_operations server_document)" "map_of (run_types server_document) (op_target server_tag) = Some Server"
  "op_intended server_tag = Some (JObj event_tag)" "active_server_tag (object_of_run server_tag) event_tag"
  by (simp_all add: server_document_def Let_def update_run_def run_document_base_def run_types_def run_target_def
      server_tag_def server_operation_def folder_base_def event_tag_def active_server_tag_def object_of_run_def
      get_or_null_def dget_def)

section \<open>Properties\<close>

text \<open>
  C21. In a valid run every active tag of a server container has firing triggers: operations of
  the run in the same container that it depends on, none of them also blocking it, and for every
  event a pipeline or its requirements bring to it one whose native conditions accept the event.
\<close>

theorem server_tags_are_triggered:
  assumes "validate_document (with_server_rules rx h) d = Inr ()" and "op \<in> set (d_operations d)"
    and "map_of (run_types d) (op_target op) = Some Server" and "op_intended op = Some (JObj intended)"
    and "active_server_tag (object_of_run op) intended"
  shows "triggered rx (map object_of_run (d_operations d))
     (expected_events (map dict_of (d_pipelines d)) (map requirement_dict (d_requirements d)) (object_of_run op))
     (object_of_run op) intended"
proof -
  have "object_of_run op \<in> set (map object_of_run (d_operations d))"
    and "map_of (run_types d) (gx_target (object_of_run op)) = Some Server"
    using assms(2,3) by (simp_all add: object_of_run_def)
  from server_operation_accepted [OF valid_document_server_rules [OF assms(1)] this]
  obtain path where "server_operation_checks h run_error rx (map object_of_run (d_operations d))
     (map dict_of (d_pipelines d)) (map requirement_dict (d_requirements d)) path (object_of_run op) = Inr ()" .
  then show ?thesis by (rule accepted_tag_triggered) (use assms(4,5) in \<open>simp_all add: object_of_run_def\<close>)
qed

lemma server_tags_are_triggered_witness:
  "triggered sample_patterns (map object_of_run (d_operations server_document)) [''e''] (object_of_run server_tag) event_tag"
proof -
  have "expected_events (map dict_of (d_pipelines server_document)) (map requirement_dict (d_requirements server_document))
      (object_of_run server_tag) = [''e'']" by code_simp
  then show ?thesis
    using server_tags_are_triggered [OF server_document_valid server_document_parts] by simp
qed

text \<open>
  C22. In a valid run the review of a server object is current: each assertion fits its family
  and bears the fingerprint of the exact intended snapshot, a Client, a Transformation and an
  Event Data variable have theirs, no review metadata stands among the native fields, and a
  Client that is created or changed is of high impact.
\<close>

theorem server_reviews_are_current:
  assumes "validate_document (with_server_rules rx h) d = Inr ()" and "op \<in> set (d_operations d)"
    and "map_of (run_types d) (op_target op) = Some Server" and "op_intended op = Some (JObj native)"
    and "native_default (op_assertions op) = Inr assertions" and "op_action op \<noteq> Remove"
  shows "reviewed h (object_of_run op) native assertions"
proof -
  have "object_of_run op \<in> set (map object_of_run (d_operations d))"
    and "map_of (run_types d) (gx_target (object_of_run op)) = Some Server"
    using assms(2,3) by (simp_all add: object_of_run_def)
  from server_operation_accepted [OF valid_document_server_rules [OF assms(1)] this]
  obtain path where "server_operation_checks h run_error rx (map object_of_run (d_operations d))
     (map dict_of (d_pipelines d)) (map requirement_dict (d_requirements d)) path (object_of_run op) = Inr ()" .
  moreover have "native_or_empty (gx_intended (object_of_run op)) = Inr native" using assms(4) by (simp add: object_of_run_def)
  ultimately have "validate_server_assertions h run_error path (object_of_run op) = Inr ()"
    by (rule server_operation_parts(2))
  then show ?thesis by (rule accepted_object_reviewed) (use assms in \<open>simp_all add: object_of_run_def\<close>)
qed

lemma server_reviews_are_current_witness: "reviewed run_host (object_of_run server_tag) event_tag []"
  by (rule server_reviews_are_current [OF server_document_valid server_document_parts(1-3)])
    (simp_all add: server_tag_def server_operation_def folder_base_def native_default_def Let_def)

end
