(* ===== verification/Reuse.thy ===== *)
theory Reuse
  imports ContractObjects Adapters
begin

text \<open>
  \<^verbatim>\<open>comparison/inventory.py\<close>: the native bodies of the reuse candidates of a request,
  taken from a preparation inventory. Identifiers of targets and families are texts; an object of
  the inventory is itself and not its value, so that the context of a match is every other object.
\<close>

definition inventory_version :: string where
  "inventory_version = ''gtm-preparation-inventory@1''"

text \<open>The rows of a list by their target; one that is listed twice is its last.\<close>

definition rows_by_target :: "json list \<Rightarrow> (string \<times> json) list res" where
  "rows_by_target rows = bindE (mapE (\<lambda>t. text_at t ''target_id'') rows) (\<lambda>ids. Inr (rev (zip ids rows)))"

definition inventory_records :: "dict \<Rightarrow> (string \<times> json) list res" where
  "inventory_records inventory =
     bindE (failE (get_or_null inventory ''schema_version'' \<noteq> JStr inventory_version \<or>
         get_or_null inventory ''purpose'' \<noteq> JStr ''preparation-only'')
       (ValueError ''Expected a current preparation inventory'')) (\<lambda>_.
     (case get_or_null inventory ''targets'' of
        JArr rows \<Rightarrow> bindE (rows_by_target rows) (\<lambda>records.
          bindE (failE (\<not> distinct (keys records)) (ValueError ''Inventory needs unique targets'')) (\<lambda>_. Inr records))
      | _ \<Rightarrow> Inl (ValueError ''Inventory needs unique targets'')))"

text \<open>The target a candidate names, or the only one there is.\<close>

definition candidate_target :: "(string \<times> json) list \<Rightarrow> dict \<Rightarrow> string option res" where
  "candidate_target targets candidate = (case get_or_null candidate ''target_id'' of
     JStr k \<Rightarrow> Inr (Some k)
   | JNull \<Rightarrow> Inr (case remdups (keys targets) of [k] \<Rightarrow> Some k | _ \<Rightarrow> None)
   | v \<Rightarrow> if unhashable v then Inl (OtherError ''unhashable type'') else Inr None)"

definition mismatch :: exn where
  "mismatch = ValueError ''Reuse candidate inventory does not match the approved target''"

definition same_target :: "json \<Rightarrow> json \<Rightarrow> bool res" where
  "same_target target captured = bindE (mapE (required_field (dict_of target)) identity_fields) (\<lambda>values.
     Inr (list_all (\<lambda>(k, v). py_eq v (get_or_null (dict_of captured) k)) (zip identity_fields values)))"

definition matched_target ::
  "(string \<times> json) list \<Rightarrow> (string \<times> json) list \<Rightarrow> dict \<Rightarrow> (string \<times> dict \<times> dict) res" where
  "matched_target targets records candidate = bindE (candidate_target targets candidate) (\<lambda>named. (case named of
     None \<Rightarrow> Inl mismatch
   | Some k \<Rightarrow> (case (map_of targets k, map_of records k) of
       (Some target, Some captured) \<Rightarrow> bindE (same_target target captured) (\<lambda>same.
          bindE (failE (\<not> same) mismatch) (\<lambda>_. Inr (k, dict_of target, dict_of captured)))
     | _ \<Rightarrow> Inl mismatch)))"

text \<open>The receipt of a listing; what is not an object has no fields.\<close>

definition listing_complete :: "dict \<Rightarrow> string \<Rightarrow> bool" where
  "listing_complete captured family =
     (let receipt = dict_of (get_or_null (dict_of (get_or_null captured ''pagination'')) family) in
      get_or_null receipt ''exhausted'' = JBool True \<and>
      (case get_or_null receipt ''pages_read'' of JInt n \<Rightarrow> 1 \<le> n | _ \<Rightarrow> False))"

definition object_matches :: "string \<Rightarrow> json \<Rightarrow> json \<Rightarrow> bool" where
  "object_matches family name v \<longleftrightarrow> get_or_null (dict_of v) ''object_type'' = JStr family \<and>
     py_eq (get_or_null (dict_of v) ''name'') name"

definition reuse_graph :: "json \<Rightarrow> json list \<Rightarrow> json" where
  "reuse_graph match context = JObj [(''objects'', JArr [match]), (''context_objects'', JArr context)]"

text \<open>The body of a match: its normal form without the fields that name it.\<close>

definition candidate_body :: "host \<Rightarrow> string \<Rightarrow> container \<Rightarrow> json \<Rightarrow> json list \<Rightarrow> dict res" where
  "candidate_body h k t match context =
     bindE (redact_for_persistence h [] (reuse_graph match context)) (\<lambda>graph.
     bindE (normalize_graph (Some [(k, t)]) [] graph) (\<lambda>normalized.
     (case normalized of
        [] \<Rightarrow> Inl (OtherError ''StopIteration'')
      | (_, native) # _ \<Rightarrow>
          bindE (failE (get_or_null (dict_of native) ''target_id'' \<noteq> JStr k)
            (ValueError ''Inventory object is scoped to another target'')) (\<lambda>_.
          Inr (filter (\<lambda>kv. fst kv \<notin> {''target_id'', ''object_type'', ''name''}) (dict_of native))))))"

text \<open>The candidate with the body of its only match.\<close>

definition unique_body ::
  "host \<Rightarrow> json \<Rightarrow> string \<Rightarrow> dict \<Rightarrow> string \<Rightarrow> json \<Rightarrow> json \<Rightarrow> json res" where
  "unique_body h row k target family name objects =
     (case filter (object_matches family name) (list_of objects) of
        [match] \<Rightarrow>
          bindE (stated_container target) (\<lambda>t.
          bindE (candidate_body h k t match (filter (\<lambda>v. \<not> object_matches family name v) (list_of objects))) (\<lambda>body.
            Inr (JObj (dict_of row @ [(''intended'', JObj body)]))))
      | _ \<Rightarrow> Inl (ValueError ''Reuse candidate must have exactly one inventory match''))"

definition fill_candidate ::
  "host \<Rightarrow> (string \<times> json) list \<Rightarrow> (string \<times> json) list \<Rightarrow> json \<Rightarrow> json res" where
  "fill_candidate h targets records row =
     (let candidate = dict_of row in
      if has_key candidate ''intended'' then Inr row
      else bindE (matched_target targets records candidate) (\<lambda>(k, target, captured).
        bindE (text_at row ''resource_family'') (\<lambda>family.
        bindE (required_field candidate ''name'') (\<lambda>name.
        bindE (failE (\<not> listing_complete captured family)
          (ValueError ''Reuse candidate family listing is incomplete'')) (\<lambda>_.
        bindE (required_field captured ''objects'') (\<lambda>objects.
        bindE (failE (\<not> list_all is_dict (list_of objects)) (OtherError ''not an object'')) (\<lambda>_.
          unique_body h row k target family name objects)))))))"

definition fill_reuse_candidates :: "host \<Rightarrow> dict \<Rightarrow> dict \<Rightarrow> dict res" where
  "fill_reuse_candidates h request inventory =
     bindE (inventory_records inventory) (\<lambda>records.
     bindE (required_field request ''targets'') (\<lambda>rows.
     bindE (rows_by_target (list_of rows)) (\<lambda>targets.
     (case dget request ''reuse_candidates'' of
        None \<Rightarrow> Inr request
      | Some candidates \<Rightarrow> bindE (mapE (fill_candidate h targets records) (list_of candidates)) (\<lambda>filled.
          Inr (dset request ''reuse_candidates'' (JArr filled)))))))"

section \<open>What filling does\<close>

text \<open>
  Where the body of a candidate comes from: a target of the request and the capture of the same
  identity, whose listing of the family was exhausted and holds exactly one such object.
\<close>

definition body_captured :: "host \<Rightarrow> dict \<Rightarrow> dict \<Rightarrow> json \<Rightarrow> dict \<Rightarrow> bool" where
  "body_captured h request inventory row body \<longleftrightarrow> (\<exists>k target captured family name match objects t.
     target \<in> set (list_of (get_or_null request ''targets'')) \<and> dget (dict_of target) ''target_id'' = Some (JStr k) \<and>
     captured \<in> set (list_of (get_or_null inventory ''targets'')) \<and> dget (dict_of captured) ''target_id'' = Some (JStr k) \<and>
     same_target target captured = Inr True \<and> listing_complete (dict_of captured) family \<and>
     dget (dict_of row) ''resource_family'' = Some (JStr family) \<and> dget (dict_of row) ''name'' = Some name \<and>
     objects = list_of (get_or_null (dict_of captured) ''objects'') \<and>
     filter (object_matches family name) objects = [match] \<and> stated_container (dict_of target) = Inr t \<and>
     candidate_body h k t match (filter (\<lambda>v. \<not> object_matches family name v) objects) = Inr body)"

lemma required_field_Inr: "required_field d k = Inr v \<longleftrightarrow> dget d k = Some v"
  by (auto simp: required_field_def split: option.split)

lemma rows_by_target_Some:
  assumes "rows_by_target rows = Inr m" and "map_of m k = Some row"
  shows "row \<in> set rows" and "dget (dict_of row) ''target_id'' = Some (JStr k)"
proof -
  obtain ids where ids: "list_all2 (\<lambda>t i. text_at t ''target_id'' = Inr i) rows ids" and m: "m = rev (zip ids rows)"
    using assms(1) by (auto simp: rows_by_target_def bindE_Inr_iff mapE_Inr_iff)
  have "(k, row) \<in> set (zip ids rows)" using map_of_SomeD [OF assms(2)] by (simp add: m)
  then show "row \<in> set rows" "dget (dict_of row) ''target_id'' = Some (JStr k)"
    using ids by (auto simp: set_zip list_all2_conv_all_nth text_at_Inr)
qed

lemma matched_target_Inr:
  assumes "matched_target targets records candidate = Inr (k, target, captured)"
  obtains t c where "map_of targets k = Some t" and "map_of records k = Some c" and "same_target t c = Inr True"
    and "target = dict_of t" and "captured = dict_of c"
proof -
  obtain named where "(case named of None \<Rightarrow> Inl mismatch
     | Some k \<Rightarrow> (case (map_of targets k, map_of records k) of
         (Some target, Some captured) \<Rightarrow> bindE (same_target target captured) (\<lambda>same.
            bindE (failE (\<not> same) mismatch) (\<lambda>_. Inr (k, dict_of target, dict_of captured)))
       | _ \<Rightarrow> Inl mismatch)) = Inr (k, target, captured)"
    using assms unfolding matched_target_def bindE_Inr_iff by blast
  then obtain t c where "map_of targets k = Some t" "map_of records k = Some c" "same_target t c = Inr True"
    "target = dict_of t" "captured = dict_of c"
    by (auto simp: bindE_Inr_iff split: option.split_asm)
  then show thesis by (rule that)
qed

lemma fill_candidate_Inr:
  assumes "fill_candidate h targets records row = Inr row'"
    and "rows_by_target (list_of (get_or_null request ''targets'')) = Inr targets"
    and "rows_by_target (list_of (get_or_null inventory ''targets'')) = Inr records"
  shows "if has_key (dict_of row) ''intended'' then row' = row
    else \<exists>body. row' = JObj (dict_of row @ [(''intended'', JObj body)]) \<and> body_captured h request inventory row body"
proof (cases "has_key (dict_of row) ''intended''")
  case False
  then have "bindE (matched_target targets records (dict_of row)) (\<lambda>(k, target, captured).
     bindE (text_at row ''resource_family'') (\<lambda>family. bindE (required_field (dict_of row) ''name'') (\<lambda>name.
     bindE (failE (\<not> listing_complete captured family) (ValueError ''Reuse candidate family listing is incomplete'')) (\<lambda>_.
     bindE (required_field captured ''objects'') (\<lambda>objects.
     bindE (failE (\<not> list_all is_dict (list_of objects)) (OtherError ''not an object'')) (\<lambda>_.
       unique_body h row k target family name objects)))))) = Inr row'"
    using assms(1) by (simp add: fill_candidate_def Let_def)
  then obtain k target captured family name objects
    where m: "matched_target targets records (dict_of row) = Inr (k, target, captured)"
      and parts: "text_at row ''resource_family'' = Inr family" "required_field (dict_of row) ''name'' = Inr name"
        "listing_complete captured family" "required_field captured ''objects'' = Inr objects"
      and unique: "unique_body h row k target family name objects = Inr row'"
    unfolding bindE_Inr_iff failE_ok_iff by (auto simp: bindE_Inr_iff)
  obtain match where match: "filter (object_matches family name) (list_of objects) = [match]"
    using unique by (auto simp: unique_body_def split: list.split_asm)
  obtain t body where body: "stated_container target = Inr t"
    "candidate_body h k t match (filter (\<lambda>v. \<not> object_matches family name v) (list_of objects)) = Inr body"
    "row' = JObj (dict_of row @ [(''intended'', JObj body)])"
    using unique by (auto simp: unique_body_def match bindE_Inr_iff)
  obtain x c where x: "map_of targets k = Some x" "map_of records k = Some c" "same_target x c = Inr True"
    "target = dict_of x" "captured = dict_of c" by (rule matched_target_Inr [OF m])
  have objects: "list_of objects = list_of (get_or_null (dict_of c) ''objects'')"
    using parts(4) by (simp add: required_field_Inr get_or_null_def x(5))
  have "body_captured h request inventory row body"
    unfolding body_captured_def
    by (rule exI [of _ k], rule exI [of _ x], rule exI [of _ c], rule exI [of _ family], rule exI [of _ name],
        rule exI [of _ match], rule exI [of _ "list_of objects"], rule exI [of _ t], intro conjI)
      (use rows_by_target_Some [OF assms(2) x(1)] rows_by_target_Some [OF assms(3) x(2)] x(3) objects
        parts [unfolded x(4,5) text_at_Inr required_field_Inr] match body(1,2) [unfolded x(4,5)] in \<open>simp_all only:\<close>)
  then show ?thesis using False body(3) by auto
qed (use assms(1) in \<open>simp add: fill_candidate_def Let_def\<close>)

lemma fill_reuse_candidates_Inr:
  assumes "fill_reuse_candidates h request inventory = Inr result"
  obtains records targets where "rows_by_target (list_of (get_or_null inventory ''targets'')) = Inr records"
    and "inventory_records inventory = Inr records" and "dget request ''targets'' \<noteq> None"
    and "rows_by_target (list_of (get_or_null request ''targets'')) = Inr targets"
    and "case dget request ''reuse_candidates'' of None \<Rightarrow> result = request
      | Some candidates \<Rightarrow> \<exists>filled. list_all2 (\<lambda>c c'. fill_candidate h targets records c = Inr c') (list_of candidates) filled \<and>
          result = dset request ''reuse_candidates'' (JArr filled)"
proof -
  obtain records rows targets where records: "inventory_records inventory = Inr records"
    and rows: "required_field request ''targets'' = Inr rows" and targets: "rows_by_target (list_of rows) = Inr targets"
    and result: "(case dget request ''reuse_candidates'' of None \<Rightarrow> Inr request
       | Some candidates \<Rightarrow> bindE (mapE (fill_candidate h targets records) (list_of candidates)) (\<lambda>filled.
          Inr (dset request ''reuse_candidates'' (JArr filled)))) = Inr result"
    using assms unfolding fill_reuse_candidates_def bindE_Inr_iff by blast
  show thesis
  proof (rule that)
    show "rows_by_target (list_of (get_or_null inventory ''targets'')) = Inr records"
      using records by (auto simp: inventory_records_def bindE_Inr_iff list_of_def split: json.splits)
    show "inventory_records inventory = Inr records" by (rule records)
    show "dget request ''targets'' \<noteq> None" using rows by (simp add: required_field_Inr)
    show "rows_by_target (list_of (get_or_null request ''targets'')) = Inr targets"
      using rows targets by (simp add: required_field_Inr get_or_null_def)
    show "case dget request ''reuse_candidates'' of None \<Rightarrow> result = request
      | Some candidates \<Rightarrow> \<exists>filled. list_all2 (\<lambda>c c'. fill_candidate h targets records c = Inr c') (list_of candidates) filled \<and>
          result = dset request ''reuse_candidates'' (JArr filled)"
      using result by (auto simp: bindE_Inr_iff mapE_Inr_iff split: option.splits)
  qed
qed

end
