(* ===== verification/TemplateBindings.thy ===== *)
theory TemplateBindings
  imports ServerRules
begin

text \<open>
  \<^verbatim>\<open>domain/template_bindings.py\<close>: a custom tag, variable or client is bound to the installed
  template it depends on, whose inspected source declares its native type and its parameters.
\<close>

text \<open>\<^verbatim>\<open>item.get("intended") or item.get("pre_change") or {}\<close>.\<close>

definition effective_native :: "graph_object \<Rightarrow> dict res" where
  "effective_native x = native_or_empty
     (case gx_intended x of None \<Rightarrow> gx_pre_change x | Some v \<Rightarrow> if truthy v then Some v else gx_pre_change x)"

definition custom_type :: "graph_object \<Rightarrow> dict \<Rightarrow> string option" where
  "custom_type x native =
     (if gx_family x \<in> {''tag'', ''variable'', ''client''} \<and> gx_action x \<notin> {Remove, Pause} then
        (case get_or_null native ''type'' of JStr t \<Rightarrow> if starts_with t ''cvt_'' then Some t else None | _ \<Rightarrow> None)
      else None)"

definition dependency_at :: "(string \<times> graph_object) list \<Rightarrow> string \<Rightarrow> graph_object res" where
  "dependency_at by_id k = (case map_of by_id k of None \<Rightarrow> Inl (KeyError k) | Some x \<Rightarrow> Inr x)"

definition template_dependencies :: "(string \<times> graph_object) list \<Rightarrow> graph_object \<Rightarrow> graph_object list res" where
  "template_dependencies by_id x = bindE (mapE (dependency_at by_id) (gx_dependencies x)) (\<lambda>ds.
     Inr (filter (\<lambda>d. gx_family d = ''template'') ds))"

text \<open>What the source of an installed template, or of a persisted one, proves.\<close>

definition template_proof :: "host \<Rightarrow> bool \<Rightarrow> json \<Rightarrow> json res" where
  "template_proof h persisted source = (case source of
     JStr s \<Rightarrow> inspect_template_source h s
   | JObj d \<Rightarrow> if persisted \<and> truthy (get_or_null d ''source_integrity'') \<and> truthy (get_or_null d ''source_inspection'')
       then Inr (get_or_null d ''source_inspection'')
       else Inl (ValueError ''installed source must establish native template identity and parameters'')
   | _ \<Rightarrow> Inl (ValueError ''installed source must establish native template identity and parameters''))"

definition proved_type :: "json \<Rightarrow> json res" where
  "proved_type p = (case p of JObj d \<Rightarrow> required_field d ''native_type'' | _ \<Rightarrow> Inl (OtherError ''TypeError''))"

text \<open>The proof of one template; every error in it is a failed check of the template.\<close>

definition inspected_proof :: "host \<Rightarrow> (string \<Rightarrow> exn) \<Rightarrow> bool \<Rightarrow> string \<Rightarrow> graph_object \<Rightarrow> json list res" where
  "inspected_proof h err persisted native_type t =
     bindE (effective_native t) (\<lambda>native.
     (case bindE (template_proof h persisted (get_or_null native ''templateData'')) (\<lambda>p.
         bindE (proved_type p) (\<lambda>k. Inr (p, k))) of
        Inl e \<Rightarrow> Inl (err (''custom template '' @ py_repr (gx_key t) @ '': '' @ exn_message e))
      | Inr (p, k) \<Rightarrow> Inr (if k = JStr native_type then [p] else [])))"

definition parameter_check :: "(string \<Rightarrow> exn) \<Rightarrow> graph_object \<Rightarrow> dict \<Rightarrow> json \<Rightarrow> unit res" where
  "parameter_check err x declared parameter = (case parameter of
     JObj d \<Rightarrow> (let k = get_or_null d ''key'' in
       if unhashable k then Inl (OtherError ''unhashable type'')
       else failE (case k of
           JStr s \<Rightarrow> get_or_null declared s = JNull \<or>
             casefold (py_str (json_field d ''type'' (JStr []))) \<noteq> casefold (py_str (get_or_null declared s))
         | _ \<Rightarrow> True)
         (err (''custom consumer '' @ py_repr (gx_key x) @ '' parameter '' @ py_repr_json k @
           '' requires its inspected template definition and native shape'')))
   | _ \<Rightarrow> Inl (OtherError ''not an object''))"

definition consumer_checks :: "host \<Rightarrow> (string \<Rightarrow> exn) \<Rightarrow> bool \<Rightarrow> (string \<times> graph_object) list \<Rightarrow> graph_object \<Rightarrow> unit res" where
  "consumer_checks h err persisted by_id x =
     bindE (if gx_family x \<in> {''tag'', ''variable'', ''client''} \<and> gx_action x \<notin> {Remove, Pause}
       then effective_native x else Inr []) (\<lambda>native.
     (case custom_type x native of
        None \<Rightarrow> Inr ()
      | Some native_type \<Rightarrow>
          bindE (template_dependencies by_id x) (\<lambda>templates.
          if templates = [] \<and> gx_action x \<in> {Reuse, Untouched} then Inr ()
          else bindE (mapE (inspected_proof h err persisted native_type) templates) (\<lambda>proofs.
            bindE (failE (length (concat proofs) \<noteq> 1) (err (''custom consumer '' @ py_repr (gx_key x) @
              '' needs exactly one matching installed source dependency; INFO.id owns native type''))) (\<lambda>_.
            bindE (required_field (dict_of (hd (concat proofs))) ''parameter_types'') (\<lambda>declared.
            bindE (iterated (json_field native ''parameter'' (JArr []))) (\<lambda>parameters.
              forE parameters (parameter_check err x (dict_of declared)))))))))"

definition validate_template_bindings :: "host \<Rightarrow> (string \<Rightarrow> exn) \<Rightarrow> bool \<Rightarrow> graph_object list \<Rightarrow> unit res" where
  "validate_template_bindings h err persisted xs = forE xs (consumer_checks h err persisted (index_by gx_id xs))"

section \<open>What an accepted consumer has\<close>

text \<open>The inspected source of a template proves this native type.\<close>

definition proves_type :: "host \<Rightarrow> bool \<Rightarrow> string \<Rightarrow> graph_object \<Rightarrow> json \<Rightarrow> bool" where
  "proves_type h persisted native_type t p \<longleftrightarrow> (\<exists>source. effective_native t = Inr source \<and>
     template_proof h persisted (get_or_null source ''templateData'') = Inr p \<and>
     proved_type p = Inr (JStr native_type))"

text \<open>
  A custom consumer is bound: exactly one of the templates it depends on proves its native type,
  and the proof declares every parameter it sets, with its shape. The templates are the
  dependencies of the consumer in their order, so a repeated one counts twice.
\<close>

definition template_bound :: "host \<Rightarrow> bool \<Rightarrow> graph_object list \<Rightarrow> graph_object \<Rightarrow> dict \<Rightarrow> string \<Rightarrow> bool" where
  "template_bound h persisted xs x native native_type \<longleftrightarrow>
     (\<exists>dependencies t p declared.
        list_all2 (\<lambda>k y. y \<in> set xs \<and> gx_id y = k) (gx_dependencies x) dependencies \<and>
        filter (\<lambda>y. gx_family y = ''template'' \<and> (\<exists>q. proves_type h persisted native_type y q)) dependencies = [t] \<and>
        proves_type h persisted native_type t p \<and> dget (dict_of p) ''parameter_types'' = Some declared \<and>
        (\<forall>parameter \<in> set (list_of (get_or_null native ''parameter'')). \<exists>d k shape. parameter = JObj d \<and>
           dget d ''key'' = Some (JStr k) \<and> dget (dict_of declared) k = Some shape \<and> shape \<noteq> JNull \<and>
           casefold (py_str (json_field d ''type'' (JStr []))) = casefold (py_str shape)))"

lemma parameter_check_ok:
  assumes "parameter_check err x declared parameter = Inr ()"
  obtains d k shape where "parameter = JObj d" and "dget d ''key'' = Some (JStr k)"
    and "dget declared k = Some shape" and "shape \<noteq> JNull"
    and "casefold (py_str (json_field d ''type'' (JStr []))) = casefold (py_str shape)"
proof -
  obtain d where d: "parameter = JObj d" using assms by (cases parameter) (auto simp: parameter_check_def)
  obtain k where k: "get_or_null d ''key'' = JStr k" and shape: "get_or_null declared k \<noteq> JNull"
    and fits: "casefold (py_str (json_field d ''type'' (JStr []))) = casefold (py_str (get_or_null declared k))"
    using assms by (cases "get_or_null d ''key''") (auto simp: parameter_check_def d Let_def split: if_splits)
  then show thesis
    by (intro that [of d k "get_or_null declared k"])
      (auto simp: d get_or_null_def split: option.splits)
qed

text \<open>The proofs of a list of templates are those of the templates that prove the type.\<close>

lemma inspected_proof_Inr:
  assumes "inspected_proof h err persisted native_type t = Inr ps"
  shows "ps = [] \<and> \<not> (\<exists>q. proves_type h persisted native_type t q) \<or> (\<exists>p. ps = [p] \<and> proves_type h persisted native_type t p)"
proof -
  obtain source where source: "effective_native t = Inr source"
    and r: "(case bindE (template_proof h persisted (get_or_null source ''templateData'')) (\<lambda>p.
         bindE (proved_type p) (\<lambda>k. Inr (p, k))) of
        Inl e \<Rightarrow> Inl (err (''custom template '' @ py_repr (gx_key t) @ '': '' @ exn_message e))
      | Inr (p, k) \<Rightarrow> Inr (if k = JStr native_type then [p] else [])) = Inr ps"
    using assms(1) unfolding inspected_proof_def bindE_Inr_iff by blast
  obtain p k where p: "template_proof h persisted (get_or_null source ''templateData'') = Inr p" "proved_type p = Inr k"
    and ps: "ps = (if k = JStr native_type then [p] else [])"
    using r by (auto simp: bindE_Inr_iff split: sum.split_asm)
  show ?thesis
    by (cases "k = JStr native_type") (simp_all add: ps proves_type_def source p)
qed

lemma inspected_proofs:
  "mapE (inspected_proof h err persisted native_type) ts = Inr proofs \<Longrightarrow>
   list_all2 (proves_type h persisted native_type)
     (filter (\<lambda>t. \<exists>q. proves_type h persisted native_type t q) ts) (concat proofs)"
proof (induction ts arbitrary: proofs)
  case (Cons t ts)
  obtain ps rest where r: "inspected_proof h err persisted native_type t = Inr ps"
    "mapE (inspected_proof h err persisted native_type) ts = Inr rest" "proofs = ps # rest"
    using Cons.prems by (auto simp: bindE_Inr_iff)
  show ?case using inspected_proof_Inr [OF r(1)] Cons.IH [OF r(2)] unfolding r(3) by auto
qed simp

lemma dependencies_found:
  "mapE (dependency_at (index_by gx_id xs)) ks = Inr ds \<Longrightarrow> list_all2 (\<lambda>k y. y \<in> set xs \<and> gx_id y = k) ks ds"
  by (induction ks arbitrary: ds)
    (auto simp: bindE_Inr_iff dependency_at_def split: option.splits dest!: index_by_Some)

lemma validate_template_bindings_bound:
  assumes "validate_template_bindings h err persisted xs = Inr ()" and "x \<in> set xs"
    and "effective_native x = Inr native" and "custom_type x native = Some native_type"
    and "gx_action x \<notin> {Reuse, Untouched}"
  shows "template_bound h persisted xs x native native_type"
proof -
  have "gx_family x \<in> {''tag'', ''variable'', ''client''} \<and> gx_action x \<notin> {Remove, Pause}"
    using assms(4) by (auto simp: custom_type_def split: if_splits)
  moreover have "consumer_checks h err persisted (index_by gx_id xs) x = Inr ()"
    using assms(1,2) by (simp add: validate_template_bindings_def forE_ok_iff)
  ultimately obtain templates proofs declared parameters
    where templates: "template_dependencies (index_by gx_id xs) x = Inr templates"
      and proofs: "mapE (inspected_proof h err persisted native_type) templates = Inr proofs"
      and one: "length (concat proofs) = 1"
      and declared: "required_field (dict_of (hd (concat proofs))) ''parameter_types'' = Inr declared"
      and parameters: "iterated (json_field native ''parameter'' (JArr [])) = Inr parameters"
        "\<forall>q \<in> set parameters. parameter_check err x (dict_of declared) q = Inr ()"
    using assms(3-5) by (auto simp: consumer_checks_def bindE_Inr_iff forE_ok_iff)
  obtain p where p: "concat proofs = [p]" using one by (cases "concat proofs") auto
  obtain ds where ds: "mapE (dependency_at (index_by gx_id xs)) (gx_dependencies x) = Inr ds"
    "templates = filter (\<lambda>y. gx_family y = ''template'') ds"
    using templates by (auto simp: template_dependencies_def bindE_Inr_iff)
  obtain t where "filter (\<lambda>t. \<exists>q. proves_type h persisted native_type t q) templates = [t]"
    and proof_t: "proves_type h persisted native_type t p"
    using inspected_proofs [OF proofs] unfolding p by (auto simp: list_all2_Cons2)
  then have only: "filter (\<lambda>y. gx_family y = ''template'' \<and> (\<exists>q. proves_type h persisted native_type y q)) ds = [t]"
    by (simp add: ds(2))
  have "\<exists>d k shape. q = JObj d \<and> dget d ''key'' = Some (JStr k) \<and> dget (dict_of declared) k = Some shape \<and> shape \<noteq> JNull \<and>
      casefold (py_str (json_field d ''type'' (JStr []))) = casefold (py_str shape)"
    if "q \<in> set (list_of (get_or_null native ''parameter''))" for q
  proof -
    have "q \<in> set parameters" using that parameters(1)
      by (auto simp: iterated_def json_field_def get_or_null_def list_of_def split: option.splits json.splits)
    then show ?thesis using parameters(2) parameter_check_ok by metis
  qed
  moreover have "dget (dict_of p) ''parameter_types'' = Some declared"
    using declared by (auto simp: p required_field_def split: option.splits)
  ultimately show ?thesis unfolding template_bound_def
    using dependencies_found [OF ds(1)] only proof_t by blast
qed

end
