(* ===== verification/WebInventory.thy ===== *)
theory WebInventory
  imports ServerRules
begin

text \<open>
  The inventory of a web container: \<^verbatim>\<open>domain/inventory.py\<close> with the localisation of
  \<^verbatim>\<open>domain/localization.py\<close> and \<^verbatim>\<open>effective_target\<close> of
  \<^verbatim>\<open>domain/web_native.py\<close>. A refonte disposes of every tag of the container exactly once.
  \<open>fail\<close> raises; what it raises is an argument.
\<close>

section \<open>Localisation\<close>

definition local_key :: "(string \<Rightarrow> exn) \<Rightarrow> json \<Rightarrow> string \<Rightarrow> string \<Rightarrow> string res" where
  "local_key err v target path = bindE (check_text err v path) (\<lambda>k.
     (let prefix = target @ ''::'' in
      if starts_with k prefix then Inr (drop (length prefix) k)
      else Inl (err (path @ '' must reference target '' @ py_repr target))))"

definition local_trigger_reference :: "(string \<Rightarrow> exn) \<Rightarrow> json \<Rightarrow> string \<Rightarrow> string \<Rightarrow> string res" where
  "local_trigger_reference err v target path = bindE (check_text err v path) (\<lambda>k.
     if k \<in> set built_in_trigger_ids then Inr k else local_key err (JStr k) target path)"

definition local_triggers :: "(string \<Rightarrow> exn) \<Rightarrow> string \<Rightarrow> string \<Rightarrow> dict \<Rightarrow> string \<Rightarrow> dict res" where
  "local_triggers err target path d field = (case dget d field of
     None \<Rightarrow> Inr d
   | Some v \<Rightarrow> bindE (check_array err v (path @ ''.'' @ field)) (\<lambda>vs.
       bindE (mapE (\<lambda>w. local_trigger_reference err w target (path @ ''.'' @ field @ ''[]'')) vs) (\<lambda>ks.
         Inr (dset d field (texts ks)))))"

definition local_target :: "(string \<Rightarrow> exn) \<Rightarrow> json option \<Rightarrow> string \<Rightarrow> string \<Rightarrow> json option res" where
  "local_target err raw target path = (case raw of
     None \<Rightarrow> Inr None | Some JNull \<Rightarrow> Inr None
   | Some (JObj d) \<Rightarrow> bindE (foldE (local_triggers err target path) d [''firingTriggerId'', ''blockingTriggerId''])
       (\<lambda>e. Inr (Some (JObj e)))
   | Some _ \<Rightarrow> Inl (err (path @ '' must be an object'')))"

definition with_defaults :: "string \<Rightarrow> string \<Rightarrow> json option \<Rightarrow> json option" where
  "with_defaults family name v = (case v of
     Some (JObj d) \<Rightarrow> Some (JObj (d @ (if has_key d ''object_type'' then [] else [(''object_type'', JStr family)]) @
       (if has_key d ''name'' then [] else [(''name'', JStr name)])))
   | _ \<Rightarrow> v)"

definition localized_object :: "(string \<Rightarrow> exn) \<Rightarrow> string \<Rightarrow> nat \<times> graph_object \<Rightarrow> graph_object res" where
  "localized_object err target item =
     (let (i, x) = item; path = index_path ''$.implementation.objects'' i in
     bindE (local_key err (JStr (gx_key x)) target path) (\<lambda>key.
     bindE (local_target err (gx_intended x) target (path @ ''.intended'')) (\<lambda>intended.
       Inr (x\<lparr>gx_key := key,
         gx_intended := with_defaults (gx_family x) (case gx_new_name x of None \<Rightarrow> gx_name x | Some n \<Rightarrow> n) intended,
         gx_pre_change := with_defaults (gx_family x) (gx_name x) (gx_pre_change x)\<rparr>))))"

definition localize_operations :: "(string \<Rightarrow> exn) \<Rightarrow> graph_object list \<Rightarrow> string \<Rightarrow> (string \<times> graph_object) list res" where
  "localize_operations err xs target =
     bindE (mapE (localized_object err target) (filter (\<lambda>(i, x). gx_target x = target) (enumerate 0 xs))) (\<lambda>ys.
       Inr (index_by gx_id ys))"

section \<open>Dispositions\<close>

definition effective_target :: "graph_object \<Rightarrow> string \<Rightarrow> dict res" where
  "effective_target x path = (case (gx_intended x, gx_pre_change x) of
     (Some (JObj (e # d)), _) \<Rightarrow> Inr (e # d)
   | (_, Some (JObj (e # d))) \<Rightarrow> if gx_action x \<in> {Reuse, Untouched, Pause} then Inr (e # d)
       else Inl (run_error (path @ '' requires an exact intended or pre_change target snapshot for binding''))
   | _ \<Rightarrow> Inl (run_error (path @ '' requires an exact intended or pre_change target snapshot for binding'')))"

definition allowed_tag_actions :: "(string \<times> action list) list" where
  "allowed_tag_actions = [(''added'', [Create]), (''keep'', [Reuse, Untouched]), (''update'', [Update, Rename, Unpause]),
     (''remap'', [Update, Rename]), (''pause'', [Pause]), (''remove'', [Remove]), (''replace'', [Replace]),
     (''supersede'', [Pause, Reuse, Untouched])]"

text \<open>What is kept of an accepted row.\<close>

record inventory_entry =
  ie_row :: string
  ie_order :: int
  ie_disposition :: string
  ie_tag :: graph_object
  ie_name :: "json option"

definition before_keys :: "inventory_entry list \<Rightarrow> string list" where
  "before_keys es = map (\<lambda>e. gx_key (ie_tag e)) (filter (\<lambda>e. ie_disposition e \<noteq> ''added'') es)"

definition row_order :: "json \<Rightarrow> string \<Rightarrow> int res" where
  "row_order v path = (case v of JInt n \<Rightarrow> if 0 \<le> n then Inr n
       else Inl (run_error (path @ ''.source_order must be a non-negative integer''))
   | _ \<Rightarrow> Inl (run_error (path @ ''.source_order must be a non-negative integer'')))"

definition linked_tag :: "(string \<times> graph_object) list \<Rightarrow> dict \<Rightarrow> string \<Rightarrow> graph_object res" where
  "linked_tag ops item path =
     bindE (check_unique_texts run_error (get_or_null item ''operation_ids'') (path @ ''.operation_ids'')) (\<lambda>ids.
     bindE (failE (\<not> set ids \<subseteq> set (keys ops)) (run_error (path @ ''.operation_ids contains unknown IDs''))) (\<lambda>_.
     (case filter (\<lambda>x. gx_family x = ''tag'') (List.map_filter (map_of ops) ids) of
        [x] \<Rightarrow> Inr x
      | _ \<Rightarrow> Inl (run_error (path @ ''.operation_ids must link exactly one tag operation'')))))"

text \<open>The name the tag has afterwards, unless it goes.\<close>

definition after_name :: "inventory_entry list \<Rightarrow> string \<Rightarrow> graph_object \<Rightarrow> string \<Rightarrow> json option res" where
  "after_name es disposition x path =
     (if disposition = ''remove'' then Inr None
      else bindE (effective_target x path) (\<lambda>d. (let name = get_or_null d ''name'' in
        if unhashable name then Inl (OtherError ''unhashable type'')
        else if list_ex (\<lambda>e. case ie_name e of None \<Rightarrow> False | Some n \<Rightarrow> py_eq n name) es
        then Inl (run_error (''duplicate inventory target tag name '' @ py_repr_json name))
        else Inr (Some name))))"

definition source_tag_check :: "inventory_entry list \<Rightarrow> string \<Rightarrow> graph_object \<Rightarrow> string \<Rightarrow> unit res" where
  "source_tag_check es disposition x path = whenE (disposition \<noteq> ''added'')
     (bindE (failE (gx_key x \<in> set (before_keys es)) (run_error (''duplicate inventory source tag '' @ py_repr (gx_key x)))) (\<lambda>_.
      bindE (check_object run_error (case gx_pre_change x of None \<Rightarrow> JNull | Some v \<Rightarrow> v) (path @ ''.tag_operation.pre_change''))
        (\<lambda>_. Inr ())))"

definition disposition_step ::
  "(string \<times> graph_object) list \<Rightarrow> inventory_entry list \<Rightarrow> nat \<times> json \<Rightarrow> inventory_entry list res" where
  "disposition_step ops es row =
     (let path = index_path ''$.inventory_dispositions'' (fst row) in
     bindE (check_object run_error (snd row) path) (\<lambda>item.
     bindE (check_text run_error (get_or_null item ''row_id'') (path @ ''.row_id'')) (\<lambda>row_id.
     bindE (failE (row_id \<in> set (map ie_row es)) (run_error (''duplicate inventory row_id '' @ py_repr row_id))) (\<lambda>_.
     bindE (row_order (get_or_null item ''source_order'') path) (\<lambda>order.
     bindE (failE (order \<in> set (map ie_order es)) (run_error (''duplicate inventory source_order '' @ show_int order))) (\<lambda>_.
     bindE (check_text run_error (get_or_null item ''source_locator'') (path @ ''.source_locator'')) (\<lambda>_.
     bindE (check_text run_error (get_or_null item ''disposition'') (path @ ''.disposition'')) (\<lambda>disposition.
     bindE (case map_of allowed_tag_actions disposition of Some as \<Rightarrow> Inr as
       | None \<Rightarrow> Inl (run_error (path @ ''.disposition has unsupported value '' @ py_repr disposition))) (\<lambda>allowed.
     bindE (check_text run_error (get_or_null item ''rationale'') (path @ ''.rationale'')) (\<lambda>_.
     bindE (linked_tag ops item path) (\<lambda>x.
     bindE (failE (gx_id x \<in> set (map (\<lambda>e. gx_id (ie_tag e)) es)) (run_error (''tag operation '' @ py_repr (gx_id x) @
       '' is linked by multiple inventory rows''))) (\<lambda>_.
     bindE (failE (gx_action x \<notin> set allowed) (run_error (path @ ''.'' @ disposition @
       '' is incompatible with tag action '' @ py_repr (action_name (gx_action x))))) (\<lambda>_.
     bindE (required_field item ''target_id'') (\<lambda>target.
     bindE (failE (target \<noteq> JStr (gx_target x)) (run_error (path @ ''.target_id must select the linked tag target''))) (\<lambda>_.
     bindE (source_tag_check es disposition x path) (\<lambda>_.
     bindE (after_name es disposition x path) (\<lambda>name.
       Inr (es @ [\<lparr>ie_row = row_id, ie_order = order, ie_disposition = disposition, ie_tag = x, ie_name = name\<rparr>]))))))))))))))))))"

definition tag_ids :: "(string \<times> graph_object) list \<Rightarrow> string list" where
  "tag_ids ops = map fst (filter (\<lambda>(k, x). gx_family x = ''tag'') ops)"

definition orders_of :: "bool \<Rightarrow> inventory_entry list \<Rightarrow> int list" where
  "orders_of added es = map ie_order (filter (\<lambda>e. (ie_disposition e = ''added'') = added) es)"

definition differing :: "string \<Rightarrow> string list \<Rightarrow> string list \<Rightarrow> exn" where
  "differing message expected given = run_error (message @ ''missing='' @
     py_repr_json (texts (sorted_set (filter (\<lambda>k. k \<notin> set given) expected))) @ '', extra='' @
     py_repr_json (texts (sorted_set (filter (\<lambda>k. k \<notin> set expected) given))))"

text \<open>What a refonte asks of all rows together.\<close>

definition refonte_checks :: "(string \<times> graph_object) list \<Rightarrow> string list \<Rightarrow> inventory_entry list \<Rightarrow> unit res" where
  "refonte_checks ops in_scope es = seqE
     [failE (set (before_keys es) \<noteq> set in_scope)
        (differing ''refonte inventory dispositions must cover every in-scope baseline tag exactly; '' in_scope (before_keys es)),
      failE (set (tag_ids ops) \<noteq> set (map (\<lambda>e. gx_id (ie_tag e)) es))
        (differing ''refonte inventory rows must cover every tag operation exactly; '' (tag_ids ops) (map (\<lambda>e. gx_id (ie_tag e)) es)),
      failE (orders_of False es \<noteq> [] \<and> orders_of True es \<noteq> [] \<and>
          Min (set (orders_of True es)) \<le> Max (set (orders_of False es)))
        (run_error ''refonte added inventory rows must follow all source rows'')]"

definition validate_inventory_dispositions ::
  "execution_mode \<Rightarrow> string list \<Rightarrow> (string \<times> graph_object) list \<Rightarrow> json list \<Rightarrow> inventory_entry list res" where
  "validate_inventory_dispositions mode in_scope ops rows =
     bindE (foldE (disposition_step ops) [] (enumerate 0 rows)) (\<lambda>es.
     bindE (whenE (mode = RefonteDurable) (refonte_checks ops in_scope es)) (\<lambda>_. Inr es))"

section \<open>The inventory of one target\<close>

definition local_row :: "(string \<times> graph_object) list \<Rightarrow> json \<Rightarrow> json option res" where
  "local_row ops row = (case row of
     JObj d \<Rightarrow> bindE (required_field d ''operation_ids'') (\<lambda>ids.
       (let here = filter (\<lambda>v. case v of JStr k \<Rightarrow> k \<in> set (keys ops) | _ \<Rightarrow> False) (list_of ids) in
        Inr (if here = [] then None
          else Some (JObj (dset (dpop d ''operation_keys'') ''operation_ids'' (JArr here))))))
   | _ \<Rightarrow> Inr None)"

definition local_scope ::
  "(string \<Rightarrow> exn) \<Rightarrow> (string \<times> string list) list option \<Rightarrow> (string \<times> graph_object) list \<Rightarrow> string \<Rightarrow> string list res" where
  "local_scope err in_scope ops target = (case in_scope of
     Some tags \<Rightarrow> mapE (\<lambda>k. local_key err (JStr k) target ''$.container_baselines[].resource_identities.tag'')
       (case map_of tags target of None \<Rightarrow> [] | Some ks \<Rightarrow> ks)
   | None \<Rightarrow> Inr (map (\<lambda>(k, x). gx_key x) (filter (\<lambda>(k, x). gx_family x = ''tag'' \<and> gx_action x \<noteq> Create) ops)))"

definition validate_target_inventory ::
  "(string \<Rightarrow> exn) \<Rightarrow> execution_mode \<Rightarrow> (string \<times> string list) list option \<Rightarrow> (string \<times> graph_object) list \<Rightarrow>
   json list \<Rightarrow> string \<Rightarrow> unit res" where
  "validate_target_inventory err mode in_scope ops rows target =
     bindE (mapE (local_row ops) rows) (\<lambda>local_rows.
     bindE (local_scope err in_scope ops target) (\<lambda>scope.
     (case validate_inventory_dispositions mode scope ops (List.map_filter (\<lambda>r. r) local_rows) of
        Inr _ \<Rightarrow> Inr ()
      | Inl e \<Rightarrow> Inl (if is_run_validation_error e then err (exn_message e) else e))))"

section \<open>What accepted rows are\<close>

definition entry_allowed :: "(string \<times> graph_object) list \<Rightarrow> inventory_entry \<Rightarrow> bool" where
  "entry_allowed ops e \<longleftrightarrow> ie_tag e \<in> snd ` set ops \<and> gx_family (ie_tag e) = ''tag'' \<and>
     (\<exists>as. map_of allowed_tag_actions (ie_disposition e) = Some as \<and> gx_action (ie_tag e) \<in> set as)"

definition rows_accepted :: "(string \<times> graph_object) list \<Rightarrow> inventory_entry list \<Rightarrow> bool" where
  "rows_accepted ops es \<longleftrightarrow> distinct (map ie_row es) \<and> distinct (map ie_order es) \<and>
     distinct (map (\<lambda>e. gx_id (ie_tag e)) es) \<and> distinct (before_keys es) \<and> list_all (entry_allowed ops) es"

lemma linked_tag_Inr:
  assumes "linked_tag ops item path = Inr x"
  shows "x \<in> snd ` set ops" and "gx_family x = ''tag''"
proof -
  obtain ids where "(case filter (\<lambda>x. gx_family x = ''tag'') (List.map_filter (map_of ops) ids) of
      [x] \<Rightarrow> Inr x
    | _ \<Rightarrow> Inl (run_error (path @ ''.operation_ids must link exactly one tag operation''))) = Inr x"
    using assms unfolding linked_tag_def bindE_Inr_iff by blast
  then have "filter (\<lambda>x. gx_family x = ''tag'') (List.map_filter (map_of ops) ids) = [x]"
    by (simp split: list.split_asm)
  then have "x \<in> set (filter (\<lambda>x. gx_family x = ''tag'') (List.map_filter (map_of ops) ids))" by simp
  then obtain k where "map_of ops k = Some x" and "gx_family x = ''tag''"
    by (auto simp: List.map_filter_def)
  then show "x \<in> snd ` set ops" "gx_family x = ''tag''" by (force dest: map_of_SomeD)+
qed

lemma disposition_step_Inr:
  assumes "disposition_step ops es row = Inr es'"
  obtains e where "es' = es @ [e]" and "ie_row e \<notin> set (map ie_row es)" and "ie_order e \<notin> set (map ie_order es)"
    and "gx_id (ie_tag e) \<notin> set (map (\<lambda>e. gx_id (ie_tag e)) es)" and "entry_allowed ops e"
    and "ie_disposition e \<noteq> ''added'' \<longrightarrow> gx_key (ie_tag e) \<notin> set (before_keys es)"
proof -
  define path where "path = index_path ''$.inventory_dispositions'' (fst row)"
  obtain item row_id order disposition as x name where
    fresh: "row_id \<notin> set (map ie_row es)" "order \<notin> set (map ie_order es)"
      "gx_id x \<notin> set (map (\<lambda>e. gx_id (ie_tag e)) es)"
    and allowed: "(case map_of allowed_tag_actions disposition of Some as \<Rightarrow> Inr as
       | None \<Rightarrow> Inl (run_error (path @ ''.disposition has unsupported value '' @ py_repr disposition))) = Inr as"
      "gx_action x \<in> set as"
    and x: "linked_tag ops item path = Inr x" and source: "source_tag_check es disposition x path = Inr ()"
    and es': "es' = es @ [\<lparr>ie_row = row_id, ie_order = order, ie_disposition = disposition, ie_tag = x, ie_name = name\<rparr>]"
    using assms unfolding disposition_step_def Let_def bindE_Inr_iff failE_ok_iff path_def [symmetric] by fastforce
  show thesis
  proof (rule that [OF es'])
    have "map_of allowed_tag_actions disposition = Some as" using allowed(1) by (simp split: option.split_asm)
    then show "entry_allowed ops \<lparr>ie_row = row_id, ie_order = order, ie_disposition = disposition, ie_tag = x, ie_name = name\<rparr>"
      using linked_tag_Inr [OF x] allowed(2) by (simp add: entry_allowed_def)
  qed (use fresh source in \<open>auto simp: source_tag_check_def bindE_Inr_iff\<close>)
qed

lemma disposition_step_accepted:
  assumes "disposition_step ops es row = Inr es'" and "rows_accepted ops es"
  shows "rows_accepted ops es'"
proof -
  from assms(1) obtain e where "es' = es @ [e]" "ie_row e \<notin> set (map ie_row es)" "ie_order e \<notin> set (map ie_order es)"
    "gx_id (ie_tag e) \<notin> set (map (\<lambda>e. gx_id (ie_tag e)) es)" "entry_allowed ops e"
    "ie_disposition e \<noteq> ''added'' \<longrightarrow> gx_key (ie_tag e) \<notin> set (before_keys es)" by (rule disposition_step_Inr)
  then show ?thesis using assms(2) by (auto simp: rows_accepted_def before_keys_def)
qed

lemma disposition_steps_length:
  "foldE (disposition_step ops) es rows = Inr es' \<Longrightarrow> length es' = length es + length rows"
  by (induction rows arbitrary: es) (auto simp: bindE_Inr_iff elim!: disposition_step_Inr)

lemma validate_inventory_facts:
  assumes "validate_inventory_dispositions mode in_scope ops rows = Inr es"
  shows "rows_accepted ops es" and "length es = length rows"
    and "mode = RefonteDurable \<Longrightarrow> refonte_checks ops in_scope es = Inr ()"
proof -
  have fold: "foldE (disposition_step ops) [] (enumerate 0 rows) = Inr es"
    and "mode = RefonteDurable \<Longrightarrow> refonte_checks ops in_scope es = Inr ()"
    using assms by (auto simp: validate_inventory_dispositions_def bindE_Inr_iff)
  then show "mode = RefonteDurable \<Longrightarrow> refonte_checks ops in_scope es = Inr ()" by simp
  show "rows_accepted ops es"
    using fold by (rule foldE_invariant) (simp_all add: rows_accepted_def [of _ "[]"] before_keys_def disposition_step_accepted)
  show "length es = length rows" using disposition_steps_length [OF fold] by simp
qed

text \<open>New tags come after all others.\<close>

lemma refonte_order:
  assumes "refonte_checks ops in_scope es = Inr ()" and "e \<in> set es" and "e' \<in> set es"
    and "ie_disposition e \<noteq> ''added''" and "ie_disposition e' = ''added''"
  shows "ie_order e < ie_order e'"
proof -
  have mem: "ie_order e \<in> set (orders_of False es)" "ie_order e' \<in> set (orders_of True es)"
    using assms(2-5) by (auto simp: orders_of_def)
  then have "\<not> Min (set (orders_of True es)) \<le> Max (set (orders_of False es))"
    using assms(1) unfolding refonte_checks_def seqE_ok_iff by auto
  moreover have "Min (set (orders_of True es)) \<le> ie_order e'" "ie_order e \<le> Max (set (orders_of False es))"
    using mem by auto
  ultimately show ?thesis by simp
qed

end
