(* ===== verification/PreparationProperties.thy ===== *)
theory PreparationProperties
  imports Reuse TemplateBindings WebInventory Samples
begin

text \<open>
  What is guaranteed of a request that is filled from an inventory, of custom consumers and their
  installed templates, and of the inventory of a refonte.
\<close>

section \<open>Reuse\<close>

definition reuse_candidates :: "dict \<Rightarrow> json list" where
  "reuse_candidates request = list_of (get_or_null request ''reuse_candidates'')"

text \<open>A candidate stays as it is, or gains the body that was captured for it and nothing else.\<close>

definition candidate_filled :: "host \<Rightarrow> dict \<Rightarrow> dict \<Rightarrow> json \<Rightarrow> json \<Rightarrow> bool" where
  "candidate_filled h request inventory row row' \<longleftrightarrow>
     (if has_key (dict_of row) ''intended'' then row' = row
      else \<exists>body. row' = JObj (dict_of row @ [(''intended'', JObj body)]) \<and> body_captured h request inventory row body)"

lemma filled_has_intended: "candidate_filled h request inventory row row' \<Longrightarrow> has_key (dict_of row') ''intended''"
  by (auto simp: candidate_filled_def has_key_def dget_def dict_of_def map_add_def split: if_splits option.splits)

lemma fill_candidate_again:
  "has_key (dict_of row) ''intended'' \<Longrightarrow> fill_candidate h targets records row = Inr row"
  by (simp add: fill_candidate_def Let_def)

lemma dset_same: "dget d k = Some v \<Longrightarrow> dset d k v = d"
  by (induction d) (auto simp: dget_def dset_def)

text \<open>
  C28. Filling a request changes nothing but the candidates without a body, and each of them only
  by the body: the normal form, without its names, of the one object of the family and name that
  an exhausted listing of a target of the same identity holds. Filling again changes nothing.
\<close>

theorem reuse_fills_only_intended:
  assumes "fill_reuse_candidates h request inventory = Inr result"
  shows "(\<forall>k. k \<noteq> ''reuse_candidates'' \<longrightarrow> dget result k = dget request k) \<and>
    list_all2 (candidate_filled h request inventory) (reuse_candidates request) (reuse_candidates result) \<and>
    fill_reuse_candidates h result inventory = Inr result"
proof -
  from assms obtain records targets
    where rows: "rows_by_target (list_of (get_or_null inventory ''targets'')) = Inr records"
      "inventory_records inventory = Inr records" "dget request ''targets'' \<noteq> None"
      "rows_by_target (list_of (get_or_null request ''targets'')) = Inr targets"
    and result: "case dget request ''reuse_candidates'' of None \<Rightarrow> result = request
      | Some candidates \<Rightarrow> \<exists>filled. list_all2 (\<lambda>c c'. fill_candidate h targets records c = Inr c') (list_of candidates) filled \<and>
          result = dset request ''reuse_candidates'' (JArr filled)"
    by (rule fill_reuse_candidates_Inr)
  show ?thesis
  proof (cases "dget request ''reuse_candidates''")
    case None
    then show ?thesis using result assms by (simp add: reuse_candidates_def get_or_null_def list_of_def)
  next
    case (Some candidates)
    then obtain filled where step: "list_all2 (\<lambda>c c'. fill_candidate h targets records c = Inr c') (list_of candidates) filled"
      and r: "result = dset request ''reuse_candidates'' (JArr filled)" using result by auto
    have all: "list_all2 (candidate_filled h request inventory) (list_of candidates) filled"
      using step by (rule list_all2_mono) (simp add: candidate_filled_def fill_candidate_Inr [OF _ rows(4) rows(1)])
    have "has_key (dict_of c) ''intended''" if "c \<in> set filled" for c
      using all that by (auto simp: list_all2_conv_all_nth in_set_conv_nth dest: filled_has_intended)
    then have again: "mapE (fill_candidate h targets records) filled = Inr filled"
      by (auto simp: mapE_Inr_iff list_all2_conv_all_nth intro!: fill_candidate_again)
    have "dget result ''targets'' = dget request ''targets''" by (simp add: r dget_dset)
    then have "fill_reuse_candidates h result inventory = Inr result"
      using rows(2-4) again dset_same [of result "''reuse_candidates''" "JArr filled"]
      by (auto simp: fill_reuse_candidates_def required_field_def get_or_null_def r dget_dset list_of_def)
    then show ?thesis using all Some
      by (auto simp: r dget_dset reuse_candidates_def get_or_null_def list_of_def)
  qed
qed

definition sample_row :: "(string \<times> json) list \<Rightarrow> json" where
  "sample_row extra = JObj ([(''target_id'', JStr ''T''), (''account_id'', JStr ''1''), (''container_id'', JStr ''2''),
     (''workspace_id'', JStr ''3''), (''container_type'', JStr ''web'')] @ extra)"

definition sample_request :: dict where
  "sample_request = [(''targets'', JArr [sample_row []]), (''reuse_candidates'', JArr [JObj
     [(''resource_family'', JStr ''folder''), (''name'', JStr ''F'')]])]"

definition sample_inventory :: dict where
  "sample_inventory = [(''schema_version'', JStr inventory_version), (''purpose'', JStr ''preparation-only''),
     (''targets'', JArr [sample_row [(''pagination'', JObj [(''folder'', JObj [(''exhausted'', JBool True), (''pages_read'', JInt 1)])]),
       (''objects'', JArr [JObj [(''target_id'', JStr ''T''), (''object_type'', JStr ''folder''), (''name'', JStr ''F''),
         (''folderId'', JStr ''7''), (''notes'', JStr ''n'')]])]])]"

definition sample_filled :: dict where
  "sample_filled = [(''targets'', JArr [sample_row []]), (''reuse_candidates'', JArr [JObj
     [(''resource_family'', JStr ''folder''), (''name'', JStr ''F''), (''intended'', JObj [(''notes'', JStr ''n'')])]])]"

lemma reuse_fills_only_intended_witness:
  "fill_reuse_candidates run_host sample_request sample_inventory = Inr sample_filled \<and>
   fill_reuse_candidates run_host sample_filled sample_inventory = Inr sample_filled"
proof -
  have "fill_reuse_candidates run_host sample_request sample_inventory = Inr sample_filled" by code_simp
  then show ?thesis using reuse_fills_only_intended by blast
qed

section \<open>Custom templates\<close>

text \<open>
  C27. Every custom tag, variable or client that is configured is bound: exactly one installed
  template it depends on is inspected to own its native type, and that template declares every
  parameter the consumer sets, with its native shape.
\<close>

theorem custom_consumers_are_bound:
  assumes "validate_template_bindings h err persisted xs = Inr ()" and "x \<in> set xs"
    and "effective_native x = Inr native" and "custom_type x native = Some native_type"
    and "gx_action x \<notin> {Reuse, Untouched}"
  shows "template_bound h persisted xs x native native_type"
  by (rule validate_template_bindings_bound [OF assms])

definition plain_object :: "string \<Rightarrow> string \<Rightarrow> action \<Rightarrow> string list \<Rightarrow> json \<Rightarrow> graph_object" where
  "plain_object k family a dependencies native = \<lparr>gx_id = k, gx_target = ''T'', gx_family = family, gx_name = k,
     gx_key = family @ ''::'' @ k, gx_action = a, gx_requirements = [''R''], gx_dependencies = dependencies,
     gx_risk = ''routine'', gx_intended = Some native, gx_pre_change = Some native, gx_object_id = None,
     gx_new_name = None, gx_assertions = None\<rparr>"

definition installed_template :: graph_object where
  "installed_template = plain_object ''V'' ''template'' Update [] (JObj [(''templateData'', JObj
     [(''source_integrity'', JObj [(''sha256'', JStr ''f'')]), (''source_inspection'', JObj
       [(''native_type'', JStr ''cvt_1''), (''parameter_types'', JObj [(''k'', JStr ''template'')])])])])"

definition custom_native :: dict where
  "custom_native = [(''type'', JStr ''cvt_1''), (''parameter'', JArr [JObj [(''key'', JStr ''k''), (''type'', JStr ''TEMPLATE'')]])]"

definition custom_tag :: graph_object where
  "custom_tag = plain_object ''G'' ''tag'' Create [''V''] (JObj custom_native)"

lemma custom_consumers_are_bound_witness:
  "template_bound run_host True [installed_template, custom_tag] custom_tag custom_native ''cvt_1''"
proof -
  have accepted: "validate_template_bindings run_host run_error True [installed_template, custom_tag] = Inr ()"
    and native: "effective_native custom_tag = Inr custom_native" "custom_type custom_tag custom_native = Some ''cvt_1''"
    by code_simp+
  have "custom_tag \<in> set [installed_template, custom_tag]" and "gx_action custom_tag \<notin> {Reuse, Untouched}"
    by simp (simp add: custom_tag_def plain_object_def)
  from custom_consumers_are_bound [OF accepted this(1) native this(2)] show ?thesis .
qed

section \<open>The inventory of a refonte\<close>

text \<open>
  C26. An accepted refonte inventory disposes of every tag once: its rows and the tag operations
  correspond one to one, the rows that are not added name exactly the tags of the scope, each
  once, every disposition allows the action of its tag, and added rows come after all others.
\<close>

theorem refonte_covers_every_tag:
  assumes "validate_inventory_dispositions RefonteDurable in_scope ops rows = Inr es"
  shows "length es = length rows \<and> distinct (map (\<lambda>e. gx_id (ie_tag e)) es) \<and>
    set (map (\<lambda>e. gx_id (ie_tag e)) es) = set (tag_ids ops) \<and>
    distinct (before_keys es) \<and> set (before_keys es) = set in_scope \<and> list_all (entry_allowed ops) es \<and>
    (\<forall>e \<in> set es. \<forall>e' \<in> set es. ie_disposition e \<noteq> ''added'' \<longrightarrow> ie_disposition e' = ''added'' \<longrightarrow> ie_order e < ie_order e')"
proof -
  note facts = validate_inventory_facts [OF assms]
  have checks: "refonte_checks ops in_scope es = Inr ()" by (rule facts(3)) simp
  then have "set (map (\<lambda>e. gx_id (ie_tag e)) es) = set (tag_ids ops)" "set (before_keys es) = set in_scope"
    unfolding refonte_checks_def seqE_ok_iff by auto
  then show ?thesis using facts(1,2) refonte_order [OF checks] by (auto simp: rows_accepted_def)
qed

definition refonte_row :: "string \<Rightarrow> int \<Rightarrow> string \<Rightarrow> json" where
  "refonte_row k n disposition = JObj [(''row_id'', JStr k), (''source_order'', JInt n), (''source_locator'', JStr ''doc''),
     (''disposition'', JStr disposition), (''rationale'', JStr ''r''), (''operation_ids'', JArr [JStr k]),
     (''target_id'', JStr ''T'')]"

definition refonte_tags :: "(string \<times> graph_object) list" where
  "refonte_tags = [(''A'', plain_object ''A'' ''tag'' Update [] (JObj [(''name'', JStr ''A'')])),
     (''B'', plain_object ''B'' ''tag'' Create [] (JObj [(''name'', JStr ''B'')]))]"

lemma refonte_covers_every_tag_witness:
  "\<exists>es. validate_inventory_dispositions RefonteDurable [''tag::A''] refonte_tags
      [refonte_row ''A'' 0 ''update'', refonte_row ''B'' 1 ''added''] = Inr es \<and>
    length es = 2 \<and> before_keys es = [''tag::A'']"
proof -
  let ?v = "validate_inventory_dispositions RefonteDurable [''tag::A''] refonte_tags
      [refonte_row ''A'' 0 ''update'', refonte_row ''B'' 1 ''added'']"
  have "map_sum (\<lambda>_. ()) before_keys ?v = Inr [''tag::A'']" by code_simp
  then obtain es where "?v = Inr es" "before_keys es = [''tag::A'']" by (cases ?v) auto
  then show ?thesis using refonte_covers_every_tag by fastforce
qed

end
