(* ===== verification/Spec2Isabelle.thy ===== *)
theory Spec2Isabelle
  imports DataProperties RuntimeProperties ExecutionProperties RecordProperties DocumentProperties
    ContractProperties FileProperties ServerProperties PreparationProperties
begin

text \<open>
  Verification development of gtm-configure, the runtime that applies an approved configuration
  contract to Google Tag Manager containers. All paths are below
  \<^verbatim>\<open>src/scripts/gtm_configure/\<close>.

  \<^bold>\<open>The program.\<close> A contract lists requirements, targets and the objects to create, update or
  remove. A run document materialises it: one operation per object, with a state (planned, in
  progress, saved, verified, failed, uncertain, skipped) and a journal. The engine
  (\<^verbatim>\<open>runtime/engine.py\<close>) loads the document, captures a baseline of every target
  through its adapter, and executes the operations that are ready, one at a time: read the target,
  compare with the approved snapshot, save the in-progress checkpoint, write, read back, compare,
  save the verdict. A second pass reads everything again and decides whether the run converged;
  finalisation then declares it configured. Everything that is written to disk is redacted first.

  \<^bold>\<open>The theories\<close>, in dependency order.
  \<^item> \<^verbatim>\<open>Prelude\<close>: exceptions and the error type, JSON values with Python's
    dictionary operations and equality, strings. \<^verbatim>\<open>StateExn\<close>: programs over a
    state that may raise, with their weakest precondition calculus.
  \<^item> \<^verbatim>\<open>JsonValues\<close> (\<^verbatim>\<open>comparison/json_values.py\<close>),
    \<^verbatim>\<open>Native\<close> (\<^verbatim>\<open>comparison/native.py\<close>): differences of JSON values
    and of native object graphs.
  \<^item> \<^verbatim>\<open>Model\<close>, \<^verbatim>\<open>RunJson\<close>: the vocabularies of
    \<^verbatim>\<open>core/model.py\<close>, the records of the run document and their JSON form.
  \<^item> \<^verbatim>\<open>TemplateSource\<close>, \<^verbatim>\<open>PublicIdentifiers\<close>: the modules of
    \<^verbatim>\<open>core/\<close> of these names. \<^verbatim>\<open>Redaction\<close>,
    \<^verbatim>\<open>Persistence\<close>: the markers and the redacting walk of
    \<^verbatim>\<open>core/privacy.py\<close>, without its detectors, and what may be persisted.
  \<^item> \<^verbatim>\<open>Graph\<close>, \<^verbatim>\<open>NativeFields\<close>,
    \<^verbatim>\<open>Resources\<close>, \<^verbatim>\<open>Actions\<close>: the parts of
    \<^verbatim>\<open>domain/\<close> the runtime rests on.
  \<^item> \<^verbatim>\<open>Verification\<close>, \<^verbatim>\<open>Readiness\<close>,
    \<^verbatim>\<open>RunValidation\<close>, \<^verbatim>\<open>AdapterProtocol\<close>: the modules of
    \<^verbatim>\<open>runtime/\<close> of these names.
  \<^item> \<^verbatim>\<open>State\<close>, \<^verbatim>\<open>StateMachine\<close>,
    \<^verbatim>\<open>Baselines\<close>, \<^verbatim>\<open>Convergence\<close>, \<^verbatim>\<open>Lifecycle\<close>
    (\<^verbatim>\<open>runtime/state.py\<close>): checkpoints, their abstract outcome and step relation,
    baselines, observations, reopening and finalisation, and how an operation may move under all
    of them.
  \<^item> \<^verbatim>\<open>Adapters\<close>, \<^verbatim>\<open>Engine\<close>,
    \<^verbatim>\<open>Execution\<close>, \<^verbatim>\<open>Rerun\<close>
    (\<^verbatim>\<open>runtime/engine.py\<close>): identities and bindings, the execution loop, the proof
    of its invariants, and the second pass.
  \<^item> \<^verbatim>\<open>Requirements\<close>, \<^verbatim>\<open>Conformance\<close>: the approved scope of a
    contract (\<^verbatim>\<open>domain/requirements.py\<close>, \<^verbatim>\<open>domain/targets.py\<close>)
    and the comparison of two contracts.
  \<^item> \<^verbatim>\<open>ContractModel\<close>, \<^verbatim>\<open>ContractObjects\<close>,
    \<^verbatim>\<open>PayloadMappings\<close>, \<^verbatim>\<open>Contract\<close>
    (\<^verbatim>\<open>contract.py\<close>, \<^verbatim>\<open>domain/fields.py\<close>): the contract, its
    objects with their authority, evidence and mappings, and its validation.
    \<^verbatim>\<open>Creation\<close> and \<^verbatim>\<open>Revision\<close> are
    \<^verbatim>\<open>create_from_contract\<close> and \<^verbatim>\<open>revise_from_contract\<close> of
    \<^verbatim>\<open>runtime/state.py\<close>.
  \<^item> \<^verbatim>\<open>GraphContext\<close>, \<^verbatim>\<open>ServerRules\<close>,
    \<^verbatim>\<open>TemplateBindings\<close>, \<^verbatim>\<open>WebInventory\<close>: the graph a contract
    and a run become for the domain rules (\<^verbatim>\<open>domain/context.py\<close>), and the rules of
    server containers, of custom templates and of refonte inventories.
    \<^verbatim>\<open>Reuse\<close> (\<^verbatim>\<open>comparison/inventory.py\<close>) fills a request.
  \<^item> \<^verbatim>\<open>JsonFiles\<close>, \<^verbatim>\<open>JsonRoundtrip\<close>
    (\<^verbatim>\<open>core/json_io.py\<close>): the strict JSON reader, the text of an artifact and its
    atomic replacement; reading what was written.
  \<^item> \<^verbatim>\<open>Samples\<close>, \<^verbatim>\<open>SampleRun\<close>,
    \<^verbatim>\<open>SampleContract\<close>: a concrete run and contract for the witnesses.

  \<^bold>\<open>The properties\<close> stand in the theories named \<^verbatim>\<open>Properties\<close>.
  \<^item> \<^verbatim>\<open>Execution\<close>, \<^verbatim>\<open>Record\<close>, \<^verbatim>\<open>Runtime\<close>: writes are
    announced, bounded and settled; a checkpoint refines the abstract outcome of its operation and
    keeps what was approved; passes make progress and end; the second pass and finalisation decide
    convergence.
  \<^item> \<^verbatim>\<open>Document\<close>, \<^verbatim>\<open>Contract\<close>, \<^verbatim>\<open>Server\<close>: what an
    accepted run, contract and server container satisfy, and what creation and revision keep.
  \<^item> \<^verbatim>\<open>Data\<close>, \<^verbatim>\<open>File\<close>, \<^verbatim>\<open>Preparation\<close>: comparisons
    decide equality of normal forms, persistence hides findings, written artifacts are read back,
    requests are filled from complete inventories.

  \<^bold>\<open>Parameters.\<close> Code outside the repository, and the code of the repository named below
  as not modelled, is a field of the record \<open>host\<close> (digest, JSON reader, timestamps, the schema
  validator; the detectors and the text scrubbing of \<^verbatim>\<open>core/privacy.py\<close>; domain rules), of
  \<open>contract_rules\<close> (today, dates, URL hosts) or of \<open>patterns\<close> (regular expressions), or
  an argument of the engine (\<open>runtime\<close>: adapters, clock, sleep, file). An adapter is any
  function of the state of the world that may raise any exception; no property assumes more.
  The annotations of the schemas that a revision reads are the argument \<open>schema_view\<close>.

  \<^bold>\<open>Fuel.\<close> The topological order takes one unit per node, the execution loop one pass per
  operation and a last one, the JSON reader two units per character and one; the order is shown to
  be complete in \<^verbatim>\<open>DataProperties\<close>, and \<open>run_ends_at_rest\<close> and \<open>strict_reader_is_total\<close>
  show that theirs is enough. Every other recursion is structural or has a measure.

  \<^bold>\<open>Not modelled.\<close> The rules of pipelines and web containers
  (\<^verbatim>\<open>domain/pipeline.py\<close>, \<^verbatim>\<open>domain/web.py\<close> and the modules they call:
  consent, deduplication, execution topologies, first-party data, page views, shared settings) are
  the parameter \<open>h_domain\<close>, of which \<open>with_server_rules\<close> fixes the server part; the
  runtime calls them only through \<^verbatim>\<open>validate_document\<close>. The regular expressions of the
  privacy detectors and their scan are the parameter \<open>h_findings\<close>; the one law used of them, in
  \<open>inventory_exemptions_miss\<close>, is that they ask for an exemption only at a path of the value they
  scan (\<open>exemptions_by_path\<close>). Rendering, intake, transport, host
  processes, argument parsing and the JSON schema library are text and I/O around the core.
\<close>

end
